(* ===== verification/Prelude.thy ===== *)
theory Prelude
  imports Complex_Main "HOL-Library.AList" "HOL-Library.Sublist" "HOL-Library.Multiset"
    "HOL-Library.List_Lexorder" "HOL-Library.Product_Lexorder"
begin

section \<open>Prelude: the fragment of Python the components share\<close>

text \<open>
  This theory models what the sources use of the language and of its standard library, once
  for all components:
  \<^item> \<open>pystr\<close>: a Python \<open>str\<close> is its list of code points, so that \<open>length\<close> is \<open>len\<close> and the
    UTF-8 size is a different number (\<open>utf8_len\<close>);
  \<^item> \<open>pyval\<close>: a dynamically typed argument or a JSON value, for the \<open>isinstance\<close> guards;
  \<^item> \<open>result\<close>: a call that returns or raises, with \<open>rbind\<close> for sequencing;
  \<^item> insertion-ordered dictionaries as association lists (\<open>AList.update\<close> keeps the position
    of a key it overwrites and appends a new one, as \<open>dict\<close> does);
  \<^item> \<open>parse_int10\<close>: the built-in \<open>int(text, 10)\<close>.
  The collection \<open>py_simps\<close> gathers the rewrite rules of these primitives.
\<close>

named_theorems py_simps \<open>evaluation of the Python primitives\<close>
named_theorems od_simps \<open>facts on insertion-ordered dictionaries\<close>

subsection \<open>Strings\<close>

type_synonym codepoint = nat
type_synonym pystr = "codepoint list"
type_synonym bytes = "nat list"
type_synonym seconds = real

definition lit :: "string \<Rightarrow> pystr" where
  "lit s = map of_char s"

lemma lit_Nil [simp, py_simps]: "lit [] = []"
  by (simp add: lit_def)

lemma lit_Cons [simp, py_simps]: "lit (c # cs) = of_char c # lit cs"
  by (simp add: lit_def)

text \<open>\<open>str.isspace\<close>, the characters \<open>strip\<close> removes.\<close>

definition is_space :: "codepoint \<Rightarrow> bool" where
  "is_space c \<longleftrightarrow>
     9 \<le> c \<and> c \<le> 13 \<or> 28 \<le> c \<and> c \<le> 32 \<or> c = 133 \<or> c = 160 \<or> c = 5760
     \<or> 8192 \<le> c \<and> c \<le> 8202 \<or> c = 8232 \<or> c = 8233 \<or> c = 8239 \<or> c = 8287 \<or> c = 12288"

definition lstrip :: "pystr \<Rightarrow> pystr" where
  "lstrip s = dropWhile is_space s"

definition rstrip :: "pystr \<Rightarrow> pystr" where
  "rstrip s = rev (dropWhile is_space (rev s))"

definition strip :: "pystr \<Rightarrow> pystr" where
  "strip s = rstrip (lstrip s)"

text \<open>The recurring control-character test \<open>ord(c) < 32 or ord(c) == 127\<close>.\<close>

definition is_ctrl :: "codepoint \<Rightarrow> bool" where
  "is_ctrl c \<longleftrightarrow> c < 32 \<or> c = 127"

definition is_ascii :: "pystr \<Rightarrow> bool" where
  "is_ascii s \<longleftrightarrow> list_all (\<lambda>c. c < 128) s"

definition is_digit :: "codepoint \<Rightarrow> bool" where
  "is_digit c \<longleftrightarrow> 48 \<le> c \<and> c \<le> 57"

definition is_upper :: "codepoint \<Rightarrow> bool" where
  "is_upper c \<longleftrightarrow> 65 \<le> c \<and> c \<le> 90"

definition is_lower :: "codepoint \<Rightarrow> bool" where
  "is_lower c \<longleftrightarrow> 97 \<le> c \<and> c \<le> 122"

definition is_alnum :: "codepoint \<Rightarrow> bool" where
  "is_alnum c \<longleftrightarrow> is_digit c \<or> is_upper c \<or> is_lower c"

text \<open>
  Lower-casing of ASCII letters: \<open>str.lower\<close> and \<open>str.casefold\<close> on ASCII text. Components
  that apply these methods to arbitrary Unicode text take the mapping as an argument.
\<close>

definition ascii_lower :: "pystr \<Rightarrow> pystr" where
  "ascii_lower s = map (\<lambda>c. if is_upper c then c + 32 else c) s"

subsubsection \<open>Searching, splitting and joining\<close>

fun find_sub :: "'a list \<Rightarrow> 'a list \<Rightarrow> nat option" where
  "find_sub p [] = (if p = [] then Some 0 else None)"
| "find_sub p (x # xs) =
     (if prefix p (x # xs) then Some 0 else map_option Suc (find_sub p xs))"

definition contains :: "'a list \<Rightarrow> 'a list \<Rightarrow> bool" where
  "contains p s \<longleftrightarrow> find_sub p s \<noteq> None"

fun split_on :: "'a \<Rightarrow> 'a list \<Rightarrow> 'a list list" where
  "split_on d [] = [[]]"
| "split_on d (x # xs) =
     (if x = d then [] # split_on d xs
      else (case split_on d xs of [] \<Rightarrow> [[x]] | y # ys \<Rightarrow> (x # y) # ys))"

text \<open>\<open>s.split(d, 1)\<close> and \<open>s.partition(d)\<close>: the parts around the first separator.\<close>

definition split1 :: "'a \<Rightarrow> 'a list \<Rightarrow> 'a list \<times> 'a list option" where
  "split1 d s =
     (takeWhile (\<lambda>c. c \<noteq> d) s,
      (case dropWhile (\<lambda>c. c \<noteq> d) s of [] \<Rightarrow> None | _ # r \<Rightarrow> Some r))"

fun join :: "'a list \<Rightarrow> 'a list list \<Rightarrow> 'a list" where
  "join sep [] = []"
| "join sep [x] = x"
| "join sep (x # y # ys) = x @ sep @ join sep (y # ys)"

subsubsection \<open>UTF-8\<close>

definition is_surrogate :: "codepoint \<Rightarrow> bool" where
  "is_surrogate c \<longleftrightarrow> 55296 \<le> c \<and> c \<le> 57343"

definition utf8_size :: "codepoint \<Rightarrow> nat" where
  "utf8_size c = (if c < 128 then 1 else if c < 2048 then 2 else if c < 65536 then 3 else 4)"

text \<open>
  \<open>len(s.encode("utf-8"))\<close>: \<open>None\<close> is the \<open>UnicodeEncodeError\<close> a lone surrogate raises.
\<close>

definition utf8_len :: "pystr \<Rightarrow> nat option" where
  "utf8_len s =
     (if list_ex is_surrogate s then None else Some (sum_list (map utf8_size s)))"

subsection \<open>Dynamically typed values\<close>

datatype pyfloat = Fin real | PosInf | NegInf | NaN

datatype pyval =
    PNone
  | PBool bool
  | PInt int
  | PFloat pyfloat
  | PStr pystr
  | PList "pyval list"
  | PDict "(pystr \<times> pyval) list"
  | POther

text \<open>\<open>isinstance(v, bool) or not isinstance(v, int) or v <= 0\<close> and its negation.\<close>

fun is_pos_int :: "pyval \<Rightarrow> bool" where
  "is_pos_int (PInt n) = (0 < n)"
| "is_pos_int _ = False"

fun int_of :: "pyval \<Rightarrow> int" where
  "int_of (PInt n) = n"
| "int_of _ = 0"

text \<open>A finite non-boolean number, as \<open>int | float\<close> accepts it.\<close>

fun finite_number :: "pyval \<Rightarrow> real option" where
  "finite_number (PInt n) = Some (real_of_int n)"
| "finite_number (PFloat (Fin r)) = Some r"
| "finite_number _ = None"

subsection \<open>Calls that return or raise\<close>

type_synonym ('e, 'a) result = "'e + 'a"

definition rbind :: "('e, 'a) result \<Rightarrow> ('a \<Rightarrow> ('e, 'b) result) \<Rightarrow> ('e, 'b) result" where
  "rbind m f = (case m of Inl e \<Rightarrow> Inl e | Inr x \<Rightarrow> f x)"

lemma rbind_simps [simp, py_simps]:
  "rbind (Inl e) f = Inl e"
  "rbind (Inr x) f = f x"
  by (simp_all add: rbind_def)

lemma rbind_eq_Inr [py_simps]:
  "rbind m f = Inr y \<longleftrightarrow> (\<exists>x. m = Inr x \<and> f x = Inr y)"
  by (auto simp: rbind_def split: sum.splits)

lemma rbind_eq_Inl:
  "rbind m f = Inl e \<longleftrightarrow> m = Inl e \<or> (\<exists>x. m = Inr x \<and> f x = Inl e)"
  by (auto simp: rbind_def split: sum.splits)

fun rmap :: "('a \<Rightarrow> ('e, 'b) result) \<Rightarrow> 'a list \<Rightarrow> ('e, 'b list) result" where
  "rmap f [] = Inr []"
| "rmap f (x # xs) = rbind (f x) (\<lambda>y. rbind (rmap f xs) (\<lambda>ys. Inr (y # ys)))"

lemma rmap_Inr_length: "rmap f xs = Inr ys \<Longrightarrow> length ys = length xs"
  by (induction xs arbitrary: ys) (auto simp: py_simps)

lemma rmap_Inr_nth:
  "rmap f xs = Inr ys \<Longrightarrow> i < length xs \<Longrightarrow> f (xs ! i) = Inr (ys ! i)"
  by (induction xs arbitrary: ys i) (auto simp: py_simps nth_Cons split: nat.splits)

lemma rmap_Inr_set: "rmap f xs = Inr ys \<Longrightarrow> y \<in> set ys \<Longrightarrow> \<exists>x\<in>set xs. f x = Inr y"
  by (induction xs arbitrary: ys) (auto simp: py_simps)

subsection \<open>Facts on strings\<close>

lemma dropWhile_eq_Nil [py_simps]: "dropWhile P s = [] \<longleftrightarrow> (\<forall>c\<in>set s. P c)"
  by (rule dropWhile_eq_Nil_conv)

lemma lstrip_hd: "lstrip s = c # r \<Longrightarrow> \<not> is_space c"
  using hd_dropWhile [of is_space s] by (fastforce simp: lstrip_def)

lemma length_lstrip_le [simp]: "length (lstrip s) \<le> length s"
  by (simp add: lstrip_def length_dropWhile_le)

lemma length_rstrip_le [simp]: "length (rstrip s) \<le> length s"
  using length_dropWhile_le [of is_space "rev s"] by (simp add: rstrip_def)

lemma length_strip_le [simp]: "length (strip s) \<le> length s"
  by (metis strip_def length_lstrip_le length_rstrip_le order_trans)

lemma set_lstrip: "set (lstrip s) \<subseteq> set s"
  by (auto simp: lstrip_def dest: set_dropWhileD)

lemma set_rstrip: "set (rstrip s) \<subseteq> set s"
  by (auto simp: rstrip_def dest: set_dropWhileD)

lemma set_strip: "set (strip s) \<subseteq> set s"
  unfolding strip_def using set_lstrip set_rstrip by blast

lemma lstrip_Nil_iff [simp]: "lstrip s = [] \<longleftrightarrow> (\<forall>c\<in>set s. is_space c)"
  by (simp add: lstrip_def py_simps)

lemma rstrip_Nil_iff [simp]: "rstrip s = [] \<longleftrightarrow> (\<forall>c\<in>set s. is_space c)"
  by (simp add: rstrip_def py_simps)

lemma strip_Nil_iff [simp]: "strip s = [] \<longleftrightarrow> (\<forall>c\<in>set s. is_space c)"
proof
  assume "strip s = []"
  then have "\<forall>c\<in>set (lstrip s). is_space c" by (simp add: strip_def)
  then have "lstrip s = []" using lstrip_hd by (cases "lstrip s") auto
  then show "\<forall>c\<in>set s. is_space c" by simp
next
  assume *: "\<forall>c\<in>set s. is_space c"
  then have "lstrip s = []" by simp
  then show "strip s = []" by (simp only: strip_def rstrip_Nil_iff) simp
qed

lemma rstrip_lstrip_hd: "lstrip s = s \<Longrightarrow> lstrip (rstrip s) = rstrip s"
proof (cases s)
  case (Cons c r)
  assume "lstrip s = s"
  with Cons have nc: "\<not> is_space c" using lstrip_hd by fastforce
  have "rstrip s = c # rstrip r"
    using Cons nc by (simp add: rstrip_def dropWhile_append3 dropWhile_append)
  then show ?thesis using nc by (simp add: lstrip_def)
qed (simp add: rstrip_def)

lemma lstrip_idem [simp]: "lstrip (lstrip s) = lstrip s"
  by (simp add: lstrip_def)

lemma rstrip_idem [simp]: "rstrip (rstrip s) = rstrip s"
  by (simp add: rstrip_def)

lemma strip_idem [simp]: "strip (strip s) = strip s"
  using rstrip_lstrip_hd [of "lstrip s"] by (simp add: strip_def)

lemma strip_no_spaces: "\<forall>c\<in>set s. \<not> is_space c \<Longrightarrow> strip s = s"
  unfolding strip_def lstrip_def rstrip_def
  by (metis dropWhile_eq_self_iff hd_in_set hd_rev last_in_set rev_is_Nil_conv rev_rev_ident set_rev)

lemma contains_Nil [simp]: "contains [] s"
  by (cases s) (simp_all add: contains_def)

lemma find_sub_Some_iff:
  "find_sub p s = Some n \<Longrightarrow> prefix p (drop n s) \<and> n \<le> length s"
  by (induction p s arbitrary: n rule: find_sub.induct) (auto split: if_splits)

lemma find_sub_None_iff: "find_sub p s = None \<longleftrightarrow> \<not> sublist p s"
  by (induction p s rule: find_sub.induct) (auto simp: sublist_Cons_right)

lemma contains_sublist [py_simps]: "contains p s \<longleftrightarrow> sublist p s"
  by (simp add: contains_def find_sub_None_iff)

lemma split_on_not_Nil [simp]: "split_on d s \<noteq> []"
  by (induction s) (auto split: list.splits)

lemma split_on_no_sep: "x \<in> set (split_on d s) \<Longrightarrow> d \<notin> set x"
  by (induction s arbitrary: x) (auto split: list.splits if_splits)

lemma join_split_on: "join [d] (split_on d s) = s"
proof (induction s)
  case (Cons c s)
  obtain y ys where "split_on d s = y # ys"
    using split_on_not_Nil [of d s] by (cases "split_on d s") auto
  with Cons show ?case by (cases ys) auto
qed simp

lemma utf8_size_pos: "1 \<le> utf8_size c" "utf8_size c \<le> 4"
  by (auto simp: utf8_size_def)

lemma sum_list_bounds:
  fixes f :: "'a \<Rightarrow> nat"
  assumes "\<And>x. lo \<le> f x" and "\<And>x. f x \<le> hi"
  shows "lo * length xs \<le> sum_list (map f xs)" and "sum_list (map f xs) \<le> hi * length xs"
proof (induction xs)
  case (Cons x xs)
  {
    case 1
    show ?case using Cons(1) assms(1) [of x] by simp
  next
    case 2
    show ?case using Cons(2) assms(2) [of x] by simp
  }
qed simp_all

lemma utf8_len_bounds:
  "utf8_len s = Some n \<Longrightarrow> length s \<le> n \<and> n \<le> 4 * length s"
  using sum_list_bounds [of 1 utf8_size 4 s] utf8_size_pos
  by (auto simp: utf8_len_def split: if_splits)

lemma utf8_len_append:
  "utf8_len (s @ t) =
     (case (utf8_len s, utf8_len t) of (Some m, Some n) \<Rightarrow> Some (m + n) | _ \<Rightarrow> None)"
  by (auto simp: utf8_len_def)

subsection \<open>Insertion-ordered dictionaries\<close>

type_synonym ('k, 'v) odict = "('k \<times> 'v) list"

definition move_to_end :: "'k \<Rightarrow> ('k, 'v) odict \<Rightarrow> ('k, 'v) odict" where
  "move_to_end k d = (case map_of d k of None \<Rightarrow> d | Some v \<Rightarrow> AList.delete k d @ [(k, v)])"

definition distinct_keys :: "('k, 'v) odict \<Rightarrow> bool" where
  "distinct_keys d \<longleftrightarrow> distinct (map fst d)"

text \<open>\<open>popitem(last=False)\<close> until at most \<open>n\<close> items are left: the loop drops from the front.\<close>

function pop_front_until :: "nat \<Rightarrow> ('k, 'v) odict \<Rightarrow> ('k, 'v) odict" where
  "pop_front_until n d = (if n < length d then pop_front_until n (tl d) else d)"
  by pat_completeness auto
termination
  by (relation "measure (\<lambda>(n, d). length d)") auto

declare pop_front_until.simps [simp del]

lemma pop_front_until_drop: "pop_front_until n d = drop (length d - n) d"
proof (induction n d rule: pop_front_until.induct)
  case (1 n d)
  show ?case
  proof (cases "n < length d")
    case True
    then have "pop_front_until n d = drop (length (tl d) - n) (tl d)"
      using 1 by (simp add: pop_front_until.simps [of n d])
    also have "\<dots> = drop (length d - n) d"
      using True by (cases d) (simp_all add: Suc_diff_le)
    finally show ?thesis .
  next
    case False
    then show ?thesis by (simp add: pop_front_until.simps [of n d])
  qed
qed

lemma length_pop_front_until [simp]: "length (pop_front_until n d) = min n (length d)"
  by (auto simp: pop_front_until_drop)

lemma distinct_keys_Nil [simp, od_simps]: "distinct_keys []"
  by (simp add: distinct_keys_def)

lemma distinct_keys_update [simp, od_simps]:
  "distinct_keys d \<Longrightarrow> distinct_keys (AList.update k v d)"
  by (simp add: distinct_keys_def distinct_update)

lemma distinct_keys_filter [simp, od_simps]:
  "distinct_keys d \<Longrightarrow> distinct_keys (filter P d)"
  by (simp add: distinct_keys_def distinct_map_filter)

lemma delete_key_filter: "AList.delete k d = filter (\<lambda>p. fst p \<noteq> k) d"
  by (induction d) auto

lemma distinct_keys_delete [simp, od_simps]:
  "distinct_keys d \<Longrightarrow> distinct_keys (AList.delete k d)"
  by (simp add: AList.delete_eq)

lemma distinct_keys_drop [simp, od_simps]:
  "distinct_keys d \<Longrightarrow> distinct_keys (drop n d)"
  by (simp add: distinct_keys_def drop_map [symmetric])

lemma distinct_keys_pop [simp, od_simps]:
  "distinct_keys d \<Longrightarrow> distinct_keys (pop_front_until n d)"
  by (simp add: pop_front_until_drop)

lemma distinct_keys_move [simp, od_simps]:
  "distinct_keys d \<Longrightarrow> distinct_keys (move_to_end k d)"
  by (auto simp: move_to_end_def distinct_keys_def AList.delete_eq distinct_map_filter
      split: option.splits)

lemma map_of_delete [simp, od_simps]: "map_of (AList.delete k d) = (map_of d)(k := None)"
  by (rule AList.delete_conv')

lemma map_of_update [simp, od_simps]: "map_of (AList.update k v d) = (map_of d)(k \<mapsto> v)"
  by (rule AList.update_conv')

lemma map_of_move_to_end [simp, od_simps]: "map_of (move_to_end k d) = map_of d"
  by (auto simp: move_to_end_def map_add_def fun_eq_iff split: option.splits)

lemma map_of_filter_Some [od_simps]:
  "distinct_keys d \<Longrightarrow>
   map_of (filter P d) k = (case map_of d k of None \<Rightarrow> None
     | Some v \<Rightarrow> if P (k, v) then Some v else None)"
proof (induction d)
  case (Cons p d)
  obtain a b where p: "p = (a, b)" by (cases p)
  have "a \<notin> fst ` set d" using Cons.prems by (simp add: distinct_keys_def p)
  then have "map_of d a = None" by (simp add: map_of_eq_None_iff)
  moreover have "distinct_keys d" using Cons.prems by (simp add: distinct_keys_def)
  ultimately show ?case using Cons.IH p by (auto split: option.splits)
qed simp

lemma map_of_drop_SomeD:
  "distinct_keys d \<Longrightarrow> map_of (drop n d) k = Some v \<Longrightarrow> map_of d k = Some v"
  by (metis distinct_keys_def distinct_keys_drop in_set_dropD map_of_SomeD map_of_is_SomeI)

lemma length_update_le: "length (AList.update k v d) \<le> Suc (length d)"
  by (induction d) auto

lemma length_move_to_end [simp]: "distinct_keys d \<Longrightarrow> length (move_to_end k d) = length d"
proof (cases "map_of d k")
  case (Some v)
  assume d: "distinct_keys d"
  have "mset (AList.delete k d) + {#(k, v)#} = mset d"
    using d Some
  proof (induction d)
    case (Cons p d)
    obtain a b where p: "p = (a, b)" by (cases p)
    have dk: "distinct_keys d" and na: "a \<notin> fst ` set d"
      using Cons.prems(1) by (simp_all add: distinct_keys_def p)
    show ?case
    proof (cases "a = k")
      case True
      then have "AList.delete k d = d" using na by (simp add: delete_idem)
      then show ?thesis using True Cons.prems(2) p by simp
    next
      case False
      then show ?thesis using Cons.IH dk Cons.prems(2) p by simp
    qed
  qed simp
  then have "length (AList.delete k d @ [(k, v)]) = length d"
    by (metis mset_append mset.simps(1) mset.simps(2) add.left_neutral size_mset)
  then show ?thesis using Some by (simp add: move_to_end_def)
qed (simp add: move_to_end_def)

subsection \<open>The built-in \<open>int(text, 10)\<close>\<close>

text \<open>
  The zero digits of the decimal-digit blocks of Unicode 14 (the version of Python 3.11):
  \<open>int\<close> accepts the ten digits of every block.
\<close>

definition nd_zeros :: "codepoint list" where
  "nd_zeros =
    [0x30, 0x660, 0x6f0, 0x7c0, 0x966, 0x9e6, 0xa66, 0xae6, 0xb66, 0xbe6, 0xc66, 0xce6,
     0xd66, 0xde6, 0xe50, 0xed0, 0xf20, 0x1040, 0x1090, 0x17e0, 0x1810, 0x1946, 0x19d0,
     0x1a80, 0x1a90, 0x1b50, 0x1bb0, 0x1c40, 0x1c50, 0xa620, 0xa8d0, 0xa900, 0xa9d0,
     0xa9f0, 0xaa50, 0xabf0, 0xff10, 0x104a0, 0x10d30, 0x11066, 0x110f0, 0x11136, 0x111d0,
     0x112f0, 0x11450, 0x114d0, 0x11650, 0x116c0, 0x11730, 0x118e0, 0x11950, 0x11c50,
     0x11d50, 0x11da0, 0x16a60, 0x16ac0, 0x16b50, 0x1d7ce, 0x1d7d8, 0x1d7e2, 0x1d7ec,
     0x1d7f6, 0x1e140, 0x1e2f0, 0x1e950, 0x1fbf0]"

definition digit_value :: "codepoint \<Rightarrow> nat option" where
  "digit_value c =
     (case find (\<lambda>z. z \<le> c \<and> c < z + 10) nd_zeros of None \<Rightarrow> None | Some z \<Rightarrow> Some (c - z))"

definition int_space :: "codepoint \<Rightarrow> bool" where
  "int_space c \<longleftrightarrow> 9 \<le> c \<and> c \<le> 13 \<or> c = 32 \<or> 127 < c \<and> is_space c"

text \<open>Digits with single underscores between them, most significant first.\<close>

fun digits_value :: "nat \<Rightarrow> pystr \<Rightarrow> nat option" where
  "digits_value acc [] = None"
| "digits_value acc [c] = (case digit_value c of None \<Rightarrow> None | Some v \<Rightarrow> Some (10 * acc + v))"
| "digits_value acc (c # d # cs) =
     (case digit_value c of None \<Rightarrow> None
      | Some v \<Rightarrow> digits_value (10 * acc + v) (if d = 95 then cs else d # cs))"

definition int_max_str_digits :: nat where
  "int_max_str_digits = 4300"

definition parse_nat10 :: "pystr \<Rightarrow> nat option" where
  "parse_nat10 s =
     (if int_max_str_digits < length (filter (\<lambda>c. c \<noteq> 95) s) then None else digits_value 0 s)"

definition parse_int10 :: "pystr \<Rightarrow> int option" where
  "parse_int10 raw =
     (let s = dropWhile int_space (rev (dropWhile int_space (rev raw)))
      in case s of
           [] \<Rightarrow> None
         | c # cs \<Rightarrow>
             if c = 45 then map_option (\<lambda>n. - int n) (parse_nat10 cs)
             else if c = 43 then map_option int (parse_nat10 cs)
             else map_option int (parse_nat10 (c # cs)))"

text \<open>\<open>str(n)\<close> for an integer: decimal digits with a minus sign.\<close>

fun show_nat :: "nat \<Rightarrow> pystr" where
  "show_nat n = (if n < 10 then [48 + n] else show_nat (n div 10) @ [48 + n mod 10])"

declare show_nat.simps [simp del]

definition show_int :: "int \<Rightarrow> pystr" where
  "show_int i = (if i < 0 then 45 # show_nat (nat (- i)) else show_nat (nat i))"

lemma show_nat_not_Nil [simp]: "show_nat n \<noteq> []"
  by (subst show_nat.simps) simp

lemma show_nat_digits: "c \<in> set (show_nat n) \<Longrightarrow> is_digit c"
proof (induction n rule: show_nat.induct)
  case (1 n)
  show ?case
  proof (cases "n < 10")
    case True
    with 1(2) show ?thesis by (simp add: show_nat.simps [of n] is_digit_def)
  next
    case False
    with 1(2) have "c \<in> set (show_nat (n div 10)) \<or> c = 48 + n mod 10"
      by (auto simp: show_nat.simps [of n])
    moreover have "n mod 10 \<le> 9" by simp
    ultimately show ?thesis using 1(1) False by (auto simp: is_digit_def)
  qed
qed

subsection \<open>Decimal text and numbers\<close>

definition dec_value :: "pystr \<Rightarrow> nat" where
  "dec_value s = foldl (\<lambda>a c. 10 * a + (c - 48)) 0 s"

lemma dec_value_simps [simp]:
  "dec_value [] = 0"
  "dec_value (s @ [c]) = 10 * dec_value s + (c - 48)"
  by (simp_all add: dec_value_def)

lemma dec_value_pos: "list_all is_digit s \<Longrightarrow> s \<noteq> [] \<Longrightarrow> hd s \<noteq> 48 \<Longrightarrow> 0 < dec_value s"
proof (induction s rule: rev_induct)
  case (snoc c s)
  show ?case
  proof (cases "s = []")
    case True
    with snoc.prems show ?thesis by (auto simp: is_digit_def dec_value_def)
  next
    case False
    with snoc show ?thesis by simp
  qed
qed simp

text \<open>Decimal text without leading zeros is the text of its value, and conversely.\<close>

lemma show_nat_dec_value:
  "list_all is_digit s \<Longrightarrow> s \<noteq> [] \<Longrightarrow> hd s \<noteq> 48 \<or> length s = 1 \<Longrightarrow> show_nat (dec_value s) = s"
proof (induction s rule: rev_induct)
  case (snoc c s)
  have c: "48 \<le> c" "c \<le> 57" using snoc.prems(1) by (auto simp: is_digit_def)
  show ?case
  proof (cases "s = []")
    case True
    then show ?thesis using c by (simp add: show_nat.simps [of "c - 48"] dec_value_def)
  next
    case False
    have hd: "hd s \<noteq> 48" using snoc.prems(3) False by simp
    have "0 < dec_value s" using dec_value_pos snoc.prems(1) hd False by simp
    then have ge: "\<not> 10 * dec_value s + (c - 48) < 10" by simp
    have IH: "show_nat (dec_value s) = s"
      using snoc.IH snoc.prems(1) hd False by simp
    have d: "c = 48 + (c - 48)" "c - 48 < 10" using c by simp_all
    then obtain d where d: "c = 48 + d" "d < 10" by blast
    show ?thesis
      using d ge IH by (simp add: show_nat.simps [of "10 * dec_value s + d"])
  qed
qed simp

lemma dec_value_show_nat [simp]: "dec_value (show_nat n) = n"
proof (induction n rule: show_nat.induct)
  case (1 n)
  show ?case
  proof (cases "n < 10")
    case True
    then show ?thesis by (simp add: show_nat.simps [of n] dec_value_def)
  next
    case False
    then have "dec_value (show_nat n) = 10 * dec_value (show_nat (n div 10)) + n mod 10"
      by (simp add: show_nat.simps [of n])
    then show ?thesis using 1 False by simp
  qed
qed

lemma show_nat_inj: "show_nat m = show_nat n \<Longrightarrow> m = n"
  by (metis dec_value_show_nat)

lemma digit_value_ascii: "is_digit c \<Longrightarrow> digit_value c = Some (c - 48)"
  by (simp add: digit_value_def nd_zeros_def is_digit_def)

lemma is_digit_not_underscore: "is_digit c \<Longrightarrow> c \<noteq> 95"
  by (simp add: is_digit_def)

lemma digits_value_ascii:
  "list_all is_digit s \<Longrightarrow> s \<noteq> [] \<Longrightarrow>
   digits_value acc s = Some (foldl (\<lambda>a c. 10 * a + (c - 48)) acc s)"
  by (induction acc s rule: digits_value.induct)
    (auto simp: digit_value_ascii dest: is_digit_not_underscore)

lemma filter_no_underscore: "list_all is_digit s \<Longrightarrow> filter (\<lambda>c. c \<noteq> 95) s = s"
  by (induction s) (auto simp: is_digit_def)

lemma parse_nat10_show_nat:
  "length (show_nat n) \<le> int_max_str_digits \<Longrightarrow> parse_nat10 (show_nat n) = Some n"
proof -
  assume *: "length (show_nat n) \<le> int_max_str_digits"
  have d: "list_all is_digit (show_nat n)"
    by (auto simp: list_all_iff show_nat_digits)
  have "digits_value 0 (show_nat n) = Some (dec_value (show_nat n))"
    using digits_value_ascii [OF d] by (simp add: dec_value_def)
  then show ?thesis
    using * by (simp add: parse_nat10_def filter_no_underscore [OF d])
qed

lemma int_space_digit: "is_digit c \<Longrightarrow> \<not> int_space c"
  by (auto simp: is_digit_def int_space_def)

lemma dropWhile_int_space_digits:
  "s \<noteq> [] \<Longrightarrow> \<not> int_space (hd s) \<Longrightarrow> dropWhile int_space s = s"
  by (cases s) auto

text \<open>\<open>int(str(n)) = n\<close>, up to the interpreter's limit on the number of digits.\<close>

lemma parse_int10_show_int:
  assumes "length (show_nat (nat \<bar>i\<bar>)) \<le> int_max_str_digits"
  shows "parse_int10 (show_int i) = Some i"
proof -
  have dig: "\<And>n. is_digit (hd (show_nat n))" "\<And>n. is_digit (last (show_nat n))"
    using show_nat_digits show_nat_not_Nil by (metis hd_in_set, metis last_in_set)
  have nosp: "\<not> int_space (last (show_int i))" "\<not> int_space (hd (show_int i))" "show_int i \<noteq> []"
    using dig int_space_digit by (auto simp: show_int_def int_space_def)
  have trim: "dropWhile int_space (rev (dropWhile int_space (rev (show_int i)))) = show_int i"
    using nosp by (simp add: dropWhile_int_space_digits hd_rev)
  show ?thesis
  proof (cases "i < 0")
    case True
    then have "parse_nat10 (show_nat (nat (- i))) = Some (nat (- i))"
      using parse_nat10_show_nat assms by simp
    then show ?thesis using True trim by (simp add: parse_int10_def show_int_def)
  next
    case False
    then have p: "parse_nat10 (show_nat (nat i)) = Some (nat i)"
      using parse_nat10_show_nat assms by simp
    obtain c cs where ccs: "show_nat (nat i) = c # cs"
      using show_nat_not_Nil by (cases "show_nat (nat i)") auto
    have "is_digit c" using dig(1) [of "nat i"] ccs by simp
    then have "c \<noteq> 45" "c \<noteq> 43" by (auto simp: is_digit_def)
    then show ?thesis
      using False trim p ccs by (simp add: parse_int10_def show_int_def)
  qed
qed

subsection \<open>Exceptions\<close>

datatype py_error =
    ValueError pystr
  | TypeError pystr
  | RuntimeError pystr
  | UnicodeEncodeError
  | OverflowError
  | PermissionError pystr

end
