(* ===== verification/Config.thy ===== *)
theory Config
  imports Prelude
begin

section \<open>Configuration parsing\<close>

text \<open>
  Models \<open>envconfig.py\<close> (\<open>env_int\<close>, \<open>env_float\<close>), the positive-integer parsers of
  \<open>cache.py\<close> and \<open>btctl_core.py\<close>, and \<open>proxy/header_contract.py\<close>. The process environment is
  a map from names to values. The text-to-float conversion is an argument of \<open>env_float\<close>.
\<close>

type_synonym environ = "pystr \<rightharpoonup> pystr"

definition int_error :: "pystr \<Rightarrow> int \<Rightarrow> py_error" where
  "int_error name minimum =
     ValueError (name @ lit '' must be an integer of at least '' @ show_int minimum)"

definition env_int :: "environ \<Rightarrow> pystr \<Rightarrow> int \<Rightarrow> int \<Rightarrow> (py_error, int) result" where
  "env_int env name dflt minimum =
     (let raw = strip (case env name of None \<Rightarrow> show_int dflt | Some v \<Rightarrow> v)
      in case parse_int10 raw of
           None \<Rightarrow> Inl (int_error name minimum)
         | Some value \<Rightarrow>
             if value < minimum then Inl (int_error name minimum) else Inr value)"

definition float_error :: "pystr \<Rightarrow> py_error" where
  "float_error name = ValueError (name @ lit '' must be a number greater than zero'')"

definition env_float ::
  "(pystr \<Rightarrow> pyfloat option) \<Rightarrow> environ \<Rightarrow> pystr \<Rightarrow> pystr \<Rightarrow> (py_error, real) result" where
  "env_float float_of env name dflt_text =
     (let raw = strip (case env name of None \<Rightarrow> dflt_text | Some v \<Rightarrow> v)
      in case float_of raw of
           None \<Rightarrow> Inl (float_error name)
         | Some (Fin r) \<Rightarrow> if r \<le> 0 then Inl (float_error name) else Inr r
         | Some _ \<Rightarrow> Inl (float_error name))"

definition positive_int_env :: "environ \<Rightarrow> pystr \<Rightarrow> int \<Rightarrow> (py_error, int) result" where
  "positive_int_env env name dflt =
     (let raw = (case env name of None \<Rightarrow> show_int dflt | Some v \<Rightarrow> v)
      in case parse_int10 raw of
           None \<Rightarrow> Inl (ValueError (name @ lit '' must be a positive integer''))
         | Some value \<Rightarrow>
             if value \<le> 0 then Inl (ValueError (name @ lit '' must be a positive integer''))
             else Inr value)"

text \<open>
  \<open>parse_positive_int\<close> of \<open>btctl_core.py\<close>: \<open>int(str(value), 10)\<close>. The text \<open>str(value)\<close> of a
  value that is neither an integer nor a string is an argument.
\<close>

definition positive_error :: py_error where
  "positive_error = ValueError (lit ''value must be a positive integer'')"

definition parse_positive_int :: "(pyval \<Rightarrow> pystr) \<Rightarrow> pyval \<Rightarrow> (py_error, int) result" where
  "parse_positive_int str_of value =
     (case value of
        PBool _ \<Rightarrow> Inl positive_error
      | _ \<Rightarrow>
          (case parse_int10 (case value of PInt n \<Rightarrow> show_int n | PStr s \<Rightarrow> s | v \<Rightarrow> str_of v) of
             None \<Rightarrow> Inl positive_error
           | Some parsed \<Rightarrow> if parsed \<le> 0 then Inl positive_error else Inr parsed))"

subsection \<open>Reader identity headers\<close>

definition header_name_char :: "codepoint \<Rightarrow> bool" where
  "header_name_char c \<longleftrightarrow> is_alnum c \<or> c = 45"

definition header_name_ok :: "pystr \<Rightarrow> bool" where
  "header_name_ok s \<longleftrightarrow>
     (case s of [] \<Rightarrow> False
      | c # cs \<Rightarrow> is_alnum c \<and> list_all header_name_char cs \<and> length cs \<le> 63)"

definition managed_headers :: "pystr list" where
  "managed_headers = map lit
     [''authorization'', ''connection'', ''content-length'', ''cookie'', ''forwarded'',
      ''host'', ''transfer-encoding'', ''upgrade'', ''user-agent'', ''x-authentik-groups'',
      ''x-authentik-uid'', ''x-bt-roles'', ''x-bt-subject'', ''x-forwarded-for'',
      ''x-forwarded-host'', ''x-forwarded-port'', ''x-forwarded-proto'', ''x-real-ip'']"

definition validate_reader_identity_header :: "pyval \<Rightarrow> (py_error, pystr) result" where
  "validate_reader_identity_header value =
     (case value of
        PStr s \<Rightarrow>
          if \<not> is_ascii s \<or> \<not> header_name_ok s
          then Inl (ValueError (lit ''BT_CWA_IDENTITY_HEADER must be one bounded HTTP header name''))
          else if ascii_lower s \<in> set managed_headers
          then Inl (ValueError (lit ''BT_CWA_IDENTITY_HEADER conflicts with a proxy-managed security header''))
          else Inr s
      | _ \<Rightarrow> Inl (ValueError (lit ''BT_CWA_IDENTITY_HEADER must be one bounded HTTP header name'')))"

subsection \<open>Facts\<close>

lemma env_int_ge: "env_int env name d m = Inr v \<Longrightarrow> m \<le> v"
  by (auto simp: env_int_def Let_def split: option.splits if_splits)

lemma env_int_total: "\<exists>v. env_int env name d m = Inr v \<or> env_int env name d m = Inl (int_error name m)"
  by (auto simp: env_int_def Let_def split: option.splits)

lemma strip_no_space:
  assumes "s \<noteq> []" "\<not> is_space (hd s)" "\<not> is_space (last s)"
  shows "strip s = s"
proof -
  have "lstrip s = s" using assms by (cases s) (auto simp: lstrip_def)
  moreover have "dropWhile is_space (rev s) = rev s"
    using assms by (cases "rev s") (auto simp: last_rev)
  ultimately show ?thesis by (simp add: strip_def rstrip_def)
qed

lemma strip_show_int [simp]: "strip (show_int i) = show_int i"
proof (rule strip_no_space)
  have dig: "\<And>n. is_digit (hd (show_nat n))" "\<And>n. is_digit (last (show_nat n))"
    using show_nat_digits show_nat_not_Nil by (metis hd_in_set, metis last_in_set)
  have nsp: "\<And>c. is_digit c \<Longrightarrow> \<not> is_space c" by (auto simp: is_digit_def is_space_def)
  show "show_int i \<noteq> []" by (simp add: show_int_def)
  show "\<not> is_space (hd (show_int i))" using dig nsp by (auto simp: show_int_def is_space_def)
  show "\<not> is_space (last (show_int i))" using dig nsp by (auto simp: show_int_def)
qed

text \<open>An unset variable yields its default; the default's text is parsed back.\<close>

lemma env_int_default:
  assumes "env name = None" "m \<le> d" "length (show_nat (nat \<bar>d\<bar>)) \<le> int_max_str_digits"
  shows "env_int env name d m = Inr d"
  using assms by (simp add: env_int_def parse_int10_show_int)

lemma parse_positive_int_pos: "parse_positive_int f v = Inr n \<Longrightarrow> 0 < n"
  by (auto simp: parse_positive_int_def split: pyval.splits option.splits if_splits)

lemma validate_header_safe:
  assumes "validate_reader_identity_header v = Inr h"
  shows "v = PStr h" "h \<noteq> []" "length h \<le> 64" "list_all header_name_char h"
    "ascii_lower h \<notin> set managed_headers"
  using assms
  by (auto simp: validate_reader_identity_header_def header_name_ok_def header_name_char_def
      split: pyval.splits if_splits list.splits)

end
