(* ===== verification/Work_Budget.thy ===== *)
theory Work_Budget
  imports Prelude
begin

section \<open>Request-scoped work budgets\<close>

text \<open>
  Models \<open>work_budget.py\<close>. A budget is shared by every thread that works for one request;
  each method runs its body under the budget's lock, so a run of the program is a sequence
  of these operations in lock order. The clock reading an operation takes under the lock is
  its argument \<open>now\<close>. An operation returns its outcome together with the budget it leaves,
  so that what a raising call does to the counters is part of the model.
\<close>

subsection \<open>Model\<close>

datatype budget_error =
    WorkBudgetExceeded pystr
  | BudgetValueError pystr
  | BudgetTypeError pystr
  | BudgetEncodeError

record budget =
  max_attempts :: int
  max_input_bytes :: int
  max_output_tokens :: int
  deadline :: seconds
  attempts :: int
  input_bytes :: int
  output_tokens :: int
  cancel_reason :: "pystr option"

fun check_limits :: "(string \<times> pyval) list \<Rightarrow> (budget_error, unit) result" where
  "check_limits [] = Inr ()"
| "check_limits ((name, value) # rest) =
     (if \<not> is_pos_int value
      then Inl (BudgetValueError (lit name @ lit '' must be a positive integer''))
      else check_limits rest)"

definition wb_init ::
  "pyval \<Rightarrow> pyval \<Rightarrow> pyval \<Rightarrow> pyval \<Rightarrow> seconds \<Rightarrow> (budget_error, budget) result" where
  "wb_init m_attempts m_input m_output deadline_seconds now =
     rbind (check_limits [(''max_attempts'', m_attempts), (''max_input_bytes'', m_input),
                          (''max_output_tokens'', m_output)])
       (\<lambda>_. case finite_number deadline_seconds of
              None \<Rightarrow> Inl (BudgetValueError (lit ''deadline_seconds must be a finite positive number''))
            | Some d \<Rightarrow>
                if d \<le> 0
                then Inl (BudgetValueError (lit ''deadline_seconds must be a finite positive number''))
                else Inr \<lparr>max_attempts = int_of m_attempts, max_input_bytes = int_of m_input,
                          max_output_tokens = int_of m_output, deadline = now + d,
                          attempts = 0, input_bytes = 0, output_tokens = 0,
                          cancel_reason = None\<rparr>)"

definition cancel :: "pyval \<Rightarrow> budget \<Rightarrow> (budget_error, unit) result \<times> budget" where
  "cancel reason b =
     (case reason of
        PStr r \<Rightarrow>
          if r = [] then (Inl (BudgetValueError (lit ''cancel reason must be a non-empty string'')), b)
          else if cancel_reason b = None then (Inr (), b\<lparr>cancel_reason := Some r\<rparr>)
          else (Inr (), b)
      | _ \<Rightarrow> (Inl (BudgetValueError (lit ''cancel reason must be a non-empty string'')), b))"

definition ensure_active :: "seconds \<Rightarrow> budget \<Rightarrow> (budget_error, unit) result" where
  "ensure_active now b =
     (case cancel_reason b of
        Some r \<Rightarrow> Inl (WorkBudgetExceeded r)
      | None \<Rightarrow>
          if deadline b \<le> now then Inl (WorkBudgetExceeded (lit ''deadline'')) else Inr ())"

definition remaining_seconds :: "seconds \<Rightarrow> budget \<Rightarrow> seconds" where
  "remaining_seconds now b = max 0 (deadline b - now)"

text \<open>The checks made under the lock, in their order, and the three increments.\<close>

definition reserve_locked ::
  "seconds \<Rightarrow> int \<Rightarrow> int \<Rightarrow> budget \<Rightarrow> (budget_error, unit) result \<times> budget" where
  "reserve_locked now in_bytes out_tokens b =
     (case cancel_reason b of
        Some r \<Rightarrow> (Inl (WorkBudgetExceeded r), b)
      | None \<Rightarrow>
          if deadline b \<le> now then (Inl (WorkBudgetExceeded (lit ''deadline'')), b)
          else if attempts b + 1 > max_attempts b
          then (Inl (WorkBudgetExceeded (lit ''attempts'')), b)
          else if input_bytes b + in_bytes > max_input_bytes b
          then (Inl (WorkBudgetExceeded (lit ''input_bytes'')), b)
          else if output_tokens b + out_tokens > max_output_tokens b
          then (Inl (WorkBudgetExceeded (lit ''output_tokens'')), b)
          else (Inr (), b\<lparr>attempts := attempts b + 1,
                          input_bytes := input_bytes b + in_bytes,
                          output_tokens := output_tokens b + out_tokens\<rparr>))"

definition reserve_attempt ::
  "seconds \<Rightarrow> pyval \<Rightarrow> pyval \<Rightarrow> budget \<Rightarrow> (budget_error, unit) result \<times> budget" where
  "reserve_attempt now input_text tokens b =
     (case input_text of
        PStr s \<Rightarrow>
          if \<not> is_pos_int tokens
          then (Inl (BudgetValueError (lit ''output_tokens must be a positive integer'')), b)
          else (case utf8_len s of
                  None \<Rightarrow> (Inl BudgetEncodeError, b)
                | Some n \<Rightarrow> reserve_locked now (int n) (int_of tokens) b)
      | _ \<Rightarrow> (Inl (BudgetTypeError (lit ''input_text must be a string'')), b))"

definition snapshot :: "budget \<Rightarrow> (string \<times> int) list" where
  "snapshot b = [(''attempts'', attempts b), (''input_bytes'', input_bytes b),
                 (''output_tokens'', output_tokens b)]"

subsection \<open>Runs\<close>

text \<open>
  The calls other threads interleave on one budget. A step reports whether it granted a
  provider call.
\<close>

datatype wb_op = Cancel pyval | Ensure seconds | Reserve seconds pyval pyval

fun wb_step :: "wb_op \<Rightarrow> budget \<Rightarrow> bool \<times> budget" where
  "wb_step (Cancel r) b = (False, snd (cancel r b))"
| "wb_step (Ensure now) b = (False, b)"
| "wb_step (Reserve now t k) b =
     (case reserve_attempt now t k b of (Inr _, b') \<Rightarrow> (True, b') | (Inl _, b') \<Rightarrow> (False, b'))"

text \<open>Run a list of operations; collect those that were granted.\<close>

fun run_grants :: "('op \<Rightarrow> 's \<Rightarrow> bool \<times> 's) \<Rightarrow> 'op list \<Rightarrow> 's \<Rightarrow> 'op list \<times> 's" where
  "run_grants step [] s = ([], s)"
| "run_grants step (x # xs) s =
     (let (ok, s') = step x s; (gs, t) = run_grants step xs s'
      in (if ok then x # gs else gs, t))"

fun op_bytes :: "wb_op \<Rightarrow> int" where
  "op_bytes (Reserve now (PStr s) k) = (case utf8_len s of None \<Rightarrow> 0 | Some n \<Rightarrow> int n)"
| "op_bytes _ = 0"

fun op_tokens :: "wb_op \<Rightarrow> int" where
  "op_tokens (Reserve now t k) = int_of k"
| "op_tokens _ = 0"

definition wb_ok :: "budget \<Rightarrow> bool" where
  "wb_ok b \<longleftrightarrow>
     0 \<le> attempts b \<and> attempts b \<le> max_attempts b
     \<and> 0 \<le> input_bytes b \<and> input_bytes b \<le> max_input_bytes b
     \<and> 0 \<le> output_tokens b \<and> output_tokens b \<le> max_output_tokens b"

subsection \<open>The metering contract\<close>

text \<open>
  What a metered operation promises: a granted step adds its cost to the meter, any other
  step leaves it, and no step passes the cap. The consequence for a whole run is proved once
  and used for the three meters of a budget.
\<close>

locale meter =
  fixes step :: "'op \<Rightarrow> 's \<Rightarrow> bool \<times> 's"
    and used cap :: "'s \<Rightarrow> int"
    and cost :: "'op \<Rightarrow> int"
  assumes granted: "step x s = (True, s') \<Longrightarrow> used s' = used s + cost x \<and> used s' \<le> cap s"
    and refused: "step x s = (False, s') \<Longrightarrow> used s' = used s"
    and cap_kept: "step x s = (ok, s') \<Longrightarrow> cap s' = cap s"
begin

lemma run_total:
  "run_grants step xs s = (gs, t) \<Longrightarrow> used t = used s + sum_list (map cost gs) \<and> cap t = cap s"
proof (induction xs arbitrary: s gs t)
  case (Cons x xs)
  obtain ok s' where st: "step x s = (ok, s')" by (cases "step x s")
  obtain gs' t' where r: "run_grants step xs s' = (gs', t')" by (cases "run_grants step xs s'")
  have IH: "used t' = used s' + sum_list (map cost gs')" "cap t' = cap s'"
    using Cons.IH [OF r] by simp_all
  show ?case
    using Cons.prems st r IH granted [of x s s'] refused [of x s s'] cap_kept [OF st]
    by (cases ok) auto
qed simp

lemma run_within_cap:
  "used s \<le> cap s \<Longrightarrow> run_grants step xs s = (gs, t) \<Longrightarrow> used t \<le> cap s"
proof (induction xs arbitrary: s gs t)
  case (Cons x xs)
  obtain ok s' where st: "step x s = (ok, s')" by (cases "step x s")
  obtain gs' t' where r: "run_grants step xs s' = (gs', t')" by (cases "run_grants step xs s'")
  have "used s' \<le> cap s'"
    using Cons.prems(1) st granted [of x s s'] refused [of x s s'] cap_kept [OF st]
    by (cases ok) auto
  then have "used t' \<le> cap s'" using Cons.IH r by blast
  then show ?case using Cons.prems(2) st r cap_kept [OF st] by simp
qed simp

lemma run_cost_le:
  "used s \<le> cap s \<Longrightarrow> run_grants step xs s = (gs, t) \<Longrightarrow> used s + sum_list (map cost gs) \<le> cap s"
  using run_total run_within_cap by metis

end

lemma cancel_counters [simp]:
  "attempts (snd (cancel r b)) = attempts b" "input_bytes (snd (cancel r b)) = input_bytes b"
  "output_tokens (snd (cancel r b)) = output_tokens b"
  "max_attempts (snd (cancel r b)) = max_attempts b"
  "max_input_bytes (snd (cancel r b)) = max_input_bytes b"
  "max_output_tokens (snd (cancel r b)) = max_output_tokens b"
  "deadline (snd (cancel r b)) = deadline b"
  by (auto simp: cancel_def split: pyval.splits)

lemma reserve_granted:
  assumes "reserve_attempt now t k b = (Inr u, b')"
  shows "\<exists>s n. t = PStr s \<and> utf8_len s = Some n \<and> is_pos_int k \<and> cancel_reason b = None
     \<and> now < deadline b
     \<and> attempts b + 1 \<le> max_attempts b \<and> input_bytes b + int n \<le> max_input_bytes b
     \<and> output_tokens b + int_of k \<le> max_output_tokens b
     \<and> b' = b\<lparr>attempts := attempts b + 1, input_bytes := input_bytes b + int n,
             output_tokens := output_tokens b + int_of k\<rparr>"
  using assms
  by (auto simp: reserve_attempt_def reserve_locked_def not_le not_less
      split: pyval.splits option.splits if_splits)

lemma reserve_refused: "reserve_attempt now t k b = (Inl e, b') \<Longrightarrow> b' = b"
  by (auto simp: reserve_attempt_def reserve_locked_def
      split: pyval.splits option.splits if_splits)

lemma wb_step_granted:
  assumes "wb_step x b = (True, b')"
  shows "\<exists>now t k. x = Reserve now t k \<and> reserve_attempt now t k b = (Inr (), b')"
  using assms by (cases x) (auto split: prod.splits sum.splits)

lemma wb_step_refused:
  assumes "wb_step x b = (False, b')"
  shows "attempts b' = attempts b" "input_bytes b' = input_bytes b"
    "output_tokens b' = output_tokens b"
  using assms by (cases x; auto split: prod.splits sum.splits dest: reserve_refused)+

lemma wb_step_limits:
  assumes "wb_step x b = (ok, b')"
  shows "max_attempts b' = max_attempts b" "max_input_bytes b' = max_input_bytes b"
    "max_output_tokens b' = max_output_tokens b" "deadline b' = deadline b"
  using assms
  by (cases x; auto split: prod.splits sum.splits dest: reserve_refused reserve_granted)+

interpretation attempt_meter: meter wb_step attempts max_attempts "\<lambda>_. 1"
  by unfold_locales
    (auto dest!: wb_step_granted reserve_granted dest: wb_step_refused wb_step_limits)

interpretation byte_meter: meter wb_step input_bytes max_input_bytes op_bytes
  by unfold_locales
    (auto dest!: wb_step_granted reserve_granted dest: wb_step_refused wb_step_limits)

interpretation token_meter: meter wb_step output_tokens max_output_tokens op_tokens
  by unfold_locales
    (auto dest!: wb_step_granted reserve_granted dest: wb_step_refused wb_step_limits)

subsection \<open>Initial budgets, cancellation and deadline\<close>

lemma check_limits_Inr: "check_limits xs = Inr u \<longleftrightarrow> (\<forall>p\<in>set xs. is_pos_int (snd p))"
  by (induction xs rule: check_limits.induct) auto

lemma is_pos_int_int_of: "is_pos_int v \<Longrightarrow> 0 < int_of v"
  by (cases v) auto

lemma wb_init_Inr:
  assumes "wb_init a i k d now = Inr b"
  shows "0 < max_attempts b" "0 < max_input_bytes b" "0 < max_output_tokens b"
    "attempts b = 0" "input_bytes b = 0" "output_tokens b = 0"
    "now < deadline b" "cancel_reason b = None"
  using assms
  by (auto simp: wb_init_def py_simps check_limits_Inr is_pos_int_int_of
      split: option.splits if_splits)

lemma wb_init_ok: "wb_init a i k d now = Inr b \<Longrightarrow> wb_ok b"
  using wb_init_Inr [of a i k d now b] by (auto simp: wb_ok_def)

lemma cancel_sticky: "cancel_reason b = Some r \<Longrightarrow> cancel_reason (snd (wb_step x b)) = Some r"
  by (cases x) (auto simp: cancel_def reserve_attempt_def reserve_locked_def
      split: pyval.splits option.splits)

lemma cancelled_step_refused: "cancel_reason b = Some r \<Longrightarrow> \<not> fst (wb_step x b)"
  by (cases x) (auto simp: reserve_attempt_def reserve_locked_def
      split: pyval.splits option.splits)

lemma cancelled_run: "cancel_reason b = Some r \<Longrightarrow> fst (run_grants wb_step xs b) = []"
proof (induction xs arbitrary: b)
  case (Cons x xs)
  have "cancel_reason (snd (wb_step x b)) = Some r" "\<not> fst (wb_step x b)"
    using Cons.prems cancel_sticky cancelled_step_refused by blast+
  moreover from this(1) have "fst (run_grants wb_step xs (snd (wb_step x b))) = []"
    by (rule Cons.IH)
  ultimately show ?case by (cases "wb_step x b") (auto split: prod.splits)
qed simp

fun op_time :: "wb_op \<Rightarrow> seconds \<Rightarrow> bool" where
  "op_time (Reserve now t k) d \<longleftrightarrow> d \<le> now"
| "op_time _ d \<longleftrightarrow> True"

lemma late_step_refused: "op_time x (deadline b) \<Longrightarrow> \<not> fst (wb_step x b)"
  by (cases x) (auto simp: reserve_attempt_def reserve_locked_def
      split: pyval.splits option.splits)

lemma wb_ok_step: "wb_ok b \<Longrightarrow> wb_ok (snd (wb_step x b))"
proof -
  assume ok: "wb_ok b"
  obtain g b' where st: "wb_step x b = (g, b')" by (cases "wb_step x b")
  show ?thesis
  proof (cases g)
    case True
    then obtain now t k where "x = Reserve now t k" "reserve_attempt now t k b = (Inr (), b')"
      using wb_step_granted [of x b b'] st by auto
    then show ?thesis
      using ok st is_pos_int_int_of [of k] by (auto simp: wb_ok_def dest!: reserve_granted)
  next
    case False
    then show ?thesis
      using ok st wb_step_refused [of x b b'] wb_step_limits [of x b g b'] by (simp add: wb_ok_def)
  qed
qed

subsection \<open>Properties\<close>

text \<open>
  C18: A budget is never overspent. Whatever operations the threads of a request interleave on
  a freshly created budget, the provider calls it grants number at most \<open>max_attempts\<close>, their
  UTF-8 input bytes sum to at most \<open>max_input_bytes\<close>, their output tokens to at most
  \<open>max_output_tokens\<close>, and the counters equal what was granted.
\<close>

theorem budget_never_overspent:
  assumes "wb_init a i k d now = Inr b" and "run_grants wb_step ops b = (granted, b')"
  shows "int (length granted) \<le> max_attempts b
    \<and> sum_list (map op_bytes granted) \<le> max_input_bytes b
    \<and> sum_list (map op_tokens granted) \<le> max_output_tokens b
    \<and> attempts b' = int (length granted)
    \<and> input_bytes b' = sum_list (map op_bytes granted)
    \<and> output_tokens b' = sum_list (map op_tokens granted)"
proof -
  note init = wb_init_Inr [OF assms(1)]
  have len: "sum_list (map (\<lambda>_. 1) granted) = int (length granted)"
    by (simp add: sum_list_triv)
  show ?thesis
    using init len attempt_meter.run_total [OF assms(2)] byte_meter.run_total [OF assms(2)]
      token_meter.run_total [OF assms(2)] attempt_meter.run_cost_le [OF _ assms(2)]
      byte_meter.run_cost_le [OF _ assms(2)] token_meter.run_cost_le [OF _ assms(2)]
    by simp
qed

theorem budget_never_overspent_witness:
  "int (length (fst (run_grants wb_step
      [Reserve 1 (PStr (lit ''ab'')) (PInt 3), Cancel (PStr (lit ''stop'')),
       Reserve 2 (PStr (lit ''c'')) (PInt 1)]
      (projr (wb_init (PInt 2) (PInt 100) (PInt 10) (PInt 5) 0))))) \<le> 2"
proof -
  obtain b where b: "wb_init (PInt 2) (PInt 100) (PInt 10) (PInt 5) 0 = Inr b"
    by (simp add: wb_init_def)
  obtain g b' where r: "run_grants wb_step
      [Reserve 1 (PStr (lit ''ab'')) (PInt 3), Cancel (PStr (lit ''stop'')),
       Reserve 2 (PStr (lit ''c'')) (PInt 1)] b = (g, b')"
    by (cases "run_grants wb_step
      [Reserve 1 (PStr (lit ''ab'')) (PInt 3), Cancel (PStr (lit ''stop'')),
       Reserve 2 (PStr (lit ''c'')) (PInt 1)] b")
  have "max_attempts b = 2" using b by (auto simp: wb_init_def)
  then show ?thesis using budget_never_overspent [OF b r] b r by simp
qed

text \<open>
  Cancellation is final and the first reason wins. Once a cancellation was accepted, no
  later operation of any thread is granted a provider call, every later check raises with
  the first reason, whatever reasons are given afterwards and whatever the clock says.
\<close>

theorem budget_cancel_final:
  assumes "cancel (PStr r) b = (Inr (), b1)" and "cancel_reason b = None"
    and "run_grants wb_step ops b1 = (granted, b2)"
  shows "granted = [] \<and> ensure_active now b2 = Inl (WorkBudgetExceeded r)"
proof -
  have c: "cancel_reason b1 = Some r"
    using assms(1,2) by (auto simp: cancel_def split: if_splits)
  have "cancel_reason (snd (run_grants wb_step ops b1)) = Some r"
    using c
  proof (induction ops arbitrary: b1)
    case (Cons x xs)
    have "cancel_reason (snd (wb_step x b1)) = Some r" using Cons.prems by (rule cancel_sticky)
    then show ?case
      using Cons.IH [of "snd (wb_step x b1)"] by (auto split: prod.splits)
  qed simp
  moreover have "granted = []" using cancelled_run [OF c, of ops] assms(3) by simp
  ultimately show ?thesis using assms(3) by (simp add: ensure_active_def)
qed

theorem budget_cancel_final_witness:
  "ensure_active 9 (snd (run_grants wb_step
      [Cancel (PStr (lit ''late'')), Reserve 1 (PStr []) (PInt 1)]
      (snd (cancel (PStr (lit ''stop''))
        \<lparr>max_attempts = 2, max_input_bytes = 9, max_output_tokens = 9, deadline = 5,
         attempts = 0, input_bytes = 0, output_tokens = 0, cancel_reason = None\<rparr>))))
   = Inl (WorkBudgetExceeded (lit ''stop''))"
proof -
  let ?b = "\<lparr>max_attempts = 2, max_input_bytes = 9, max_output_tokens = 9, deadline = 5,
         attempts = 0, input_bytes = 0, output_tokens = 0, cancel_reason = None\<rparr>"
  let ?ops = "[Cancel (PStr (lit ''late'')), Reserve 1 (PStr []) (PInt 1)]"
  have c: "cancel (PStr (lit ''stop'')) ?b = (Inr (), ?b\<lparr>cancel_reason := Some (lit ''stop'')\<rparr>)"
    by (simp add: cancel_def)
  obtain g b2 where r: "run_grants wb_step ?ops (?b\<lparr>cancel_reason := Some (lit ''stop'')\<rparr>) = (g, b2)"
    by (cases "run_grants wb_step ?ops (?b\<lparr>cancel_reason := Some (lit ''stop'')\<rparr>)")
  show ?thesis using budget_cancel_final [OF c _ r, of 9] c r by simp
qed

text \<open>
  \<open>reserve_attempt\<close> grants exactly when the arguments have their types, the text encodes to
  UTF-8, the budget is neither cancelled nor past its deadline and all three counters have
  room; it then adds one attempt, the byte length and the tokens. When it raises, the budget
  is unchanged.
\<close>

theorem reserve_attempt_spec:
  "(fst (reserve_attempt now (PStr s) (PInt k) b) = Inr () \<longleftrightarrow>
       0 < k \<and> cancel_reason b = None \<and> now < deadline b \<and> attempts b < max_attempts b
       \<and> output_tokens b + k \<le> max_output_tokens b
       \<and> (\<exists>n. utf8_len s = Some n \<and> input_bytes b + int n \<le> max_input_bytes b))
   \<and> snd (reserve_attempt now (PStr s) (PInt k) b) =
       (case (fst (reserve_attempt now (PStr s) (PInt k) b), utf8_len s) of
          (Inr _, Some n) \<Rightarrow> b\<lparr>attempts := attempts b + 1, input_bytes := input_bytes b + int n,
                              output_tokens := output_tokens b + k\<rparr>
        | _ \<Rightarrow> b)"
  by (cases "utf8_len s"; cases "cancel_reason b")
    (auto simp: reserve_attempt_def reserve_locked_def)

end
