(* ===== verification/Lru.thy ===== *)
theory Lru
  imports Prelude
begin

section \<open>Recency-ordered dictionaries\<close>

text \<open>
  The authenticator's decision cache and the session broker both keep an \<open>OrderedDict\<close> whose
  order is recency of use: a write stores the item and moves it to the end, and items are
  popped from the front while there are too many. This theory has that write (\<open>lru_put\<close>), the
  facts that say what survives it, and the contract \<open>bounded_lru\<close> of a component that keeps
  such a dictionary within its capacity.
\<close>

definition lru_put :: "nat \<Rightarrow> 'k \<Rightarrow> 'v \<Rightarrow> ('k, 'v) odict \<Rightarrow> ('k, 'v) odict" where
  "lru_put n k v d = pop_front_until n (move_to_end k (AList.update k v d))"

text \<open>The number of entries used more recently than \<open>k\<close>.\<close>

definition rank :: "'k \<Rightarrow> ('k, 'v) odict \<Rightarrow> nat" where
  "rank k d = length (takeWhile (\<lambda>p. fst p \<noteq> k) (rev d))"

text \<open>The dictionary after a write and before any eviction.\<close>

definition put_list :: "'k \<Rightarrow> 'v \<Rightarrow> ('k, 'v) odict \<Rightarrow> ('k, 'v) odict" where
  "put_list k v d = AList.delete k d @ [(k, v)]"

lemma delete_update: "AList.delete k (AList.update k v d) = AList.delete k d"
  by (induction d) auto

lemma move_update: "move_to_end k (AList.update k v d) = put_list k v d"
  by (simp add: move_to_end_def delete_update put_list_def)

lemma lru_put_eq: "lru_put n k v d = drop (length (put_list k v d) - n) (put_list k v d)"
  by (simp add: lru_put_def move_update pop_front_until_drop)

lemma distinct_keys_put_list [simp]: "distinct_keys d \<Longrightarrow> distinct_keys (put_list k v d)"
  by (auto simp: put_list_def distinct_keys_def AList.delete_eq distinct_map_filter)

lemma map_of_put_list [simp]: "map_of (put_list k v d) = (map_of d)(k \<mapsto> v)"
  by (auto simp: put_list_def map_add_def fun_eq_iff split: option.splits)

lemma distinct_keys_lru_put [simp, od_simps]:
  "distinct_keys d \<Longrightarrow> distinct_keys (lru_put n k v d)"
  by (simp add: lru_put_eq)

lemma length_lru_put [simp]: "length (lru_put n k v d) \<le> n"
  by (simp add: lru_put_def)

lemma takeWhile_neq_rank: "(k, v) \<in> set (rev d) \<Longrightarrow> rank k d < length d"
proof -
  assume m: "(k, v) \<in> set (rev d)"
  then have "takeWhile (\<lambda>p. fst p \<noteq> k) (rev d) \<noteq> rev d"
    by (metis fst_conv set_takeWhileD)
  then show ?thesis
    unfolding rank_def
    by (metis length_rev length_takeWhile_le nat_less_le takeWhile_eq_take take_all_iff order_refl)
qed

lemma nth_in_set_drop: "m \<le> i \<Longrightarrow> i < length d \<Longrightarrow> d ! i \<in> set (drop m d)"
proof -
  assume "m \<le> i" "i < length d"
  then have "drop m d ! (i - m) = d ! i" "i - m < length (drop m d)" by simp_all
  then show ?thesis by (metis nth_mem)
qed

lemma map_of_drop_rank:
  "distinct_keys d \<Longrightarrow> rank k d < n \<Longrightarrow> map_of (drop (length d - n) d) k = map_of d k"
proof -
  assume d: "distinct_keys d" and r: "rank k d < n"
  have tw: "takeWhile (\<lambda>p. fst p \<noteq> k) (rev d) = take (rank k d) (rev d)"
    by (metis rank_def takeWhile_eq_take)
  show ?thesis
  proof (cases "map_of d k")
    case None
    then show ?thesis
      using d map_of_drop_SomeD by (metis not_None_eq)
  next
    case (Some v)
    then have mem: "(k, v) \<in> set (rev d)" by (auto dest: map_of_SomeD)
    then have lt: "rank k d < length d"
      using takeWhile_neq_rank mem by fastforce
    have "fst (rev d ! rank k d) = k"
      using nth_length_takeWhile [of "\<lambda>p. fst p \<noteq> k" "rev d"] lt by (simp add: rank_def)
    then have hit: "fst (d ! (length d - Suc (rank k d))) = k"
      using lt by (simp add: rev_nth)
    have idx: "length d - n \<le> length d - Suc (rank k d)" "length d - Suc (rank k d) < length d"
      using r lt by simp_all
    have "d ! (length d - Suc (rank k d)) \<in> set (drop (length d - n) d)"
      using nth_in_set_drop [OF idx] .
    then obtain v' where "(k, v') \<in> set (drop (length d - n) d)"
      using hit by (metis prod.collapse)
    then have "map_of (drop (length d - n) d) k = Some v'"
      using d by (metis distinct_keys_def distinct_keys_drop map_of_is_SomeI)
    then show ?thesis using d Some map_of_drop_SomeD by (metis option.inject)
  qed
qed

lemma rank_append_self [simp]: "rank k (d @ [(k, v)]) = 0"
  by (simp add: rank_def)

lemma rank_append_other: "k \<noteq> k' \<Longrightarrow> rank k (d @ [(k', v)]) = Suc (rank k d)"
  by (simp add: rank_def)

lemma takeWhile_filter_le:
  "length (takeWhile P (filter Q xs)) \<le> length (takeWhile P xs)" if "\<And>x. \<not> P x \<Longrightarrow> Q x"
  using that by (induction xs) auto

lemma rank_delete_le: "k \<noteq> k' \<Longrightarrow> rank k (AList.delete k' d) \<le> rank k d"
  unfolding rank_def AList.delete_eq rev_filter
  by (rule takeWhile_filter_le) auto

lemma rank_drop_le: "rank k (drop m d) \<le> rank k d"
proof -
  have "length (takeWhile P (take j xs)) \<le> length (takeWhile P xs)" for P :: "'x \<Rightarrow> bool" and j xs
  proof (induction xs arbitrary: j)
    case (Cons x xs)
    then show ?case by (cases j) auto
  qed simp
  then show ?thesis by (simp add: rank_def rev_drop)
qed

lemma rank_put_list_self [simp]: "rank k (put_list k v d) = 0"
  by (simp add: put_list_def)

lemma rank_put_list_other: "k \<noteq> k' \<Longrightarrow> rank k (put_list k' v d) \<le> Suc (rank k d)"
  using rank_delete_le [of k k' d] by (simp add: put_list_def rank_append_other)

lemma rank_lru_put_other: "k \<noteq> k' \<Longrightarrow> rank k (lru_put n k' v d) \<le> Suc (rank k d)"
  unfolding lru_put_eq by (rule order_trans [OF rank_drop_le rank_put_list_other])

lemma rank_move_other: "k \<noteq> k' \<Longrightarrow> rank k (move_to_end k' d) \<le> Suc (rank k d)"
  using rank_put_list_other [of k k' _ d]
  by (auto simp: move_to_end_def put_list_def split: option.splits)

lemma map_of_lru_put_self:
  "distinct_keys d \<Longrightarrow> 0 < n \<Longrightarrow> map_of (lru_put n k v d) k = Some v"
  using map_of_drop_rank [of "put_list k v d" k n] by (simp add: lru_put_eq)

lemma map_of_lru_put_other:
  assumes "distinct_keys d" "k \<noteq> k'" "Suc (rank k d) < n"
  shows "map_of (lru_put n k' v d) k = map_of d k"
  using assms map_of_drop_rank [of "put_list k' v d" k n] rank_put_list_other [of k k' v d]
  by (simp add: lru_put_eq)

lemma map_of_lru_put_SomeD:
  "distinct_keys d \<Longrightarrow> map_of (lru_put n k' v d) k = Some w \<Longrightarrow>
   k = k' \<and> w = v \<or> k \<noteq> k' \<and> map_of d k = Some w"
  using map_of_drop_SomeD [of "put_list k' v d" _ k w]
  by (fastforce simp: lru_put_eq split: if_splits)

subsection \<open>The contract of a bounded store\<close>

locale bounded_lru =
  fixes step :: "'op \<Rightarrow> 's \<Rightarrow> 's"
    and entries :: "'s \<Rightarrow> ('k, 'v) odict"
    and capacity :: "'s \<Rightarrow> nat"
  assumes step_distinct: "distinct_keys (entries s) \<Longrightarrow> distinct_keys (entries (step x s))"
    and step_bound: "distinct_keys (entries s) \<Longrightarrow> length (entries s) \<le> capacity s \<Longrightarrow>
          length (entries (step x s)) \<le> capacity s"
    and step_capacity: "capacity (step x s) = capacity s"
begin

lemma run_capacity: "capacity (fold step xs s) = capacity s"
  by (induction xs arbitrary: s) (simp_all add: step_capacity)

lemma run_distinct: "distinct_keys (entries s) \<Longrightarrow> distinct_keys (entries (fold step xs s))"
  by (induction xs arbitrary: s) (simp_all add: step_distinct)

lemma run_bound:
  "distinct_keys (entries s) \<Longrightarrow> length (entries s) \<le> capacity s \<Longrightarrow>
   length (entries (fold step xs s)) \<le> capacity s"
proof (induction xs arbitrary: s)
  case (Cons x xs)
  then show ?case using Cons.IH [of "step x s"] step_distinct step_bound step_capacity by simp
qed simp

end

end
