(* ===== verification/Ip_Address.thy ===== *)
theory Ip_Address
  imports Prelude
begin

section \<open>IP addresses\<close>

text \<open>
  The part of the standard module \<open>ipaddress\<close> that the sources use: \<open>ip_address\<close> on text,
  \<open>str\<close>/\<open>compressed\<close> of an address and the tests on IPv4 addresses. An address is its list of
  four octets or of eight 16-bit groups (with the scope identifier after \<open>%\<close>).
\<close>

datatype ip = V4 "nat list" | V6 "nat list" "pystr option"

definition parse_octet :: "pystr \<Rightarrow> nat option" where
  "parse_octet s =
     (if s = [] \<or> \<not> list_all is_digit s \<or> 3 < length s \<or> (s \<noteq> [48] \<and> hd s = 48) then None
      else if 255 < dec_value s then None else Some (dec_value s))"

fun omap :: "('a \<Rightarrow> 'b option) \<Rightarrow> 'a list \<Rightarrow> 'b list option" where
  "omap f [] = Some []"
| "omap f (x # xs) = (case (f x, omap f xs) of (Some y, Some ys) \<Rightarrow> Some (y # ys) | _ \<Rightarrow> None)"

definition parse_ipv4 :: "pystr \<Rightarrow> nat list option" where
  "parse_ipv4 s =
     (let parts = split_on 46 s in if length parts \<noteq> 4 then None else omap parse_octet parts)"

definition show_ipv4 :: "nat list \<Rightarrow> pystr" where
  "show_ipv4 os = join [46] (map show_nat os)"

subsection \<open>IPv6\<close>

definition hex_value :: "codepoint \<Rightarrow> nat option" where
  "hex_value c =
     (if is_digit c then Some (c - 48) else if 97 \<le> c \<and> c \<le> 102 then Some (c - 87)
      else if 65 \<le> c \<and> c \<le> 70 then Some (c - 55) else None)"

definition parse_hextet :: "pystr \<Rightarrow> nat option" where
  "parse_hextet s =
     (if s = [] \<or> 4 < length s then None
      else map_option (foldl (\<lambda>a d. 16 * a + d) 0) (omap hex_value s))"

definition hex_digit_lower :: "nat \<Rightarrow> codepoint" where
  "hex_digit_lower n = (if n < 10 then 48 + n else 87 + n)"

fun show_hex :: "nat \<Rightarrow> pystr" where
  "show_hex n = (if n < 16 then [hex_digit_lower n] else show_hex (n div 16) @ [hex_digit_lower (n mod 16)])"

declare show_hex.simps [simp del]

text \<open>The positions of empty groups strictly inside the text; more than one is an error.\<close>

definition inner_empty :: "pystr list \<Rightarrow> nat list" where
  "inner_empty parts = filter (\<lambda>i. parts ! i = []) [1..<length parts - 1]"

definition parse_groups :: "pystr list \<Rightarrow> nat list option" where
  "parse_groups parts =
     (if 9 < length parts then None
      else case inner_empty parts of
        [] \<Rightarrow> if length parts \<noteq> 8 \<or> hd parts = [] \<or> last parts = [] then None else omap parse_hextet parts
      | [k] \<Rightarrow>
          let hi0 = k; lo0 = length parts - k - 1;
              hi = (if hd parts = [] then hi0 - 1 else hi0);
              lo = (if last parts = [] then lo0 - 1 else lo0)
          in if (hd parts = [] \<and> hi \<noteq> 0) \<or> (last parts = [] \<and> lo \<noteq> 0) \<or> 8 < hi + lo + 1 then None
             else (case (omap parse_hextet (take hi parts), omap parse_hextet (drop (length parts - lo) parts)) of
                     (Some h, Some l) \<Rightarrow> Some (h @ replicate (8 - (hi + lo)) 0 @ l)
                   | _ \<Rightarrow> None)
      | _ \<Rightarrow> None)"

definition parse_ipv6_groups :: "pystr \<Rightarrow> nat list option" where
  "parse_ipv6_groups s =
     (let parts = split_on 58 s in
      if s = [] \<or> length parts < 3 then None
      else if 46 \<in> set (last parts)
      then (case parse_ipv4 (last parts) of
              Some [a, b, c, d] \<Rightarrow>
                parse_groups (butlast parts @ [show_hex (256 * a + b), show_hex (256 * c + d)])
            | _ \<Rightarrow> None)
      else parse_groups parts)"

definition parse_ipv6 :: "pystr \<Rightarrow> (nat list \<times> pystr option) option" where
  "parse_ipv6 s =
     (if 47 \<in> set s then None
      else case split1 37 s of
        (addr, None) \<Rightarrow> map_option (\<lambda>g. (g, None)) (parse_ipv6_groups addr)
      | (addr, Some scope) \<Rightarrow>
          if scope = [] \<or> 37 \<in> set scope then None
          else map_option (\<lambda>g. (g, Some scope)) (parse_ipv6_groups addr))"

text \<open>\<open>ip_address(text)\<close>: IPv4 first, then IPv6; \<open>None\<close> is the \<open>ValueError\<close>.\<close>

definition ip_address :: "pystr \<Rightarrow> ip option" where
  "ip_address s =
     (case (if 47 \<in> set s then None else parse_ipv4 s) of
        Some os \<Rightarrow> Some (V4 os)
      | None \<Rightarrow> map_option (\<lambda>(g, scope). V6 g scope) (parse_ipv6 s))"

text \<open>The longest run of zero groups, the leftmost of several: its start and its length.\<close>

fun zero_runs :: "nat \<Rightarrow> nat list \<Rightarrow> nat \<times> nat \<Rightarrow> nat \<Rightarrow> nat \<times> nat" where
  "zero_runs i [] best run = best"
| "zero_runs i (g # gs) best run =
     (if g = 0
      then zero_runs (Suc i) gs (if snd best < Suc run then (i - run, Suc run) else best) (Suc run)
      else zero_runs (Suc i) gs best 0)"

definition compress_groups :: "nat list \<Rightarrow> pystr list" where
  "compress_groups gs =
     (case zero_runs 0 gs (0, 0) 0 of
        (start, len) \<Rightarrow>
          if len \<le> 1 then map show_hex gs
          else (if start = 0 then [[]] else []) @ map show_hex (take start gs) @ [[]]
               @ map show_hex (drop (start + len) gs) @ (if start + len = length gs then [[]] else []))"

fun show_ip :: "ip \<Rightarrow> pystr" where
  "show_ip (V4 os) = show_ipv4 os"
| "show_ip (V6 gs scope) =
     join [58] (compress_groups gs) @ (case scope of None \<Rightarrow> [] | Some s \<Rightarrow> 37 # s)"

fun max_prefixlen :: "ip \<Rightarrow> nat" where
  "max_prefixlen (V4 _) = 32"
| "max_prefixlen (V6 _ _) = 128"

subsection \<open>Facts\<close>

lemma omap_Some_iff: "omap f xs = Some ys \<longleftrightarrow> length ys = length xs \<and> (\<forall>i<length xs. f (xs ! i) = Some (ys ! i))"
proof (induction xs arbitrary: ys)
  case (Cons x xs)
  show ?case
  proof (cases ys)
    case (Cons y ys')
    then show ?thesis using Cons.IH [of ys']
      by (auto simp: nth_Cons less_Suc_eq_0_disj all_conj_distrib split: option.splits nat.splits)
  qed (auto split: option.splits)
qed auto

lemma omap_Some_map: "omap f xs = Some ys \<Longrightarrow> (\<And>x y. f x = Some y \<Longrightarrow> x = g y) \<Longrightarrow> xs = map g ys"
  by (induction xs arbitrary: ys) (auto split: option.splits)

lemma omap_map: "(\<And>y. y \<in> set ys \<Longrightarrow> f (g y) = Some y) \<Longrightarrow> omap f (map g ys) = Some ys"
  by (induction ys) auto

lemma split_on_single: "d \<notin> set x \<Longrightarrow> split_on d x = [x]"
  by (induction x) auto

lemma split_on_append: "d \<notin> set x \<Longrightarrow> split_on d (x @ d # s) = x # split_on d s"
  by (induction x) auto

lemma split_on_join: "xs \<noteq> [] \<Longrightarrow> \<forall>x\<in>set xs. d \<notin> set x \<Longrightarrow> split_on d (join [d] xs) = xs"
  by (induction "[d]" xs rule: join.induct) (auto simp: split_on_single split_on_append)

lemma parse_octet_show: "parse_octet s = Some n \<Longrightarrow> s = show_nat n \<and> n \<le> 255"
  using show_nat_dec_value [of s] by (cases s) (auto simp: parse_octet_def split: if_splits)

lemma length_show_nat_octet: "n \<le> 255 \<Longrightarrow> length (show_nat n) \<le> 3"
  by (simp add: show_nat.simps [of n] show_nat.simps [of "n div 10"] show_nat.simps [of "n div 10 div 10"])

lemma show_nat_hd_zero: "hd (show_nat n) = 48 \<longleftrightarrow> n = 0"
proof (induction n rule: show_nat.induct)
  case (1 n)
  then show ?case
    by (cases "n < 10") (auto simp: show_nat.simps [of n] hd_append show_nat_not_Nil)
qed

lemma parse_octet_show_nat: "n \<le> 255 \<Longrightarrow> parse_octet (show_nat n) = Some n"
  using length_show_nat_octet [of n] show_nat_hd_zero [of n] show_nat_digits [of _ n] show_nat_not_Nil [of n]
  by (auto simp: parse_octet_def list_all_iff show_nat.simps [of 0])

lemma show_nat_no_dot: "46 \<notin> set (show_nat n)"
  using show_nat_digits [of 46 n] by (auto simp: is_digit_def)

definition octets_ok :: "nat list \<Rightarrow> bool" where
  "octets_ok os \<longleftrightarrow> length os = 4 \<and> list_all (\<lambda>n. n \<le> 255) os"

lemma parse_ipv4_Some: "parse_ipv4 s = Some os \<longleftrightarrow> octets_ok os \<and> s = show_ipv4 os"
proof
  assume p: "parse_ipv4 s = Some os"
  then have o: "length (split_on 46 s) = 4" "omap parse_octet (split_on 46 s) = Some os"
    by (auto simp: parse_ipv4_def Let_def split: if_splits)
  then have "split_on 46 s = map show_nat os" using omap_Some_map parse_octet_show by metis
  then have "s = show_ipv4 os" using join_split_on [of 46 s] by (simp add: show_ipv4_def)
  moreover have "octets_ok os"
    using o parse_octet_show unfolding omap_Some_iff octets_ok_def by (metis list_all_length)
  ultimately show "octets_ok os \<and> s = show_ipv4 os" by blast
next
  assume a: "octets_ok os \<and> s = show_ipv4 os"
  then have "split_on 46 s = map show_nat os"
    unfolding show_ipv4_def using split_on_join [of "map show_nat os" 46] show_nat_no_dot
    by (cases os) (auto simp: octets_ok_def show_ipv4_def)
  then show "parse_ipv4 s = Some os"
    using a omap_map [of os parse_octet show_nat] parse_octet_show_nat
    by (simp add: parse_ipv4_def octets_ok_def list_all_iff)
qed

lemma show_ipv4_chars: "c \<in> set (show_ipv4 os) \<Longrightarrow> is_digit c \<or> c = 46"
proof -
  have "c \<in> set (join [46] xs) \<Longrightarrow> c = 46 \<or> (\<exists>x\<in>set xs. c \<in> set x)" for xs :: "pystr list"
    by (induction "[46 :: nat]" xs rule: join.induct) auto
  then show "c \<in> set (show_ipv4 os) \<Longrightarrow> is_digit c \<or> c = 46"
    using show_nat_digits by (fastforce simp: show_ipv4_def)
qed

end
