(* ===== verification/Reader_Session.thy ===== *)
theory Reader_Session
  imports Lru Ip_Address
begin

section \<open>The reader session broker\<close>

text \<open>
  Models \<open>reader_session.py\<close>: cookie parsing, the decoding of signed CWA cookies, the choice of
  the credentials that are forwarded, the probe of the reader authority, and the broker's
  operations \<open>exchange\<close>, \<open>authenticate\<close> and \<open>revoke\<close> over its table of sessions.

  Arguments that stand for what is outside the repository: \<open>cf\<close> is \<open>str.casefold\<close>, \<open>mac\<close> is
  HMAC-SHA-256, \<open>sha\<close> is the hexadecimal SHA-256, \<open>inflate\<close> is zlib's decompressor (result,
  bytes left over, end seen), \<open>loads\<close> is UTF-8 decoding followed by \<open>json.loads\<close>, and
  \<open>authority\<close> is what the HTTP client observes when it sends given headers to the reader, with
  the clock readings made meanwhile. \<open>BrokerConfigError\<close> checks of the constructor, which need
  URL parsing, and the key file are not modelled: a broker is the record they establish.
\<close>

subsection \<open>Data\<close>

datatype broker_error = BrokerRejected | BrokerUnavailable

record session_issue =
  si_token :: pystr
  si_subject :: pystr
  si_expires_in :: nat
  si_set_cookie :: pystr

record session_record =
  sr_subject :: pystr
  sr_expires_at :: real
  sr_address_binding :: bytes
  sr_user_agent_binding :: bytes

datatype reader_type = Cwa | Kavita

fun reader_type_name :: "reader_type \<Rightarrow> pystr" where
  "reader_type_name Cwa = lit ''cwa''"
| "reader_type_name Kavita = lit ''kavita''"

record broker =
  rb_reader_type :: reader_type
  rb_reader_version :: pystr
  rb_authority :: pystr
  rb_public_origin :: pystr
  rb_secure_cookie :: bool
  rb_cookie_name :: pystr
  rb_ttl_seconds :: nat
  rb_max_entries :: nat
  rb_timeout_seconds :: real
  rb_max_response_bytes :: nat
  rb_secret :: bytes
  rb_tenant_key :: bytes
  rb_sessions :: "(bytes, session_record) odict"

type_synonym headers = "(pystr \<times> pystr) list"

text \<open>The request context: \<open>cwa_remote_addr\<close> and \<open>user_agent\<close> of the binding object.\<close>

type_synonym binding = "pyval \<times> pyval"

subsection \<open>Headers and cookies\<close>

fun get_header :: "(pystr \<Rightarrow> pystr) \<Rightarrow> headers \<Rightarrow> pystr \<Rightarrow> pystr" where
  "get_header cf [] name = []"
| "get_header cf ((candidate, v) # hs) name = (if cf candidate = cf name then v else get_header cf hs name)"

definition cookie_name_char :: "codepoint \<Rightarrow> bool" where
  "cookie_name_char c \<longleftrightarrow> is_alnum c \<or> c \<in> set (lit ''!#$%&'' @ [39] @ lit ''*+.^_`|~-'')"

definition cookie_name_ok :: "pystr \<Rightarrow> bool" where
  "cookie_name_ok s \<longleftrightarrow> 1 \<le> length s \<and> length s \<le> 128 \<and> list_all cookie_name_char s"

definition token_char :: "codepoint \<Rightarrow> bool" where
  "token_char c \<longleftrightarrow> is_alnum c \<or> c = 95 \<or> c = 45"

definition token_ok :: "pystr \<Rightarrow> bool" where
  "token_ok s \<longleftrightarrow> 32 \<le> length s \<and> length s \<le> 128 \<and> list_all token_char s"

text \<open>\<open>^chunks-([1-9][0-9]?)$\<close>: the number of chunks, when the text has that form.\<close>

definition chunk_count :: "pystr \<Rightarrow> nat option" where
  "chunk_count s =
     (if prefix (lit ''chunks-'') s
      then (let d = drop 7 s in
            if (length d = 1 \<or> length d = 2) \<and> list_all is_digit d \<and> hd d \<noteq> 48 then Some (dec_value d) else None)
      else None)"

definition unquote :: "pystr \<Rightarrow> pystr" where
  "unquote v = (if 2 \<le> length v \<and> hd v = 34 \<and> last v = 34 then butlast (tl v) else v)"

fun add_cookies :: "pystr list \<Rightarrow> (pystr, pystr) odict \<Rightarrow> (pystr, pystr) odict" where
  "add_cookies [] parsed = parsed"
| "add_cookies (part # parts) parsed =
     (let item = strip part in
      if item = [] \<or> 61 \<notin> set item then add_cookies parts parsed
      else let (n, r) = split1 61 item;
               name = strip n; v = strip (case r of None \<Rightarrow> [] | Some x \<Rightarrow> x)
           in if \<not> cookie_name_ok name \<or> map_of parsed name \<noteq> None then add_cookies parts parsed
              else let v' = unquote v in
                if v' = [] \<or> 8192 < length v' \<or> list_ex is_ctrl v' then add_cookies parts parsed
                else add_cookies parts (parsed @ [(name, v')]))"

definition parse_cookie_header :: "pystr \<Rightarrow> (broker_error, (pystr, pystr) odict) result" where
  "parse_cookie_header raw =
     (if 16384 < length raw \<or> list_ex is_ctrl raw then Inl BrokerRejected
      else if raw = [] then Inr [] else Inr (add_cookies (split_on 59 raw) []))"

text \<open>\<open>_binding_parts\<close>: the canonical address and the tagged user agent, as bytes.\<close>

definition binding_parts :: "binding \<Rightarrow> (broker_error, bytes \<times> bytes) result" where
  "binding_parts b =
     (case fst b of
        PStr address \<Rightarrow>
          if address = [] \<or> 64 < length address \<or> address \<noteq> strip address
             \<or> 44 \<in> set address \<or> 37 \<in> set address then Inl BrokerRejected
          else (case ip_address address of
                  None \<Rightarrow> Inl BrokerRejected
                | Some ip \<Rightarrow>
                    (case snd b of
                       PNone \<Rightarrow> Inr (show_ip ip, [0])
                     | PStr ua \<Rightarrow>
                         if list_ex is_ctrl ua \<or> list_ex (\<lambda>c. 255 < c) ua \<or> 4096 < length ua
                         then Inl BrokerRejected else Inr (show_ip ip, 1 # ua)
                     | _ \<Rightarrow> Inl BrokerRejected))
      | _ \<Rightarrow> Inl BrokerRejected)"

subsection \<open>Signed CWA cookies\<close>

definition b64_value :: "codepoint \<Rightarrow> nat option" where
  "b64_value c =
     (if is_upper c then Some (c - 65) else if is_lower c then Some (c - 71)
      else if is_digit c then Some (c + 4)
      else if c = 43 \<or> c = 45 then Some 62 else if c = 47 \<or> c = 95 then Some 63 else None)"

text \<open>
  The lenient base64 decoder (after the URL-safe translation): characters outside the alphabet
  are skipped, a padding that completes a group ends the input, an incomplete group raises.
  The arguments are the position in the group, the padding seen and the bits left over.
\<close>

fun b64_scan :: "nat \<Rightarrow> nat \<Rightarrow> nat \<Rightarrow> pystr \<Rightarrow> bytes option" where
  "b64_scan q pads left [] = (if q = 0 then Some [] else None)"
| "b64_scan q pads left (c # cs) =
     (if c = 61 then (if 2 \<le> q then (if 4 \<le> q + Suc pads then Some [] else b64_scan q (Suc pads) left cs)
                      else b64_scan q pads left cs)
      else case b64_value c of
        None \<Rightarrow> b64_scan q pads left cs
      | Some v \<Rightarrow>
          if q = 0 then b64_scan 1 0 v cs
          else if q = 1 then map_option ((#) (4 * left + v div 16)) (b64_scan 2 0 (v mod 16) cs)
          else if q = 2 then map_option ((#) (16 * left + v div 4)) (b64_scan 3 0 (v mod 4) cs)
          else map_option ((#) (64 * left + v)) (b64_scan 0 0 0 cs))"

definition urlsafe_b64decode :: "pystr \<Rightarrow> bytes option" where
  "urlsafe_b64decode s = (if is_ascii s then b64_scan 0 0 0 s else None)"

definition signed_cookie_payload ::
  "(bytes \<Rightarrow> nat \<Rightarrow> (bytes \<times> bool \<times> bool) option) \<Rightarrow> (bytes \<Rightarrow> pyval option) \<Rightarrow> pystr \<Rightarrow> pyval option" where
  "signed_cookie_payload inflate loads v =
     (let compressed = (v \<noteq> [] \<and> hd v = 46);
          segment = fst (split1 46 (if compressed then tl v else v))
      in if segment = [] then None
         else case urlsafe_b64decode (segment @ replicate ((4 - length segment mod 4) mod 4) 61) of
           None \<Rightarrow> None
         | Some raw \<Rightarrow>
             (case (if compressed
                    then (case inflate raw 65536 of
                            None \<Rightarrow> None
                          | Some (out, tail_left, eof) \<Rightarrow> if tail_left \<or> \<not> eof then None else Some out)
                    else Some raw) of
                None \<Rightarrow> None
              | Some payload \<Rightarrow> if 65536 < length payload then None else loads payload))"

definition user_id_ok :: "pystr \<Rightarrow> bool" where
  "user_id_ok s \<longleftrightarrow> s \<noteq> [] \<and> length s \<le> 19 \<and> list_all is_digit s \<and> hd s \<noteq> 48"

definition cwa_cookie_user ::
  "(bytes \<Rightarrow> nat \<Rightarrow> (bytes \<times> bool \<times> bool) option) \<Rightarrow> (bytes \<Rightarrow> pyval option) \<Rightarrow> pystr \<Rightarrow> pystr \<Rightarrow> pystr option" where
  "cwa_cookie_user inflate loads name v =
     (case signed_cookie_payload inflate loads v of
        Some (PDict d) \<Rightarrow>
          (case map_of d (if name = lit ''session'' then lit ''_user_id'' else lit ''user'') of
             Some (PInt i) \<Rightarrow> if user_id_ok (show_int i) then Some (show_int i) else None
           | Some (PStr s) \<Rightarrow> if user_id_ok s then Some s else None
           | _ \<Rightarrow> None)
      | _ \<Rightarrow> None)"

subsection \<open>Probing the reader authority\<close>

datatype json_out = JsonOk pyval | JsonInvalid | JsonFailed

text \<open>One item of the streamed body: the clock reading and its bytes, or another object.\<close>

datatype chunk = Chunk real bytes | BadChunk real | StreamFailed

record reply =
  rp_received :: real
  rp_status :: int
  rp_content_type :: pystr
  rp_content_length :: pystr
  rp_chunks :: "chunk list"

text \<open>A probe starts at a clock reading; the client raises (\<open>None\<close>) or gets a reply.\<close>

type_synonym probe_io = "real \<times> reply option"
type_synonym out_headers = "(pystr \<times> pystr option) list"

fun read_chunks :: "nat \<Rightarrow> real \<Rightarrow> bytes \<Rightarrow> chunk list \<Rightarrow> (broker_error, bytes) result" where
  "read_chunks limit deadline payload [] = Inr payload"
| "read_chunks limit deadline payload (StreamFailed # cs) = Inl BrokerUnavailable"
| "read_chunks limit deadline payload (BadChunk now # cs) = Inl BrokerUnavailable"
| "read_chunks limit deadline payload (Chunk now bs # cs) =
     (if deadline \<le> now \<or> limit < length payload + length bs then Inl BrokerUnavailable
      else read_chunks limit deadline (payload @ bs) cs)"

definition read_bounded_json ::
  "(pystr \<Rightarrow> pystr) \<Rightarrow> (bytes \<Rightarrow> json_out) \<Rightarrow> nat \<Rightarrow> real \<Rightarrow> reply \<Rightarrow> (broker_error, pyval) result" where
  "read_bounded_json cf loads limit deadline r =
     (if cf (strip (fst (split1 59 (rp_content_type r)))) \<noteq> lit ''application/json'' then Inl BrokerRejected
      else let declared = strip (rp_content_length r) in
      if declared \<noteq> [] \<and> (case parse_int10 declared of None \<Rightarrow> True | Some n \<Rightarrow> n < 0 \<or> int limit < n)
      then Inl BrokerUnavailable
      else rbind (read_chunks limit deadline [] (rp_chunks r)) (\<lambda>payload.
        case loads payload of JsonOk v \<Rightarrow> Inr v | JsonInvalid \<Rightarrow> Inl BrokerRejected | JsonFailed \<Rightarrow> Inl BrokerUnavailable))"

fun all_dicts :: "pyval list \<Rightarrow> bool" where
  "all_dicts [] = True"
| "all_dicts (PDict _ # vs) = all_dicts vs"
| "all_dicts (_ # vs) = False"

text \<open>What an accepted body says about the identity.\<close>

definition probe_identity :: "(pystr \<Rightarrow> pystr) \<Rightarrow> broker \<Rightarrow> headers \<Rightarrow> pyval \<Rightarrow> (broker_error, pystr) result" where
  "probe_identity sha rb credentials payload =
     (case rb_reader_type rb of
        Cwa \<Rightarrow>
          (case payload of
             PList vs \<Rightarrow>
               if \<not> all_dicts vs then Inl BrokerRejected
               else (case map_of credentials (lit ''Cookie'') of
                       Some material \<Rightarrow> if is_ascii material then Inr (sha material) else Inl BrokerUnavailable
                     | None \<Rightarrow> Inl BrokerUnavailable)
           | _ \<Rightarrow> Inl BrokerRejected)
      | Kavita \<Rightarrow>
          (case payload of
             PDict d \<Rightarrow>
               (case (map_of d (lit ''id''), map_of d (lit ''kavitaVersion'')) of
                  (Some (PInt i), Some (PStr version)) \<Rightarrow>
                    if i \<le> 0 \<or> version \<noteq> rb_reader_version rb then Inl BrokerRejected else Inr (show_int i)
                | _ \<Rightarrow> Inl BrokerRejected)
           | _ \<Rightarrow> Inl BrokerRejected))"

definition probe_headers :: "headers \<Rightarrow> bytes \<Rightarrow> bytes \<Rightarrow> out_headers" where
  "probe_headers credentials address ua =
     map (\<lambda>(n, v). (n, Some v)) ((lit ''Accept'', lit ''application/json'') # credentials)
     @ [(lit ''X-Forwarded-For'', Some address),
        (lit ''User-Agent'', if ua = [0] then None else Some (tl ua))]"

definition probe ::
  "(pystr \<Rightarrow> pystr) \<Rightarrow> (pystr \<Rightarrow> pystr) \<Rightarrow> (bytes \<Rightarrow> json_out) \<Rightarrow> (out_headers \<Rightarrow> probe_io)
   \<Rightarrow> broker \<Rightarrow> headers \<Rightarrow> binding \<Rightarrow> (broker_error, pystr) result" where
  "probe cf sha loads authority rb credentials b =
     rbind (binding_parts b) (\<lambda>(address, ua).
       let (start, answer) = authority (probe_headers credentials address ua);
           deadline = start + rb_timeout_seconds rb
       in case answer of
            None \<Rightarrow> Inl BrokerUnavailable
          | Some r \<Rightarrow>
              if deadline \<le> rp_received r then Inl BrokerUnavailable
              else if rp_status r \<noteq> 200
              then (if rp_status r = 401 \<or> rp_status r = 403 \<or> (300 \<le> rp_status r \<and> rp_status r < 400)
                    then Inl BrokerRejected else Inl BrokerUnavailable)
              else rbind (read_bounded_json cf loads (rb_max_response_bytes rb) deadline r)
                     (probe_identity sha rb credentials))"

subsection \<open>The broker\<close>

definition keyed_mac :: "(bytes \<Rightarrow> bytes \<Rightarrow> bytes) \<Rightarrow> broker \<Rightarrow> bytes \<Rightarrow> bytes \<Rightarrow> bytes" where
  "keyed_mac mac rb label v = mac (rb_secret rb) (label @ 0 # v)"

definition token_digest :: "(bytes \<Rightarrow> bytes \<Rightarrow> bytes) \<Rightarrow> broker \<Rightarrow> pystr \<Rightarrow> bytes" where
  "token_digest mac rb token = keyed_mac mac rb (lit ''token'') token"

definition utf8_char :: "codepoint \<Rightarrow> bytes" where
  "utf8_char c =
     (if c < 128 then [c]
      else if c < 2048 then [192 + c div 64, 128 + c mod 64]
      else if c < 65536 then [224 + c div 4096, 128 + c div 64 mod 64, 128 + c mod 64]
      else [240 + c div 262144, 128 + c div 4096 mod 64, 128 + c div 64 mod 64, 128 + c mod 64])"

definition utf8 :: "pystr \<Rightarrow> bytes" where
  "utf8 s = concat (map utf8_char s)"

definition hex_bytes :: "bytes \<Rightarrow> pystr" where
  "hex_bytes bs = concat (map (\<lambda>b. [hex_digit_lower (b div 16), hex_digit_lower (b mod 16)]) bs)"

text \<open>\<open>_authority_identity(auth_url)\<close> is the field \<open>rb_authority\<close>, a text without surrogates.\<close>

definition subject_material :: "broker \<Rightarrow> pystr \<Rightarrow> bytes" where
  "subject_material rb identity =
     lit ''subject'' @ 0 # utf8 (join [0] [reader_type_name (rb_reader_type rb), rb_authority rb, identity])"

definition subject :: "(bytes \<Rightarrow> bytes \<Rightarrow> bytes) \<Rightarrow> broker \<Rightarrow> pystr \<Rightarrow> pystr" where
  "subject mac rb identity =
     lit ''reader-session:'' @ reader_type_name (rb_reader_type rb) @ 58 #
     hex_bytes (mac (rb_tenant_key rb) (subject_material rb identity))"

definition validate_origin :: "(pystr \<Rightarrow> pystr) \<Rightarrow> broker \<Rightarrow> headers \<Rightarrow> (broker_error, unit) result" where
  "validate_origin cf rb hs =
     (let origin = get_header cf hs (lit ''Origin'');
          fetch_site = get_header cf hs (lit ''Sec-Fetch-Site'')
      in if origin = [] \<or> origin \<noteq> rb_public_origin rb then Inl BrokerRejected
         else if fetch_site \<noteq> [] \<and> fetch_site \<noteq> lit ''same-origin'' then Inl BrokerRejected
         else Inr ())"

definition cookie_text :: "pystr \<times> pystr \<Rightarrow> pystr" where
  "cookie_text nv = fst nv @ 61 # snd nv"

definition kavita_cookie :: pystr where
  "kavita_cookie = lit ''.AspNetCore.Cookies''"

definition chunk_name :: "nat \<Rightarrow> pystr" where
  "chunk_name i = kavita_cookie @ 67 # show_nat i"

definition bearer_of :: "pystr \<Rightarrow> (broker_error, pystr) result" where
  "bearer_of authorization =
     (if authorization = [] then Inr []
      else if 8192 < length authorization \<or> \<not> prefix (lit ''Bearer '') authorization
              \<or> length (filter (\<lambda>c. c = 32) authorization) \<noteq> 1 then Inl BrokerRejected
      else let bearer = drop 7 authorization in
        if bearer = [] \<or> list_ex (\<lambda>c. c < 33 \<or> 126 < c) bearer then Inl BrokerRejected else Inr bearer)"

definition pick :: "(pystr, pystr) odict \<Rightarrow> pystr list \<Rightarrow> headers" where
  "pick cookies names = concat (map (\<lambda>n. case map_of cookies n of None \<Rightarrow> [] | Some v \<Rightarrow> [(n, v)]) names)"

definition cookie_header :: "headers \<Rightarrow> headers" where
  "cookie_header cs = [(lit ''Cookie'', join (lit ''; '') (map cookie_text cs))]"

definition kavita_credentials :: "(pystr, pystr) odict \<Rightarrow> pystr \<Rightarrow> (broker_error, headers) result" where
  "kavita_credentials cookies bearer =
     (let oidc = filter (\<lambda>n. n = kavita_cookie \<or> prefix (kavita_cookie @ [67]) n) (map fst cookies) in
      if bearer \<noteq> [] \<and> oidc \<noteq> [] then Inl BrokerRejected
      else if bearer \<noteq> [] then Inr [(lit ''Authorization'', lit ''Bearer '' @ bearer)]
      else case map_of cookies kavita_cookie of
        None \<Rightarrow> Inl BrokerRejected
      | Some base \<Rightarrow>
          (case chunk_count base of
             Some n \<Rightarrow>
               if 16 < n then Inl BrokerRejected
               else let names = kavita_cookie # map chunk_name [1..<Suc n] in
                 if set oidc \<noteq> set names then Inl BrokerRejected
                 else Inr (cookie_header (pick cookies names))
           | None \<Rightarrow>
               if set oidc \<noteq> {kavita_cookie} then Inl BrokerRejected
               else Inr (cookie_header (pick cookies [kavita_cookie]))))"

definition credentials ::
  "(pystr \<Rightarrow> pystr) \<Rightarrow> broker \<Rightarrow> headers \<Rightarrow> (broker_error, headers \<times> pystr option) result" where
  "credentials cf rb hs =
     (let authorization = get_header cf hs (lit ''Authorization'') in
      rbind (parse_cookie_header (get_header cf hs (lit ''Cookie''))) (\<lambda>all.
        let prior = map_of all (rb_cookie_name rb);
            cookies = AList.delete (rb_cookie_name rb) all
        in case rb_reader_type rb of
             Cwa \<Rightarrow>
               if authorization \<noteq> [] \<or> cookies = [] then Inl BrokerRejected
               else let ordered = pick cookies [lit ''session'', lit ''remember_token''] in
                 if ordered = [] then Inl BrokerRejected
                 else Inr (cookie_header ordered, prior)
           | Kavita \<Rightarrow>
               rbind (bearer_of authorization) (\<lambda>bearer.
                 rbind (kavita_credentials cookies bearer) (\<lambda>c. Inr (c, prior)))))"

text \<open>\<open>_probe_cwa\<close>: the loop returns an identity, fails, or yields the names it tried.\<close>

fun probe_users ::
  "(pystr \<times> pystr \<Rightarrow> pystr option) \<Rightarrow> (headers \<Rightarrow> (broker_error, pystr) result) \<Rightarrow> headers \<Rightarrow> pystr list
   \<Rightarrow> (broker_error, pystr) result + pystr list" where
  "probe_users user pr [] tried = Inr tried"
| "probe_users user pr (c # cs) tried =
     (case user c of
        None \<Rightarrow> probe_users user pr cs tried
      | Some u \<Rightarrow>
          (case pr [(lit ''Cookie'', cookie_text c)] of
             Inl BrokerRejected \<Rightarrow> probe_users user pr cs (fst c # tried)
           | Inl BrokerUnavailable \<Rightarrow> Inl (Inl BrokerUnavailable)
           | Inr _ \<Rightarrow> Inl (Inr (lit ''cwa-user:'' @ u))))"

definition probe_cwa ::
  "(pystr \<times> pystr \<Rightarrow> pystr option) \<Rightarrow> (headers \<Rightarrow> (broker_error, pystr) result) \<Rightarrow> headers
   \<Rightarrow> (broker_error, pystr) result" where
  "probe_cwa user pr creds =
     rbind (parse_cookie_header (case map_of creds (lit ''Cookie'') of None \<Rightarrow> [] | Some c \<Rightarrow> c)) (\<lambda>cookies.
       case probe_users user pr cookies [] of
         Inl res \<Rightarrow> res
       | Inr tried \<Rightarrow> if set (map fst cookies) \<subseteq> set tried then Inl BrokerRejected else pr creds)"

text \<open>The oracles an exchange consults: case folding, hashes, decoders and the authority.\<close>

record oracles =
  or_cf :: "pystr \<Rightarrow> pystr"
  or_sha :: "pystr \<Rightarrow> pystr"
  or_mac :: "bytes \<Rightarrow> bytes \<Rightarrow> bytes"
  or_inflate :: "bytes \<Rightarrow> nat \<Rightarrow> (bytes \<times> bool \<times> bool) option"
  or_loads :: "bytes \<Rightarrow> json_out"

definition loads_opt :: "(bytes \<Rightarrow> json_out) \<Rightarrow> bytes \<Rightarrow> pyval option" where
  "loads_opt loads bs = (case loads bs of JsonOk v \<Rightarrow> Some v | _ \<Rightarrow> None)"

definition upstream_identity ::
  "oracles \<Rightarrow> (out_headers \<Rightarrow> probe_io) \<Rightarrow> broker \<Rightarrow> headers \<Rightarrow> binding \<Rightarrow> (broker_error, pystr) result" where
  "upstream_identity orc authority rb creds b =
     (let pr = (\<lambda>c. probe (or_cf orc) (or_sha orc) (or_loads orc) authority rb c b) in
      case rb_reader_type rb of
        Cwa \<Rightarrow> probe_cwa (\<lambda>(n, v). cwa_cookie_user (or_inflate orc) (loads_opt (or_loads orc)) n v) pr creds
      | Kavita \<Rightarrow> pr creds)"

definition session_flags :: "broker \<Rightarrow> pystr \<Rightarrow> nat \<Rightarrow> pystr" where
  "session_flags rb token age =
     join (lit ''; '') ([rb_cookie_name rb @ 61 # token, lit ''Path=/'', lit ''Max-Age='' @ show_nat age,
                         lit ''HttpOnly'', lit ''SameSite=Strict''] @ (if rb_secure_cookie rb then [lit ''Secure''] else []))"

definition clear_cookie :: "broker \<Rightarrow> pystr" where
  "clear_cookie rb = session_flags rb [] 0"

text \<open>The critical section of \<open>exchange\<close>: drop the prior session, store, expire, evict.\<close>

definition store_session ::
  "nat \<Rightarrow> real \<Rightarrow> bytes option \<Rightarrow> bytes \<Rightarrow> session_record \<Rightarrow> (bytes, session_record) odict \<Rightarrow> (bytes, session_record) odict" where
  "store_session n now prior digest r sessions =
     (let s1 = (case prior of None \<Rightarrow> sessions | Some p \<Rightarrow> AList.delete p sessions);
          s2 = move_to_end digest (AList.update digest r s1);
          s3 = filter (\<lambda>p. \<not> sr_expires_at (snd p) \<le> now) s2
      in pop_front_until n s3)"

definition exchange ::
  "oracles \<Rightarrow> (out_headers \<Rightarrow> probe_io) \<Rightarrow> pyval \<Rightarrow> real \<Rightarrow> headers \<Rightarrow> binding \<Rightarrow> broker
   \<Rightarrow> (broker_error, session_issue) result \<times> broker" where
  "exchange orc authority new_token now hs b rb =
     (case rbind (validate_origin (or_cf orc) rb hs) (\<lambda>_.
             rbind (credentials (or_cf orc) rb hs) (\<lambda>(creds, prior).
             rbind (upstream_identity orc authority rb creds b) (\<lambda>identity.
             rbind (binding_parts b) (\<lambda>(address, ua).
               case new_token of
                 PStr token \<Rightarrow> if token_ok token then Inr (token, prior, subject (or_mac orc) rb identity, address, ua)
                              else Inl BrokerUnavailable
               | _ \<Rightarrow> Inl BrokerUnavailable)))) of
        Inl e \<Rightarrow> (Inl e, rb)
      | Inr (token, prior, subj, address, ua) \<Rightarrow>
          let r = \<lparr>sr_subject = subj, sr_expires_at = now + real (rb_ttl_seconds rb),
                   sr_address_binding = keyed_mac (or_mac orc) rb (lit ''address'') address,
                   sr_user_agent_binding = keyed_mac (or_mac orc) rb (lit ''user-agent'') ua\<rparr>;
              old = (case prior of Some p \<Rightarrow> if token_ok p then Some (token_digest (or_mac orc) rb p) else None
                               | None \<Rightarrow> None)
          in (Inr \<lparr>si_token = token, si_subject = subj, si_expires_in = rb_ttl_seconds rb,
                   si_set_cookie = session_flags rb token (rb_ttl_seconds rb)\<rparr>,
              rb\<lparr>rb_sessions := store_session (rb_max_entries rb) now old
                   (token_digest (or_mac orc) rb token) r (rb_sessions rb)\<rparr>))"

text \<open>The token of a request that carries the session cookie and nothing else.\<close>

definition presented_token :: "(pystr \<Rightarrow> pystr) \<Rightarrow> broker \<Rightarrow> headers \<Rightarrow> (broker_error, pystr) result" where
  "presented_token cf rb hs =
     rbind (parse_cookie_header (get_header cf hs (lit ''Cookie''))) (\<lambda>cookies.
       if set (map fst cookies) \<noteq> {rb_cookie_name rb} then Inl BrokerRejected
       else case map_of cookies (rb_cookie_name rb) of
              Some token \<Rightarrow> Inr token | None \<Rightarrow> Inl BrokerRejected)"

definition authenticate ::
  "oracles \<Rightarrow> real \<Rightarrow> headers \<Rightarrow> binding \<Rightarrow> broker \<Rightarrow> (broker_error, pystr) result \<times> broker" where
  "authenticate orc now hs b rb =
     (if get_header (or_cf orc) hs (lit ''Authorization'') \<noteq> [] then (Inl BrokerRejected, rb)
      else case rbind (presented_token (or_cf orc) rb hs) (\<lambda>token.
                  if token_ok token then rbind (binding_parts b) (\<lambda>p. Inr (token, p)) else Inl BrokerRejected) of
        Inl e \<Rightarrow> (Inl e, rb)
      | Inr (token, address, ua) \<Rightarrow>
          let digest = token_digest (or_mac orc) rb token in
          (case map_of (rb_sessions rb) digest of
             None \<Rightarrow> (Inl BrokerRejected, rb\<lparr>rb_sessions := AList.delete digest (rb_sessions rb)\<rparr>)
           | Some r \<Rightarrow>
               if sr_expires_at r \<le> now
               then (Inl BrokerRejected, rb\<lparr>rb_sessions := AList.delete digest (rb_sessions rb)\<rparr>)
               else if sr_address_binding r \<noteq> keyed_mac (or_mac orc) rb (lit ''address'') address
                       \<or> sr_user_agent_binding r \<noteq> keyed_mac (or_mac orc) rb (lit ''user-agent'') ua
               then (Inl BrokerRejected, rb)
               else (Inr (sr_subject r), rb\<lparr>rb_sessions := move_to_end digest (rb_sessions rb)\<rparr>)))"

definition remove_token :: "oracles \<Rightarrow> pystr \<Rightarrow> broker \<Rightarrow> broker" where
  "remove_token orc token rb =
     (if token_ok token
      then rb\<lparr>rb_sessions := AList.delete (token_digest (or_mac orc) rb token) (rb_sessions rb)\<rparr> else rb)"

definition revoke :: "oracles \<Rightarrow> real \<Rightarrow> headers \<Rightarrow> binding \<Rightarrow> broker \<Rightarrow> (broker_error, unit) result \<times> broker" where
  "revoke orc now hs b rb =
     (case parse_cookie_header (get_header (or_cf orc) hs (lit ''Cookie'')) of
        Inl e \<Rightarrow> (Inl e, rb)
      | Inr cookies \<Rightarrow>
          if cookies = [] then (Inr (), rb)
          else (case presented_token (or_cf orc) rb hs of
                  Inl e \<Rightarrow> (Inl e, rb)
                | Inr token \<Rightarrow>
                    if token_ok token
                    then (case authenticate orc now hs b rb of
                            (Inl e, rb1) \<Rightarrow> (Inl e, rb1)
                          | (Inr _, rb1) \<Rightarrow> (Inr (), remove_token orc token rb1))
                    else (Inr (), rb)))"

end
