(* ===== verification/Url.thy ===== *)
theory Url
  imports Ip_Address
begin

section \<open>Splitting URLs\<close>

text \<open>
  Models \<open>urllib.parse.urlsplit\<close> and the attributes \<open>username\<close>, \<open>password\<close>, \<open>hostname\<close> and
  \<open>port\<close> of its result, as the Python 3.11 of the image has them. \<open>None\<close> is the \<open>ValueError\<close>
  of a malformed URL. The Unicode tables (\<open>str.lower\<close> and NFKC normalization) are arguments.
\<close>

record unicode_ops =
  uo_lower :: "pystr \<Rightarrow> pystr"
  uo_nfkc :: "pystr \<Rightarrow> pystr"

record url_parts =
  u_scheme :: pystr
  u_netloc :: pystr
  u_path :: pystr
  u_query :: pystr
  u_fragment :: pystr

definition scheme_char :: "codepoint \<Rightarrow> bool" where
  "scheme_char c \<longleftrightarrow> is_alnum c \<or> c = 43 \<or> c = 45 \<or> c = 46"

text \<open>\<open>partition\<close> and \<open>rpartition\<close>: before, whether the separator was found, after.\<close>

definition partition_at :: "codepoint \<Rightarrow> pystr \<Rightarrow> pystr \<times> bool \<times> pystr" where
  "partition_at d s =
     (case split1 d s of (a, None) \<Rightarrow> (a, False, []) | (a, Some b) \<Rightarrow> (a, True, b))"

definition rpartition_at :: "codepoint \<Rightarrow> pystr \<Rightarrow> pystr \<times> bool \<times> pystr" where
  "rpartition_at d s =
     (case split1 d (rev s) of
        (a, None) \<Rightarrow> ([], False, s) | (a, Some b) \<Rightarrow> (rev b, True, rev a))"

text \<open>\<open>_check_bracketed_host\<close>: an \<open>IPvFuture\<close> address or an IPv6 address.\<close>

definition bracketed_host_ok :: "pystr \<Rightarrow> bool" where
  "bracketed_host_ok h =
     (if prefix [118] h
      then (case partition_at 46 (drop 1 h) of (hex, dot, rest) \<Rightarrow>
              dot \<and> hex \<noteq> [] \<and> list_all (\<lambda>c. hex_value c \<noteq> None) hex \<and> rest \<noteq> [] \<and> 10 \<notin> set rest)
      else (case ip_address h of Some (V6 _ _) \<Rightarrow> True | _ \<Rightarrow> False))"

text \<open>\<open>_check_bracketed_netloc\<close>.\<close>

definition bracketed_netloc_ok :: "pystr \<Rightarrow> bool" where
  "bracketed_netloc_ok netloc =
     (let hp = snd (snd (rpartition_at 64 netloc)) in
      case partition_at 91 hp of (before, open_br, bracketed) \<Rightarrow>
        if open_br
        then (case partition_at 93 bracketed of (host, _, port) \<Rightarrow>
                before = [] \<and> (port = [] \<or> hd port = 58) \<and> bracketed_host_ok host)
        else bracketed_host_ok (fst (partition_at 58 hp)))"

definition netloc_brackets_ok :: "pystr \<Rightarrow> bool" where
  "netloc_brackets_ok netloc \<longleftrightarrow>
     (91 \<in> set netloc \<longleftrightarrow> 93 \<in> set netloc) \<and> (91 \<in> set netloc \<longrightarrow> bracketed_netloc_ok netloc)"

text \<open>\<open>_checknetloc\<close>: compatibility characters must not turn into delimiters.\<close>

definition netloc_nfkc_ok :: "unicode_ops \<Rightarrow> pystr \<Rightarrow> bool" where
  "netloc_nfkc_ok uo netloc =
     (if netloc = [] \<or> is_ascii netloc then True
      else let n = filter (\<lambda>c. c \<notin> {64, 58, 35, 63}) netloc; n2 = uo_nfkc uo n
           in n = n2 \<or> list_all (\<lambda>c. c \<notin> set n2) [47, 63, 35, 64, 58])"

definition split_scheme :: "pystr \<Rightarrow> pystr \<times> pystr" where
  "split_scheme url =
     (case partition_at 58 url of (s, colon, rest) \<Rightarrow>
        if colon \<and> s \<noteq> [] \<and> (is_upper (hd s) \<or> is_lower (hd s)) \<and> list_all scheme_char s
        then (ascii_lower s, rest) else ([], url))"

definition split_netloc :: "pystr \<Rightarrow> pystr \<times> pystr" where
  "split_netloc url =
     (if take 2 url = [47, 47]
      then let body = drop 2 url; stop = (\<lambda>c. c \<noteq> 47 \<and> c \<noteq> 63 \<and> c \<noteq> 35)
           in (takeWhile stop body, dropWhile stop body)
      else ([], url))"

definition urlsplit :: "unicode_ops \<Rightarrow> pystr \<Rightarrow> url_parts option" where
  "urlsplit uo raw =
     (let url = filter (\<lambda>c. c \<notin> {9, 10, 13}) (dropWhile (\<lambda>c. c \<le> 32) raw);
          (scheme, r1) = split_scheme url;
          (netloc, r2) = split_netloc r1;
          (r3, _, fragment) = partition_at 35 r2;
          (path, _, query) = partition_at 63 r3
      in if netloc_brackets_ok netloc \<and> netloc_nfkc_ok uo netloc
         then Some \<lparr>u_scheme = scheme, u_netloc = netloc, u_path = path, u_query = query, u_fragment = fragment\<rparr>
         else None)"

subsection \<open>Attributes of the result\<close>

definition url_username :: "url_parts \<Rightarrow> pystr option" where
  "url_username u =
     (case rpartition_at 64 (u_netloc u) of (info, found, _) \<Rightarrow>
        if found then Some (fst (partition_at 58 info)) else None)"

definition url_password :: "url_parts \<Rightarrow> pystr option" where
  "url_password u =
     (case rpartition_at 64 (u_netloc u) of (info, found, _) \<Rightarrow>
        case partition_at 58 info of (_, have, pw) \<Rightarrow> if found \<and> have then Some pw else None)"

definition hostinfo :: "url_parts \<Rightarrow> pystr \<times> pystr" where
  "hostinfo u =
     (let hp = snd (snd (rpartition_at 64 (u_netloc u))) in
      case partition_at 91 hp of (_, open_br, bracketed) \<Rightarrow>
        if open_br
        then (case partition_at 93 bracketed of (host, _, port) \<Rightarrow> (host, snd (snd (partition_at 58 port))))
        else (case partition_at 58 hp of (host, _, port) \<Rightarrow> (host, port)))"

text \<open>The host name in lower case up to a zone identifier; \<open>None\<close> when it is missing.\<close>

definition url_hostname :: "unicode_ops \<Rightarrow> url_parts \<Rightarrow> pystr option" where
  "url_hostname uo u =
     (let host = fst (hostinfo u) in
      if host = [] then None
      else case partition_at 37 host of (name, percent, zone) \<Rightarrow>
             Some (uo_lower uo name @ (if percent then [37] else []) @ zone))"

text \<open>\<open>Inl ()\<close> is the \<open>ValueError\<close> of a port that is not a number below 65536.\<close>

definition url_port :: "url_parts \<Rightarrow> (unit, nat option) result" where
  "url_port u =
     (let port = snd (hostinfo u) in
      if port = [] then Inr None
      else if \<not> list_all is_digit port then Inl ()
      else if int_max_str_digits < length port then Inl ()
      else if dec_value port \<le> 65535 then Inr (Some (dec_value port)) else Inl ())"

definition chat_path :: pystr where
  "chat_path = lit ''/v1/chat/completions''"

end
