(* ===== verification/Broker_Config.thy ===== *)
theory Broker_Config
  imports Reader_Session Url Config
begin

section \<open>Configuring the session broker\<close>

text \<open>
  Models the constructor of \<open>ReaderSessionBroker\<close> in \<open>reader_session.py\<close> and the validators it
  uses: the public origin, the URL of the reader authority, its canonical identity, and the
  numeric settings. The conversion of a setting to a float is an argument (\<open>None\<close> when it
  raises); the key file of \<open>load_or_create_session_key\<close> is outside the model.
\<close>

subsection \<open>Model\<close>

type_synonym config_error = pystr

definition kavita_versions :: "pystr list" where
  "kavita_versions = [lit ''0.9.0.2'', lit ''0.9.1.4'']"

definition is_hex_lower :: "codepoint \<Rightarrow> bool" where
  "is_hex_lower c \<longleftrightarrow> is_digit c \<or> 97 \<le> c \<and> c \<le> 102"

text \<open>\<open>_CONNECTOR_RE\<close>: a lower-case UUID of version 1 to 5.\<close>

definition connector_ok :: "pystr \<Rightarrow> bool" where
  "connector_ok s \<longleftrightarrow>
     (let parts = split_on 45 s in
      map length parts = [8, 4, 4, 4, 12] \<and> list_all (list_all is_hex_lower) parts
      \<and> hd (parts ! 2) \<in> set (lit ''12345'') \<and> hd (parts ! 3) \<in> set (lit ''89ab''))"

definition is_loopback :: "ip \<Rightarrow> bool" where
  "is_loopback a = (case a of V4 os \<Rightarrow> hd os = 127 | V6 gs _ \<Rightarrow> gs = [0, 0, 0, 0, 0, 0, 0, 1])"

definition bracket_host :: "pystr \<Rightarrow> pystr" where
  "bracket_host host = (if 58 \<in> set host then [91] @ host @ [93] else host)"

definition rstrip_slash :: "pystr \<Rightarrow> pystr" where
  "rstrip_slash s = rev (dropWhile (\<lambda>c. c = 47) (rev s))"

definition loopback_host :: "pystr \<Rightarrow> bool" where
  "loopback_host host \<longleftrightarrow>
     host = lit ''localhost'' \<or> (case ip_address host of None \<Rightarrow> False | Some a \<Rightarrow> is_loopback a)"

definition origin_error :: config_error where
  "origin_error = lit ''BT_PUBLIC_ORIGIN must be one http(s) origin''"

text \<open>\<open>_clean_origin\<close>: the parts of the URL, then the normalized origin and whether it is HTTPS.\<close>

definition origin_parts :: "unicode_ops \<Rightarrow> pystr \<Rightarrow> (config_error, pystr \<times> pystr \<times> nat option) result" where
  "origin_parts uo value =
     (case urlsplit uo value of
        None \<Rightarrow> Inl origin_error
      | Some u \<Rightarrow>
         (case url_port u of
            Inl _ \<Rightarrow> Inl origin_error
          | Inr port \<Rightarrow>
             (case url_hostname uo u of
                None \<Rightarrow> Inl origin_error
              | Some hostname \<Rightarrow>
                  if u_scheme u \<notin> {lit ''http'', lit ''https''} \<or> hostname = []
                     \<or> url_username u \<noteq> None \<or> url_password u \<noteq> None \<or> u_path u \<notin> {[], [47]}
                     \<or> u_query u \<noteq> [] \<or> u_fragment u \<noteq> []
                  then Inl origin_error else Inr (u_scheme u, ascii_lower hostname, port))))"

definition normalized_origin :: "pystr \<Rightarrow> pystr \<Rightarrow> nat option \<Rightarrow> pystr" where
  "normalized_origin scheme host port =
     scheme @ lit ''://'' @ bracket_host host @ (case port of None \<Rightarrow> [] | Some p \<Rightarrow> 58 # show_nat p)"

definition clean_origin :: "unicode_ops \<Rightarrow> bool \<Rightarrow> pyval \<Rightarrow> (config_error, pystr \<times> bool) result" where
  "clean_origin uo allow_loopback_http v =
     (case v of
        PStr value \<Rightarrow>
          if value \<noteq> strip value \<or> \<not> is_ascii value \<or> list_ex (\<lambda>c. c < 33 \<or> c = 127) value
          then Inl (lit ''BT_PUBLIC_ORIGIN must be one clean origin'')
          else rbind (origin_parts uo value) (\<lambda>(scheme, host, port).
            if scheme \<noteq> lit ''https'' \<and> \<not> (allow_loopback_http \<and> loopback_host host)
            then Inl (lit ''reader sessions require HTTPS outside loopback development'')
            else let normalized = normalized_origin scheme host port in
              if ascii_lower (rstrip_slash value) \<noteq> ascii_lower normalized
              then Inl (lit ''BT_PUBLIC_ORIGIN must contain one exact authority'')
              else Inr (normalized, scheme = lit ''https''))
      | _ \<Rightarrow> Inl (lit ''BT_PUBLIC_ORIGIN must be one clean origin''))"

text \<open>\<open>_authority_identity\<close> of a URL that splits and whose port is a number.\<close>

definition authority_identity :: "unicode_ops \<Rightarrow> pystr \<Rightarrow> pystr option" where
  "authority_identity uo url =
     (case urlsplit uo url of
        None \<Rightarrow> None
      | Some u \<Rightarrow>
         (case url_port u of
            Inl _ \<Rightarrow> None
          | Inr port \<Rightarrow>
              let host = (case url_hostname uo u of None \<Rightarrow> [] | Some h \<Rightarrow> h);
                  fallback = (if u_scheme u = lit ''https'' then 443 else 80);
                  number = (case port of None \<Rightarrow> fallback | Some p \<Rightarrow> if p = 0 then fallback else p)
              in Some (u_scheme u @ lit ''://'' @ bracket_host host @ 58 # show_nat number @ u_path u)))"

definition auth_path :: "reader_type \<Rightarrow> pystr" where
  "auth_path r = (case r of Kavita \<Rightarrow> lit ''/api/Account'' | Cwa \<Rightarrow> lit ''/ajax/emailstat'')"

definition validate_auth_url :: "unicode_ops \<Rightarrow> reader_type \<Rightarrow> pystr \<Rightarrow> (config_error, pystr) result" where
  "validate_auth_url uo r value =
     (case urlsplit uo value of
        None \<Rightarrow> Inl (lit ''BT_READER_AUTH_URL is invalid'')
      | Some u \<Rightarrow>
         (case url_port u of
            Inl _ \<Rightarrow> Inl (lit ''BT_READER_AUTH_URL is invalid'')
          | Inr _ \<Rightarrow>
              if value \<noteq> strip value \<or> u_scheme u \<notin> {lit ''http'', lit ''https''}
                 \<or> url_hostname uo u = None \<or> url_hostname uo u = Some []
                 \<or> url_username u \<noteq> None \<or> url_password u \<noteq> None \<or> u_path u \<noteq> auth_path r
                 \<or> u_query u \<noteq> [] \<or> u_fragment u \<noteq> []
              then Inl (lit ''BT_READER_AUTH_URL must target exact '' @ auth_path r)
              else Inr value))"

definition broker_positive_float :: "(pyval \<Rightarrow> pyfloat option) \<Rightarrow> pyval \<Rightarrow> string \<Rightarrow> (config_error, real) result" where
  "broker_positive_float float_of v name =
     (case float_of v of
        Some (Fin r) \<Rightarrow> if r \<le> 0 then Inl (lit name @ lit '' must be finite and positive'') else Inr r
      | _ \<Rightarrow> Inl (lit name @ lit '' must be finite and positive''))"

definition broker_positive_int :: "(pyval \<Rightarrow> pystr) \<Rightarrow> pyval \<Rightarrow> string \<Rightarrow> (config_error, nat) result" where
  "broker_positive_int str_of v name =
     (case parse_positive_int str_of v of
        Inl _ \<Rightarrow> Inl (lit name @ lit '' must be a positive integer'')
      | Inr n \<Rightarrow> Inr (nat n))"

text \<open>The arguments of the constructor; a missing tenant key or cookie name is \<open>None\<close>.\<close>

record broker_args =
  ba_reader_type :: pystr
  ba_auth_url :: pystr
  ba_reader_version :: pystr
  ba_connector_id :: pystr
  ba_public_origin :: pyval
  ba_secret_key :: bytes
  ba_tenant_key :: "bytes option"
  ba_cookie_name :: "pystr option"
  ba_ttl :: pyval
  ba_max_entries :: pyval
  ba_timeout :: pyval
  ba_max_response :: pyval

definition parse_reader_type :: "pystr \<Rightarrow> (config_error, reader_type) result" where
  "parse_reader_type t =
     (if t = lit ''cwa'' then Inr Cwa else if t = lit ''kavita'' then Inr Kavita
      else Inl (lit ''BT_READER_TYPE must be cwa or kavita''))"

definition check :: "bool \<Rightarrow> config_error \<Rightarrow> (config_error, unit) result" where
  "check ok e = (if ok then Inr () else Inl e)"

definition select_cookie_name :: "bool \<Rightarrow> pystr option \<Rightarrow> pystr" where
  "select_cookie_name secure name =
     (let dflt = (if secure then lit ''__Host-bt-session'' else lit ''bt-session'')
      in case name of None \<Rightarrow> dflt | Some n \<Rightarrow> if n = [] then dflt else n)"

definition new_broker ::
  "unicode_ops \<Rightarrow> (pyval \<Rightarrow> pystr) \<Rightarrow> (pyval \<Rightarrow> pyfloat option) \<Rightarrow> broker_args \<Rightarrow> (config_error, broker) result" where
  "new_broker uo str_of float_of a =
     rbind (parse_reader_type (ba_reader_type a)) (\<lambda>rt.
     rbind (check (rt = Kavita \<longrightarrow> ba_reader_version a \<in> set kavita_versions) (lit ''Kavita reader version is not certified'')) (\<lambda>_.
     rbind (check (ba_reader_version a \<noteq> []) (lit ''BT_READER_VERSION is required'')) (\<lambda>_.
     rbind (check (connector_ok (ba_connector_id a)) (lit ''BT_READER_CONNECTOR_ID must be a canonical UUID'')) (\<lambda>_.
     rbind (check (32 \<le> length (ba_secret_key a)) (lit ''reader session key must contain at least 256 bits'')) (\<lambda>_.
     let tenant = (case ba_tenant_key a of None \<Rightarrow> ba_secret_key a | Some k \<Rightarrow> k) in
     rbind (check (32 \<le> length tenant) (lit ''reader tenant key must contain at least 256 bits'')) (\<lambda>_.
     rbind (broker_positive_int str_of (ba_ttl a) ''BT_SESSION_TTL_SECONDS'') (\<lambda>ttl.
     rbind (check (ttl \<le> 300) (lit ''BT_SESSION_TTL_SECONDS must not exceed 300'')) (\<lambda>_.
     rbind (validate_auth_url uo rt (ba_auth_url a)) (\<lambda>url.
     rbind (clean_origin uo True (ba_public_origin a)) (\<lambda>(origin, secure).
     let name = select_cookie_name secure (ba_cookie_name a) in
     rbind (check (cookie_name_ok name) (lit ''BT_SESSION_COOKIE_NAME is invalid'')) (\<lambda>_.
     rbind (check (secure = prefix (lit ''__Host-'') name)
              (lit ''BT_SESSION_COOKIE_NAME must match the public origin security boundary'')) (\<lambda>_.
     rbind (broker_positive_int str_of (ba_max_entries a) ''BT_SESSION_MAX_ENTRIES'') (\<lambda>entries.
     rbind (broker_positive_float float_of (ba_timeout a) ''BT_READER_AUTH_TIMEOUT_SECONDS'') (\<lambda>timeout.
     rbind (broker_positive_int str_of (ba_max_response a) ''BT_READER_AUTH_MAX_RESPONSE_BYTES'') (\<lambda>response.
       Inr \<lparr>rb_reader_type = rt, rb_reader_version = ba_reader_version a,
            rb_authority = (case authority_identity uo url of None \<Rightarrow> [] | Some i \<Rightarrow> i),
            rb_public_origin = origin, rb_secure_cookie = secure, rb_cookie_name = name, rb_ttl_seconds = ttl,
            rb_max_entries = entries, rb_timeout_seconds = timeout, rb_max_response_bytes = response,
            rb_secret = ba_secret_key a, rb_tenant_key = tenant, rb_sessions = []\<rparr>)))))))))))))))"

subsection \<open>Facts\<close>

lemma check_Inr [simp]: "check ok e = Inr u \<longleftrightarrow> ok"
  by (simp add: check_def)

lemma broker_positive_int_pos: "broker_positive_int f v n = Inr k \<Longrightarrow> 0 < k"
  using parse_positive_int_pos by (fastforce simp: broker_positive_int_def split: sum.splits)

lemma broker_positive_float_pos: "broker_positive_float f v n = Inr r \<Longrightarrow> 0 < r"
  by (auto simp: broker_positive_float_def split: option.splits pyfloat.splits if_splits)

lemma origin_parts_scheme: "origin_parts uo v = Inr (s, h, p) \<Longrightarrow> s = lit ''http'' \<or> s = lit ''https''"
  by (auto simp: origin_parts_def simp del: lit_Cons split: option.splits sum.splits if_splits)

lemma clean_origin_Inr:
  assumes "clean_origin uo al v = Inr (origin, secure)"
  shows "\<exists>host port. origin = normalized_origin (if secure then lit ''https'' else lit ''http'') host port
     \<and> (secure \<or> al \<and> loopback_host host)"
proof -
  from assms obtain x where v: "v = PStr x" by (auto simp: clean_origin_def split: pyval.splits)
  with assms obtain s h p where o: "origin_parts uo x = Inr (s, h, p)"
    and r: "origin = normalized_origin s h p" "secure \<longleftrightarrow> s = lit ''https''" "secure \<or> al \<and> loopback_host h"
    by (auto simp: clean_origin_def Let_def rbind_eq_Inr simp del: lit_Cons strip_Nil_iff split: if_splits)
  have "(if secure then lit ''https'' else lit ''http'') = s"
    using origin_parts_scheme [OF o] r(2) by (auto simp del: lit_Cons)
  with r(1,3) show ?thesis by (intro exI [of _ h] exI [of _ p]) (simp only: simp_thms)
qed

text \<open>What a configured broker guarantees.\<close>

definition broker_wf :: "broker \<Rightarrow> bool" where
  "broker_wf rb \<longleftrightarrow>
     0 < rb_ttl_seconds rb \<and> rb_ttl_seconds rb \<le> 300 \<and> 0 < rb_max_entries rb \<and> 0 < rb_timeout_seconds rb
     \<and> 0 < rb_max_response_bytes rb \<and> 32 \<le> length (rb_secret rb) \<and> 32 \<le> length (rb_tenant_key rb)
     \<and> cookie_name_ok (rb_cookie_name rb) \<and> (rb_secure_cookie rb \<longleftrightarrow> prefix (lit ''__Host-'') (rb_cookie_name rb))
     \<and> (rb_reader_type rb = Kavita \<longrightarrow> rb_reader_version rb \<in> set kavita_versions) \<and> rb_sessions rb = []"

lemma new_broker_Inr:
  assumes "new_broker uo so fo a = Inr rb"
  shows "broker_wf rb \<and> clean_origin uo True (ba_public_origin a) = Inr (rb_public_origin rb, rb_secure_cookie rb)"
  using assms unfolding new_broker_def Let_def
  by (auto simp: rbind_eq_Inr broker_wf_def simp del: lit_Cons
      dest: broker_positive_int_pos broker_positive_float_pos)

subsection \<open>Property\<close>

text \<open>
  C36: a broker exists only for a sound configuration. When the constructor succeeds, the
  session lifetime is between 1 and 300 seconds, every other limit is positive, both keys have
  at least 256 bits, the cookie name is valid and carries the \<open>__Host-\<close> prefix exactly when
  the public origin is HTTPS, a Kavita reader has a certified version, no session exists yet,
  and the public origin is a normalized origin that is HTTPS or on a loopback host.
\<close>

theorem broker_configuration_sound:
  assumes "new_broker uo str_of float_of a = Inr rb"
  shows "broker_wf rb
    \<and> (\<exists>host port. rb_public_origin rb
           = normalized_origin (if rb_secure_cookie rb then lit ''https'' else lit ''http'') host port
         \<and> (rb_secure_cookie rb \<or> loopback_host host))"
  using new_broker_Inr [OF assms] clean_origin_Inr by blast

definition cwa_args :: broker_args where
  "cwa_args = \<lparr>ba_reader_type = lit ''cwa'', ba_auth_url = lit ''http://cwa/ajax/emailstat'',
     ba_reader_version = lit ''4'', ba_connector_id = lit ''12345678-1234-4234-8234-123456789abc'',
     ba_public_origin = PStr (lit ''https://r''), ba_secret_key = replicate 32 0, ba_tenant_key = None,
     ba_cookie_name = None, ba_ttl = PInt 300, ba_max_entries = PInt 9, ba_timeout = PInt 2,
     ba_max_response = PInt 9\<rparr>"

definition ascii_unicode :: unicode_ops where
  "ascii_unicode = \<lparr>uo_lower = ascii_lower, uo_nfkc = id\<rparr>"

lemmas url_eval = urlsplit_def split_scheme_def split_netloc_def partition_at_def split1_def scheme_char_def is_alnum_def
  is_digit_def is_lower_def is_upper_def ascii_lower_def netloc_brackets_ok_def netloc_nfkc_ok_def is_ascii_def
  url_port_def url_hostname_def hostinfo_def url_username_def url_password_def rpartition_at_def ascii_unicode_def

theorem broker_configuration_sound_witness:
  "\<exists>rb. new_broker ascii_unicode (\<lambda>_. []) (\<lambda>_. Some (Fin 2)) cwa_args = Inr rb \<and> broker_wf rb"
proof -
  have u: "validate_auth_url ascii_unicode Cwa (lit ''http://cwa/ajax/emailstat'') = Inr (lit ''http://cwa/ajax/emailstat'')"
    using strip_no_spaces [of "lit ''http://cwa/ajax/emailstat''"]
    by (simp add: validate_auth_url_def auth_path_def url_eval is_space_def)
  have o: "clean_origin ascii_unicode True (PStr (lit ''https://r'')) = Inr (lit ''https://r'', True)"
    using strip_no_spaces [of "lit ''https://r''"]
    by (simp add: clean_origin_def origin_parts_def normalized_origin_def bracket_host_def rstrip_slash_def url_eval is_space_def)
  have d: "parse_int10 (show_int 300) = Some 300" "parse_int10 (show_int 9) = Some 9"
    by (simp_all add: parse_int10_show_int int_max_str_digits_def show_nat.simps)
  have i: "broker_positive_int f (PInt 300) n = Inr 300" "broker_positive_int f (PInt 9) n = Inr 9"
    "broker_positive_float (\<lambda>_. Some (Fin 2)) v n = Inr 2" for f v n
    by (simp_all add: broker_positive_int_def parse_positive_int_def broker_positive_float_def d)
  have c: "connector_ok (ba_connector_id cwa_args)" unfolding cwa_args_def by code_simp
  have n: "cookie_name_ok (lit ''__Host-bt-session'')" by code_simp
  have "\<exists>rb. new_broker ascii_unicode (\<lambda>_. []) (\<lambda>_. Some (Fin 2)) cwa_args = Inr rb"
    using u o c n by (simp add: new_broker_def cwa_args_def parse_reader_type_def check_def rbind_def i select_cookie_name_def Let_def)
  then show ?thesis using broker_configuration_sound by blast
qed

end
