(* ===== verification/Validation_Cache.thy ===== *)
theory Validation_Cache
  imports Lru
begin

section \<open>The authenticator's decision cache\<close>

text \<open>
  Models \<open>_ValidationCache\<close> of \<open>auth.py\<close>: opaque decision keys with an expiry time and a
  boolean, in recency order. The monotonic clock reading of a call is its argument \<open>now\<close>.
\<close>

record vcache =
  vc_ttl_seconds :: seconds
  vc_max_entries :: nat
  vc_entries :: "(pystr, seconds \<times> bool) odict"

definition vc_new :: "seconds \<Rightarrow> nat \<Rightarrow> vcache" where
  "vc_new ttl n = \<lparr>vc_ttl_seconds = ttl, vc_max_entries = n, vc_entries = []\<rparr>"

definition vc_get :: "seconds \<Rightarrow> pystr \<Rightarrow> vcache \<Rightarrow> bool option \<times> vcache" where
  "vc_get now key c =
     (case map_of (vc_entries c) key of
        None \<Rightarrow> (None, c)
      | Some (expires_at, valid) \<Rightarrow>
          if expires_at \<le> now
          then (None, c\<lparr>vc_entries := AList.delete key (vc_entries c)\<rparr>)
          else (Some valid, c\<lparr>vc_entries := move_to_end key (vc_entries c)\<rparr>))"

definition vc_put :: "seconds \<Rightarrow> pystr \<Rightarrow> bool \<Rightarrow> vcache \<Rightarrow> vcache" where
  "vc_put now key valid c =
     c\<lparr>vc_entries :=
         lru_put (vc_max_entries c) key (now + vc_ttl_seconds c, valid) (vc_entries c)\<rparr>"

definition vc_len :: "vcache \<Rightarrow> nat" where
  "vc_len c = length (vc_entries c)"

datatype vc_op = VGet seconds pystr | VPut seconds pystr bool

fun vc_step :: "vc_op \<Rightarrow> vcache \<Rightarrow> vcache" where
  "vc_step (VGet now k) c = snd (vc_get now k c)"
| "vc_step (VPut now k v) c = vc_put now k v c"

fun vc_key :: "vc_op \<Rightarrow> pystr" where
  "vc_key (VGet now k) = k"
| "vc_key (VPut now k v) = k"

text \<open>The decision a run of operations stored last under a key, with the time it was stored.\<close>

fun last_put :: "pystr \<Rightarrow> vc_op list \<Rightarrow> (seconds \<times> bool) option" where
  "last_put k [] = None"
| "last_put k (VGet t k' # ops) = last_put k ops"
| "last_put k (VPut t k' v # ops) =
     (case last_put k ops of Some p \<Rightarrow> Some p | None \<Rightarrow> if k' = k then Some (t, v) else None)"

lemma last_put_snoc [simp]:
  "last_put k (ops @ [VGet t k']) = last_put k ops"
  "last_put k (ops @ [VPut t k' v]) = (if k' = k then Some (t, v) else last_put k ops)"
  by (induction k ops rule: last_put.induct) (auto split: option.splits)

subsection \<open>Facts\<close>

lemma vc_get_fields [simp]:
  "vc_ttl_seconds (snd (vc_get now k c)) = vc_ttl_seconds c"
  "vc_max_entries (snd (vc_get now k c)) = vc_max_entries c"
  by (auto simp: vc_get_def split: option.splits)

lemma vc_put_fields [simp]:
  "vc_ttl_seconds (vc_put now k v c) = vc_ttl_seconds c"
  "vc_max_entries (vc_put now k v c) = vc_max_entries c"
  by (simp_all add: vc_put_def)

lemma vc_step_ttl: "vc_ttl_seconds (vc_step x c) = vc_ttl_seconds c"
  by (cases x) simp_all

lemma vc_get_distinct: "distinct_keys (vc_entries c) \<Longrightarrow> distinct_keys (vc_entries (snd (vc_get now k c)))"
  by (auto simp: vc_get_def split: option.splits)

lemma vc_get_length:
  "distinct_keys (vc_entries c) \<Longrightarrow> length (vc_entries (snd (vc_get now k c))) \<le> length (vc_entries c)"
  by (auto simp: vc_get_def AList.delete_eq split: option.splits)

interpretation vc: bounded_lru vc_step vc_entries vc_max_entries
proof unfold_locales
  fix c :: vcache and x
  assume d: "distinct_keys (vc_entries c)"
  then show "distinct_keys (vc_entries (vc_step x c))"
    by (cases x) (auto simp: vc_get_distinct vc_put_def)
  assume "length (vc_entries c) \<le> vc_max_entries c"
  then show "length (vc_entries (vc_step x c)) \<le> vc_max_entries c"
    by (cases x) (auto simp: vc_put_def intro: order_trans [OF vc_get_length [OF d]])
next
  show "vc_max_entries (vc_step x c) = vc_max_entries c" for x c
    by (cases x) simp_all
qed

lemma vc_ttl_run: "vc_ttl_seconds (fold vc_step ops c) = vc_ttl_seconds c"
  by (induction ops arbitrary: c) (simp_all add: vc_step_ttl)

lemma vc_step_map_of:
  assumes "distinct_keys (vc_entries c)" "map_of (vc_entries (vc_step x c)) k = Some e"
  shows "(\<exists>t v. x = VPut t k v \<and> e = (t + vc_ttl_seconds c, v))
       \<or> (\<forall>t v. x \<noteq> VPut t k v) \<and> map_of (vc_entries c) k = Some e"
proof (cases x)
  case (VGet now k')
  then show ?thesis
    using assms by (auto simp: vc_get_def split: option.splits if_splits prod.splits)
next
  case (VPut now k' v)
  then show ?thesis
    using assms map_of_lru_put_SomeD [OF assms(1)] by (fastforce simp: vc_put_def)
qed

text \<open>Every stored entry is the last decision put under its key, expiring \<open>ttl\<close> later.\<close>

lemma vc_entries_last_put:
  "map_of (vc_entries (fold vc_step ops (vc_new ttl n))) k = Some (e, v) \<Longrightarrow>
   \<exists>t. last_put k ops = Some (t, v) \<and> e = t + ttl"
proof (induction ops arbitrary: e v rule: rev_induct)
  case Nil
  then show ?case by (simp add: vc_new_def)
next
  case (snoc x ops)
  let ?c = "fold vc_step ops (vc_new ttl n)"
  have d: "distinct_keys (vc_entries ?c)"
    by (rule vc.run_distinct) (simp add: vc_new_def)
  have ttl: "vc_ttl_seconds ?c = ttl" by (simp add: vc_ttl_run) (simp add: vc_new_def)
  from vc_step_map_of [OF d, of x k "(e, v)"] snoc.prems ttl
  consider (put) t where "x = VPut t k v" "e = t + ttl"
    | (old) "\<forall>t v. x \<noteq> VPut t k v" "map_of (vc_entries ?c) k = Some (e, v)"
    by auto
  then show ?case
  proof cases
    case put
    then show ?thesis by simp
  next
    case old
    then show ?thesis using snoc.IH by (cases x) auto
  qed
qed

text \<open>An entry survives operations on other keys until \<open>max_entries\<close> of them have run.\<close>

lemma vc_step_other:
  assumes "distinct_keys (vc_entries c)" "vc_key x \<noteq> k" "Suc (rank k (vc_entries c)) < vc_max_entries c"
  shows "map_of (vc_entries (vc_step x c)) k = map_of (vc_entries c) k"
    and "rank k (vc_entries (vc_step x c)) \<le> Suc (rank k (vc_entries c))"
  using assms rank_delete_le [of k "vc_key x" "vc_entries c"]
  by (cases x; auto simp: vc_get_def vc_put_def map_of_lru_put_other rank_lru_put_other
      rank_move_other le_SucI split: option.splits)+

lemma vc_run_other:
  assumes "distinct_keys (vc_entries c)" "\<forall>x\<in>set ops. vc_key x \<noteq> k"
    "rank k (vc_entries c) + length ops < vc_max_entries c"
  shows "map_of (vc_entries (fold vc_step ops c)) k = map_of (vc_entries c) k"
  using assms
proof (induction ops arbitrary: c)
  case (Cons x ops)
  have s: "map_of (vc_entries (vc_step x c)) k = map_of (vc_entries c) k"
    "rank k (vc_entries (vc_step x c)) \<le> Suc (rank k (vc_entries c))"
    using vc_step_other [of c x k] Cons.prems by auto
  have "map_of (vc_entries (fold vc_step ops (vc_step x c))) k = map_of (vc_entries (vc_step x c)) k"
    using Cons.prems s vc.step_distinct vc.step_capacity by (intro Cons.IH) auto
  then show ?case using s by simp
qed simp

subsection \<open>Properties\<close>

text \<open>
  C31: The decision cache never serves a stale or foreign decision. After any sequence of calls
  on a new cache, a lookup that returns a decision returns the one stored last under that very
  key, and less than \<open>ttl_seconds\<close> ago; and the cache never holds more than \<open>max_entries\<close>
  entries.
\<close>

theorem decision_cache_fresh:
  assumes "vc_get now k (fold vc_step ops (vc_new ttl n)) = (Some v, c)"
  shows "\<exists>t. last_put k ops = Some (t, v) \<and> now < t + ttl \<and> vc_len c \<le> n"
proof -
  let ?c = "fold vc_step ops (vc_new ttl n)"
  obtain e where m: "map_of (vc_entries ?c) k = Some (e, v)" and e: "now < e"
    using assms by (auto simp: vc_get_def split: option.splits if_splits)
  have b: "length (vc_entries ?c) \<le> n"
    using vc.run_bound [of "vc_new ttl n" ops] by (simp add: vc_new_def)
  have "distinct_keys (vc_entries ?c)"
    by (rule vc.run_distinct) (simp add: vc_new_def)
  then have "vc_len c \<le> n"
    using vc_get_length [of ?c now k] assms b by (simp add: vc_len_def)
  then show ?thesis using vc_entries_last_put [OF m] e by auto
qed

theorem decision_cache_fresh_witness:
  "fst (vc_get 4 (lit ''k'') (fold vc_step [VPut 1 (lit ''k'') True, VPut 2 (lit ''j'') False] (vc_new 15 8)))
     = Some True
   \<and> (\<exists>t. last_put (lit ''k'') [VPut 1 (lit ''k'') True, VPut 2 (lit ''j'') False] = Some (t, True)
        \<and> 4 < t + 15)"
proof -
  let ?ops = "[VPut 1 (lit ''k'') True, VPut 2 (lit ''j'') False]"
  have f: "fst (vc_get 4 (lit ''k'') (fold vc_step ?ops (vc_new 15 8))) = Some True"
    by (simp add: vc_get_def vc_put_def vc_new_def lru_put_def move_to_end_def
        pop_front_until.simps)
  then obtain c where "vc_get 4 (lit ''k'') (fold vc_step ?ops (vc_new 15 8)) = (Some True, c)"
    by (metis prod.collapse)
  from decision_cache_fresh [OF this] f show ?thesis by blast
qed

text \<open>
  A decision is retained for reuse. Right after \<open>put\<close>, and as long as fewer than
  \<open>max_entries\<close> operations on other keys have run, a lookup within \<open>ttl_seconds\<close> answers from
  the cache with the stored decision.
\<close>

theorem decision_cache_retains:
  assumes "distinct_keys (vc_entries c)" "\<forall>x\<in>set ops. vc_key x \<noteq> k"
    "length ops < vc_max_entries c" "now < t + vc_ttl_seconds c"
  shows "fst (vc_get now k (fold vc_step ops (vc_put t k v c))) = Some v"
proof -
  let ?p = "vc_put t k v c"
  have r: "rank k (vc_entries ?p) = 0"
    using rank_drop_le [of k _ "put_list k (t + vc_ttl_seconds c, v) (vc_entries c)"]
    by (simp add: vc_put_def lru_put_eq)
  have "distinct_keys (vc_entries ?p)" using assms(1) by (simp add: vc_put_def)
  then have "map_of (vc_entries (fold vc_step ops ?p)) k = map_of (vc_entries ?p) k"
    using assms(2,3) r by (intro vc_run_other) simp_all
  also have "\<dots> = Some (t + vc_ttl_seconds c, v)"
    using assms(1,3) by (simp add: vc_put_def map_of_lru_put_self)
  finally show ?thesis using assms(4) by (simp add: vc_get_def)
qed

theorem decision_cache_retains_witness:
  "fst (vc_get 9 (lit ''k'') (fold vc_step [VPut 5 (lit ''j'') False, VGet 6 (lit ''j'')]
     (vc_put 1 (lit ''k'') True (vc_new 15 3)))) = Some True"
  by (rule decision_cache_retains) (simp_all add: vc_new_def)

end
