(* ===== verification/Simple_Cookie.thy ===== *)
theory Simple_Cookie
  imports Prelude
begin

section \<open>The cookie parser of the standard library\<close>

text \<open>
  Models \<open>http.cookies.SimpleCookie.load\<close> on text, as the Python 3.11 of the image has it: its
  regular expression as a backtracking matcher that lists the ways to match in order of
  preference, the scan of the header, and the table of coded values that results. \<open>None\<close> is
  the \<open>CookieError\<close>. Only what \<open>auth.py\<close> reads is kept: names and coded values.
\<close>

subsection \<open>Matching\<close>

type_synonym 'a matcher = "pystr \<Rightarrow> ('a \<times> pystr) list"

definition re_space :: "codepoint \<Rightarrow> bool" where
  "re_space c \<longleftrightarrow> c = 32 \<or> 9 \<le> c \<and> c \<le> 13"

definition re_word :: "codepoint \<Rightarrow> bool" where
  "re_word c \<longleftrightarrow> is_alnum c \<or> c = 95"

definition cookie_key_char :: "codepoint \<Rightarrow> bool" where
  "cookie_key_char c \<longleftrightarrow> re_word c \<or> c \<in> set (lit ''!#%&~`><@,:/$*+-.^|)(?}{='') \<or> c = 39"

definition cookie_value_char :: "codepoint \<Rightarrow> bool" where
  "cookie_value_char c \<longleftrightarrow> cookie_key_char c \<or> c = 91 \<or> c = 93"

fun greedy :: "(codepoint \<Rightarrow> bool) \<Rightarrow> pystr matcher" where
  "greedy p [] = [([], [])]"
| "greedy p (c # cs) = (if p c then map (\<lambda>(m, r). (c # m, r)) (greedy p cs) else []) @ [([], c # cs)]"

fun lazy1 :: "(codepoint \<Rightarrow> bool) \<Rightarrow> pystr matcher" where
  "lazy1 p [] = []"
| "lazy1 p (c # cs) = (if p c then ([c], cs) # map (\<lambda>(m, r). (c # m, r)) (lazy1 p cs) else [])"

definition counted :: "nat \<Rightarrow> (codepoint \<Rightarrow> bool) \<Rightarrow> pystr matcher" where
  "counted n p s = (if n \<le> length s \<and> list_all p (take n s) then [(take n s, drop n s)] else [])"

definition seq_m :: "pystr matcher \<Rightarrow> pystr matcher \<Rightarrow> pystr matcher" where
  "seq_m a b s = concat (map (\<lambda>(x, r). map (\<lambda>(y, r'). (x @ y, r')) (b r)) (a s))"

definition exact_m :: "pystr \<Rightarrow> pystr matcher" where
  "exact_m w s = (if take (length w) s = w then [(w, drop (length w) s)] else [])"

text \<open>The rest of a quoted text after its opening quote; at most one way to match.\<close>

fun quoted_tail :: "pystr matcher" where
  "quoted_tail [] = []"
| "quoted_tail (c # cs) =
     (if c = 34 then [([34], cs)]
      else if c = 92 then (case cs of [] \<Rightarrow> [] | d # ds \<Rightarrow>
        if d = 10 then [] else map (\<lambda>(m, r). (c # d # m, r)) (quoted_tail ds))
      else map (\<lambda>(m, r). (c # m, r)) (quoted_tail cs))"

text \<open>\<open>\w{3},\s[\w\d\s-]{9,11}\s[\d:]{8}\sGMT\<close>.\<close>

definition date_char :: "codepoint \<Rightarrow> bool" where
  "date_char c \<longleftrightarrow> re_word c \<or> re_space c \<or> c = 45"

definition date_m :: "pystr matcher" where
  "date_m =
     seq_m (counted 3 re_word) (seq_m (exact_m [44]) (seq_m (counted 1 re_space)
       (seq_m (\<lambda>s. counted 11 date_char s @ counted 10 date_char s @ counted 9 date_char s)
         (seq_m (counted 1 re_space) (seq_m (counted 8 (\<lambda>c. is_digit c \<or> c = 58))
           (seq_m (counted 1 re_space) (exact_m (lit ''GMT''))))))))"

definition cookie_value_m :: "pystr matcher" where
  "cookie_value_m s = seq_m (exact_m [34]) quoted_tail s @ date_m s @ greedy cookie_value_char s"

text \<open>The optional group: an equals sign between spaces and a value.\<close>

definition assign_m :: "pystr option matcher" where
  "assign_m s =
     concat (map (\<lambda>(_, r0). concat (map (\<lambda>(_, r1). concat (map (\<lambda>(_, r2).
         map (\<lambda>(v, r3). (Some v, r3)) (cookie_value_m r2))
       (greedy re_space r1))) (exact_m [61] r0))) (greedy re_space s)) @ [(None, s)]"

definition cookie_end :: "pystr \<Rightarrow> pystr list" where
  "cookie_end s =
     map snd (filter (\<lambda>p. fst p \<noteq> []) (greedy re_space s)) @ (case s of [] \<Rightarrow> [[]] | c # cs \<Rightarrow> if c = 59 then [cs] else [])"

definition cookie_matches :: "pystr \<Rightarrow> (pystr \<times> pystr option \<times> pystr) list" where
  "cookie_matches s =
     concat (map (\<lambda>(_, r0). concat (map (\<lambda>(k, r1). concat (map (\<lambda>(v, r2). concat (map (\<lambda>(_, r3).
         map (\<lambda>r4. (k, v, r4)) (cookie_end r3))
       (greedy re_space r2))) (assign_m r1))) (lazy1 cookie_key_char r0))) (greedy re_space s))"

subsection \<open>Termination of the scan\<close>

text \<open>A matcher consumes when what it matched and what it left make up its input.\<close>

definition consumes :: "pystr matcher \<Rightarrow> bool" where
  "consumes a \<longleftrightarrow> (\<forall>s m r. (m, r) \<in> set (a s) \<longrightarrow> s = m @ r)"

named_theorems consuming

lemma consumesD: "consumes a \<Longrightarrow> (m, r) \<in> set (a s) \<Longrightarrow> s = m @ r"
  by (auto simp: consumes_def)

lemma consumes_greedy [consuming]: "consumes (greedy p)"
proof -
  have "(m, r) \<in> set (greedy p s) \<Longrightarrow> s = m @ r" for m r s
    by (induction s arbitrary: m r) (auto split: if_splits)
  then show ?thesis by (simp add: consumes_def)
qed

lemma consumes_quoted [consuming]: "consumes quoted_tail"
proof -
  have "(m, r) \<in> set (quoted_tail s) \<Longrightarrow> s = m @ r" for m r s
    by (induction s arbitrary: m r rule: quoted_tail.induct) (fastforce split: if_splits list.splits)+
  then show ?thesis by (simp add: consumes_def)
qed

lemma consumes_counted [consuming]: "consumes (counted n p)"
  by (auto simp: consumes_def counted_def split: if_splits)

lemma consumes_exact [consuming]: "consumes (exact_m w)"
  by (auto simp: consumes_def exact_m_def split: if_splits) (metis append_take_drop_id)

lemma consumes_seq [consuming]: "consumes a \<Longrightarrow> consumes b \<Longrightarrow> consumes (seq_m a b)"
  by (fastforce simp: consumes_def seq_m_def)

lemma consumes_alt [consuming]: "consumes a \<Longrightarrow> consumes b \<Longrightarrow> consumes (\<lambda>s. a s @ b s)"
  by (auto simp: consumes_def)

lemma consumes_date [consuming]: "consumes date_m"
  unfolding date_m_def by (intro consuming)

lemma consumes_value: "consumes cookie_value_m"
  unfolding cookie_value_m_def by (intro consuming)

lemma lazy1_rest: "(m, r) \<in> set (lazy1 p s) \<Longrightarrow> s = m @ r \<and> m \<noteq> [] \<and> list_all p m"
  by (induction s arbitrary: m r) (auto split: if_splits)

lemma assign_shrinks: "(v, r) \<in> set (assign_m s) \<Longrightarrow> length r \<le> length s"
  by (auto simp: assign_m_def
      dest!: consumesD [OF consumes_greedy] consumesD [OF consumes_exact] consumesD [OF consumes_value])

lemma cookie_end_shrinks: "r \<in> set (cookie_end s) \<Longrightarrow> length r \<le> length s"
  by (auto simp: cookie_end_def dest!: consumesD [OF consumes_greedy] split: list.splits if_splits)

lemma cookie_matches_shrinks:
  assumes "(k, v, r) \<in> set (cookie_matches s)"
  shows "length r < length s" "k \<noteq> []" "list_all cookie_key_char k"
proof -
  from assms obtain r0 r1 r2 r3 where
    m: "r0 \<in> snd ` set (greedy re_space s)" "(k, r1) \<in> set (lazy1 cookie_key_char r0)"
      "(v, r2) \<in> set (assign_m r1)" "r3 \<in> snd ` set (greedy re_space r2)" "r \<in> set (cookie_end r3)"
    by (fastforce simp: cookie_matches_def)
  have "length r0 \<le> length s" "length r3 \<le> length r2"
    using m(1,4) consumesD [OF consumes_greedy] by fastforce+
  moreover have k: "r0 = k @ r1" "k \<noteq> []" "list_all cookie_key_char k" using lazy1_rest [OF m(2)] by auto
  moreover obtain c k' where "k = c # k'" using k by (cases k) auto
  ultimately show "length r < length s" "k \<noteq> []" "list_all cookie_key_char k"
    using assign_shrinks [OF m(3)] cookie_end_shrinks [OF m(5)] by simp_all
qed

subsection \<open>Scanning\<close>

definition reserved_names :: "pystr list" where
  "reserved_names = [lit ''expires'', lit ''path'', lit ''comment'', lit ''domain'', lit ''max-age'', lit ''secure'',
     lit ''httponly'', lit ''version'', lit ''samesite'']"

definition cookie_reserved :: "pystr \<Rightarrow> bool" where
  "cookie_reserved k \<longleftrightarrow> ascii_lower k \<in> set reserved_names"

datatype cookie_item = Attribute pystr | KeyValue pystr pystr

text \<open>The items of a valid text; \<open>None\<close> when the text is invalid and nothing is loaded.\<close>

lemma cookie_matches_head: "cookie_matches s = (k, v, r) # xs \<Longrightarrow> length r < length s"
  using cookie_matches_shrinks(1) [of k v r s] by simp

function scan_cookies :: "bool \<Rightarrow> pystr \<Rightarrow> cookie_item list option" where
  "scan_cookies seen s =
     (if s = [] then Some []
      else case cookie_matches s of
        [] \<Rightarrow> Some []
      | (key, v, r) # _ \<Rightarrow>
          if hd key = 36
          then (if seen then map_option ((#) (Attribute (tl key))) (scan_cookies seen r) else scan_cookies seen r)
          else if cookie_reserved key
          then (if \<not> seen \<or> (v = None \<and> ascii_lower key \<notin> {lit ''secure'', lit ''httponly''}) then None
                else map_option ((#) (Attribute key)) (scan_cookies seen r))
          else (case v of
                  Some x \<Rightarrow> map_option ((#) (KeyValue key x)) (scan_cookies True r)
                | None \<Rightarrow> None))"
  by pat_completeness auto
termination
  by (relation "measure (\<lambda>(_, s). length s)") (auto dest: cookie_matches_head)

declare scan_cookies.simps [simp del]

definition cookie_legal_char :: "codepoint \<Rightarrow> bool" where
  "cookie_legal_char c \<longleftrightarrow> is_alnum c \<or> c \<in> set (lit ''!#$%&*+-.^_`|~:'') \<or> c = 39"

fun apply_items :: "cookie_item list \<Rightarrow> (pystr, pystr) odict \<Rightarrow> (pystr, pystr) odict option" where
  "apply_items [] jar = Some jar"
| "apply_items (Attribute k # xs) jar = (if cookie_reserved k then apply_items xs jar else None)"
| "apply_items (KeyValue k v # xs) jar =
     (if cookie_reserved k \<or> \<not> list_all cookie_legal_char k then None
      else apply_items xs (AList.update k v jar))"

definition load_cookies :: "pystr \<Rightarrow> (pystr, pystr) odict option" where
  "load_cookies raw = (case scan_cookies False raw of None \<Rightarrow> Some [] | Some xs \<Rightarrow> apply_items xs [])"

end
