(* ===== verification/Authentication.thy ===== *)
theory Authentication
  imports Broker_Config Validation_Cache Simple_Cookie
begin

section \<open>Request authentication\<close>

text \<open>
  Models \<open>auth.py\<close>: the validation of its settings (\<open>RequestAuthenticator.__init__\<close> and
  \<open>from_environment\<close>), the five modes of \<open>authenticate\<close>, the selection of CWA cookies, the
  cached probe of a cookie and the probe itself.

  Headers are a mapping of latin-1 texts, as WSGI provides them. Arguments stand for what is
  outside the repository: the tables of \<open>oracles\<close>, SHA-256 on bytes, the Unicode operations,
  and for each cookie probed in a request what happens to it: the clock readings, and whether
  its flight runs the probe, joins another caller's, or is refused (the registry itself is in
  theory \<open>Single_Flight\<close>). The tenant key file is an argument.
\<close>

subsection \<open>Networks\<close>

text \<open>
  \<open>ipaddress.ip_network(text, strict=False)\<close>: the version (false for IPv4), the address as a
  number and the length of the prefix.
\<close>

type_synonym network = "bool \<times> nat \<times> nat"

definition digits_of :: "nat \<Rightarrow> nat list \<Rightarrow> nat" where
  "digits_of b ds = foldl (\<lambda>a d. b * a + d) 0 ds"

fun ip_number :: "ip \<Rightarrow> bool \<times> nat" where
  "ip_number (V4 os) = (False, digits_of 256 os)"
| "ip_number (V6 gs scope) = (True, digits_of 65536 gs)"

definition prefix_string :: "nat \<Rightarrow> pystr \<Rightarrow> nat option" where
  "prefix_string limit s =
     (if s = [] \<or> \<not> list_all is_digit s \<or> int_max_str_digits < length s then None
      else if dec_value s \<le> limit then Some (dec_value s) else None)"

definition prefix_of_mask :: "nat \<Rightarrow> nat option" where
  "prefix_of_mask n = List.find (\<lambda>p. n = 2 ^ 32 - 2 ^ (32 - p)) [0..<33]"

definition ipv4_mask :: "pystr \<Rightarrow> nat option" where
  "ipv4_mask s =
     (case prefix_string 32 s of
        Some p \<Rightarrow> Some p
      | None \<Rightarrow>
          (case parse_ipv4 s of
             None \<Rightarrow> None
           | Some os \<Rightarrow>
               if 47 \<in> set s then None
               else case prefix_of_mask (digits_of 256 os) of
                 Some p \<Rightarrow> Some p
               | None \<Rightarrow> prefix_of_mask (2 ^ 32 - 1 - digits_of 256 os)))"

definition masked :: "nat \<Rightarrow> nat \<Rightarrow> nat \<Rightarrow> nat" where
  "masked width p n = n div 2 ^ (width - p) * 2 ^ (width - p)"

definition ipv4_network :: "pystr \<Rightarrow> pystr option \<Rightarrow> network option" where
  "ipv4_network address netmask =
     (case (parse_ipv4 address, case netmask of None \<Rightarrow> Some 32 | Some m \<Rightarrow> ipv4_mask m) of
        (Some os, Some p) \<Rightarrow> Some (False, masked 32 p (digits_of 256 os), p)
      | _ \<Rightarrow> None)"

definition ipv6_network :: "pystr \<Rightarrow> pystr option \<Rightarrow> network option" where
  "ipv6_network address netmask =
     (case (parse_ipv6 address, case netmask of None \<Rightarrow> Some 128 | Some m \<Rightarrow> prefix_string 128 m) of
        (Some (gs, _), Some p) \<Rightarrow> Some (True, masked 128 p (digits_of 65536 gs), p)
      | _ \<Rightarrow> None)"

definition ip_network :: "pystr \<Rightarrow> network option" where
  "ip_network s =
     (case split_on 47 s of
        [a] \<Rightarrow> (case ipv4_network a None of Some n \<Rightarrow> Some n | None \<Rightarrow> ipv6_network a None)
      | [a, m] \<Rightarrow> (case ipv4_network a (Some m) of Some n \<Rightarrow> Some n | None \<Rightarrow> ipv6_network a (Some m))
      | _ \<Rightarrow> None)"

definition network_width :: "network \<Rightarrow> nat" where
  "network_width n = (if fst n then 128 else 32)"

definition in_network :: "ip \<Rightarrow> network \<Rightarrow> bool" where
  "in_network a n \<longleftrightarrow>
     fst (ip_number a) = fst n \<and> masked (network_width n) (snd (snd n)) (snd (ip_number a)) = fst (snd n)"

subsection \<open>Settings\<close>

datatype auth_mode = Token_Mode | Cwa_Session_Mode | Reader_Session_Mode | Forwarded_Mode | Disabled_Mode

fun mode_name :: "auth_mode \<Rightarrow> pystr" where
  "mode_name Token_Mode = lit ''token''"
| "mode_name Cwa_Session_Mode = lit ''cwa_session''"
| "mode_name Reader_Session_Mode = lit ''reader_session''"
| "mode_name Forwarded_Mode = lit ''forwarded''"
| "mode_name Disabled_Mode = lit ''disabled''"

definition parse_mode :: "pystr \<Rightarrow> auth_mode option" where
  "parse_mode s =
     List.find (\<lambda>m. mode_name m = s) [Token_Mode, Cwa_Session_Mode, Reader_Session_Mode, Forwarded_Mode, Disabled_Mode]"

datatype auth_error = AuthRejected | AuthUnavailable

record auth_identity =
  ai_subject :: pystr
  ai_roles :: "pystr set"
  ai_mode :: auth_mode

record authenticator =
  au_mode :: auth_mode
  au_api_token :: pystr
  au_cwa_auth_url :: pystr
  au_cookie_names :: "pystr list"
  au_tenant_key :: bytes
  au_cwa_timeout :: real
  au_max_inflight :: nat
  au_max_response :: nat
  au_cache :: vcache
  au_broker :: "broker option"
  au_networks :: "network list"
  au_subject_header :: pystr
  au_roles_header :: pystr

definition is_safe_token :: "pystr \<Rightarrow> bool" where
  "is_safe_token v \<longleftrightarrow> v \<noteq> [] \<and> length v \<le> 4096 \<and> list_all (\<lambda>c. 33 \<le> c \<and> c \<le> 126) v"

definition safe_cookie_name :: "pystr \<Rightarrow> bool" where
  "safe_cookie_name s \<longleftrightarrow>
     1 \<le> length s \<and> length s \<le> 64 \<and> list_all (\<lambda>c. is_alnum c \<or> c = 95 \<or> c = 46 \<or> c = 45) s"

definition forwarded_header_ok :: "pystr \<Rightarrow> bool" where
  "forwarded_header_ok s \<longleftrightarrow>
     1 \<le> length s \<and> length s \<le> 64 \<and> is_alnum (hd s) \<and> list_all (\<lambda>c. is_alnum c \<or> c = 45) s"

definition role_ok :: "pystr \<Rightarrow> bool" where
  "role_ok s \<longleftrightarrow>
     1 \<le> length s \<and> length s \<le> 64 \<and> is_alnum (hd s) \<and> list_all (\<lambda>c. is_alnum c \<or> c \<in> set (lit ''_.:@/+-'')) s"

definition auth_positive_float :: "(pyval \<Rightarrow> pyfloat option) \<Rightarrow> pyval \<Rightarrow> string \<Rightarrow> (config_error, real) result" where
  "auth_positive_float float_of v name =
     (case float_of v of
        Some (Fin r) \<Rightarrow> if r \<le> 0 then Inl (lit name @ lit '' must be a finite positive number'') else Inr r
      | _ \<Rightarrow> Inl (lit name @ lit '' must be a finite positive number''))"

definition url_message :: config_error where
  "url_message = lit ''BT_CWA_AUTH_URL must target the exact /ajax/emailstat http(s) endpoint''"

definition validate_http_url :: "unicode_ops \<Rightarrow> pystr \<Rightarrow> (config_error, pystr) result" where
  "validate_http_url uo value =
     (if value \<noteq> strip value \<or> list_ex is_ctrl value
      then Inl (lit ''BT_CWA_AUTH_URL must be a clean absolute URL'')
      else case urlsplit uo value of
        None \<Rightarrow> Inl (lit ''BT_CWA_AUTH_URL must be an http(s) URL'')
      | Some u \<Rightarrow>
          (case url_port u of
             Inl _ \<Rightarrow> Inl (lit ''BT_CWA_AUTH_URL must be an http(s) URL'')
           | Inr _ \<Rightarrow>
              (case url_hostname uo u of
                 None \<Rightarrow> Inl url_message
               | Some host \<Rightarrow>
                   if u_scheme u \<notin> {lit ''http'', lit ''https''} \<or> host = []
                      \<or> url_username u \<noteq> None \<or> url_password u \<noteq> None \<or> u_fragment u \<noteq> [] \<or> u_query u \<noteq> []
                      \<or> u_path u \<noteq> lit ''/ajax/emailstat'' \<or> list_ex is_space host
                   then Inl url_message else Inr value)))"

text \<open>\<open>dict.fromkeys\<close>: the distinct values in the order of their first occurrence.\<close>

definition distinct_first :: "'a list \<Rightarrow> 'a list" where
  "distinct_first xs = rev (remdups (rev xs))"

record auth_args =
  aa_mode :: pystr
  aa_api_token :: pystr
  aa_cwa_auth_url :: pystr
  aa_cookie_names :: "pystr list"
  aa_proxies :: "pystr list"
  aa_subject_header :: pystr
  aa_roles_header :: pystr
  aa_timeout :: pyval
  aa_cache_ttl :: pyval
  aa_cache_max :: pyval
  aa_max_inflight :: pyval
  aa_max_response :: pyval
  aa_broker :: "broker option"
  aa_tenant_key :: "bytes option"

definition cwa_settings :: "unicode_ops \<Rightarrow> auth_mode \<Rightarrow> auth_args \<Rightarrow> (config_error, pystr \<times> pystr list) result" where
  "cwa_settings uo m a =
     (if m \<noteq> Cwa_Session_Mode then Inr ([], [])
      else rbind (check (aa_cwa_auth_url a \<noteq> []) (lit ''BT_CWA_AUTH_URL is required in cwa_session mode'')) (\<lambda>_.
        rbind (validate_http_url uo (aa_cwa_auth_url a)) (\<lambda>url.
        let names = distinct_first (aa_cookie_names a) in
        rbind (check (names \<noteq> [] \<and> length names \<le> 16 \<and> list_all safe_cookie_name names)
                 (lit ''BT_CWA_AUTH_COOKIE_NAMES must contain 1-16 safe cookie names'')) (\<lambda>_. Inr (url, names)))))"

definition proxy_networks :: "auth_mode \<Rightarrow> pystr list \<Rightarrow> (config_error, network list) result" where
  "proxy_networks m proxies =
     (case omap ip_network proxies of
        None \<Rightarrow> Inl (lit ''BT_IDENTITY_TRUSTED_PROXIES contains an invalid IP or CIDR'')
      | Some ns \<Rightarrow>
          if m = Forwarded_Mode \<and> ns = []
          then Inl (lit ''BT_IDENTITY_TRUSTED_PROXIES is required in forwarded mode'')
          else if m = Forwarded_Mode \<and> list_ex (\<lambda>n. snd (snd n) \<noteq> network_width n) ns
          then Inl (lit ''BT_IDENTITY_TRUSTED_PROXIES must contain only exact /32 or /128 peers'')
          else Inr ns)"

definition auth_positive_int :: "(pyval \<Rightarrow> pystr) \<Rightarrow> pyval \<Rightarrow> string \<Rightarrow> (config_error, nat) result" where
  "auth_positive_int str_of v name = broker_positive_int str_of v name"

text \<open>The constructor; \<open>fresh_key\<close> is the random tenant key it falls back to.\<close>

definition new_authenticator ::
  "unicode_ops \<Rightarrow> (pyval \<Rightarrow> pystr) \<Rightarrow> (pyval \<Rightarrow> pyfloat option) \<Rightarrow> bytes \<Rightarrow> auth_args
   \<Rightarrow> (config_error, authenticator) result" where
  "new_authenticator uo str_of float_of fresh_key a =
     (case parse_mode (uo_lower uo (strip (aa_mode a))) of
        None \<Rightarrow> Inl (lit ''BT_AUTH_MODE must be one of ['cwa_session', 'disabled', 'forwarded', 'reader_session', 'token']'')
      | Some m \<Rightarrow>
     rbind (check (aa_api_token a = [] \<or> is_safe_token (aa_api_token a))
              (lit ''BT_API_TOKEN must be a printable ASCII token without spaces'')) (\<lambda>_.
     rbind (check (m \<noteq> Token_Mode \<or> aa_api_token a \<noteq> []) (lit ''BT_API_TOKEN is required in token mode'')) (\<lambda>_.
     rbind (check (case aa_tenant_key a of None \<Rightarrow> True | Some k \<Rightarrow> 32 \<le> length k)
              (lit ''CWA tenant key must contain at least 256 bits'')) (\<lambda>_.
     rbind (auth_positive_float float_of (aa_timeout a) ''BT_CWA_AUTH_TIMEOUT_SECONDS'') (\<lambda>timeout.
     rbind (auth_positive_float float_of (aa_cache_ttl a) ''BT_CWA_AUTH_CACHE_TTL_SECONDS'') (\<lambda>ttl.
     rbind (auth_positive_int str_of (aa_cache_max a) ''BT_CWA_AUTH_CACHE_MAX_ENTRIES'') (\<lambda>entries.
     rbind (auth_positive_int str_of (aa_max_inflight a) ''BT_CWA_AUTH_MAX_INFLIGHT'') (\<lambda>inflight.
     rbind (auth_positive_int str_of (aa_max_response a) ''BT_CWA_AUTH_MAX_RESPONSE_BYTES'') (\<lambda>response.
     rbind (check (m \<noteq> Reader_Session_Mode \<or> aa_broker a \<noteq> None)
              (lit ''reader_session mode requires a configured session broker'')) (\<lambda>_.
     rbind (cwa_settings uo m a) (\<lambda>(url, names).
     rbind (proxy_networks m (aa_proxies a)) (\<lambda>networks.
     rbind (check (forwarded_header_ok (aa_subject_header a))
              (lit ''BT_FORWARDED_SUBJECT_HEADER must be a bounded HTTP header name'')) (\<lambda>_.
     rbind (check (aa_roles_header a = [] \<or> forwarded_header_ok (aa_roles_header a))
              (lit ''BT_FORWARDED_ROLES_HEADER must be empty or a bounded HTTP header name'')) (\<lambda>_.
       Inr \<lparr>au_mode = m, au_api_token = aa_api_token a, au_cwa_auth_url = url, au_cookie_names = names,
            au_tenant_key = (case aa_tenant_key a of None \<Rightarrow> fresh_key | Some k \<Rightarrow> k), au_cwa_timeout = timeout,
            au_max_inflight = inflight, au_max_response = response, au_cache = vc_new ttl entries,
            au_broker = aa_broker a, au_networks = networks, au_subject_header = aa_subject_header a,
            au_roles_header = aa_roles_header a\<rparr>))))))))))))))"

text \<open>\<open>from_environment\<close>; the broker's and the key file's outcomes are arguments.\<close>

definition comma_list :: "pystr \<Rightarrow> pystr list" where
  "comma_list s = filter (\<lambda>v. v \<noteq> []) (map strip (split_on 44 s))"

definition getenv :: "(pystr \<Rightarrow> pystr option) \<Rightarrow> string \<Rightarrow> string \<Rightarrow> pystr" where
  "getenv env name dflt = (case env (lit name) of None \<Rightarrow> lit dflt | Some v \<Rightarrow> v)"

definition env_truthy :: "unicode_ops \<Rightarrow> pystr \<Rightarrow> bool" where
  "env_truthy uo v \<longleftrightarrow> uo_lower uo (strip v) \<in> {lit ''1'', lit ''true'', lit ''yes''}"

definition authenticator_from_environment ::
  "unicode_ops \<Rightarrow> (pyval \<Rightarrow> pystr) \<Rightarrow> (pyval \<Rightarrow> pyfloat option) \<Rightarrow> bytes \<Rightarrow> (config_error, broker) result
   \<Rightarrow> (config_error, bytes) result \<Rightarrow> (pystr \<Rightarrow> pystr option) \<Rightarrow> (config_error, authenticator) result" where
  "authenticator_from_environment uo str_of float_of fresh_key env_broker key_file env =
     (let mode = getenv env ''BT_AUTH_MODE'' ''token''; normalized = uo_lower uo (strip mode) in
      rbind (check (normalized \<noteq> lit ''disabled'' \<or> env_truthy uo (getenv env ''BT_ALLOW_INSECURE_AUTH'' ''false''))
               (lit ''BT_AUTH_MODE=disabled requires BT_ALLOW_INSECURE_AUTH=true'')) (\<lambda>_.
      rbind (if normalized = lit ''reader_session'' then rbind env_broker (\<lambda>rb. Inr (Some rb)) else Inr None) (\<lambda>broker.
      rbind (new_authenticator uo str_of float_of fresh_key
               \<lparr>aa_mode = mode, aa_api_token = getenv env ''BT_API_TOKEN'' [],
                aa_cwa_auth_url = getenv env ''BT_CWA_AUTH_URL'' [],
                aa_cookie_names = comma_list (getenv env ''BT_CWA_AUTH_COOKIE_NAMES'' ''session,remember_token''),
                aa_proxies = comma_list (getenv env ''BT_IDENTITY_TRUSTED_PROXIES'' []),
                aa_subject_header = getenv env ''BT_FORWARDED_SUBJECT_HEADER'' ''X-BT-Subject'',
                aa_roles_header = getenv env ''BT_FORWARDED_ROLES_HEADER'' ''X-BT-Roles'',
                aa_timeout = PStr (getenv env ''BT_CWA_AUTH_TIMEOUT_SECONDS'' ''2''),
                aa_cache_ttl = PStr (getenv env ''BT_CWA_AUTH_CACHE_TTL_SECONDS'' ''15''),
                aa_cache_max = PStr (getenv env ''BT_CWA_AUTH_CACHE_MAX_ENTRIES'' ''10000''),
                aa_max_inflight = PStr (getenv env ''BT_CWA_AUTH_MAX_INFLIGHT'' ''8''),
                aa_max_response = PStr (getenv env ''BT_CWA_AUTH_MAX_RESPONSE_BYTES'' ''262144''),
                aa_broker = broker, aa_tenant_key = None\<rparr>) (\<lambda>au.
      if au_mode au = Cwa_Session_Mode then rbind key_file (\<lambda>k. Inr (au\<lparr>au_tenant_key := k\<rparr>)) else Inr au))))"

subsection \<open>Requests\<close>

text \<open>SHA-256 on bytes and the Unicode operations join the oracles of the session broker.\<close>

record auth_oracles =
  ao_base :: oracles
  ao_digest :: "bytes \<Rightarrow> bytes"
  ao_unicode :: unicode_ops

definition header_value :: "auth_oracles \<Rightarrow> headers \<Rightarrow> pystr \<Rightarrow> pystr" where
  "header_value ao hs name =
     (case map_of hs name of Some v \<Rightarrow> v | None \<Rightarrow> get_header (or_cf (ao_base ao)) hs name)"

definition opaque_subject :: "auth_oracles \<Rightarrow> string \<Rightarrow> pystr \<Rightarrow> pystr" where
  "opaque_subject ao pre material = lit pre @ 58 # hex_bytes (ao_digest ao (utf8 material))"

definition authenticate_token :: "auth_oracles \<Rightarrow> authenticator \<Rightarrow> headers \<Rightarrow> (auth_error, auth_identity) result" where
  "authenticate_token ao au hs =
     (let provided = header_value ao hs (lit ''X-BT-Token'') in
      if \<not> is_safe_token provided \<or> provided \<noteq> au_api_token au then Inl AuthRejected
      else Inr \<lparr>ai_subject = opaque_subject ao ''token'' (au_api_token au), ai_roles = {lit ''operator''}, ai_mode = au_mode au\<rparr>)"

definition authenticate_forwarded ::
  "auth_oracles \<Rightarrow> authenticator \<Rightarrow> headers \<Rightarrow> pystr option \<Rightarrow> (auth_error, auth_identity) result" where
  "authenticate_forwarded ao au hs remote_addr =
     (if header_value ao hs (lit ''Cookie'') \<noteq> [] then Inl AuthRejected
      else case ip_address (case remote_addr of None \<Rightarrow> [] | Some r \<Rightarrow> r) of
        None \<Rightarrow> Inl AuthRejected
      | Some peer \<Rightarrow>
          if \<not> list_ex (in_network peer) (au_networks au) then Inl AuthRejected
          else let subj = header_value ao hs (au_subject_header au) in
          if subj = [] \<or> subj \<noteq> strip subj \<or> 512 < length subj \<or> list_ex is_ctrl subj then Inl AuthRejected
          else let roles_header = (if au_roles_header au \<noteq> [] then header_value ao hs (au_roles_header au) else []) in
          if 2048 < length roles_header then Inl AuthRejected
          else let roles = comma_list roles_header in
          if 32 < length roles \<or> \<not> list_all role_ok roles then Inl AuthRejected
          else Inr \<lparr>ai_subject = opaque_subject ao ''forwarded'' subj, ai_roles = set roles, ai_mode = au_mode au\<rparr>)"

subsection \<open>CWA sessions\<close>

text \<open>\<open>_validated_cwa_binding\<close>: \<open>None\<close> is a value that is not a binding object.\<close>

type_synonym cwa_binding = "pystr \<times> pystr option"

definition validated_cwa_binding :: "binding option \<Rightarrow> (auth_error, cwa_binding) result" where
  "validated_cwa_binding b =
     (case b of
        Some (PStr remote_addr, user_agent) \<Rightarrow>
          if remote_addr = [] \<or> 64 < length remote_addr \<or> remote_addr \<noteq> strip remote_addr
             \<or> 44 \<in> set remote_addr \<or> 37 \<in> set remote_addr \<or> list_ex is_ctrl remote_addr
             \<or> ip_address remote_addr = None
          then Inl AuthRejected
          else (case user_agent of
                  PNone \<Rightarrow> Inr (remote_addr, None)
                | PStr ua \<Rightarrow>
                    if list_ex is_ctrl ua \<or> list_ex (\<lambda>c. 255 < c) ua \<or> 4096 < length ua then Inl AuthRejected
                    else Inr (remote_addr, Some ua)
                | _ \<Rightarrow> Inl AuthRejected)
      | _ \<Rightarrow> Inl AuthRejected)"

definition be8 :: "nat \<Rightarrow> bytes" where
  "be8 n = map (\<lambda>i. n div 256 ^ i mod 256) [7, 6, 5, 4, 3, 2, 1, 0]"

text \<open>\<open>_cwa_decision_key\<close>: what is hashed, each part after its length.\<close>

definition framed :: "bytes \<Rightarrow> bytes" where
  "framed part = be8 (length part) @ part"

definition decision_material :: "bytes \<Rightarrow> cwa_binding \<Rightarrow> bytes" where
  "decision_material session_digest b =
     lit ''book-translator:cwa-validation:v1'' @ 0 # framed session_digest @ framed (fst b)
     @ framed (case snd b of None \<Rightarrow> [0] | Some ua \<Rightarrow> 1 # ua)"

definition cwa_decision_key :: "auth_oracles \<Rightarrow> pystr \<Rightarrow> cwa_binding \<Rightarrow> pystr" where
  "cwa_decision_key ao canonical b = hex_bytes (ao_digest ao (decision_material (ao_digest ao (utf8 canonical)) b))"

definition selected_cookies :: "auth_oracles \<Rightarrow> authenticator \<Rightarrow> headers \<Rightarrow> (auth_error, pystr \<times> pystr) result" where
  "selected_cookies ao au hs =
     (let raw = header_value ao hs (lit ''Cookie'') in
      if raw = [] \<or> 8192 < length raw \<or> list_ex is_ctrl raw then Inl AuthRejected
      else case load_cookies raw of
        None \<Rightarrow> Inl AuthRejected
      | Some jar \<Rightarrow>
          let selected = filter (\<lambda>p. snd p \<noteq> []) (pick jar (au_cookie_names au)) in
          if selected = [] then Inl AuthRejected
          else Inr (join (lit ''; '') (map cookie_text selected), join [0] (map cookie_text selected)))"

text \<open>A reply of CWA, with the clock reading after its body was read.\<close>

record cwa_reply =
  cw_reply :: reply
  cw_finished :: real

type_synonym cwa_io = "real \<times> cwa_reply option"

fun read_body :: "nat \<Rightarrow> real \<Rightarrow> bytes \<Rightarrow> chunk list \<Rightarrow> (auth_error, bytes) result" where
  "read_body limit deadline payload [] = Inr payload"
| "read_body limit deadline payload (StreamFailed # cs) = Inl AuthUnavailable"
| "read_body limit deadline payload (BadChunk now # cs) = Inl AuthUnavailable"
| "read_body limit deadline payload (Chunk now bs # cs) =
     (if deadline \<le> now then Inl AuthUnavailable
      else if bs = [] then read_body limit deadline payload cs
      else if limit < length payload + length bs then Inl AuthUnavailable
      else read_body limit deadline (payload @ bs) cs)"

definition cwa_probe_headers :: "pystr \<Rightarrow> cwa_binding \<Rightarrow> out_headers" where
  "cwa_probe_headers cookie b =
     [(lit ''Accept'', Some (lit ''application/json'')), (lit ''Cookie'', Some cookie),
      (lit ''X-Forwarded-For'', Some (fst b)), (lit ''User-Agent'', snd b)]"

text \<open>\<open>_probe_cwa\<close> on what the client observes; a header that is \<open>None\<close> is not sent.\<close>

definition cwa_verdict :: "auth_oracles \<Rightarrow> authenticator \<Rightarrow> real \<Rightarrow> cwa_reply \<Rightarrow> (auth_error, bool) result" where
  "cwa_verdict ao au start w =
     (let r = cw_reply w; deadline = start + au_cwa_timeout au in
      if deadline \<le> rp_received r then Inl AuthUnavailable
      else if rp_status r = 200
      then (if ascii_lower (strip (fst (split1 59 (rp_content_type r)))) \<noteq> lit ''application/json'' then Inr False
            else let declared = strip (rp_content_length r) in
            if declared \<noteq> [] \<and> (case parse_int10 declared of None \<Rightarrow> True
                                  | Some n \<Rightarrow> n < 0 \<or> int (au_max_response au) < n)
            then Inl AuthUnavailable
            else rbind (read_body (au_max_response au) deadline [] (rp_chunks r)) (\<lambda>payload.
              if deadline \<le> cw_finished w then Inl AuthUnavailable
              else case or_loads (ao_base ao) payload of
                     JsonOk v \<Rightarrow> Inr (case v of PList vs \<Rightarrow> all_dicts vs | _ \<Rightarrow> False)
                   | JsonInvalid \<Rightarrow> Inr False
                   | JsonFailed \<Rightarrow> Inl AuthUnavailable))
      else if rp_status r = 401 \<or> rp_status r = 403 \<or> (300 \<le> rp_status r \<and> rp_status r < 400) then Inr False
      else Inl AuthUnavailable)"

definition probe_cwa_cookie ::
  "auth_oracles \<Rightarrow> authenticator \<Rightarrow> (out_headers \<Rightarrow> cwa_io) \<Rightarrow> pystr \<Rightarrow> cwa_binding \<Rightarrow> (auth_error, bool) result" where
  "probe_cwa_cookie ao au get cookie b =
     (case get (cwa_probe_headers cookie b) of
        (start, None) \<Rightarrow> Inl AuthUnavailable
      | (start, Some w) \<Rightarrow> cwa_verdict ao au start w)"

text \<open>What happens when a cookie is checked: the clock readings and the fate of its flight.\<close>

datatype flight_io = Runs "out_headers \<Rightarrow> cwa_io" | Joins "(auth_error, bool) result" | Refused

record check_io =
  ck_get_at :: real
  ck_flight :: flight_io
  ck_put_at :: real

definition flight_answer ::
  "auth_oracles \<Rightarrow> authenticator \<Rightarrow> flight_io \<Rightarrow> pystr \<Rightarrow> cwa_binding \<Rightarrow> (auth_error, bool) result" where
  "flight_answer ao au f cookie b =
     (case f of Runs get \<Rightarrow> probe_cwa_cookie ao au get cookie b | Joins r \<Rightarrow> r | Refused \<Rightarrow> Inl AuthUnavailable)"

definition cwa_cookie_valid ::
  "auth_oracles \<Rightarrow> authenticator \<Rightarrow> (pystr \<Rightarrow> check_io) \<Rightarrow> pystr \<Rightarrow> pystr \<Rightarrow> cwa_binding \<Rightarrow> vcache
   \<Rightarrow> (auth_error, bool) result \<times> vcache" where
  "cwa_cookie_valid ao au io cookie canonical b c =
     (let key = cwa_decision_key ao canonical b; k = io canonical in
      case vc_get (ck_get_at k) key c of
        (Some valid, c1) \<Rightarrow> (Inr valid, c1)
      | (None, c1) \<Rightarrow>
          (case flight_answer ao au (ck_flight k) cookie b of
             Inl e \<Rightarrow> (Inl e, c1)
           | Inr valid \<Rightarrow> (Inr valid, vc_put (ck_put_at k) key valid c1)))"

text \<open>The loop over the cookies that name a user: an answer, or the names tried.\<close>

definition cwa_subject :: "auth_oracles \<Rightarrow> authenticator \<Rightarrow> pystr \<Rightarrow> pystr" where
  "cwa_subject ao au user =
     lit ''cwa-user:'' @ hex_bytes (or_mac (ao_base ao) (au_tenant_key au) (lit ''cwa-user'' @ 0 #
       utf8 (join [0] [case authority_identity (ao_unicode ao) (au_cwa_auth_url au) of None \<Rightarrow> [] | Some i \<Rightarrow> i, user])))"

definition cookie_user :: "auth_oracles \<Rightarrow> pystr \<times> pystr \<Rightarrow> pystr option" where
  "cookie_user ao nv =
     (if fst nv \<notin> {lit ''session'', lit ''remember_token''} \<or> 34 \<in> set (snd nv) \<or> 92 \<in> set (snd nv) then None
      else cwa_cookie_user (or_inflate (ao_base ao)) (loads_opt (or_loads (ao_base ao))) (fst nv) (snd nv))"

fun try_users ::
  "auth_oracles \<Rightarrow> authenticator \<Rightarrow> (pystr \<Rightarrow> check_io) \<Rightarrow> cwa_binding \<Rightarrow> (pystr \<times> pystr) list \<Rightarrow> pystr list \<Rightarrow> vcache
   \<Rightarrow> ((auth_error, pystr) result + pystr list) \<times> vcache" where
  "try_users ao au io b [] tried c = (Inr tried, c)"
| "try_users ao au io b (nv # nvs) tried c =
     (case cookie_user ao nv of
        None \<Rightarrow> try_users ao au io b nvs tried c
      | Some user \<Rightarrow>
          (case cwa_cookie_valid ao au io (cookie_text nv) (cookie_text nv) b c of
             (Inl e, c1) \<Rightarrow> (Inl (Inl e), c1)
           | (Inr valid, c1) \<Rightarrow>
               if valid then (Inl (Inr (cwa_subject ao au user)), c1)
               else try_users ao au io b nvs (fst nv # tried) c1))"

definition cookie_pairs :: "pystr \<Rightarrow> (pystr \<times> pystr) list" where
  "cookie_pairs canonical =
     map (\<lambda>p. case split1 61 p of (n, r) \<Rightarrow> (n, case r of None \<Rightarrow> [] | Some v \<Rightarrow> v)) (split_on 0 canonical)"

definition authenticate_cwa_session ::
  "auth_oracles \<Rightarrow> authenticator \<Rightarrow> (pystr \<Rightarrow> check_io) \<Rightarrow> headers \<Rightarrow> binding option \<Rightarrow> vcache
   \<Rightarrow> (auth_error, auth_identity) result \<times> vcache" where
  "authenticate_cwa_session ao au io hs binding c =
     (case rbind (validated_cwa_binding binding) (\<lambda>b. rbind (selected_cookies ao au hs) (\<lambda>sel. Inr (b, sel))) of
        Inl e \<Rightarrow> (Inl e, c)
      | Inr (b, cookie, canonical) \<Rightarrow>
          let pairs = cookie_pairs canonical;
              identity = (\<lambda>s. \<lparr>ai_subject = s, ai_roles = {}, ai_mode = au_mode au\<rparr>)
          in (case try_users ao au io b pairs [] c of
                (Inl res, c1) \<Rightarrow> (rbind res (\<lambda>s. Inr (identity s)), c1)
              | (Inr tried, c1) \<Rightarrow>
                  if set (map fst pairs) \<subseteq> set tried then (Inl AuthRejected, c1)
                  else (case cwa_cookie_valid ao au io cookie canonical b c1 of
                          (res, c2) \<Rightarrow>
                            (rbind res (\<lambda>valid. if \<not> valid then Inl AuthRejected
                               else Inr (identity (lit ''cwa-session:'' @ hex_bytes (ao_digest ao (utf8 canonical))))), c2))))"

fun broker_failure :: "broker_error \<Rightarrow> auth_error" where
  "broker_failure BrokerRejected = AuthRejected"
| "broker_failure BrokerUnavailable = AuthUnavailable"

text \<open>\<open>authenticate\<close>, with the broker's clock reading; the decision cache and the broker change.\<close>

record auth_request =
  ar_headers :: headers
  ar_remote_addr :: "pystr option"
  ar_binding :: "binding option"
  ar_io :: "pystr \<Rightarrow> check_io"
  ar_now :: real

definition request_binding :: "auth_request \<Rightarrow> binding" where
  "request_binding q = (case ar_binding q of None \<Rightarrow> (PNone, PNone) | Some b \<Rightarrow> b)"

definition authenticate_request ::
  "auth_oracles \<Rightarrow> auth_request \<Rightarrow> authenticator \<Rightarrow> (auth_error, auth_identity) result \<times> authenticator" where
  "authenticate_request ao q au =
     (case au_mode au of
        Disabled_Mode \<Rightarrow> (Inr \<lparr>ai_subject = lit ''legacy-anonymous'', ai_roles = {}, ai_mode = Disabled_Mode\<rparr>, au)
      | Token_Mode \<Rightarrow> (authenticate_token ao au (ar_headers q), au)
      | Forwarded_Mode \<Rightarrow> (authenticate_forwarded ao au (ar_headers q) (ar_remote_addr q), au)
      | Reader_Session_Mode \<Rightarrow>
          (case au_broker au of
             None \<Rightarrow> (Inl AuthUnavailable, au)
           | Some rb \<Rightarrow>
               (case authenticate (ao_base ao) (ar_now q) (ar_headers q) (request_binding q) rb of
                  (Inl e, rb1) \<Rightarrow> (Inl (broker_failure e), au\<lparr>au_broker := Some rb1\<rparr>)
                | (Inr s, rb1) \<Rightarrow>
                    (Inr \<lparr>ai_subject = s, ai_roles = {}, ai_mode = au_mode au\<rparr>, au\<lparr>au_broker := Some rb1\<rparr>)))
      | Cwa_Session_Mode \<Rightarrow>
          (case authenticate_cwa_session ao au (ar_io q) (ar_headers q) (ar_binding q) (au_cache au) of
             (res, c) \<Rightarrow> (res, au\<lparr>au_cache := c\<rparr>)))"

end
