(* ===== verification/Admission.thy ===== *)
theory Admission
  imports Authentication
begin

section \<open>Admission of requests\<close>

text \<open>
  Models the admission side of \<open>server.py\<close>: the sliding-window rate limiter with its two
  stores, the slots of requests under authentication, the comparison of operator tokens, the
  client's key for rate limits, and the context a CWA or reader session is bound to. The two
  stores and the slots share one lock, so their operations are atomic; a clock reading or an
  answer of the resolver is an argument.
\<close>

subsection \<open>Rate limits\<close>

type_synonym bucket_store = "(pystr, real list) odict"

record limits =
  lm_per_minute :: nat
  lm_auth_per_minute :: nat
  lm_auth_inflight :: nat
  lm_max_clients :: nat
  lm_retry_after :: nat

definition rate_limit_window :: real where
  "rate_limit_window = 60"

definition bucket :: "bucket_store \<Rightarrow> pystr \<Rightarrow> real list" where
  "bucket store ip = (case map_of store ip of None \<Rightarrow> [] | Some ts \<Rightarrow> ts)"

definition live :: "real \<Rightarrow> real list \<Rightarrow> real list" where
  "live cutoff ts = filter (\<lambda>t. cutoff < t) ts"

text \<open>\<open>_check_window_rate_limit\<close>; stale buckets are reclaimed only when a new client finds no room.\<close>

definition check_window_rate_limit ::
  "nat \<Rightarrow> real \<Rightarrow> pystr \<Rightarrow> nat \<Rightarrow> bucket_store \<Rightarrow> bool \<times> bucket_store" where
  "check_window_rate_limit max_clients now ip limit store =
     (let cutoff = now - rate_limit_window;
          pressed = (map_of store ip = None \<and> max_clients \<le> length store);
          store1 = (if pressed then filter (\<lambda>p. list_ex (\<lambda>t. cutoff < t) (snd p)) store else store)
      in if pressed \<and> max_clients \<le> length store1 then (False, store1)
         else let timestamps = live cutoff (bucket store1 ip) in
           if limit \<le> length timestamps then (False, AList.update ip timestamps store1)
           else (True, AList.update ip (timestamps @ [now]) store1))"

text \<open>One pass of \<open>_cleanup_rate_limits\<close> over a store.\<close>

definition cleanup_pass :: "real \<Rightarrow> bucket_store \<Rightarrow> bucket_store" where
  "cleanup_pass now store =
     filter (\<lambda>p. snd p \<noteq> []) (map (\<lambda>(ip, ts). (ip, live (now - rate_limit_window) ts)) store)"

record admission =
  ad_rate :: bucket_store
  ad_auth :: bucket_store
  ad_inflight :: "(pystr, nat) odict"

definition no_admission :: admission where
  "no_admission = \<lparr>ad_rate = [], ad_auth = [], ad_inflight = []\<rparr>"

definition check_rate_limit :: "limits \<Rightarrow> real \<Rightarrow> pystr \<Rightarrow> admission \<Rightarrow> bool \<times> admission" where
  "check_rate_limit lm now ip ad =
     (case check_window_rate_limit (lm_max_clients lm) now ip (lm_per_minute lm) (ad_rate ad) of
        (ok, s) \<Rightarrow> (ok, ad\<lparr>ad_rate := s\<rparr>))"

definition check_auth_rate_limit :: "limits \<Rightarrow> real \<Rightarrow> pystr \<Rightarrow> admission \<Rightarrow> bool \<times> admission" where
  "check_auth_rate_limit lm now ip ad =
     (case check_window_rate_limit (lm_max_clients lm) now ip (lm_auth_per_minute lm) (ad_auth ad) of
        (ok, s) \<Rightarrow> (ok, ad\<lparr>ad_auth := s\<rparr>))"

definition cleanup_rate_limits :: "real \<Rightarrow> admission \<Rightarrow> admission" where
  "cleanup_rate_limits now ad = ad\<lparr>ad_rate := cleanup_pass now (ad_rate ad), ad_auth := cleanup_pass now (ad_auth ad)\<rparr>"

subsection \<open>Slots of requests under authentication\<close>

definition slots :: "(pystr, nat) odict \<Rightarrow> pystr \<Rightarrow> nat" where
  "slots s k = (case map_of s k of None \<Rightarrow> 0 | Some n \<Rightarrow> n)"

definition acquire_auth_inflight :: "limits \<Rightarrow> pystr \<Rightarrow> admission \<Rightarrow> bool \<times> admission" where
  "acquire_auth_inflight lm k ad =
     (let current = slots (ad_inflight ad) k in
      if lm_auth_inflight lm \<le> current then (False, ad)
      else if current = 0 \<and> lm_max_clients lm \<le> length (ad_inflight ad) then (False, ad)
      else (True, ad\<lparr>ad_inflight := AList.update k (Suc current) (ad_inflight ad)\<rparr>))"

definition release_auth_inflight :: "pystr \<Rightarrow> admission \<Rightarrow> admission" where
  "release_auth_inflight k ad =
     (let current = slots (ad_inflight ad) k in
      if current \<le> 1 then ad\<lparr>ad_inflight := AList.delete k (ad_inflight ad)\<rparr>
      else ad\<lparr>ad_inflight := AList.update k (current - 1) (ad_inflight ad)\<rparr>)"

text \<open>\<open>_token_matches\<close>: \<open>compare_digest\<close> raises for text that is not ASCII.\<close>

definition token_matches :: "pystr \<Rightarrow> pystr \<Rightarrow> bool" where
  "token_matches provided expected \<longleftrightarrow>
     provided \<noteq> [] \<and> expected \<noteq> [] \<and> length provided \<le> 4096 \<and> length expected \<le> 4096
     \<and> is_ascii provided \<and> is_ascii expected \<and> provided = expected"

subsection \<open>The client behind a proxy\<close>

record edge_config =
  ec_networks :: "network list"
  ec_proxy_host :: pystr
  ec_trust_proxy :: bool

text \<open>The cached resolution of the proxy's name: the host, its expiry and the addresses.\<close>

type_synonym resolver_cache = "pystr \<times> real \<times> ip list"

record resolver_io =
  rs_now :: real
  rs_getaddrinfo :: "pystr list option"

definition resolved_trusted_proxy_addresses ::
  "edge_config \<Rightarrow> resolver_io \<Rightarrow> resolver_cache \<Rightarrow> ip list \<times> resolver_cache" where
  "resolved_trusted_proxy_addresses ec io c =
     (if ec_proxy_host ec = [] then ([], c)
      else case c of (cached_host, expires_at, addresses) \<Rightarrow>
        if cached_host = ec_proxy_host ec \<and> rs_now io < expires_at then (addresses, c)
        else let resolved = (case rs_getaddrinfo io of None \<Rightarrow> []
                | Some rs \<Rightarrow> (case omap (\<lambda>r. ip_address (fst (split1 37 r))) rs of None \<Rightarrow> [] | Some as \<Rightarrow> as))
             in (resolved, (ec_proxy_host ec, rs_now io + 5, resolved)))"

fun header_lookup :: "(pystr \<Rightarrow> pystr) \<Rightarrow> headers \<Rightarrow> pystr \<Rightarrow> pystr option" where
  "header_lookup cf [] name = None"
| "header_lookup cf ((n, v) # hs) name = (if cf n = cf name then Some v else header_lookup cf hs name)"

definition peer_text :: "pystr option \<Rightarrow> pystr" where
  "peer_text remote = (case remote of None \<Rightarrow> lit ''unknown'' | Some r \<Rightarrow> if r = [] then lit ''unknown'' else r)"

definition last_hop :: "pystr \<Rightarrow> pystr" where
  "last_hop fwd = (if fwd = [] then [] else strip (last (split_on 44 fwd)))"

definition client_ip ::
  "(pystr \<Rightarrow> pystr) \<Rightarrow> edge_config \<Rightarrow> resolver_io \<Rightarrow> headers \<Rightarrow> pystr option \<Rightarrow> resolver_cache \<Rightarrow> pystr \<times> resolver_cache" where
  "client_ip cf ec io hs remote c =
     (let peer = peer_text remote;
          xff = last_hop (case header_lookup cf hs (lit ''X-Forwarded-For'') of None \<Rightarrow> [] | Some f \<Rightarrow> f)
      in if (ec_networks ec \<noteq> [] \<or> ec_proxy_host ec \<noteq> []) \<and> xff \<noteq> []
         then (case ip_address peer of
                 None \<Rightarrow> (peer, c)
               | Some peer_ip \<Rightarrow>
                   if list_ex (in_network peer_ip) (ec_networks ec) then (xff, c)
                   else (case resolved_trusted_proxy_addresses ec io c of
                           (as, c1) \<Rightarrow> if peer_ip \<in> set as then (xff, c1) else (peer, c1)))
         else if ec_trust_proxy ec \<and> xff \<noteq> [] then (xff, c)
         else (peer, c))"

definition clean_single_ip :: "pystr \<Rightarrow> (auth_error, pystr) result" where
  "clean_single_ip v =
     (if v = [] \<or> 64 < length v \<or> v \<noteq> strip v \<or> 44 \<in> set v \<or> 37 \<in> set v \<or> list_ex is_ctrl v
         \<or> ip_address v = None
      then Inl AuthRejected else Inr v)"

text \<open>\<open>_cwa_session_binding\<close>: the address of the client and its user agent.\<close>

definition cwa_session_binding ::
  "(pystr \<Rightarrow> pystr) \<Rightarrow> edge_config \<Rightarrow> resolver_io \<Rightarrow> headers \<Rightarrow> pystr option \<Rightarrow> resolver_cache
   \<Rightarrow> (auth_error, cwa_binding) result \<times> resolver_cache" where
  "cwa_session_binding cf ec io hs remote c =
     (case clean_single_ip (case remote of None \<Rightarrow> [] | Some r \<Rightarrow> r) of
        Inl e \<Rightarrow> (Inl e, c)
      | Inr peer_txt \<Rightarrow>
          (case ip_address peer_txt of
             None \<Rightarrow> (Inl AuthRejected, c)
           | Some peer \<Rightarrow>
               let exact = filter (\<lambda>n. snd (snd n) = network_width n) (ec_networks ec);
                   explicit = (ec_proxy_host ec \<noteq> [] \<or> exact \<noteq> []);
                   known = list_ex (in_network peer) exact;
                   (as, c1) = (if ec_proxy_host ec \<noteq> [] \<and> \<not> known then resolved_trusted_proxy_addresses ec io c else ([], c));
                   is_proxy = (known \<or> peer \<in> set as);
                   user_agent = header_lookup cf hs (lit ''User-Agent'')
               in (case header_lookup cf hs (lit ''X-Forwarded-For'') of
                     Some f \<Rightarrow>
                       (if \<not> is_proxy then Inl AuthRejected
                        else rbind (clean_single_ip f) (\<lambda>a. Inr (a, user_agent)), c1)
                   | None \<Rightarrow>
                       (if explicit then Inl AuthRejected else Inr (peer_txt, user_agent), c1))))"

subsection \<open>Facts about the limiter\<close>

lemma bucket_update [simp]: "bucket (AList.update ip ts s) k = (if k = ip then ts else bucket s k)"
  by (simp add: bucket_def update_conv')

lemma live_live: "c \<le> d \<Longrightarrow> live d (live c ts) = live d ts"
  by (auto simp: live_def intro: filter_cong)

lemma live_Nil [simp]: "live c [] = []"
  by (simp add: live_def)

lemma live_append [simp]: "live c (xs @ ys) = live c xs @ live c ys"
  by (simp add: live_def)

lemma live_reclaimed:
  assumes "distinct_keys s" "c \<le> d"
  shows "live d (bucket (filter (\<lambda>p. list_ex (\<lambda>t. c < t) (snd p)) s) k) = live d (bucket s k)"
proof (cases "map_of s k")
  case (Some ts)
  have "live d ts = []" if "\<not> list_ex (\<lambda>t. c < t) ts"
    using that assms(2) by (auto simp: live_def list_ex_iff filter_empty_conv)
  then show ?thesis using assms(1) Some by (simp add: bucket_def map_of_filter_Some)
qed (simp add: bucket_def map_of_filter_Some assms(1))

lemma map_of_cleanup:
  "distinct_keys s \<Longrightarrow> bucket (cleanup_pass now s) k = live (now - rate_limit_window) (bucket s k)"
proof (induction s)
  case (Cons p s)
  obtain a ts where p: "p = (a, ts)" by fastforce
  have d: "distinct_keys s" "map_of s a = None" using Cons.prems by (auto simp: distinct_keys_def p map_of_eq_None_iff)
  have "map_of (cleanup_pass now s) a = None"
    using d(2) by (force simp: cleanup_pass_def map_of_eq_None_iff)
  then show ?case using Cons.IH d p by (auto simp: bucket_def cleanup_pass_def live_def split: option.splits)
qed (simp add: bucket_def cleanup_pass_def live_def)

lemma cleanup_distinct: "distinct_keys s \<Longrightarrow> distinct_keys (cleanup_pass now s)"
proof -
  assume d: "distinct_keys s"
  have "map fst (map (\<lambda>(ip, ts). (ip, live (now - rate_limit_window) ts)) s) = map fst s" by auto
  then have "distinct_keys (map (\<lambda>(ip, ts). (ip, live (now - rate_limit_window) ts)) s)"
    using d by (simp only: distinct_keys_def)
  then show ?thesis by (simp add: cleanup_pass_def)
qed

lemma cleanup_length: "length (cleanup_pass now s) \<le> length s"
  unfolding cleanup_pass_def by (metis length_filter_le length_map)

lemma length_update_key: "length (AList.update k v d) = (if map_of d k = None then Suc (length d) else length d)"
  by (induction d) auto

subsection \<open>Runs of a limiter\<close>

datatype window_op = Admit real pystr | Sweep real

fun window_time :: "window_op \<Rightarrow> real" where
  "window_time (Admit now ip) = now"
| "window_time (Sweep now) = now"

text \<open>The seen holds the admitted clients with their times.\<close>

fun window_step :: "nat \<Rightarrow> nat \<Rightarrow> window_op \<Rightarrow> (pystr \<times> real) list \<times> bucket_store \<Rightarrow> (pystr \<times> real) list \<times> bucket_store" where
  "window_step m limit (Admit now ip) (seen, s) =
     (case check_window_rate_limit m now ip limit s of (ok, s1) \<Rightarrow> (if ok then seen @ [(ip, now)] else seen, s1))"
| "window_step m limit (Sweep now) (seen, s) = (seen, cleanup_pass now s)"

definition times_of :: "pystr \<Rightarrow> (pystr \<times> real) list \<Rightarrow> real list" where
  "times_of k seen = map snd (filter (\<lambda>p. fst p = k) seen)"

lemma times_of_append [simp]: "times_of k (xs @ ys) = times_of k xs @ times_of k ys"
  by (simp add: times_of_def)

lemma times_of_one [simp]: "times_of k [(ip, t)] = (if ip = k then [t] else [])"
  by (simp add: times_of_def)

text \<open>
  The clock is read before the lock is taken, so the operations may take the lock out of the
  order of their readings. \<open>delayed d\<close> bounds how far a reading lies behind an earlier one; with
  \<open>d = 0\<close> the readings are in order.
\<close>

definition delayed :: "real \<Rightarrow> real list \<Rightarrow> bool" where
  "delayed d = sorted_wrt (\<lambda>earlier later. earlier - d \<le> later)"

lemma delayed_snoc: "delayed d (ts @ [t]) \<longleftrightarrow> delayed d ts \<and> (\<forall>u\<in>set ts. u - d \<le> t)"
  by (simp add: delayed_def sorted_wrt_append)

lemma delayed_zero: "delayed 0 ts \<longleftrightarrow> sorted ts"
  by (simp add: delayed_def)

text \<open>The admissions in the \<open>w\<close> seconds after \<open>x\<close>.\<close>

definition in_window :: "real \<Rightarrow> real \<Rightarrow> real list \<Rightarrow> nat" where
  "in_window w x ts = length (filter (\<lambda>t. x < t \<and> t \<le> x + w) ts)"

text \<open>The invariant refers to the latest reading so far: above its cutoff the store forgets nothing.\<close>

definition limiter_ok :: "nat \<Rightarrow> nat \<Rightarrow> real \<Rightarrow> real \<Rightarrow> (pystr \<times> real) list \<times> bucket_store \<Rightarrow> bool" where
  "limiter_ok m limit w latest st \<longleftrightarrow>
     distinct_keys (snd st) \<and> length (snd st) \<le> m
     \<and> (\<forall>k c. latest - rate_limit_window \<le> c \<longrightarrow> live c (bucket (snd st) k) = live c (times_of k (fst st)))
     \<and> (\<forall>k x. in_window w x (times_of k (fst st)) \<le> limit)"

lemma live_length: "c \<le> d \<Longrightarrow> length (live d ts) \<le> length (live c ts)"
  by (metis length_filter_le live_def live_live)

lemma in_window_snoc:
  assumes "in_window w x ts \<le> limit" "length (live cutoff ts) < limit" "cutoff + w \<le> now"
  shows "in_window w x (ts @ [now]) \<le> limit"
proof (cases "x < now \<and> now \<le> x + w")
  case True
  have "filter (\<lambda>t. x < t \<and> t \<le> x + w) ts = filter (\<lambda>t. x < t \<and> t \<le> x + w) (live cutoff ts)"
    using True assms(3) by (auto simp: live_def intro!: filter_cong)
  then have "in_window w x ts \<le> length (live cutoff ts)"
    unfolding in_window_def by (metis length_filter_le)
  then show ?thesis using assms(2) True by (simp add: in_window_def)
next
  case False
  then show ?thesis using assms(1) by (auto simp: in_window_def)
qed

lemma limiter_later: "limiter_ok m limit w latest st \<Longrightarrow> latest \<le> latest' \<Longrightarrow> limiter_ok m limit w latest' st"
  by (fastforce simp: limiter_ok_def)

lemma limiter_check:
  assumes "limiter_ok m limit w latest (seen, s)" "check_window_rate_limit m now ip limit s = (ok, s1)"
    and "now \<le> latest" "latest - rate_limit_window + w \<le> now"
  shows "limiter_ok m limit w latest (if ok then seen @ [(ip, now)] else seen, s1)"
proof -
  have cut: "now - rate_limit_window \<le> latest - rate_limit_window" using assms(3) by simp
  define s0 where "s0 = (if map_of s ip = None \<and> m \<le> length s
     then filter (\<lambda>p. list_ex (\<lambda>t. now - rate_limit_window < t) (snd p)) s else s)"
  have I: "distinct_keys s" "length s \<le> m"
    "\<And>k c. latest - rate_limit_window \<le> c \<Longrightarrow> live c (bucket s k) = live c (times_of k seen)"
    "\<And>k x. in_window w x (times_of k seen) \<le> limit"
    using assms(1) by (auto simp: limiter_ok_def)
  have s0: "distinct_keys s0" "length s0 \<le> m"
    using I(1,2) length_filter_le [of _ s] by (auto simp: s0_def intro: order_trans)
  have b0: "live c (bucket s0 k) = live c (times_of k seen)" if "latest - rate_limit_window \<le> c" for k c
    using that I(3) live_reclaimed [OF I(1) order_trans [OF cut that]] by (simp add: s0_def)
  let ?ts = "live (now - rate_limit_window) (bucket s0 ip)"
  show ?thesis
  proof (cases "map_of s ip = None \<and> m \<le> length s0 \<and> m \<le> length s")
    case True
    then have "ok = False" "s1 = s0" using assms(2) by (auto simp: check_window_rate_limit_def Let_def s0_def split: if_splits)
    then show ?thesis using s0 b0 I(4) by (simp add: limiter_ok_def)
  next
    case False
    have r: "(ok, s1) = (if limit \<le> length ?ts then (False, AList.update ip ?ts s0) else (True, AList.update ip (?ts @ [now]) s0))"
      using False assms(2) by (auto simp: check_window_rate_limit_def Let_def s0_def split: if_splits)
    have room: "map_of s0 ip = None \<Longrightarrow> length s0 < m"
      using False I(2) by (auto simp: s0_def not_le split: if_splits)
    have len: "length (AList.update ip v s0) \<le> m" for v
      using room s0(2) by (auto simp: length_update_key)
    have ll: "live c ?ts = live c (times_of ip seen)" if "latest - rate_limit_window \<le> c" for c
      using b0 [OF that, of ip] live_live [OF order_trans [OF cut that]] by simp
    show ?thesis
    proof (cases "limit \<le> length ?ts")
      case True
      then show ?thesis using r s0 b0 I(4) len ll by (auto simp: limiter_ok_def)
    next
      case False
      have "length (live (latest - rate_limit_window) (bucket s0 ip)) < limit"
        using False live_length [OF cut, of "bucket s0 ip"] by simp
      then have "length (live (latest - rate_limit_window) (times_of ip seen)) < limit"
        using b0 [of "latest - rate_limit_window" ip] by simp
      then have "in_window w x (times_of ip seen @ [now]) \<le> limit" for x
        using in_window_snoc [OF I(4) _ assms(4)] by blast
      then show ?thesis using False r s0 b0 I(4) len ll by (auto simp: limiter_ok_def)
    qed
  qed
qed

lemma limiter_sweep:
  assumes "limiter_ok m limit w latest (seen, s)" "now \<le> latest"
  shows "limiter_ok m limit w latest (seen, cleanup_pass now s)"
proof -
  have "live c (bucket (cleanup_pass now s) k) = live c (times_of k seen)" if "latest - rate_limit_window \<le> c" for c k
    using assms that live_live [of "now - rate_limit_window" c] by (simp add: limiter_ok_def map_of_cleanup)
  then show ?thesis
    using assms cleanup_distinct cleanup_length [of now s] by (auto simp: limiter_ok_def intro: order_trans)
qed

text \<open>The invariant along a run, with the latest reading or any later one.\<close>

lemma limiter_step:
  assumes "limiter_ok m limit w latest st" "window_time op \<le> latest" "latest - rate_limit_window + w \<le> window_time op"
  shows "limiter_ok m limit w latest (window_step m limit op st)"
  using assms limiter_check limiter_sweep by (cases st; cases op) (auto split: prod.splits)

definition latest_reading :: "window_op list \<Rightarrow> real" where
  "latest_reading ops = (if ops = [] then 0 else Max (set (map window_time ops)))"

lemma latest_reading_snoc:
  "latest_reading (ops @ [op]) = (if ops = [] then window_time op else max (window_time op) (latest_reading ops))"
  by (simp add: latest_reading_def)

lemma latest_reading_mem: "ops \<noteq> [] \<Longrightarrow> latest_reading ops \<in> set (map window_time ops)"
  unfolding latest_reading_def by (metis List.finite_set Max_in list.map_disc_iff set_empty)

lemma limiter_run:
  assumes "delayed d (map window_time ops)" "0 \<le> d"
  shows "limiter_ok m limit (rate_limit_window - d) (latest_reading ops) (fold (window_step m limit) ops ([], []))"
  using assms(1)
proof (induction ops rule: rev_induct)
  case Nil
  show ?case by (simp add: limiter_ok_def bucket_def live_def times_of_def in_window_def)
next
  case (snoc op ops)
  let ?st = "fold (window_step m limit) ops ([], [])" and ?latest = "latest_reading (ops @ [op])"
  have ready: "limiter_ok m limit (rate_limit_window - d) ?latest ?st \<and> ?latest - d \<le> window_time op"
  proof (cases "ops = []")
    case True
    then show ?thesis using assms(2) latest_reading_snoc [of "[]" op]
      by (simp add: limiter_ok_def bucket_def live_def times_of_def in_window_def)
  next
    case False
    then have "latest_reading ops - d \<le> window_time op"
      using latest_reading_mem [OF False] snoc.prems by (auto simp: delayed_snoc)
    moreover have "limiter_ok m limit (rate_limit_window - d) ?latest ?st"
      using snoc False by (intro limiter_later [OF snoc.IH]) (simp_all add: latest_reading_snoc delayed_snoc)
    ultimately show ?thesis using False assms(2) by (auto simp: latest_reading_snoc)
  qed
  have "window_time op \<le> ?latest" by (simp add: latest_reading_snoc)
  then show ?case using limiter_step [of m limit "rate_limit_window - d" ?latest ?st op] ready by simp
qed

text \<open>Without a bound on the delay a window can hold more than the limit: the call of second 61
  removes what the call of second 59 would still have counted.\<close>

lemma late_reading_exceeds_limit:
  "times_of (lit ''c'') (fst (fold (window_step 5 2) (map (\<lambda>t. Admit t (lit ''c'')) [0, 1, 61, 59]) ([], []))) = [0, 1, 61, 59]
   \<and> in_window rate_limit_window (- 1) [0, 1, 61, 59] = 3"
  by (simp add: check_window_rate_limit_def bucket_def live_def rate_limit_window_def times_of_def in_window_def)

subsection \<open>Slots along a run\<close>

datatype slot_op = Acquire pystr | Release pystr

text \<open>The log counts the slots that each client holds.\<close>

fun slot_step :: "limits \<Rightarrow> slot_op \<Rightarrow> (pystr \<Rightarrow> nat) \<times> admission \<Rightarrow> (pystr \<Rightarrow> nat) \<times> admission" where
  "slot_step lm (Acquire k) (held, ad) =
     (case acquire_auth_inflight lm k ad of (ok, ad1) \<Rightarrow> (if ok then held(k := Suc (held k)) else held, ad1))"
| "slot_step lm (Release k) (held, ad) = (held(k := held k - 1), release_auth_inflight k ad)"

text \<open>A slot is released only by a client that holds one.\<close>

fun slots_fair :: "limits \<Rightarrow> slot_op list \<Rightarrow> (pystr \<Rightarrow> nat) \<times> admission \<Rightarrow> bool" where
  "slots_fair lm [] st = True"
| "slots_fair lm (op # ops) st =
     ((case op of Acquire k \<Rightarrow> True | Release k \<Rightarrow> 0 < fst st k) \<and> slots_fair lm ops (slot_step lm op st))"

definition slots_ok :: "limits \<Rightarrow> (pystr \<Rightarrow> nat) \<times> admission \<Rightarrow> bool" where
  "slots_ok lm st \<longleftrightarrow> (let s = ad_inflight (snd st) in
     distinct_keys s \<and> length s \<le> lm_max_clients lm
     \<and> (\<forall>k. map_of s k = (if fst st k = 0 then None else Some (fst st k)) \<and> fst st k \<le> lm_auth_inflight lm))"

lemma slots_ok_slots: "slots_ok lm (held, ad) \<Longrightarrow> slots (ad_inflight ad) k = held k"
  by (simp add: slots_ok_def slots_def Let_def)

lemma slots_ok_step:
  assumes "slots_ok lm (held, ad)" "case op of Acquire k \<Rightarrow> True | Release k \<Rightarrow> 0 < held k"
  shows "slots_ok lm (slot_step lm op (held, ad))"
proof (cases op)
  case (Acquire k)
  show ?thesis
  proof (cases "lm_auth_inflight lm \<le> held k \<or> held k = 0 \<and> lm_max_clients lm \<le> length (ad_inflight ad)")
    case True
    then show ?thesis using Acquire assms(1) slots_ok_slots [OF assms(1)]
      by (auto simp: acquire_auth_inflight_def Let_def)
  next
    case False
    then show ?thesis using Acquire assms(1) slots_ok_slots [OF assms(1)]
      by (auto simp: acquire_auth_inflight_def Let_def slots_ok_def length_update_key)
  qed
next
  case (Release k)
  have l: "length (AList.delete k (ad_inflight ad)) \<le> length (ad_inflight ad)"
    by (simp add: AList.delete_eq)
  show ?thesis
  proof (cases "held k \<le> 1")
    case True
    then have "held k = 1" using assms(2) Release by simp
    then show ?thesis using Release assms(1) slots_ok_slots [OF assms(1)] l
      by (auto simp: release_auth_inflight_def Let_def slots_ok_def intro: order_trans)
  next
    case False
    then show ?thesis using Release assms(1) slots_ok_slots [OF assms(1)]
      by (auto simp: release_auth_inflight_def Let_def slots_ok_def length_update_key split: if_splits)
        (metis diff_le_self le_trans not_gr_zero)
  qed
qed

lemma slots_run: "slots_ok lm st \<Longrightarrow> slots_fair lm ops st \<Longrightarrow> slots_ok lm (fold (slot_step lm) ops st)"
proof (induction ops arbitrary: st)
  case (Cons op ops)
  obtain held ad where st: "st = (held, ad)" by fastforce
  have "slots_ok lm (slot_step lm op st)"
    using slots_ok_step [of lm held ad op] Cons.prems unfolding st by (auto split: slot_op.splits)
  then show ?case using Cons by simp
qed simp

subsection \<open>Properties\<close>

text \<open>
  C6: the limiter holds in every sliding window. The clock is read before the lock is taken, so
  calls and cleanup passes may take the lock out of the order of their readings. When no reading
  lies more than \<open>d\<close> seconds behind one that took the lock before it, no client is admitted more
  than \<open>limit\<close> times within any \<open>60 - d\<close> seconds (within any sixty seconds, when the readings are
  in order), and the store never has more than \<open>max_clients\<close> buckets: reclaiming stale buckets
  gives nobody a second allowance.
\<close>

theorem rate_limit_enforced:
  assumes "delayed d (map window_time ops)" "0 \<le> d"
    and "fold (window_step max_clients limit) ops ([], []) = (admitted, store)"
  shows "in_window (rate_limit_window - d) x (times_of ip admitted) \<le> limit \<and> length store \<le> max_clients"
  using limiter_run [OF assms(1,2), of max_clients limit] assms(3) by (simp add: limiter_ok_def)

theorem rate_limit_enforced_witness:
  "in_window rate_limit_window 0 (times_of (lit ''c'') [(lit ''c'', 1), (lit ''c'', 62)]) \<le> 1
   \<and> fst (fold (window_step 5 1) [Admit 1 (lit ''c''), Admit 2 (lit ''c''), Sweep 3, Admit 62 (lit ''c'')] ([], []))
     = [(lit ''c'', 1), (lit ''c'', 62)]
   \<and> in_window 58 (- 1) [0, 1, 61, 59] \<le> 2"
proof -
  have r: "fold (window_step 5 1) [Admit 1 (lit ''c''), Admit 2 (lit ''c''), Sweep 3, Admit 62 (lit ''c'')] ([], [])
    = ([(lit ''c'', 1), (lit ''c'', 62)], [(lit ''c'', [62])])"
    by (simp add: check_window_rate_limit_def bucket_def live_def rate_limit_window_def cleanup_pass_def)
  have s: "delayed 0 (map window_time [Admit 1 (lit ''c''), Admit 2 (lit ''c''), Sweep 3, Admit 62 (lit ''c'')])"
    by (simp add: delayed_def)
  let ?late = "map (\<lambda>t. Admit t (lit ''c'')) [0, 1, 61, 59]"
  have l: "fold (window_step 5 2) ?late ([], []) = (map (\<lambda>t. (lit ''c'', t)) [0, 1, 61, 59], [(lit ''c'', [61, 59])])"
    by (simp add: check_window_rate_limit_def bucket_def live_def rate_limit_window_def)
  have d: "delayed 2 (map window_time ?late)" by (simp add: delayed_def)
  from rate_limit_enforced [OF s _ r, of 0 "lit ''c''"] rate_limit_enforced [OF d _ l, of "- 1" "lit ''c''"] r
  show ?thesis by (simp add: rate_limit_window_def times_of_def)
qed

text \<open>
  The slots of requests under authentication are exact. As long as only holders release,
  the table holds each client's outstanding slots and nothing else: at most the configured
  number per client, and at most \<open>BT_RATE_LIMIT_MAX_CLIENTS\<close> clients, so that no slot leaks.
\<close>

theorem auth_slots_exact:
  assumes "slots_fair lm ops (\<lambda>_. 0, no_admission)"
    and "fold (slot_step lm) ops (\<lambda>_. 0, no_admission) = (held, ad)"
  shows "map_of (ad_inflight ad) k = (if held k = 0 then None else Some (held k))
    \<and> held k \<le> lm_auth_inflight lm \<and> length (ad_inflight ad) \<le> lm_max_clients lm"
proof -
  have "slots_ok lm (\<lambda>_. 0, no_admission)" by (simp add: slots_ok_def no_admission_def)
  from slots_run [OF this assms(1)] show ?thesis using assms(2) by (simp add: slots_ok_def Let_def)
qed

definition demo_limits :: limits where
  "demo_limits = \<lparr>lm_per_minute = 5, lm_auth_per_minute = 5, lm_auth_inflight = 1, lm_max_clients = 2, lm_retry_after = 10\<rparr>"

theorem auth_slots_exact_witness:
  "fold (slot_step demo_limits) [Acquire [99], Acquire [99], Release [99]] (\<lambda>_. 0, no_admission) = (\<lambda>_. 0, no_admission)
   \<and> map_of (ad_inflight no_admission) [99] = None"
proof -
  have r: "fold (slot_step demo_limits) [Acquire [99], Acquire [99], Release [99]] (\<lambda>_. 0, no_admission) = (\<lambda>_. 0, no_admission)"
    by (auto simp: demo_limits_def acquire_auth_inflight_def release_auth_inflight_def no_admission_def slots_def)
  have f: "slots_fair demo_limits [Acquire [99], Acquire [99], Release [99]] (\<lambda>_. 0, no_admission)"
    by (simp add: demo_limits_def acquire_auth_inflight_def no_admission_def slots_def)
  from auth_slots_exact [OF f r, of "[99]"] r show ?thesis by simp
qed

text \<open>
  A client cannot choose its own rate-limit key. With trusted proxies configured, a request
  whose peer is neither in their networks nor an address of the proxy's name is counted under
  its own address, whatever headers it sends; and a trusted peer's request is counted under
  the last hop of the forwarding header, which that peer appended.
\<close>

theorem client_key_not_spoofed:
  assumes "ec_networks ec \<noteq> [] \<or> ec_proxy_host ec \<noteq> []" "ip_address (peer_text remote) = Some peer"
    and "hop = last_hop (case header_lookup cf hs (lit ''X-Forwarded-For'') of None \<Rightarrow> [] | Some f \<Rightarrow> f)"
  shows "fst (client_ip cf ec io hs remote c) =
    (if hop \<noteq> [] \<and> (list_ex (in_network peer) (ec_networks ec)
                     \<or> peer \<in> set (fst (resolved_trusted_proxy_addresses ec io c)))
     then hop else peer_text remote)"
  using assms by (cases "resolved_trusted_proxy_addresses ec io c") (auto simp: client_ip_def Let_def)

definition demo_edge :: edge_config where
  "demo_edge = \<lparr>ec_networks = [], ec_proxy_host = lit ''proxy'', ec_trust_proxy = True\<rparr>"

theorem client_key_not_spoofed_witness:
  "fst (client_ip id demo_edge \<lparr>rs_now = 1, rs_getaddrinfo = None\<rparr> [(lit ''X-Forwarded-For'', lit ''9.9.9.9'')]
     (Some (lit ''10.0.0.1'')) ([], 0, [])) = lit ''10.0.0.1''"
proof -
  have p: "peer_text (Some (lit ''10.0.0.1'')) = lit ''10.0.0.1''" by (simp add: peer_text_def)
  have a: "ip_address (peer_text (Some (lit ''10.0.0.1''))) = Some (V4 [10, 0, 0, 1])"
    unfolding p by (simp add: ip_address_def parse_ipv4_def parse_octet_def is_digit_def dec_value_def Let_def)
  have r: "fst (resolved_trusted_proxy_addresses demo_edge \<lparr>rs_now = 1, rs_getaddrinfo = None\<rparr> ([], 0, [])) = []"
    by (simp add: resolved_trusted_proxy_addresses_def demo_edge_def)
  have e: "ec_networks demo_edge \<noteq> [] \<or> ec_proxy_host demo_edge \<noteq> []" "ec_networks demo_edge = []"
    by (simp_all add: demo_edge_def)
  show ?thesis using client_key_not_spoofed [OF e(1) a refl] r e(2) p by (simp del: lit_Cons)
qed

end
