(* ===== verification/Providers.thy ===== *)
theory Providers
  imports Url Work_Budget
begin

section \<open>Translation providers\<close>

text \<open>
  Models the provider configuration of \<open>translator.py\<close>: the endpoint table, the validation and
  resolution of custom endpoints, the credentials each kind of provider needs, the primary and
  the fallback provider with their process-wide caches, and which providers a request may use.
  DNS answers, the registry behind \<open>is_global\<close> and SHA-256 are arguments.
\<close>

subsection \<open>Exceptions of a provider call\<close>

datatype call_exn =
    XBudget pystr
  | XConfig pystr
  | XDns pystr
  | XValue pystr
  | XTooLarge
  | XKey
  | XType
  | XSsl
  | XRequest nat bool "pystr option"
  | XOther

text \<open>
  \<open>XRequest status transport retry_after\<close> is a \<open>RequestException\<close>: the status of its response
  (0 without one), whether it is a \<open>ConnectionError\<close> or a \<open>Timeout\<close>, and the \<open>Retry-After\<close> header.
\<close>

fun budget_exn :: "budget_error \<Rightarrow> call_exn" where
  "budget_exn (WorkBudgetExceeded r) = XBudget r"
| "budget_exn (BudgetValueError t) = XValue t"
| "budget_exn (BudgetTypeError t) = XType"
| "budget_exn BudgetEncodeError = XValue (lit ''UnicodeEncodeError'')"

definition lift_budget :: "(budget_error, 'a) result \<Rightarrow> (call_exn, 'a) result" where
  "lift_budget r = (case r of Inl e \<Rightarrow> Inl (budget_exn e) | Inr x \<Rightarrow> Inr x)"

subsection \<open>Custom endpoints\<close>

record net =
  n_unicode :: unicode_ops
  n_global :: "ip \<Rightarrow> bool"
  n_sha :: "pystr \<Rightarrow> pystr"

text \<open>
  One resolution: whether a resolver slot is free, whether the resolver thread completes in
  time, its answer (the address texts, or an error), and the clock readings in program order.
\<close>

record dns_io =
  d_slot :: bool
  d_completed :: bool
  d_answer :: "pystr list option"
  d_t1 :: seconds
  d_t2 :: seconds
  d_t3 :: seconds
  d_t4 :: seconds

definition bounded_getaddrinfo :: "dns_io \<Rightarrow> budget option \<Rightarrow> (call_exn, pystr list) result" where
  "bounded_getaddrinfo d bo =
     rbind (case bo of
              None \<Rightarrow> Inr 5
            | Some b \<Rightarrow> rbind (lift_budget (ensure_active (d_t1 d) b)) (\<lambda>_. Inr (min 5 (remaining_seconds (d_t2 d) b))))
       (\<lambda>timeout.
          if \<not> d_slot d then Inl (XDns (lit ''custom endpoint DNS capacity exhausted''))
          else if timeout \<le> 0 \<or> \<not> d_completed d
          then (case bo of
                  Some b \<Rightarrow> if remaining_seconds (d_t3 d) b \<le> 0 then Inl (XBudget (lit ''deadline''))
                            else Inl (XDns (lit ''custom endpoint DNS timed out''))
                | None \<Rightarrow> Inl (XDns (lit ''custom endpoint DNS timed out'')))
          else rbind (case bo of None \<Rightarrow> Inr () | Some b \<Rightarrow> lift_budget (ensure_active (d_t4 d) b)) (\<lambda>_.
            case d_answer d of
              None \<Rightarrow> Inl (XDns (lit ''custom endpoint DNS failed''))
            | Some xs \<Rightarrow> Inr xs))"

definition endpoint_shape_ok :: "unicode_ops \<Rightarrow> pystr list \<Rightarrow> url_parts \<Rightarrow> nat option \<Rightarrow> bool" where
  "endpoint_shape_ok uo schemes u port \<longleftrightarrow>
     u_scheme u \<in> set schemes \<and> url_hostname uo u \<noteq> None \<and> url_hostname uo u \<noteq> Some []
     \<and> url_username u = None \<and> url_password u = None \<and> u_query u = [] \<and> u_fragment u = []
     \<and> u_path u = chat_path
     \<and> (case port of None \<Rightarrow> True | Some p \<Rightarrow> 1 \<le> p \<and> p \<le> 65535)"

definition or_443 :: "nat option \<Rightarrow> nat" where
  "or_443 port = (case port of None \<Rightarrow> 443 | Some p \<Rightarrow> if p = 0 then 443 else p)"

definition endpoint_addresses ::
  "(pystr \<Rightarrow> nat \<Rightarrow> dns_io) \<Rightarrow> budget option \<Rightarrow> pystr \<Rightarrow> nat option \<Rightarrow> (call_exn, ip list) result" where
  "endpoint_addresses dns bo host port =
     (case ip_address host of
        Some a \<Rightarrow> Inr [a]
      | None \<Rightarrow>
          rbind (bounded_getaddrinfo (dns host (or_443 port)) bo) (\<lambda>texts.
            case omap ip_address texts of
              None \<Rightarrow> Inl (XDns (lit ''custom endpoint DNS returned invalid addresses''))
            | Some ips \<Rightarrow> Inr ips))"

definition resolve_custom_endpoint ::
  "net \<Rightarrow> (pystr \<Rightarrow> nat \<Rightarrow> dns_io) \<Rightarrow> budget option \<Rightarrow> pystr \<Rightarrow> (call_exn, pystr \<times> pystr \<times> pystr list) result" where
  "resolve_custom_endpoint net dns bo endpoint =
     (if endpoint \<noteq> strip endpoint then Inl (XConfig (lit ''LLM custom endpoint must be one clean URL''))
      else case urlsplit (n_unicode net) endpoint of
        None \<Rightarrow> Inl (XConfig (lit ''LLM custom endpoint must be one valid URL''))
      | Some u \<Rightarrow>
         (case url_port u of
            Inl _ \<Rightarrow> Inl (XConfig (lit ''LLM custom endpoint must be one valid URL''))
          | Inr port \<Rightarrow>
             (case url_hostname (n_unicode net) u of
                Some host \<Rightarrow>
                  if \<not> endpoint_shape_ok (n_unicode net) [lit ''https''] u port
                  then Inl (XConfig (lit ''LLM custom endpoint must be public HTTPS with exact /v1/chat/completions path''))
                  else rbind (endpoint_addresses dns bo host port) (\<lambda>ips.
                    if ips = [] \<or> list_ex (\<lambda>a. \<not> n_global net a) ips
                    then Inl (XConfig (lit ''LLM custom endpoint must resolve only to public addresses''))
                    else Inr (endpoint, host, rev (remdups (rev (map show_ip ips)))))
              | None \<Rightarrow> Inl (XConfig (lit ''LLM custom endpoint must be public HTTPS with exact /v1/chat/completions path'')))))"

subsection \<open>Provider specifications\<close>

datatype protocol = OpenAI | Anthropic
datatype locality = Local | Remote

record provider_spec =
  provider_id :: pystr
  endpoint :: pystr
  protocol :: protocol
  locality :: locality
  cache_namespace :: pystr

record provider =
  p_spec :: provider_spec
  p_model :: pystr
  p_api_key :: pystr

definition custom_provider_id :: pystr where
  "custom_provider_id = lit ''openai-compatible''"

definition provider_endpoints :: "pystr \<Rightarrow> (pystr \<times> pystr \<times> protocol) list" where
  "provider_endpoints local_url =
     [(lit ''openai'', lit ''https://api.openai.com/v1/chat/completions'', OpenAI),
      (lit ''anthropic'', lit ''https://api.anthropic.com/v1/messages'', Anthropic),
      (lit ''gemini'', lit ''https://generativelanguage.googleapis.com/v1beta/openai/chat/completions'', OpenAI),
      (lit ''groq'', lit ''https://api.groq.com/openai/v1/chat/completions'', OpenAI),
      (lit ''together'', lit ''https://api.together.xyz/v1/chat/completions'', OpenAI),
      (lit ''minimax'', lit ''https://api.minimax.io/anthropic/v1/messages'', Anthropic),
      (lit ''deepseek'', lit ''https://api.deepseek.com/chat/completions'', OpenAI),
      (lit ''openrouter'', lit ''https://openrouter.ai/api/v1/chat/completions'', OpenAI),
      (lit ''local'', local_url, OpenAI)]"

record llm_env =
  e_net :: net
  e_dns :: "pystr \<Rightarrow> nat \<Rightarrow> dns_io"
  e_local_url :: pystr
  e_provider :: pystr
  e_model :: pystr
  e_api_key :: pystr
  e_custom_endpoint :: pystr
  e_custom_api_key :: pystr
  e_fb_provider :: pystr
  e_fb_model :: pystr
  e_fb_api_key :: pystr
  e_fb_custom_endpoint :: pystr
  e_fb_custom_api_key :: pystr

definition local_url_check :: "unicode_ops \<Rightarrow> pystr \<Rightarrow> (call_exn, unit) result" where
  "local_url_check uo url =
     (case urlsplit uo url of
        None \<Rightarrow> Inl (XValue (lit ''BT_LOCAL_URL must be one valid URL''))
      | Some u \<Rightarrow>
         (case url_port u of
            Inl _ \<Rightarrow> Inl (XValue (lit ''BT_LOCAL_URL must be one valid URL''))
          | Inr port \<Rightarrow>
              if endpoint_shape_ok uo [lit ''http'', lit ''https''] u port then Inr ()
              else Inl (XValue (lit ''BT_LOCAL_URL must target exact /v1/chat/completions''))))"

definition spec_for :: "llm_env \<Rightarrow> pystr \<Rightarrow> pystr \<Rightarrow> (call_exn, provider_spec) result" where
  "spec_for env name custom_endpoint =
     (case map_of (provider_endpoints (e_local_url env)) name of
        Some (url, proto) \<Rightarrow>
          rbind (if name = lit ''local'' then local_url_check (n_unicode (e_net env)) url else Inr ()) (\<lambda>_.
            Inr \<lparr>provider_id = name, endpoint = url, protocol = proto,
                 locality = (if name = lit ''local'' then Local else Remote), cache_namespace = name\<rparr>)
      | None \<Rightarrow>
          if name = custom_provider_id
          then rbind (resolve_custom_endpoint (e_net env) (e_dns env) None custom_endpoint) (\<lambda>_.
            if utf8_len custom_endpoint = None then Inl (XValue (lit ''UnicodeEncodeError''))
            else Inr \<lparr>provider_id = name, endpoint = custom_endpoint, protocol = OpenAI, locality = Remote,
                   cache_namespace = custom_provider_id @ [58] @ take 20 (n_sha (e_net env) custom_endpoint)\<rparr>)
          else Inl (XValue (lit ''Unknown LLM provider: '' @ name)))"

definition provider_from_config ::
  "llm_env \<Rightarrow> pystr \<Rightarrow> pystr \<Rightarrow> pystr \<Rightarrow> pystr \<Rightarrow> pystr \<Rightarrow> (call_exn, provider) result" where
  "provider_from_config env name model raw_key custom_endpoint raw_custom_key =
     (let api_key = strip raw_key; custom_api_key = strip raw_custom_key in
      if strip model = [] \<or> model \<noteq> strip model then Inl (XValue (lit ''LLM model must be a non-empty clean value''))
      else if name = custom_provider_id
      then (if api_key \<noteq> [] \<or> custom_api_key = []
            then Inl (XValue (lit ''openai-compatible requires its dedicated custom API key''))
            else rbind (spec_for env name custom_endpoint) (\<lambda>spec.
              Inr \<lparr>p_spec = spec, p_model = model, p_api_key = custom_api_key\<rparr>))
      else if custom_endpoint \<noteq> [] \<or> custom_api_key \<noteq> []
      then Inl (XValue (lit ''custom endpoint values require openai-compatible''))
      else rbind (spec_for env name []) (\<lambda>spec.
        if locality spec = Local
        then (if api_key \<noteq> [] then Inl (XValue (lit ''local provider forbids an API key''))
              else Inr \<lparr>p_spec = spec, p_model = model, p_api_key = api_key\<rparr>)
        else if api_key = [] then Inl (XValue (name @ lit '' requires an API key''))
        else Inr \<lparr>p_spec = spec, p_model = model, p_api_key = api_key\<rparr>))"

subsection \<open>The two provider roles\<close>

text \<open>
  The module globals: the primary provider once resolved, and the fallback cache, whose
  \<open>"unset"\<close> sentinel differs from the \<open>None\<close> of a deployment without a fallback.
\<close>

record provider_globals =
  pg_primary :: "provider option"
  pg_fallback :: "provider option option"

definition no_globals :: provider_globals where
  "no_globals = \<lparr>pg_primary = None, pg_fallback = None\<rparr>"

definition get_primary :: "llm_env \<Rightarrow> provider_globals \<Rightarrow> (call_exn, provider) result \<times> provider_globals" where
  "get_primary env g =
     (case pg_primary g of
        Some p \<Rightarrow> (Inr p, g)
      | None \<Rightarrow>
         (case provider_from_config env (e_provider env) (e_model env) (strip (e_api_key env))
                 (e_custom_endpoint env) (e_custom_api_key env) of
            Inl e \<Rightarrow> (Inl e, g)
          | Inr p \<Rightarrow> (Inr p, g\<lparr>pg_primary := Some p\<rparr>)))"

text \<open>The fallback is stored before it is compared with the primary provider.\<close>

definition get_fallback :: "llm_env \<Rightarrow> provider_globals \<Rightarrow> (call_exn, provider option) result \<times> provider_globals" where
  "get_fallback env g =
     (case pg_fallback g of
        Some f \<Rightarrow> (Inr f, g)
      | None \<Rightarrow>
          if e_fb_provider env = [] then (Inr None, g\<lparr>pg_fallback := Some None\<rparr>)
          else (case provider_from_config env (e_fb_provider env)
                       (if e_fb_model env = [] then e_model env else e_fb_model env)
                       (e_fb_api_key env) (e_fb_custom_endpoint env) (e_fb_custom_api_key env) of
                  Inl e \<Rightarrow> (Inl e, g)
                | Inr f \<Rightarrow>
                    let g1 = g\<lparr>pg_fallback := Some (Some f)\<rparr> in
                    (case get_primary env g1 of
                       (Inl e, g2) \<Rightarrow> (Inl e, g2)
                     | (Inr p, g2) \<Rightarrow>
                         if cache_namespace (p_spec p) = cache_namespace (p_spec f) \<and> p_model p = p_model f
                         then (Inl (XValue (lit ''primary and fallback providers must be distinct'')), g2)
                         else (Inr (Some f), g2))))"

definition both_providers ::
  "llm_env \<Rightarrow> provider_globals \<Rightarrow> (call_exn, provider \<times> provider option) result \<times> provider_globals" where
  "both_providers env g =
     (case get_primary env g of
        (Inl e, g1) \<Rightarrow> (Inl e, g1)
      | (Inr p, g1) \<Rightarrow>
         (case get_fallback env g1 of (Inl e, g2) \<Rightarrow> (Inl e, g2) | (Inr f, g2) \<Rightarrow> (Inr (p, f), g2)))"

definition provider_policy :: "provider \<times> provider option \<Rightarrow> locality \<times> locality option" where
  "provider_policy pf = (locality (p_spec (fst pf)), map_option (locality \<circ> p_spec) (snd pf))"

definition eligible_providers :: "provider \<times> provider option \<Rightarrow> bool \<Rightarrow> provider list" where
  "eligible_providers pf allow_cloud_fallback =
     (case snd pf of
        None \<Rightarrow> [fst pf]
      | Some f \<Rightarrow> if locality (p_spec f) = Local \<or> allow_cloud_fallback then [fst pf, f] else [fst pf])"

definition model_for_provider :: "provider \<times> provider option \<Rightarrow> pystr \<Rightarrow> pystr" where
  "model_for_provider pf name =
     (if name = cache_namespace (p_spec (fst pf)) then p_model (fst pf)
      else case snd pf of
        Some f \<Rightarrow> if name = cache_namespace (p_spec f) then p_model f else p_model (fst pf)
      | None \<Rightarrow> p_model (fst pf))"

definition cache_lookup_backends :: "provider \<times> provider option \<Rightarrow> bool \<Rightarrow> (pystr \<times> pystr) list" where
  "cache_lookup_backends pf allow =
     map (\<lambda>p. (cache_namespace (p_spec p), p_model p)) (eligible_providers pf allow)"

definition cache_lookup_models :: "provider \<times> provider option \<Rightarrow> bool \<Rightarrow> pystr list" where
  "cache_lookup_models pf allow =
     foldl (\<lambda>ms b. if snd b \<in> set ms then ms else ms @ [snd b]) [] (cache_lookup_backends pf allow)"

end
