(* ===== verification/Batching.thy ===== *)
theory Batching
  imports Prelude
begin

section \<open>Batches of paragraphs\<close>

text \<open>
  Models how \<open>translator.py\<close> plans the provider calls of a request: the token estimate
  (\<open>_estimate_tokens\<close>, \<open>estimate_source_tokens\<close>, \<open>_output_cap\<close>), the grouping of paragraphs
  (\<open>translation_groups\<close>), the validation that \<open>translate_batch_detailed\<close> applies to groups a
  caller selects, and the context block around a group (\<open>_build_context_block\<close>).

  The estimate \<open>int(cjk / 1.5 + other / 3.5)\<close> is computed in floating point by the code. It
  is \<open>(14 * cjk + 6 * other) div 21\<close> here: the exact quotient is an integer only when both
  terms are (then the machine divisions are exact), and is otherwise at least \<open>1/21\<close> away from
  one, far more than the rounding error of a text that fits in memory.
\<close>

subsection \<open>Model\<close>

text \<open>
  The tunables of the module. \<open>tc_scale\<close> is the truncated machine product with
  \<open>BT_OUTPUT_TOKEN_FACTOR\<close>, a float of the environment.
\<close>

record tconfig =
  tc_batch_size :: nat
  tc_token_budget :: nat
  tc_context_window :: nat
  tc_max_tokens :: nat
  tc_batch_max_tokens :: nat
  tc_scale :: "nat \<Rightarrow> nat"
  tc_floor :: nat
  tc_max_response :: nat
  tc_glossary_terms :: nat

text \<open>The values with nothing set in the environment.\<close>

definition default_tconfig :: tconfig where
  "default_tconfig =
     \<lparr>tc_batch_size = 5, tc_token_budget = 0, tc_context_window = 0, tc_max_tokens = 4096,
      tc_batch_max_tokens = 8192, tc_scale = (\<lambda>n. 2 * n), tc_floor = 256,
      tc_max_response = 1048576, tc_glossary_terms = 50\<rparr>"

definition is_cjk :: "codepoint \<Rightarrow> bool" where
  "is_cjk c \<longleftrightarrow>
     0x3000 \<le> c \<and> c \<le> 0x303f \<or> 0x3040 \<le> c \<and> c \<le> 0x30ff \<or> 0x3400 \<le> c \<and> c \<le> 0x9fff
     \<or> 0xac00 \<le> c \<and> c \<le> 0xd7af \<or> 0xf900 \<le> c \<and> c \<le> 0xfaff \<or> 0xff66 \<le> c \<and> c \<le> 0xff9f"

definition estimate_tokens :: "pystr \<Rightarrow> nat" where
  "estimate_tokens t =
     (let cjk = length (filter is_cjk t); other = length t - cjk
      in max 1 ((14 * cjk + 6 * other) div 21))"

definition estimate_source_tokens :: "pyval \<Rightarrow> (py_error, nat) result" where
  "estimate_source_tokens v =
     (case v of PStr t \<Rightarrow> Inr (estimate_tokens t) | _ \<Rightarrow> Inl (TypeError (lit ''text must be a string'')))"

definition output_cap :: "tconfig \<Rightarrow> pystr \<Rightarrow> nat \<Rightarrow> nat" where
  "output_cap cfg t top_cap =
     (let budget = tc_scale cfg (estimate_tokens t) + tc_floor cfg
      in min top_cap (max 1 (max (tc_floor cfg) budget)))"

text \<open>The paragraphs with something to translate, and slices of a list.\<close>

definition work_of :: "pystr list \<Rightarrow> nat list" where
  "work_of texts = filter (\<lambda>i. strip (texts ! i) \<noteq> []) [0..<length texts]"

definition slice :: "nat \<Rightarrow> nat \<Rightarrow> 'a list \<Rightarrow> 'a list" where
  "slice a b xs = take (b - a) (drop a xs)"

function chunks :: "nat \<Rightarrow> 'a list \<Rightarrow> 'a list list" where
  "chunks n xs = (if n = 0 \<or> xs = [] then [] else take n xs # chunks n (drop n xs))"
  by pat_completeness auto
termination
  by (relation "measure (\<lambda>(n, xs). length xs)") auto

declare chunks.simps [simp del]

text \<open>One turn of the loop: the closed groups, the open group and its tokens.\<close>

definition add_index ::
  "nat \<Rightarrow> nat \<Rightarrow> (nat \<Rightarrow> nat) \<Rightarrow> nat list list \<times> nat list \<times> nat \<Rightarrow> nat \<Rightarrow> nat list list \<times> nat list \<times> nat" where
  "add_index n budget tok st i =
     (case st of (groups, current, tokens) \<Rightarrow>
        if current \<noteq> [] \<and> (n \<le> length current \<or> budget < tokens + tok i)
        then (groups @ [current], [i], tok i)
        else (groups, current @ [i], tokens + tok i))"

definition group_indices :: "nat \<Rightarrow> nat \<Rightarrow> (nat \<Rightarrow> nat) \<Rightarrow> nat list \<Rightarrow> nat list list" where
  "group_indices n budget tok work =
     (case foldl (add_index n budget tok) ([], [], 0) work of (groups, current, _) \<Rightarrow>
        if current \<noteq> [] then groups @ [current] else groups)"

definition para_tokens :: "pystr list \<Rightarrow> nat \<Rightarrow> nat" where
  "para_tokens texts i = estimate_tokens (strip (texts ! i))"

definition translation_groups ::
  "tconfig \<Rightarrow> pystr list \<Rightarrow> pyval \<Rightarrow> pyval \<Rightarrow> (py_error, nat list list) result" where
  "translation_groups cfg texts batch_size source_token_budget =
     (let size_arg = (if batch_size = PNone then PInt (int (tc_batch_size cfg)) else batch_size);
          budget_arg = (if source_token_budget = PNone then PInt (int (tc_token_budget cfg)) else source_token_budget)
      in if \<not> is_pos_int size_arg then Inl (ValueError (lit ''batch_size must be a positive integer''))
         else (case budget_arg of
             PInt b \<Rightarrow>
               if b < 0 then Inl (ValueError (lit ''source_token_budget must be a non-negative integer''))
               else let n = nat (int_of size_arg); work = work_of texts
                    in if b = 0 then Inr (chunks n work)
                       else Inr (group_indices n (nat b) (para_tokens texts) work)
           | _ \<Rightarrow> Inl (ValueError (lit ''source_token_budget must be a non-negative integer''))))"

text \<open>The check of \<open>selected_groups\<close> in \<open>translate_batch_detailed\<close>.\<close>

definition selected_ok :: "tconfig \<Rightarrow> pystr list \<Rightarrow> int list list \<Rightarrow> bool" where
  "selected_ok cfg texts groups =
     (let flattened = concat groups in
      list_all (\<lambda>g. g \<noteq> []) groups
      \<and> distinct flattened
      \<and> list_all (\<lambda>i. 0 \<le> i \<and> i < int (length texts) \<and> strip (texts ! nat i) \<noteq> []) flattened
      \<and> list_all (\<lambda>g. g = sort g) groups
      \<and> list_all (\<lambda>g. length g \<le> max 1 (tc_batch_size cfg)) groups
      \<and> list_all (\<lambda>g. tc_token_budget cfg = 0 \<or> length g = 1
            \<or> sum_list (map (\<lambda>i. para_tokens texts (nat i)) g) \<le> tc_token_budget cfg) groups
      \<and> flattened = sort flattened)"

definition build_context_block :: "tconfig \<Rightarrow> pystr list \<Rightarrow> nat list \<Rightarrow> pystr option" where
  "build_context_block cfg all_texts idxs =
     (let w = tc_context_window cfg in
      if w = 0 \<or> idxs = [] then None
      else let first_i = hd idxs; last_i = last idxs;
               kept = (\<lambda>ts. filter (\<lambda>t. t \<noteq> []) (map strip ts));
               before = kept (slice (first_i - w) first_i all_texts);
               after = kept (slice (last_i + 1) (last_i + 1 + w) all_texts);
               sections =
                 (if before \<noteq> [] then [lit ''[CONTEXT BEFORE]'' @ [10] @ join [10] before] else [])
                 @ (if after \<noteq> [] then [lit ''[CONTEXT AFTER]'' @ [10] @ join [10] after] else [])
           in if sections = [] then None
              else Some (lit ''[CONTEXT] Surrounding story context '' @ [8212] @ lit '' do NOT translate:'' @ [10]
                         @ join [10, 10] sections))"

subsection \<open>Facts on the grouping\<close>

text \<open>What both groupings promise: every group is non-empty and within the limits.\<close>

definition group_ok :: "nat \<Rightarrow> nat \<Rightarrow> (nat \<Rightarrow> nat) \<Rightarrow> nat list \<Rightarrow> bool" where
  "group_ok n budget tok g \<longleftrightarrow>
     g \<noteq> [] \<and> length g \<le> n \<and> (budget = 0 \<or> length g = 1 \<or> sum_list (map tok g) \<le> budget)"

text \<open>No group could have taken the first paragraph of the next one.\<close>

fun maximal :: "nat \<Rightarrow> nat \<Rightarrow> (nat \<Rightarrow> nat) \<Rightarrow> nat list list \<Rightarrow> bool" where
  "maximal n budget tok (g # h # gs) \<longleftrightarrow>
     (n \<le> length g \<or> budget \<noteq> 0 \<and> budget < sum_list (map tok g) + tok (hd h)) \<and> maximal n budget tok (h # gs)"
| "maximal n budget tok _ \<longleftrightarrow> True"

lemma maximal_snoc:
  "maximal n budget tok (gs @ [g]) \<Longrightarrow>
   n \<le> length g \<or> budget \<noteq> 0 \<and> budget < sum_list (map tok g) + tok (hd h) \<Longrightarrow>
   maximal n budget tok (gs @ [g, h])"
  by (induction gs rule: induct_list012) auto

lemma maximal_hd: "maximal n budget tok (gs @ [g]) \<Longrightarrow> g \<noteq> [] \<Longrightarrow> maximal n budget tok (gs @ [g @ [i]])"
  by (induction gs rule: induct_list012) auto

lemma chunks_facts:
  "0 < n \<Longrightarrow> concat (chunks n xs) = xs \<and> list_all (group_ok n 0 tok) (chunks n xs) \<and> maximal n 0 tok (chunks n xs)"
proof (induction n xs rule: chunks.induct)
  case (1 n xs)
  show ?case
  proof (cases "xs = []")
    case True
    then show ?thesis by (simp add: chunks.simps)
  next
    case False
    then have IH: "concat (chunks n (drop n xs)) = drop n xs" "list_all (group_ok n 0 tok) (chunks n (drop n xs))"
      "maximal n 0 tok (chunks n (drop n xs))" using 1 by simp_all
    have eq: "chunks n xs = take n xs # chunks n (drop n xs)" using False 1(2) by (simp add: chunks.simps [of n xs])
    have "drop n xs = [] \<or> n \<le> length (take n xs)" by auto
    then have "maximal n 0 tok (take n xs # chunks n (drop n xs))"
      using IH(3) by (cases "chunks n (drop n xs)") (auto simp: chunks.simps [of n "[]"])
    moreover have "group_ok n 0 tok (take n xs)" using False 1(2) by (simp add: group_ok_def)
    ultimately show ?thesis using IH unfolding eq by simp
  qed
qed

text \<open>The invariant of the token loop.\<close>

definition loop_inv :: "nat \<Rightarrow> nat \<Rightarrow> (nat \<Rightarrow> nat) \<Rightarrow> nat list \<Rightarrow> nat list list \<times> nat list \<times> nat \<Rightarrow> bool" where
  "loop_inv n budget tok is st \<longleftrightarrow>
     (case st of (groups, current, tokens) \<Rightarrow>
        concat groups @ current = is \<and> tokens = sum_list (map tok current)
        \<and> list_all (group_ok n budget tok) groups
        \<and> (if current = [] then groups = [] else group_ok n budget tok current \<and> maximal n budget tok (groups @ [current])))"

lemma add_index_inv:
  assumes "loop_inv n budget tok is st" "0 < n" "0 < budget"
  shows "loop_inv n budget tok (is @ [i]) (add_index n budget tok st i)"
proof -
  obtain groups current tokens where st: "st = (groups, current, tokens)" by (cases st)
  consider (empty) "current = []" | (close) "current \<noteq> []" "n \<le> length current \<or> budget < tokens + tok i"
    | (extend) "current \<noteq> []" "\<not> (n \<le> length current \<or> budget < tokens + tok i)" by blast
  then show ?thesis
  proof cases
    case empty
    then show ?thesis using assms by (auto simp: st loop_inv_def add_index_def group_ok_def)
  next
    case close
    then have "maximal n budget tok (groups @ [current, [i]])"
      using assms by (intro maximal_snoc) (auto simp: st loop_inv_def)
    then show ?thesis using close assms by (simp add: st loop_inv_def add_index_def group_ok_def)
  next
    case extend
    then have "maximal n budget tok (groups @ [current @ [i]])"
      using assms by (intro maximal_hd) (auto simp: st loop_inv_def)
    then show ?thesis using extend assms by (simp add: st loop_inv_def add_index_def group_ok_def)
  qed
qed

lemma loop_inv_foldl:
  "0 < n \<Longrightarrow> 0 < budget \<Longrightarrow> loop_inv n budget tok is (foldl (add_index n budget tok) ([], [], 0) is)"
proof (induction "is" rule: rev_induct)
  case Nil
  then show ?case by (simp add: loop_inv_def)
next
  case (snoc i "is")
  then show ?case using add_index_inv by simp
qed

lemma group_indices_facts:
  assumes "0 < n" "0 < budget"
    and gs: "gs = group_indices n budget tok work"
  shows "concat gs = work \<and> list_all (group_ok n budget tok) gs \<and> maximal n budget tok gs"
proof -
  obtain groups current tokens
    where st: "foldl (add_index n budget tok) ([], [], 0) work = (groups, current, tokens)" by (metis prod_cases3)
  then have "loop_inv n budget tok work (groups, current, tokens)" using loop_inv_foldl [OF assms(1,2), of tok work] by simp
  then show ?thesis by (cases "current = []") (auto simp: gs group_indices_def st loop_inv_def)
qed

lemma work_of_facts:
  "sorted (work_of texts)" "distinct (work_of texts)"
  "i \<in> set (work_of texts) \<longleftrightarrow> i < length texts \<and> strip (texts ! i) \<noteq> []"
  by (auto simp: work_of_def sorted_wrt_filter simp del: strip_Nil_iff)

lemma sorted_concat_group: "sorted (concat gs) \<Longrightarrow> g \<in> set gs \<Longrightarrow> sorted g"
  by (induction gs) (auto simp: sorted_append)

lemma sort_map_int: "sorted xs \<Longrightarrow> sort (map int xs) = map int xs"
  by (rule sort_key_id_if_sorted [where f = "\<lambda>x. x", simplified]) (simp add: sorted_map sorted_wrt_iff_nth_less)

lemma estimate_tokens_pos: "1 \<le> estimate_tokens t"
  by (simp add: estimate_tokens_def Let_def)

lemma translation_groups_args:
  assumes "0 < n"
  shows "translation_groups cfg texts (PInt (int n)) (PInt (int b))
      = Inr (if b = 0 then chunks n (work_of texts) else group_indices n b (para_tokens texts) (work_of texts))"
  using assms by (simp add: translation_groups_def)

lemma translation_groups_default:
  "translation_groups cfg texts PNone PNone
     = translation_groups cfg texts (PInt (int (tc_batch_size cfg))) (PInt (int (tc_token_budget cfg)))"
  by (simp add: translation_groups_def)

lemma translation_groups_facts:
  assumes "0 < n" "translation_groups cfg texts (PInt (int n)) (PInt (int b)) = Inr gs"
  shows "concat gs = work_of texts" "list_all (group_ok n b (para_tokens texts)) gs"
    "maximal n b (para_tokens texts) gs"
  using chunks_facts [OF assms(1), of "work_of texts" "para_tokens texts"]
    group_indices_facts [OF assms(1), of b gs "para_tokens texts" "work_of texts"]
    assms(2) translation_groups_args [OF assms(1), of cfg texts b]
  by (auto split: if_splits)

subsection \<open>Properties\<close>

text \<open>
  C28: for a positive batch size the grouping always succeeds, and lists every paragraph with
  text exactly once and in order; no group is empty or longer than the batch size; with a
  positive token budget a group of several paragraphs stays within it; and no paragraph could
  have been added to the group before it, so no call is wasted.
\<close>

theorem translation_groups_partition:
  assumes "0 < n"
  shows "\<exists>gs. translation_groups cfg texts (PInt (int n)) (PInt (int b)) = Inr gs
    \<and> sorted (concat gs) \<and> distinct (concat gs)
    \<and> set (concat gs) = {i. i < length texts \<and> strip (texts ! i) \<noteq> []}
    \<and> (\<forall>g\<in>set gs. g \<noteq> [] \<and> length g \<le> n
         \<and> (b = 0 \<or> length g = 1 \<or> sum_list (map (para_tokens texts) g) \<le> b))
    \<and> maximal n b (para_tokens texts) gs"
proof -
  obtain gs where gs: "translation_groups cfg texts (PInt (int n)) (PInt (int b)) = Inr gs"
    using translation_groups_args [OF assms] by blast
  note f = translation_groups_facts [OF assms gs]
  have "set (work_of texts) = {i. i < length texts \<and> strip (texts ! i) \<noteq> []}" using work_of_facts(3) by blast
  then show ?thesis
    using gs f work_of_facts(1,2) by (intro exI [of _ gs]) (auto simp: list_all_iff group_ok_def)
qed

theorem translation_groups_partition_witness:
  "\<exists>gs. translation_groups default_tconfig [lit ''a'', lit '' '', lit ''b''] (PInt (int 2)) (PInt (int 5)) = Inr gs
    \<and> set (concat gs) = {i. i < 3 \<and> strip ([lit ''a'', lit '' '', lit ''b''] ! i) \<noteq> []}"
  using translation_groups_partition [of 2 default_tconfig "[lit ''a'', lit '' '', lit ''b'']" 5]
  by (auto simp del: strip_Nil_iff)

text \<open>
  The groups that the planner computes from the configured limits pass the validation that
  the batch translator applies to selected groups, so a caller may hand back any plan it got.
\<close>

theorem default_groups_selectable:
  assumes "0 < tc_batch_size cfg" "translation_groups cfg texts PNone PNone = Inr gs"
  shows "selected_ok cfg texts (map (map int) gs)"
proof -
  note f = translation_groups_facts [OF assms(1) assms(2) [unfolded translation_groups_default]]
  have cm: "concat (map (map int) gs) = map int (work_of texts)" using f(1) by (metis map_concat)
  have srt: "\<forall>g\<in>set gs. sorted g" using sorted_concat_group [of gs] f(1) work_of_facts(1) by simp
  show ?thesis
    unfolding selected_ok_def Let_def cm
    using f(2) srt work_of_facts sort_map_int
    by (auto simp: list_all_iff group_ok_def distinct_map comp_def simp del: strip_Nil_iff)
qed

theorem default_groups_selectable_witness:
  "\<exists>gs. translation_groups default_tconfig [lit ''a'', lit ''b''] PNone PNone = Inr gs
     \<and> selected_ok default_tconfig [lit ''a'', lit ''b''] (map (map int) gs)"
proof -
  have c: "0 < tc_batch_size default_tconfig" by (simp add: default_tconfig_def)
  have "\<exists>gs. translation_groups default_tconfig [lit ''a'', lit ''b''] PNone PNone = Inr gs"
    by (simp add: translation_groups_def default_tconfig_def)
  then show ?thesis using default_groups_selectable [OF c, of "[lit ''a'', lit ''b'']"] by blast
qed

end
