(* ===== verification/Json.thy ===== *)
theory Json
  imports Prelude
begin

section \<open>Compact JSON text\<close>

text \<open>
  Models \<open>json.dumps(value, ensure_ascii=False, separators=(",", ":"))\<close> of the standard
  library on the values the sources encode: null, booleans, integers, strings, lists and
  objects. Cache keys and operation keys are hashes of such texts, so what matters is that the
  encoding is injective: two different keys can only come from two different values or from a
  collision of the hash.
\<close>

datatype json =
    JNull
  | JBool bool
  | JInt int
  | JStr pystr
  | JList "json list"
  | JDict "(pystr \<times> json) list"

definition hex_digit :: "nat \<Rightarrow> codepoint" where
  "hex_digit n = (if n < 10 then 48 + n else 87 + n)"

definition esc_char :: "codepoint \<Rightarrow> pystr" where
  "esc_char c =
     (if c = 92 then [92, 92] else if c = 34 then [92, 34]
      else if c = 8 then [92, 98] else if c = 12 then [92, 102]
      else if c = 10 then [92, 110] else if c = 13 then [92, 114]
      else if c = 9 then [92, 116]
      else if c < 32 then [92, 117, 48, 48, hex_digit (c div 16), hex_digit (c mod 16)]
      else [c])"

definition json_str :: "pystr \<Rightarrow> pystr" where
  "json_str s = 34 # concat (map esc_char s) @ [34]"

fun close_list :: "codepoint \<Rightarrow> pystr list \<Rightarrow> pystr" where
  "close_list e [] = [e]"
| "close_list e [x] = x @ [e]"
| "close_list e (x # y # ys) = x @ 44 # close_list e (y # ys)"

fun dumps :: "json \<Rightarrow> pystr" where
  "dumps JNull = lit ''null''"
| "dumps (JBool b) = (if b then lit ''true'' else lit ''false'')"
| "dumps (JInt i) = show_int i"
| "dumps (JStr s) = json_str s"
| "dumps (JList xs) = 91 # close_list 93 (map dumps xs)"
| "dumps (JDict ps) = 123 # close_list 125 (map (\<lambda>p. json_str (fst p) @ 58 # dumps (snd p)) ps)"

subsection \<open>The encoding is injective\<close>

lemma hex_digit_inj: "m < 16 \<Longrightarrow> n < 16 \<Longrightarrow> hex_digit m = hex_digit n \<Longrightarrow> m = n"
  by (auto simp: hex_digit_def split: if_splits)

text \<open>A character that needs no escape, and the letter after the backslash of one that does.\<close>

definition plain :: "codepoint \<Rightarrow> bool" where
  "plain c \<longleftrightarrow> 32 \<le> c \<and> c \<noteq> 34 \<and> c \<noteq> 92"

definition esc_letter :: "codepoint \<Rightarrow> codepoint" where
  "esc_letter c = (if c = 92 then 92 else if c = 34 then 34 else if c = 8 then 98
     else if c = 12 then 102 else if c = 10 then 110 else if c = 13 then 114
     else if c = 9 then 116 else 117)"

lemma esc_char_eq:
  "esc_char c = (if plain c then [c] else 92 # esc_letter c #
     (if esc_letter c = 117 then [48, 48, hex_digit (c div 16), hex_digit (c mod 16)] else []))"
  by (auto simp: esc_char_def plain_def esc_letter_def)

lemma esc_letter_inj: "esc_letter c = esc_letter c' \<Longrightarrow> esc_letter c \<noteq> 117 \<Longrightarrow> c = c'"
  by (simp add: esc_letter_def split: if_splits)

lemma esc_letter_u: "esc_letter c = 117 \<Longrightarrow> \<not> plain c \<Longrightarrow> c < 32"
  by (simp add: esc_letter_def plain_def split: if_splits)

lemma esc_hex_inj:
  assumes "c < 32" "c' < 32" "hex_digit (c div 16) = hex_digit (c' div 16)"
    "hex_digit (c mod 16) = hex_digit (c' mod 16)"
  shows "c = c'"
proof -
  have "c div 16 < 16" "c' div 16 < 16" using assms(1,2) by auto
  then have "c div 16 = c' div 16" "c mod 16 = c' mod 16"
    using assms hex_digit_inj by simp_all
  then show ?thesis by (metis div_mult_mod_eq)
qed

lemma esc_char_inj: "esc_char c @ r = esc_char c' @ r' \<Longrightarrow> c = c' \<and> r = r'"
proof -
  assume eq: "esc_char c @ r = esc_char c' @ r'"
  consider "plain c" "plain c'" | "plain c \<noteq> plain c'" | "\<not> plain c" "\<not> plain c'" by blast
  then show ?thesis
  proof cases
    case 1
    then show ?thesis using eq by (simp add: esc_char_eq)
  next
    case 2
    then show ?thesis using eq by (auto simp: esc_char_eq plain_def)
  next
    case 3
    then have l: "esc_letter c = esc_letter c'" using eq by (simp add: esc_char_eq)
    show ?thesis
    proof (cases "esc_letter c = 117")
      case True
      then show ?thesis
        using 3 eq l esc_letter_u [of c] esc_letter_u [of c'] esc_hex_inj [of c c']
        by (simp add: esc_char_eq)
    next
      case False
      then show ?thesis using 3 eq l esc_letter_inj [of c c'] by (simp add: esc_char_eq)
    qed
  qed
qed

lemma esc_char_head: "esc_char c \<noteq> []" "hd (esc_char c) \<noteq> 34"
  by (auto simp: esc_char_def)

lemma esc_str_inj:
  "concat (map esc_char s) @ 34 # r = concat (map esc_char s') @ 34 # r' \<Longrightarrow> s = s' \<and> r = r'"
proof (induction s arbitrary: s')
  case Nil
  show ?case
  proof (cases s')
    case (Cons c t)
    then show ?thesis using Nil esc_char_head [of c] by (cases "esc_char c") auto
  qed (use Nil in simp)
next
  case (Cons c s)
  show ?case
  proof (cases s')
    case Nil
    then show ?thesis using Cons.prems esc_char_head [of c] by (cases "esc_char c") auto
  next
    case (Cons c' t)
    have "esc_char c @ (concat (map esc_char s) @ 34 # r) = esc_char c' @ (concat (map esc_char t) @ 34 # r')"
      using Cons.prems Cons by simp
    from esc_char_inj [OF this] show ?thesis using Cons.IH [of t] Cons by simp
  qed
qed

lemma json_str_inj: "json_str s @ r = json_str s' @ r' \<Longrightarrow> s = s' \<and> r = r'"
  using esc_str_inj [of s r s' r'] by (simp add: json_str_def)

definition delim :: "pystr \<Rightarrow> bool" where
  "delim r \<longleftrightarrow> (case r of [] \<Rightarrow> True | c # _ \<Rightarrow> \<not> is_digit c)"

lemma takeWhile_digits: "list_all is_digit s \<Longrightarrow> delim r \<Longrightarrow> takeWhile is_digit (s @ r) = s"
  by (induction s) (auto simp: delim_def split: list.splits)

lemma show_nat_munch:
  assumes "show_nat m @ r = show_nat n @ r'" "delim r" "delim r'"
  shows "m = n \<and> r = r'"
proof -
  have d: "\<And>n. list_all is_digit (show_nat n)" by (auto simp: list_all_iff show_nat_digits)
  have "show_nat m = show_nat n"
    using takeWhile_digits [OF d assms(2), of m] takeWhile_digits [OF d assms(3), of n] assms(1) by simp
  then show ?thesis using assms(1) show_nat_inj by auto
qed

lemma show_nat_hd: "is_digit (hd (show_nat n))"
  by (metis hd_in_set show_nat_digits show_nat_not_Nil)

lemma show_nat_no_minus: "show_nat n @ r \<noteq> 45 # s"
  using show_nat_hd [of n] by (cases "show_nat n") (auto simp: is_digit_def)

lemma show_int_munch:
  assumes "show_int i @ r = show_int j @ r'" "delim r" "delim r'"
  shows "i = j \<and> r = r'"
proof (cases "i < 0"; cases "j < 0")
  assume "i < 0" "j < 0"
  then show ?thesis using assms show_nat_munch [of "nat (- i)" r "nat (- j)" r'] by (simp add: show_int_def eq_nat_nat_iff)
next
  assume "\<not> i < 0" "\<not> j < 0"
  then show ?thesis using assms show_nat_munch [of "nat i" r "nat j" r'] by (simp add: show_int_def eq_nat_nat_iff)
next
  assume "i < 0" "\<not> j < 0"
  then show ?thesis using assms(1) show_nat_no_minus [of "nat j" r'] by (simp add: show_int_def) metis
next
  assume "\<not> i < 0" "j < 0"
  then show ?thesis using assms(1) show_nat_no_minus [of "nat i" r] by (simp add: show_int_def)
qed

text \<open>The first character tells the kind of a value.\<close>

fun json_kind :: "json \<Rightarrow> nat" where
  "json_kind JNull = 0" | "json_kind (JBool b) = (if b then 1 else 2)" | "json_kind (JInt _) = 3"
| "json_kind (JStr _) = 4" | "json_kind (JList _) = 5" | "json_kind (JDict _) = 6"

definition head_kind :: "codepoint \<Rightarrow> nat" where
  "head_kind c = (if c = 110 then 0 else if c = 116 then 1 else if c = 102 then 2
     else if c = 34 then 4 else if c = 91 then 5 else if c = 123 then 6
     else if is_digit c \<or> c = 45 then 3 else 7)"

lemma dumps_head: "\<exists>c s. dumps v = c # s \<and> head_kind c = json_kind v"
proof (cases v)
  case (JInt i)
  obtain c s where cs: "show_nat (nat i) = c # s"
    using show_nat_not_Nil by (cases "show_nat (nat i)") auto
  then have "is_digit c" using show_nat_hd [of "nat i"] by simp
  then show ?thesis
    using JInt cs by (auto simp: show_int_def head_kind_def is_digit_def)
qed (auto simp: head_kind_def json_str_def is_digit_def)

lemma dumps_same_kind: "dumps v @ r = dumps v' @ r' \<Longrightarrow> json_kind v = json_kind v'"
  using dumps_head [of v] dumps_head [of v'] by auto

text \<open>Lists of self-delimiting items are self-delimiting.\<close>

lemma close_list_inj:
  assumes item: "\<And>x y r r'. x \<in> set xs \<Longrightarrow> f x @ r = f y @ r' \<Longrightarrow> delim r \<Longrightarrow> delim r' \<Longrightarrow> x = y \<and> r = r'"
    and head: "\<And>x. f x \<noteq> [] \<and> hd (f x) \<noteq> e" and e: "\<not> is_digit e" "e \<noteq> 44"
    and eq: "close_list e (map f xs) @ r = close_list e (map f ys) @ r'"
  shows "xs = ys \<and> r = r'"
  using item eq
proof (induction xs arbitrary: ys)
  case Nil
  show ?case
  proof (cases ys)
    case (Cons y zs)
    then have "hd (close_list e (map f ys) @ r') = hd (f y)"
      using head [of y] by (cases zs) (auto simp: hd_append)
    then show ?thesis using Nil.prems(2) head [of y] by (metis append_Cons close_list.simps(1) list.map(1) list.sel(1))
  qed (use Nil in simp)
next
  case (Cons x xs)
  have sep: "\<exists>c t. close_list e (map f (z # zs)) @ u = f z @ c # t \<and> \<not> is_digit c \<and>
      (c = e \<and> zs = [] \<and> t = u \<or> c = 44 \<and> zs \<noteq> [] \<and> t = close_list e (map f zs) @ u)" for z zs u
    using e by (cases zs) (auto simp: is_digit_def)
  show ?case
  proof (cases ys)
    case Nil
    then have "hd (close_list e (map f (x # xs)) @ r) = hd (f x)"
      using head [of x] by (cases xs) (auto simp: hd_append)
    then show ?thesis using Cons.prems(2) Nil head [of x] by (metis append_Cons close_list.simps(1) list.map(1) list.sel(1))
  next
    case (Cons y zs)
    obtain c t where c: "close_list e (map f (x # xs)) @ r = f x @ c # t" "\<not> is_digit c"
      "c = e \<and> xs = [] \<and> t = r \<or> c = 44 \<and> xs \<noteq> [] \<and> t = close_list e (map f xs) @ r"
      using sep by blast
    obtain d u where d: "close_list e (map f (y # zs)) @ r' = f y @ d # u" "\<not> is_digit d"
      "d = e \<and> zs = [] \<and> u = r' \<or> d = 44 \<and> zs \<noteq> [] \<and> u = close_list e (map f zs) @ r'"
      using sep by blast
    have "f x @ c # t = f y @ d # u" using c(1) d(1) Cons.prems(2) Cons by simp
    then have xy: "x = y" "c = d" "t = u"
      using Cons.prems(1) [of x "c # t" y "d # u"] c(2) d(2) by (auto simp: delim_def)
    consider "c = e" "xs = []" "zs = []" "r = r'"
      | "xs \<noteq> []" "zs \<noteq> []" "close_list e (map f xs) @ r = close_list e (map f zs) @ r'"
      using c(3) d(3) xy e(2) by auto
    then show ?thesis
    proof cases
      case 1
      then show ?thesis using xy Cons by simp
    next
      case 2
      then have "xs = zs \<and> r = r'" using Cons.IH [of zs] Cons.prems(1) by (meson list.set_intros(2))
      then show ?thesis using xy Cons by simp
    qed
  qed
qed

lemma dumps_not_close: "dumps v \<noteq> [] \<and> hd (dumps v) \<noteq> 93"
  using dumps_head [of v] by (cases v) (auto simp: head_kind_def is_digit_def split: if_splits)

lemma dumps_prefix_free:
  "dumps v @ r = dumps v' @ r' \<Longrightarrow> delim r \<Longrightarrow> delim r' \<Longrightarrow> v = v' \<and> r = r'"
proof (induction v arbitrary: v' r r' rule: json.induct)
  case (JList xs)
  obtain ys where v': "v' = JList ys"
    using dumps_same_kind [OF JList.prems(1)] by (cases v') (auto split: if_splits)
  have "close_list 93 (map dumps xs) @ r = close_list 93 (map dumps ys) @ r'"
    using JList.prems(1) v' by simp
  then have "xs = ys \<and> r = r'"
    by (rule close_list_inj [rotated 4]) (use JList.IH dumps_not_close in \<open>auto simp: is_digit_def\<close>)
  then show ?case using v' by simp
next
  case (JDict ps)
  let ?f = "\<lambda>p. json_str (fst p) @ 58 # dumps (snd p)"
  obtain qs where v': "v' = JDict qs"
    using dumps_same_kind [OF JDict.prems(1)] by (cases v') (auto split: if_splits)
  have eq: "close_list 125 (map ?f ps) @ r = close_list 125 (map ?f qs) @ r'"
    using JDict.prems(1) v' by simp
  have item: "p = q \<and> u = u'" if "p \<in> set ps" "?f p @ u = ?f q @ u'" "delim u" "delim u'" for p q u u'
  proof -
    have k: "fst p = fst q" "58 # dumps (snd p) @ u = 58 # dumps (snd q) @ u'"
      using json_str_inj [of "fst p" "58 # dumps (snd p) @ u" "fst q" "58 # dumps (snd q) @ u'"] that(2)
      by simp_all
    then have "snd p = snd q \<and> u = u'"
      using JDict.IH [of p "snd p"] that by (auto simp: snds.simps)
    then show ?thesis using k(1) by (simp add: prod_eq_iff)
  qed
  have "ps = qs \<and> r = r'"
    by (rule close_list_inj [OF item _ _ _ eq]) (auto simp: json_str_def is_digit_def)
  then show ?case using v' by simp
next
  case (JInt i)
  obtain j where "v' = JInt j"
    using dumps_same_kind [OF JInt.prems(1)] by (cases v') (auto split: if_splits)
  then show ?case using JInt.prems show_int_munch [of i r j r'] by simp
next
  case (JStr s)
  obtain s' where "v' = JStr s'"
    using dumps_same_kind [OF JStr.prems(1)] by (cases v') (auto split: if_splits)
  then show ?case using JStr.prems json_str_inj [of s r s' r'] by simp
next
  case JNull
  have "v' = JNull"
    using dumps_same_kind [OF JNull.prems(1)] by (cases v') (simp_all split: if_splits)
  then show ?case using JNull.prems by simp
next
  case (JBool b)
  have "v' = JBool b"
    using dumps_same_kind [OF JBool.prems(1)] by (cases v') (simp_all split: if_splits)
  then show ?case using JBool.prems by (simp split: if_splits)
qed

lemma dumps_inj: "dumps v = dumps v' \<Longrightarrow> v = v'"
  using dumps_prefix_free [of v "[]" v' "[]"] by (simp add: delim_def)

end
