(* ===== verification/Segment_Envelope.thy ===== *)
theory Segment_Envelope
  imports Prompting
begin

section \<open>The segment envelope of a batch\<close>

text \<open>
  Models \<open>_parse_segment_envelope\<close> and \<open>_reject_duplicate_json_keys\<close> of \<open>translator.py\<close>. The
  JSON parser is an argument: it yields a tree in which an object is its list of pairs, so that
  the hook that rejects duplicate keys is part of the model.
\<close>

subsection \<open>Model\<close>

fun no_duplicate_keys :: "pyval \<Rightarrow> bool" where
  "no_duplicate_keys (PList xs) = list_all no_duplicate_keys xs"
| "no_duplicate_keys (PDict ps) = (distinct (map fst ps) \<and> list_all (\<lambda>p. no_duplicate_keys (snd p)) ps)"
| "no_duplicate_keys _ = True"

definition has_keys :: "(pystr \<times> pyval) list \<Rightarrow> string list \<Rightarrow> bool" where
  "has_keys ps ks \<longleftrightarrow> set (map fst ps) = set (map lit ks)"

fun parse_items :: "nat \<Rightarrow> nat \<Rightarrow> pystr list \<Rightarrow> pyval list \<Rightarrow> pystr list option" where
  "parse_items cap n (i # ids) (v # vs) =
     (case v of
        PDict ps \<Rightarrow>
          if \<not> has_keys ps [''id'', ''text''] then None
          else if map_of ps (lit ''id'') \<noteq> Some (PStr i) then None
          else (case map_of ps (lit ''text'') of
                  Some (PStr raw) \<Rightarrow>
                    let translated = strip raw in
                    if translated = [] then None
                    else (case utf8_len translated of
                            None \<Rightarrow> None
                          | Some k \<Rightarrow>
                              if cap < n + k then None
                              else map_option (\<lambda>r. translated # r) (parse_items cap (n + k) ids vs))
                | _ \<Rightarrow> None)
      | _ \<Rightarrow> None)"
| "parse_items cap n _ _ = Some []"

definition parse_segment_envelope :: "nat \<Rightarrow> (pystr \<Rightarrow> pyval option) \<Rightarrow> pystr \<Rightarrow> pystr list \<Rightarrow> pystr list option" where
  "parse_segment_envelope cap loads output expected_ids =
     (case utf8_len output of
        None \<Rightarrow> None
      | Some n \<Rightarrow>
          if cap < n then None
          else case loads output of
            None \<Rightarrow> None
          | Some body \<Rightarrow>
              if \<not> no_duplicate_keys body then None
              else if \<not> distinct expected_ids then None
              else (case body of
                      PDict ps \<Rightarrow>
                        if \<not> has_keys ps [''protocol'', ''translations''] then None
                        else if map_of ps (lit ''protocol'') \<noteq> Some (PStr segment_protocol) then None
                        else (case map_of ps (lit ''translations'') of
                                Some (PList vs) \<Rightarrow>
                                  if length vs \<noteq> length expected_ids then None
                                  else parse_items cap 0 expected_ids vs
                              | _ \<Rightarrow> None)
                    | _ \<Rightarrow> None))"

subsection \<open>Specification\<close>

text \<open>What one entry of the answer must be for the segment with identifier \<open>i\<close>.\<close>

definition entry_for :: "pystr \<Rightarrow> pyval \<Rightarrow> pystr \<Rightarrow> bool" where
  "entry_for i v t \<longleftrightarrow>
     (\<exists>ps raw. v = PDict ps \<and> has_keys ps [''id'', ''text''] \<and> map_of ps (lit ''id'') = Some (PStr i)
        \<and> map_of ps (lit ''text'') = Some (PStr raw) \<and> t = strip raw \<and> t \<noteq> [])"

definition byte_sum :: "pystr list \<Rightarrow> nat option" where
  "byte_sum ts = utf8_len (concat ts)"

lemma byte_sum_Cons:
  "byte_sum (t # ts) = Some n \<longleftrightarrow> (\<exists>k m. utf8_len t = Some k \<and> byte_sum ts = Some m \<and> n = k + m)"
  by (auto simp: byte_sum_def utf8_len_append split: option.splits)

lemma byte_sum_Nil: "byte_sum [] = Some 0"
  by (simp add: byte_sum_def utf8_len_def)

lemma parse_items_step:
  "parse_items cap n (i # ids) (v # vs) = Some (t # ts) \<longleftrightarrow>
   entry_for i v t \<and> (\<exists>k. utf8_len t = Some k \<and> n + k \<le> cap \<and> parse_items cap (n + k) ids vs = Some ts)"
proof (cases v)
  case (PDict ps)
  then show ?thesis
    by (cases "map_of ps (lit ''text'')")
      (auto simp: entry_for_def not_less Let_def simp del: lit_Cons strip_Nil_iff split: pyval.splits option.splits if_splits)
qed (auto simp: entry_for_def)

lemma parse_items_Nil: "parse_items cap n (i # ids) (v # vs) \<noteq> Some []"
  by (auto simp: Let_def simp del: lit_Cons strip_Nil_iff split: pyval.splits option.splits if_splits)

lemma parse_items_spec:
  "length ids = length vs \<Longrightarrow> n \<le> cap \<Longrightarrow>
   parse_items cap n ids vs = Some ts \<longleftrightarrow>
   length ts = length ids \<and> (\<forall>j<length ids. entry_for (ids ! j) (vs ! j) (ts ! j))
   \<and> (\<exists>m. byte_sum ts = Some m \<and> n + m \<le> cap)"
proof (induction ids vs arbitrary: n ts rule: list_induct2)
  case Nil
  then show ?case by (auto simp: byte_sum_Nil)
next
  case (Cons i ids v vs)
  show ?case
  proof (cases ts)
    case Nil
    then show ?thesis using parse_items_Nil by auto
  next
    case ts: (Cons t r)
    have len: "length ts = length (i # ids) \<longleftrightarrow> length r = length ids" using ts by simp
    have all: "(\<forall>j<length (i # ids). entry_for ((i # ids) ! j) ((v # vs) ! j) (ts ! j))
        \<longleftrightarrow> entry_for i v t \<and> (\<forall>j<length ids. entry_for (ids ! j) (vs ! j) (r ! j))"
      using ts by (auto simp: nth_Cons split: nat.splits)
    have "n + k \<le> cap \<Longrightarrow> parse_items cap (n + k) ids vs = Some r \<longleftrightarrow>
        length r = length ids \<and> (\<forall>j<length ids. entry_for (ids ! j) (vs ! j) (r ! j))
        \<and> (\<exists>m. byte_sum r = Some m \<and> n + k + m \<le> cap)" for k
      by (rule Cons.IH)
    then show ?thesis
      unfolding len all unfolding ts parse_items_step byte_sum_Cons
      by (auto simp: add.assoc)
  qed
qed

lemma zip_entries:
  "length vs = length ids \<Longrightarrow> length ts = length ids \<Longrightarrow>
   list_all (\<lambda>((i, v), t). entry_for i v t) (zip (zip ids vs) ts)
     \<longleftrightarrow> (\<forall>j<length ids. entry_for (ids ! j) (vs ! j) (ts ! j))"
  by (auto simp: list_all_length)

subsection \<open>Properties\<close>

text \<open>
  C21: the answer of a provider to a batch is accepted exactly when it is one JSON object without
  duplicate keys at any depth and within the byte cap, with the two fields of the protocol, the
  expected protocol name, and one entry per segment in the requested order, each with exactly
  the expected identifier and a text that is not blank; what is returned is the stripped texts
  in that order, together within the cap. Everything else is rejected as a whole.
\<close>

theorem segment_envelope_exact:
  "parse_segment_envelope cap loads output ids = Some ts \<longleftrightarrow>
   (\<exists>n ps vs m. utf8_len output = Some n \<and> n \<le> cap
      \<and> loads output = Some (PDict ps) \<and> no_duplicate_keys (PDict ps) \<and> distinct ids
      \<and> has_keys ps [''protocol'', ''translations'']
      \<and> map_of ps (lit ''protocol'') = Some (PStr (lit ''cwa-translate-segments/v1''))
      \<and> map_of ps (lit ''translations'') = Some (PList vs)
      \<and> length vs = length ids \<and> length ts = length ids
      \<and> list_all (\<lambda>((i, v), t). entry_for i v t) (zip (zip ids vs) ts)
      \<and> byte_sum ts = Some m \<and> m \<le> cap)"
  (is "?l \<longleftrightarrow> ?r")
proof
  assume ?l
  then obtain n ps vs where a: "utf8_len output = Some n" "n \<le> cap" "loads output = Some (PDict ps)"
    "no_duplicate_keys (PDict ps)" "distinct ids" "has_keys ps [''protocol'', ''translations'']"
    "map_of ps (lit ''protocol'') = Some (PStr segment_protocol)" "map_of ps (lit ''translations'') = Some (PList vs)"
    "length vs = length ids" "parse_items cap 0 ids vs = Some ts"
    unfolding parse_segment_envelope_def
    by (auto simp del: lit_Cons no_duplicate_keys.simps split: option.splits if_splits pyval.splits)
  then show ?r
    using parse_items_spec [of ids vs 0 cap ts] zip_entries [of vs ids ts] by (auto simp: segment_protocol_def simp del: lit_Cons)
next
  assume ?r
  then obtain n ps vs m where a: "utf8_len output = Some n" "n \<le> cap" "loads output = Some (PDict ps)"
    "no_duplicate_keys (PDict ps)" "distinct ids" "has_keys ps [''protocol'', ''translations'']"
    "map_of ps (lit ''protocol'') = Some (PStr segment_protocol)" "map_of ps (lit ''translations'') = Some (PList vs)"
    "length vs = length ids" "length ts = length ids" "list_all (\<lambda>((i, v), t). entry_for i v t) (zip (zip ids vs) ts)"
    "byte_sum ts = Some m" "m \<le> cap"
    unfolding segment_protocol_def by blast
  then have "parse_items cap 0 ids vs = Some ts"
    using parse_items_spec [of ids vs 0 cap ts] zip_entries [of vs ids ts] by simp
  then show ?l using a by (simp add: parse_segment_envelope_def del: lit_Cons no_duplicate_keys.simps)
qed

end
