(* ===== verification/Reasoning.thy ===== *)
theory Reasoning
  imports Prelude
begin

section \<open>Leading reasoning blocks\<close>

text \<open>
  Models \<open>_strip_leading_reasoning\<close>, \<open>_skip_leading_reasoning\<close> and \<open>_validate_provider_text\<close> of
  \<open>translator.py\<close>. A reasoning model may put its chain of thought in a leading
  \<open><think>\<dots></think>\<close> block; one routine removes it from a complete text, the other from a
  stream of deltas while holding back as little as possible. The streaming generator is a
  function from the deltas to what it yields and the exception it ends with, if any.
\<close>

subsection \<open>Model\<close>

datatype text_error = TextValueError pystr | TextTooLarge | TextEncodeError

definition think_open :: pystr where
  "think_open = lit ''<think>''"

definition think_close :: pystr where
  "think_close = lit ''</think>''"

definition strip_leading_reasoning :: "pystr \<Rightarrow> (text_error, pystr) result" where
  "strip_leading_reasoning t =
     (let body = lstrip t in
      if \<not> prefix think_open body then Inr t
      else case find_sub think_close (drop (length think_open) body) of
             None \<Rightarrow> Inl (TextValueError (lit ''provider response reasoning block is not closed''))
           | Some e \<Rightarrow> Inr (drop (e + length think_close) (drop (length think_open) body)))"

datatype phase = PStart | PReasoning | PGap | PText

text \<open>One delta: the new phase, what is held back, and what is yielded.\<close>

definition step_gap :: "pystr \<Rightarrow> phase \<times> pystr \<times> pystr list" where
  "step_gap held = (let h = lstrip held in if h \<noteq> [] then (PText, h, [h]) else (PGap, h, []))"

definition step_reasoning :: "pystr \<Rightarrow> phase \<times> pystr \<times> pystr list" where
  "step_reasoning held =
     (case find_sub think_close held of
        None \<Rightarrow> (PReasoning, drop (length held - (length think_close - 1)) held, [])
      | Some e \<Rightarrow> step_gap (drop (e + length think_close) held))"

definition step_start :: "pystr \<Rightarrow> phase \<times> pystr \<times> pystr list" where
  "step_start held =
     (let h = lstrip held in
      if length h < length think_open \<and> prefix h think_open then (PStart, h, [])
      else if \<not> prefix think_open h then (PText, h, [h])
      else step_reasoning (drop (length think_open) h))"

fun step_phase :: "phase \<Rightarrow> pystr \<Rightarrow> phase \<times> pystr \<times> pystr list" where
  "step_phase PStart held = step_start held"
| "step_phase PReasoning held = step_reasoning held"
| "step_phase PGap held = step_gap held"
| "step_phase PText held = (PText, held, [])"

fun skip_from :: "nat \<Rightarrow> phase \<Rightarrow> pystr \<Rightarrow> nat \<Rightarrow> pystr list \<Rightarrow> pystr list \<times> text_error option" where
  "skip_from cap ph held n [] =
     (if ph = PReasoning then ([], Some (TextValueError (lit ''provider stream reasoning block is not closed'')))
      else if ph = PStart \<and> held \<noteq> [] then ([held], None) else ([], None))"
| "skip_from cap ph held n (delta # deltas) =
     (if ph = PText
      then (let (out, e) = skip_from cap ph held n deltas in (delta # out, e))
      else case utf8_len delta of
             None \<Rightarrow> ([], Some TextEncodeError)
           | Some m \<Rightarrow>
               if cap < n + m then ([], Some TextTooLarge)
               else (let (ph', held', ys) = step_phase ph (held @ delta);
                         (out, e) = skip_from cap ph' held' (n + m) deltas
                     in (ys @ out, e)))"

definition skip_leading_reasoning :: "nat \<Rightarrow> pystr list \<Rightarrow> pystr list \<times> text_error option" where
  "skip_leading_reasoning cap deltas = skip_from cap PStart [] 0 deltas"

definition validate_provider_text :: "nat \<Rightarrow> pyval \<Rightarrow> pystr \<Rightarrow> (text_error, pystr) result" where
  "validate_provider_text cap v user_content =
     (case v of
        PStr s \<Rightarrow>
          rbind (if contains think_open user_content then Inr s else strip_leading_reasoning s) (\<lambda>t.
            let translated = strip t in
            if translated = [] then Inl (TextValueError (lit ''provider response text is empty''))
            else case utf8_len translated of
                   None \<Rightarrow> Inl TextEncodeError
                 | Some n \<Rightarrow> if cap < n then Inl TextTooLarge else Inr translated)
      | _ \<Rightarrow> Inl (TextValueError (lit ''provider response text must be a string'')))"

subsection \<open>Searching across a split\<close>

lemma find_sub_Some: "find_sub p s = Some i \<longleftrightarrow> i \<le> length s \<and> prefix p (drop i s) \<and> (\<forall>j<i. \<not> prefix p (drop j s))"
proof (induction p s arbitrary: i rule: find_sub.induct)
  case (2 p x xs)
  then show ?case
    by (cases i) (auto simp: less_Suc_eq_0_disj split: if_splits)
qed auto

lemma find_sub_None: "find_sub p s = None \<longleftrightarrow> (\<forall>j\<le>length s. \<not> prefix p (drop j s))"
proof
  assume n: "find_sub p s = None"
  show "\<forall>j\<le>length s. \<not> prefix p (drop j s)"
  proof (intro allI impI notI)
    fix j assume "j \<le> length s" "prefix p (drop j s)"
    then obtain ss where "drop j s = p @ ss" by (auto simp: prefix_def)
    then have "s = take j s @ p @ ss" by (metis append_take_drop_id)
    then have "sublist p s" unfolding sublist_def by blast
    then show False using n find_sub_None_iff by blast
  qed
next
  assume "\<forall>j\<le>length s. \<not> prefix p (drop j s)"
  then show "find_sub p s = None" using find_sub_Some by (cases "find_sub p s") auto
qed

text \<open>Searching from position \<open>k\<close> on, when nothing starts before it.\<close>

lemma find_sub_drop:
  assumes "k \<le> length s" "\<forall>j<k. \<not> prefix p (drop j s)"
  shows "find_sub p s = map_option ((+) k) (find_sub p (drop k s))"
proof (cases "find_sub p (drop k s)")
  case None
  then have n: "\<not> prefix p (drop (k + j) s)" if "j \<le> length s - k" for j
    using that by (simp add: find_sub_None add.commute)
  have "\<not> prefix p (drop j s)" if "j \<le> length s" for j
    using assms(2) n [of "j - k"] that by (cases "j < k") auto
  then show ?thesis using None find_sub_None by auto
next
  case (Some i)
  then have i: "i \<le> length s - k" "prefix p (drop (k + i) s)" "\<forall>j<i. \<not> prefix p (drop (k + j) s)"
    by (simp_all add: find_sub_Some add.commute)
  have "\<not> prefix p (drop j s)" if "j < k + i" for j
  proof (cases "j < k")
    case False
    then have "j - k < i" "k + (j - k) = j" using that by auto
    then show ?thesis using i(3) by metis
  qed (use assms(2) in simp)
  then have "find_sub p s = Some (k + i)" using i assms(1) by (auto simp: find_sub_Some)
  then show ?thesis using Some by simp
qed

text \<open>What the streaming search may forget of a prefix without a match.\<close>

lemma find_sub_tail:
  assumes "find_sub p h = None" "p \<noteq> []"
  defines "k \<equiv> length h - (length p - 1)"
  shows "find_sub p (h @ r) = map_option ((+) k) (find_sub p (drop k h @ r))"
proof -
  have "\<not> prefix p (drop j (h @ r))" if "j < k" for j
  proof
    assume "prefix p (drop j (h @ r))"
    moreover have le: "j \<le> length h" "length p \<le> length (drop j h)" using that assms(2) by (auto simp: k_def)
    ultimately have "prefix p (drop j h)"
      using prefix_length_prefix [of p "drop j h @ r" "drop j h"] by (simp add: prefix_def)
    then show False using assms(1) le(1) by (simp add: find_sub_None)
  qed
  then show ?thesis using find_sub_drop [of k "h @ r" p] by (simp add: k_def)
qed

subsection \<open>The stream agrees with the complete text\<close>

lemma lstrip_append: "lstrip (lstrip h @ r) = lstrip (h @ r)"
  unfolding lstrip_def by (induction h) auto

lemma lstrip_append_nonempty: "lstrip h \<noteq> [] \<Longrightarrow> lstrip (h @ r) = lstrip h @ r"
  unfolding lstrip_def by (induction h) auto

text \<open>What remains to be yielded when the rest of the stream is \<open>r\<close>; \<open>None\<close> is an unclosed block.\<close>

definition after_close :: "pystr \<Rightarrow> pystr option" where
  "after_close t = map_option (\<lambda>e. lstrip (drop (e + length think_close) t)) (find_sub think_close t)"

definition visible :: "pystr \<Rightarrow> pystr option" where
  "visible t = (case strip_leading_reasoning t of Inl _ \<Rightarrow> None | Inr u \<Rightarrow> Some (lstrip u))"

fun remaining_text :: "phase \<Rightarrow> pystr \<Rightarrow> pystr \<Rightarrow> pystr option" where
  "remaining_text PStart held r = visible (held @ r)"
| "remaining_text PReasoning held r = after_close (held @ r)"
| "remaining_text PGap held r = Some (lstrip (held @ r))"
| "remaining_text PText held r = Some r"

lemma visible_eq:
  "visible t = (if prefix think_open (lstrip t) then after_close (drop (length think_open) (lstrip t)) else Some (lstrip t))"
  by (auto simp: visible_def strip_leading_reasoning_def after_close_def Let_def split: option.splits)

lemma after_close_match:
  "find_sub think_close h = Some e \<Longrightarrow> after_close (h @ r) = Some (lstrip (drop (e + length think_close) h @ r))"
proof -
  assume f: "find_sub think_close h = Some e"
  then have pre: "prefix think_close (drop e h)" and e: "e \<le> length h" "\<forall>j<e. \<not> prefix think_close (drop j h)"
    by (simp_all add: find_sub_Some)
  then have le: "e + length think_close \<le> length h" using prefix_length_le [OF pre] by simp
  have "\<not> prefix think_close (drop j (h @ r))" if "j < e" for j
  proof
    assume "prefix think_close (drop j (h @ r))"
    then have "prefix think_close (drop j h)"
      using prefix_length_prefix [of think_close "drop j h @ r" "drop j h"] that le by simp
    then show False using e(2) that by blast
  qed
  moreover have "prefix think_close (drop e (h @ r))" using pre e(1) by (simp add: prefix_append)
  ultimately have "find_sub think_close (h @ r) = Some e" using e(1) by (simp add: find_sub_Some)
  then show ?thesis using le by (simp add: after_close_def)
qed

lemma after_close_tail:
  assumes "find_sub think_close h = None"
  shows "after_close (h @ r) = after_close (drop (length h - (length think_close - 1)) h @ r)"
proof -
  let ?k = "length h - (length think_close - 1)"
  have "think_close \<noteq> []" by (simp add: think_close_def)
  note ft = find_sub_tail [OF assms this, of r]
  have "drop (?k + e + n) (h @ r) = drop (e + n) (drop ?k h @ r)" for e n
  proof -
    have "drop ?k h @ r = drop ?k (h @ r)" by simp
    then show ?thesis by (simp add: ac_simps)
  qed
  then have "(\<lambda>e. lstrip (drop (?k + e + length think_close) (h @ r)))
      = (\<lambda>e. lstrip (drop (e + length think_close) (drop ?k h @ r)))" by (intro ext) (simp only:)
  then show ?thesis unfolding after_close_def ft option.map_comp comp_def by (rule arg_cong)
qed

lemma map_option_append_Nil: "map_option ((@) []) x = x"
  by (cases x) simp_all

lemma step_gap_text:
  assumes "step_gap held = (ph, h, ys)"
  shows "Some (lstrip (held @ r)) = map_option ((@) (concat ys)) (remaining_text ph h r)"
proof (cases "lstrip held = []")
  case True
  have "step_gap held = (PGap, [], [])" unfolding step_gap_def Let_def True by simp
  then have "ph = PGap" "h = []" "ys = []" using assms by simp_all
  moreover have "lstrip (held @ r) = lstrip r" using lstrip_append [of held r] unfolding True by simp
  ultimately show ?thesis by simp
next
  case False
  then have "step_gap held = (PText, lstrip held, [lstrip held])"
    unfolding step_gap_def Let_def by (simp del: lstrip_Nil_iff)
  then have "ph = PText" "ys = [lstrip held]" using assms by simp_all
  then show ?thesis using lstrip_append_nonempty [OF False] by simp
qed

lemma step_reasoning_text:
  assumes "step_reasoning held = (ph, h, ys)"
  shows "after_close (held @ r) = map_option ((@) (concat ys)) (remaining_text ph h r)"
proof (cases "find_sub think_close held")
  case None
  then have "ph = PReasoning" "h = drop (length held - (length think_close - 1)) held" "ys = []"
    using assms by (simp_all add: step_reasoning_def)
  then show ?thesis using after_close_tail [OF None, of r] by (simp add: map_option_append_Nil)
next
  case (Some e)
  then have "step_gap (drop (e + length think_close) held) = (ph, h, ys)" using assms by (simp add: step_reasoning_def)
  from step_gap_text [OF this, of r] show ?thesis using after_close_match [OF Some, of r] by simp
qed

text \<open>
  What is held: a proper prefix of the opening tag, a text without the closing tag, nothing.
\<close>

fun held_ok :: "phase \<Rightarrow> pystr \<Rightarrow> bool" where
  "held_ok PStart held \<longleftrightarrow> length held < length think_open \<and> prefix held think_open"
| "held_ok PReasoning held \<longleftrightarrow> find_sub think_close held = None"
| "held_ok PGap held \<longleftrightarrow> held = []"
| "held_ok PText held \<longleftrightarrow> True"

lemma find_sub_drop_None: "find_sub p h = None \<Longrightarrow> find_sub p (drop k h) = None"
  by (metis find_sub_None_iff sublist_order.order_trans sublist_drop)

lemma step_gap_held_ok: "step_gap held = (ph', h, ys) \<Longrightarrow> held_ok ph' h"
  by (auto simp: step_gap_def Let_def simp del: lstrip_Nil_iff split: if_splits)

lemma step_reasoning_held_ok: "step_reasoning held = (ph', h, ys) \<Longrightarrow> held_ok ph' h"
  by (auto simp: step_reasoning_def step_gap_held_ok find_sub_drop_None split: option.splits)

lemma step_start_held_ok: "step_start held = (ph', h, ys) \<Longrightarrow> held_ok ph' h"
  by (auto simp: step_start_def Let_def step_reasoning_held_ok split: if_splits)

lemma step_held_ok: "step_phase ph held = (ph', h, ys) \<Longrightarrow> held_ok ph' h"
  by (cases ph) (auto intro: step_gap_held_ok step_reasoning_held_ok step_start_held_ok)

lemma visible_append: "visible (held @ r) = visible (lstrip held @ r)"
  by (simp add: visible_eq lstrip_append)

lemma lstrip_prefix_append: "prefix think_open (lstrip held) \<Longrightarrow> lstrip (held @ r) = lstrip held @ r"
  by (rule lstrip_append_nonempty) (auto simp: think_open_def prefix_def simp del: lstrip_Nil_iff)

lemma step_start_text:
  assumes "step_start held = (ph, h, ys)"
  shows "visible (held @ r) = map_option ((@) (concat ys)) (remaining_text ph h r)"
proof -
  let ?h = "lstrip held"
  consider (wait) "length ?h < length think_open" "prefix ?h think_open"
    | (plain) "\<not> (length ?h < length think_open \<and> prefix ?h think_open)" "\<not> prefix think_open ?h"
    | (think) "\<not> (length ?h < length think_open \<and> prefix ?h think_open)" "prefix think_open ?h" by blast
  then show ?thesis
  proof cases
    case wait
    then have "ph = PStart" "h = ?h" "ys = []" using assms by (simp_all add: step_start_def Let_def)
    then show ?thesis using visible_append [of held r] by (cases "visible (?h @ r)") simp_all
  next
    case plain
    then have "step_start held = (PText, ?h, [?h])" unfolding step_start_def Let_def by (simp only: if_False not_False_eq_True if_True)
    then have e: "ph = PText" "ys = [?h]" using assms by simp_all
    have ne: "?h \<noteq> []" using plain(1) by (auto simp: think_open_def simp del: lstrip_Nil_iff)
    have np: "\<not> prefix think_open (?h @ r)"
    proof
      assume p: "prefix think_open (?h @ r)"
      then have "length ?h < length think_open"
        using plain(2) prefix_length_prefix [OF p, of ?h] by (cases "length think_open \<le> length ?h") auto
      moreover from this p have "prefix ?h think_open"
        using prefix_length_prefix [of ?h "?h @ r" think_open] by simp
      ultimately show False using plain(1) by blast
    qed
    show ?thesis using e np lstrip_append_nonempty [OF ne, of r] by (simp add: visible_eq)
  next
    case think
    then have "step_reasoning (drop (length think_open) ?h) = (ph, h, ys)"
      using assms unfolding step_start_def Let_def by (simp only: if_False not_True_eq_False)
    from step_reasoning_text [OF this, of r] show ?thesis
      using think(2) lstrip_prefix_append [OF think(2), of r] prefix_length_le [OF think(2)]
      by (simp add: visible_eq prefix_append)
  qed
qed

lemma step_phase_text:
  assumes "step_phase ph held = (ph', h, ys)" "ph \<noteq> PText"
  shows "remaining_text ph held r = map_option ((@) (concat ys)) (remaining_text ph' h r)"
  using assms step_start_text step_reasoning_text step_gap_text by (cases ph) auto

lemma held_visible: "held_ok PStart held \<Longrightarrow> visible held = Some held"
proof -
  assume h: "held_ok PStart held"
  then have "\<not> prefix think_open held" by (auto dest: prefix_length_le)
  moreover have "lstrip held = held"
    using h by (cases held) (auto simp: think_open_def lstrip_def is_space_def)
  ultimately show ?thesis by (simp add: visible_eq)
qed

lemma utf8_len_concat:
  "utf8_len (concat ds) = Some n \<Longrightarrow> \<exists>m k. ds = d # ds' \<longrightarrow> utf8_len d = Some m \<and> utf8_len (concat ds') = Some k \<and> n = m + k"
  by (cases ds) (auto simp: utf8_len_append split: option.splits)

definition unclosed :: text_error where
  "unclosed = TextValueError (lit ''provider stream reasoning block is not closed'')"

lemma skip_from_text:
  assumes "utf8_len (concat ds) = Some m" "ph \<noteq> PText \<longrightarrow> n + m \<le> cap" "held_ok ph held"
  shows "case remaining_text ph held (concat ds) of
      None \<Rightarrow> skip_from cap ph held n ds = ([], Some unclosed)
    | Some w \<Rightarrow> \<exists>out. skip_from cap ph held n ds = (out, None) \<and> concat out = w"
  using assms
proof (induction ds arbitrary: ph held n m)
  case Nil
  then show ?case
    using held_visible [of held] by (cases ph) (auto simp: after_close_def unclosed_def lstrip_def split: option.splits)
next
  case (Cons d ds)
  then obtain a b where ab: "utf8_len d = Some a" "utf8_len (concat ds) = Some b" "m = a + b"
    by (auto simp: utf8_len_append split: option.splits)
  show ?case
  proof (cases "ph = PText")
    case True
    then show ?thesis using Cons.IH [of b ph n held] ab Cons.prems by auto
  next
    case False
    obtain ph' h ys where st: "step_phase ph (held @ d) = (ph', h, ys)" by (metis prod_cases3)
    have le: "\<not> cap < n + a" "n + a + b \<le> cap" using Cons.prems(2) False ab by simp_all
    have rt: "remaining_text ph held (d @ concat ds) = map_option ((@) (concat ys)) (remaining_text ph' h (concat ds))"
      using step_phase_text [OF st False, of "concat ds"] False by (cases ph) simp_all
    note ih = Cons.IH [OF ab(2), of ph' "n + a" h] le(2) step_held_ok [OF st]
    show ?thesis
    proof (cases "remaining_text ph' h (concat ds)")
      case None
      then have "ys = []"
        using st False
        by (cases ph) (auto simp: step_start_def step_reasoning_def step_gap_def Let_def split: if_splits option.splits)
      then show ?thesis using None ih st False ab le rt by simp
    next
      case (Some w)
      then show ?thesis using ih st False ab le rt by (auto simp: Let_def split: prod.splits)
    qed
  qed
qed

subsection \<open>Properties\<close>

text \<open>
  C26: as long as the stream stays within the byte cap, removing the reasoning block delta by
  delta agrees with removing it from the complete text: the stream raises exactly when the
  complete text has an unclosed block (and then has yielded nothing), and otherwise the yielded
  deltas concatenate to the visible text without its leading white space, however the provider
  cuts its answer into deltas (a tag split over several deltas included).
\<close>

theorem stream_reasoning_equivalent:
  assumes "utf8_len (concat ds) = Some n" "n \<le> cap"
  shows "case strip_leading_reasoning (concat ds) of
      Inl _ \<Rightarrow> skip_leading_reasoning cap ds
        = ([], Some (TextValueError (lit ''provider stream reasoning block is not closed'')))
    | Inr t \<Rightarrow> snd (skip_leading_reasoning cap ds) = None
        \<and> concat (fst (skip_leading_reasoning cap ds)) = lstrip t"
proof -
  have "held_ok PStart []" by (simp add: think_open_def)
  from skip_from_text [OF assms(1) _ this, of 0 cap] assms(2)
  show ?thesis
    by (auto simp: skip_leading_reasoning_def visible_def unclosed_def split: sum.splits)
qed

text \<open>Three deltas that cut both tags: the visible text is \<open>ok\<close>.\<close>

theorem stream_reasoning_equivalent_witness:
  "concat (fst (skip_leading_reasoning 100 [lit '' <thi'', lit ''nk>a</th'', lit ''ink> o'', lit ''k'']))
     = lit ''ok''
   \<and> utf8_len (concat [lit '' <thi'', lit ''nk>a</th'', lit ''ink> o'', lit ''k'']) = Some 20"
proof -
  have u: "utf8_len (concat [lit '' <thi'', lit ''nk>a</th'', lit ''ink> o'', lit ''k'']) = Some 20"
    by (simp add: utf8_len_def utf8_size_def is_surrogate_def)
  have "strip_leading_reasoning (concat [lit '' <thi'', lit ''nk>a</th'', lit ''ink> o'', lit ''k'']) = Inr (lit '' ok'')"
    by (simp add: strip_leading_reasoning_def think_open_def think_close_def lstrip_def is_space_def)
  moreover have "lstrip (lit '' ok'') = lit ''ok''" by (simp add: lstrip_def is_space_def)
  ultimately show ?thesis using stream_reasoning_equivalent [OF u, of 100] u by simp
qed

end
