(* ===== verification/Provider_Calls.thy ===== *)
theory Provider_Calls
  imports Providers Reasoning
begin

section \<open>Calling providers\<close>

text \<open>
  Models the call path of \<open>translator.py\<close>: the capped reading of a provider response, the
  extraction of the translation for both protocols, the process-wide call counters and upstream
  slots, the retry loop \<open>_call_provider\<close> and the provider loop \<open>_complete\<close>.

  What the outside world does during one attempt is a record \<open>attempt_io\<close>: the clock readings
  in program order, whether an upstream slot is granted, the DNS answer and the HTTP exchange.
  The \<open>requests\<close> library is third-party code: its outcome is a \<open>transport_exn\<close> or a response.
  \<open>json.loads\<close> is an argument. Only responses of the library itself are modelled, not the
  in-memory test doubles that \<open>_read_capped_json_response\<close> also accepts.
\<close>

subsection \<open>Call counters\<close>

record call_metrics =
  cm_attempts :: nat
  cm_successes :: nat
  cm_rate_limited :: nat
  cm_failures :: nat

definition record_provider_call :: "string \<Rightarrow> call_metrics \<Rightarrow> (py_error, call_metrics) result" where
  "record_provider_call outcome m =
     (if outcome = ''attempt'' then Inr (m\<lparr>cm_attempts := cm_attempts m + 1\<rparr>)
      else if outcome = ''success'' then Inr (m\<lparr>cm_successes := cm_successes m + 1\<rparr>)
      else if outcome = ''rate_limited'' then Inr (m\<lparr>cm_rate_limited := cm_rate_limited m + 1\<rparr>)
      else if outcome = ''failure'' then Inr (m\<lparr>cm_failures := cm_failures m + 1\<rparr>)
      else Inl (ValueError (lit ''unknown provider call outcome'')))"

text \<open>A request to a provider.\<close>

record http_request =
  q_url :: pystr
  q_headers :: "(pystr \<times> pystr) list"
  q_payload :: pyval
  q_timeout :: seconds

text \<open>
  What a call changes: the budget of the request, the counters, the number of upstream slots in
  use, and the world outside: the requests that have left the process, each with the provider it
  was sent to and the number of attempts the budget had granted by then.
\<close>

type_synonym sent_call = "provider \<times> http_request \<times> int"

record call_state =
  ks_budget :: budget
  ks_metrics :: call_metrics
  ks_inflight :: nat
  ks_sent :: "sent_call list"

definition log_sent :: "provider \<Rightarrow> budget \<Rightarrow> http_request list \<Rightarrow> call_state \<Rightarrow> call_state" where
  "log_sent p b reqs st = st\<lparr>ks_sent := ks_sent st @ map (\<lambda>q. (p, q, attempts b)) reqs\<rparr>"

definition note_call :: "string \<Rightarrow> call_state \<Rightarrow> call_state" where
  "note_call outcome st =
     (case record_provider_call outcome (ks_metrics st) of Inl _ \<Rightarrow> st | Inr m \<Rightarrow> st\<lparr>ks_metrics := m\<rparr>)"

subsection \<open>Responses\<close>

datatype transport_exn =
    TBudget pystr
  | TSsl
  | TRequest bool
  | TValue pystr
  | TOther

fun transport_error :: "transport_exn \<Rightarrow> call_exn" where
  "transport_error (TBudget r) = XBudget r"
| "transport_error TSsl = XSsl"
| "transport_error (TRequest transient) = XRequest 0 transient None"
| "transport_error (TValue t) = XValue t"
| "transport_error TOther = XOther"

text \<open>
  A response: its status, the two headers the code reads, the body chunks (reading one may
  raise), and what the watchdog and the clock say at each check, counted from 0.
\<close>

record response =
  r_status :: nat
  r_content_length :: "pystr option"
  r_retry_after :: "pystr option"
  r_chunks :: "(transport_exn + bytes) list"
  r_checks :: "nat \<Rightarrow> bool \<times> seconds"
  r_fired :: bool

definition response_check :: "response \<Rightarrow> budget \<Rightarrow> nat \<Rightarrow> (call_exn, unit) result" where
  "response_check r b k =
     (if fst (r_checks r k) then Inl (XBudget (lit ''deadline''))
      else lift_budget (ensure_active (snd (r_checks r k)) b))"

definition declared_size :: "response \<Rightarrow> int" where
  "declared_size r =
     (case r_content_length r of
        None \<Rightarrow> 0
      | Some t \<Rightarrow> (case parse_int10 t of None \<Rightarrow> 0 | Some n \<Rightarrow> n))"

fun read_body :: "nat \<Rightarrow> response \<Rightarrow> budget \<Rightarrow> nat \<Rightarrow> bytes \<Rightarrow> (transport_exn + bytes) list \<Rightarrow> (call_exn, bytes \<times> nat) result" where
  "read_body cap r b k payload [] = Inr (payload, k)"
| "read_body cap r b k payload (Inl e # cs) = Inl (transport_error e)"
| "read_body cap r b k payload (Inr chunk # cs) =
     rbind (response_check r b k) (\<lambda>_.
       if chunk = [] then read_body cap r b (k + 1) payload cs
       else if cap < length payload + length chunk then Inl XTooLarge
       else read_body cap r b (k + 1) (payload @ chunk) cs)"

text \<open>
  The body of the \<open>try\<close>; \<open>loads\<close> decodes and parses, \<open>None\<close> being its \<open>ValueError\<close>. The first
  two readings are those of \<open>ensure_active\<close> and \<open>remaining_seconds\<close>.
\<close>

definition read_json_body :: "nat \<Rightarrow> (bytes \<Rightarrow> pyval option) \<Rightarrow> response \<Rightarrow> budget \<Rightarrow> (call_exn, pyval) result" where
  "read_json_body cap loads r b =
     rbind (lift_budget (ensure_active (snd (r_checks r 0)) b)) (\<lambda>_.
     if remaining_seconds (snd (r_checks r 1)) b \<le> 0 then Inl (XBudget (lit ''deadline''))
     else
     rbind (response_check r b 2) (\<lambda>_.
     if 400 \<le> r_status r \<and> r_status r < 600 then Inl (XRequest (r_status r) False (r_retry_after r))
     else
     rbind (response_check r b 3) (\<lambda>_.
     if int cap < declared_size r then Inl XTooLarge
     else
     rbind (read_body cap r b 4 [] (r_chunks r)) (\<lambda>(payload, k).
     rbind (response_check r b k) (\<lambda>_.
     case loads payload of
       None \<Rightarrow> Inl (XValue (lit ''invalid JSON''))
     | Some body \<Rightarrow> rbind (response_check r b (k + 1)) (\<lambda>_. Inr body))))))"

text \<open>Once the watchdog has fired, every failure is the deadline.\<close>

definition read_capped_json :: "nat \<Rightarrow> (bytes \<Rightarrow> pyval option) \<Rightarrow> response \<Rightarrow> budget \<Rightarrow> (call_exn, pyval) result" where
  "read_capped_json cap loads r b =
     (case read_json_body cap loads r b of
        Inl e \<Rightarrow> if r_fired r then Inl (XBudget (lit ''deadline'')) else Inl e
      | Inr body \<Rightarrow> Inr body)"

subsection \<open>Extracting the translation\<close>

definition dict_get :: "pyval \<Rightarrow> string \<Rightarrow> pyval \<Rightarrow> (call_exn, pyval) result" where
  "dict_get v key dflt =
     (case v of
        PDict ps \<Rightarrow> Inr (case map_of ps (lit key) of None \<Rightarrow> dflt | Some x \<Rightarrow> x)
      | _ \<Rightarrow> Inl XOther)"

text \<open>\<open>v[0]\<close>: an \<open>IndexError\<close> is not among the exceptions the retry loop names.\<close>

definition first_item :: "pyval \<Rightarrow> (call_exn, pyval) result" where
  "first_item v =
     (case v of
        PList (x # xs) \<Rightarrow> Inr x
      | PList [] \<Rightarrow> Inl XOther
      | PStr (c # cs) \<Rightarrow> Inr (PStr [c])
      | PStr [] \<Rightarrow> Inl XOther
      | PDict ps \<Rightarrow> Inl XKey
      | _ \<Rightarrow> Inl XType)"

definition openai_content :: "pyval \<Rightarrow> (call_exn, pyval) result" where
  "openai_content body =
     rbind (dict_get body ''choices'' (PList [PDict []])) (\<lambda>choices.
     rbind (first_item choices) (\<lambda>choice.
     rbind (dict_get choice ''message'' (PDict [])) (\<lambda>message.
       dict_get message ''content'' (PStr []))))"

fun text_blocks :: "pyval list \<Rightarrow> (call_exn, pystr) result" where
  "text_blocks [] = Inr []"
| "text_blocks (PDict ps # bs) =
     (if map_of ps (lit ''type'') = Some (PStr (lit ''text''))
      then (case map_of ps (lit ''text'') of
              None \<Rightarrow> text_blocks bs
            | Some (PStr t) \<Rightarrow> rbind (text_blocks bs) (\<lambda>r. Inr (t @ r))
            | Some _ \<Rightarrow> Inl XType)
      else text_blocks bs)"
| "text_blocks (b # bs) = text_blocks bs"

definition anthropic_content :: "pyval \<Rightarrow> (call_exn, pyval) result" where
  "anthropic_content body =
     rbind (dict_get body ''content'' (PList [])) (\<lambda>content.
       case content of
         PList bs \<Rightarrow> rbind (text_blocks bs) (\<lambda>t. Inr (PStr t))
       | PDict _ \<Rightarrow> Inr (PStr [])
       | PStr _ \<Rightarrow> Inr (PStr [])
       | _ \<Rightarrow> Inl XType)"

fun text_exn :: "text_error \<Rightarrow> call_exn" where
  "text_exn (TextValueError t) = XValue t"
| "text_exn TextTooLarge = XTooLarge"
| "text_exn TextEncodeError = XValue (lit ''UnicodeEncodeError'')"

definition provider_text :: "nat \<Rightarrow> protocol \<Rightarrow> pystr \<Rightarrow> pyval \<Rightarrow> (call_exn, pystr) result" where
  "provider_text cap proto user_content body =
     rbind (case proto of OpenAI \<Rightarrow> openai_content body | Anthropic \<Rightarrow> anthropic_content body) (\<lambda>v.
       case validate_provider_text cap v user_content of Inl e \<Rightarrow> Inl (text_exn e) | Inr t \<Rightarrow> Inr t)"

subsection \<open>Requests\<close>

definition message :: "string \<Rightarrow> pystr \<Rightarrow> pyval" where
  "message role content = PDict [(lit ''role'', PStr (lit role)), (lit ''content'', PStr content)]"

definition temperature :: "(pystr \<times> pyval) list" where
  "temperature = [(lit ''temperature'', PFloat (Fin (3 / 10)))]"

definition openai_request :: "provider \<Rightarrow> pystr \<Rightarrow> pystr \<Rightarrow> seconds \<Rightarrow> int \<Rightarrow> http_request" where
  "openai_request p user_content prompt timeout max_tokens =
     \<lparr>q_url = endpoint (p_spec p),
      q_headers = [(lit ''Content-Type'', lit ''application/json'')]
        @ (if p_api_key p \<noteq> [] then [(lit ''Authorization'', lit ''Bearer '' @ p_api_key p)] else []),
      q_payload = PDict ([(lit ''model'', PStr (p_model p)), (lit ''max_tokens'', PInt max_tokens),
          (lit ''messages'', PList [message ''system'' prompt, message ''user'' user_content])]
        @ (if provider_id (p_spec p) \<noteq> lit ''gemini'' then temperature else [])),
      q_timeout = timeout\<rparr>"

definition anthropic_request :: "provider \<Rightarrow> pystr \<Rightarrow> pystr \<Rightarrow> seconds \<Rightarrow> int \<Rightarrow> http_request" where
  "anthropic_request p user_content prompt timeout max_tokens =
     \<lparr>q_url = endpoint (p_spec p),
      q_headers = [(lit ''Content-Type'', lit ''application/json'')]
        @ (if contains (lit ''minimax'') (endpoint (p_spec p)) then [(lit ''Authorization'', lit ''Bearer '' @ p_api_key p)]
           else [(lit ''x-api-key'', p_api_key p), (lit ''anthropic-version'', lit ''2023-06-01'')]),
      q_payload = PDict ([(lit ''model'', PStr (p_model p)), (lit ''max_tokens'', PInt max_tokens)] @ temperature
        @ [(lit ''system'', PStr prompt), (lit ''messages'', PList [message ''user'' user_content])]),
      q_timeout = timeout\<rparr>"

definition provider_request :: "provider \<Rightarrow> pystr \<Rightarrow> pystr \<Rightarrow> seconds \<Rightarrow> int \<Rightarrow> http_request" where
  "provider_request p u s timeout mt =
     (case protocol (p_spec p) of
        OpenAI \<Rightarrow> openai_request p u s timeout mt | Anthropic \<Rightarrow> anthropic_request p u s timeout mt)"

subsection \<open>One attempt\<close>

record attempt_io =
  a_slot_t1 :: seconds
  a_slot_t2 :: seconds
  a_slot_t3 :: seconds
  a_slot :: bool
  a_reserve_t :: seconds
  a_dns :: "pystr \<Rightarrow> nat \<Rightarrow> dns_io"
  a_call_t :: seconds
  a_post_t1 :: seconds
  a_post_t2 :: seconds
  a_post :: "http_request \<Rightarrow> transport_exn + response"
  a_sleep_t1 :: seconds
  a_sleep_t2 :: seconds
  a_sleep_t3 :: seconds

record call_env =
  ce_net :: net
  ce_cap :: nat
  ce_loads :: "bytes \<Rightarrow> pyval option"
  ce_timeout :: seconds

definition acquire_upstream_slot :: "attempt_io \<Rightarrow> budget \<Rightarrow> (call_exn, unit) result" where
  "acquire_upstream_slot io b =
     rbind (lift_budget (ensure_active (a_slot_t1 io) b)) (\<lambda>_.
       if remaining_seconds (a_slot_t2 io) b \<le> 0 then Inl (XBudget (lit ''deadline''))
       else if \<not> a_slot io
       then Inl (XBudget (if remaining_seconds (a_slot_t3 io) b \<le> 0 then lit ''deadline'' else lit ''queue''))
       else Inr ())"

text \<open>The outcome of an exchange, with the requests that were sent: none, when the budget is exhausted.\<close>

definition deadline_provider_post ::
  "attempt_io \<Rightarrow> http_request \<Rightarrow> budget \<Rightarrow> (call_exn, response) result \<times> http_request list" where
  "deadline_provider_post io req b =
     (case lift_budget (ensure_active (a_post_t1 io) b) of
        Inl e \<Rightarrow> (Inl e, [])
      | Inr _ \<Rightarrow>
          (case a_post io req of
             Inr r \<Rightarrow> Inr r
           | Inl (TBudget r) \<Rightarrow> Inl (XBudget r)
           | Inl e \<Rightarrow> rbind (lift_budget (ensure_active (a_post_t2 io) b)) (\<lambda>_. Inl (transport_error e)), [req]))"

definition exchange_text ::
  "call_env \<Rightarrow> provider \<Rightarrow> pystr \<Rightarrow> http_request \<Rightarrow> attempt_io \<Rightarrow> budget
   \<Rightarrow> (call_exn, pystr) result \<times> http_request list" where
  "exchange_text env p user_content req io b =
     (case deadline_provider_post io req b of
        (posted, sent) \<Rightarrow>
          (rbind posted (\<lambda>r.
           rbind (read_capped_json (ce_cap env) (ce_loads env) r b) (\<lambda>body.
             provider_text (ce_cap env) (protocol (p_spec p)) user_content body)), sent))"

text \<open>What happens between the grant of a slot and its release, with \<open>attempt_recorded\<close>.\<close>

definition attempt_in_slot ::
  "call_env \<Rightarrow> provider \<Rightarrow> pystr \<Rightarrow> pystr \<Rightarrow> int \<Rightarrow> attempt_io \<Rightarrow> call_state \<Rightarrow> (call_exn, pystr) result \<times> bool \<times> call_state" where
  "attempt_in_slot env p user_content prompt max_tokens io st =
     (case reserve_attempt (a_reserve_t io) (PStr (user_content @ prompt)) (PInt max_tokens) (ks_budget st) of
        (Inl e, b) \<Rightarrow> (Inl (budget_exn e), False, st\<lparr>ks_budget := b\<rparr>)
      | (Inr _, b) \<Rightarrow>
          let st1 = st\<lparr>ks_budget := b\<rparr> in
          (case (if provider_id (p_spec p) = custom_provider_id
                 then rbind (resolve_custom_endpoint (ce_net env) (a_dns io) (Some b) (endpoint (p_spec p))) (\<lambda>_. Inr ())
                 else Inr ()) of
             Inl e \<Rightarrow> (Inl e, False, st1)
           | Inr _ \<Rightarrow>
               let call_timeout = min (ce_timeout env) (remaining_seconds (a_call_t io) b) in
               if call_timeout \<le> 0
               then (Inl (XBudget (lit ''deadline'')), False, st1)
               else let st2 = note_call ''attempt'' st1 in
                    (case exchange_text env p user_content (provider_request p user_content prompt call_timeout max_tokens) io b of
                       (Inl e, sent) \<Rightarrow> (Inl e, True, log_sent p b sent st2)
                     | (Inr t, sent) \<Rightarrow> (Inr t, True, note_call ''success'' (log_sent p b sent st2)))))"

definition attempt_once ::
  "call_env \<Rightarrow> provider \<Rightarrow> pystr \<Rightarrow> pystr \<Rightarrow> int \<Rightarrow> attempt_io \<Rightarrow> call_state \<Rightarrow> (call_exn, pystr) result \<times> bool \<times> call_state" where
  "attempt_once env p user_content prompt max_tokens io st =
     (case acquire_upstream_slot io (ks_budget st) of
        Inl e \<Rightarrow> (Inl e, False, st)
      | Inr _ \<Rightarrow>
         (case attempt_in_slot env p user_content prompt max_tokens io (st\<lparr>ks_inflight := ks_inflight st + 1\<rparr>) of
            (res, recorded, st1) \<Rightarrow> (res, recorded, st1\<lparr>ks_inflight := ks_inflight st1 - 1\<rparr>)))"

subsection \<open>The retry loop\<close>

record provider_error =
  pe_provider :: pystr
  pe_status :: nat
  pe_retryable :: bool
  pe_fallback :: bool
  pe_retry_after :: "nat option"

datatype call_failure = FBudget pystr | FCall provider_error | FOther

definition transient_status :: "nat list" where
  "transient_status = [408, 500, 502, 503, 504]"

definition retry_after_seconds :: "pystr option \<Rightarrow> nat option" where
  "retry_after_seconds header =
     (case header of
        None \<Rightarrow> None
      | Some raw \<Rightarrow>
          let value = strip raw in
          if \<not> (1 \<le> length value \<and> length value \<le> 6 \<and> list_all is_digit value) then None
          else if dec_value value = 0 then None
          else Some (min 30 (dec_value value)))"

definition call_error :: "provider \<Rightarrow> nat \<Rightarrow> bool \<Rightarrow> bool \<Rightarrow> nat option \<Rightarrow> provider_error" where
  "call_error p status retryable fallback retry_after =
     \<lparr>pe_provider = provider_id (p_spec p), pe_status = status, pe_retryable = retryable,
      pe_fallback = fallback, pe_retry_after = retry_after\<rparr>"

definition sleep_before_retry :: "attempt_io \<Rightarrow> nat \<Rightarrow> nat \<Rightarrow> budget \<Rightarrow> (call_exn, unit) result" where
  "sleep_before_retry io attempt max_retries b =
     (if max_retries \<le> attempt + 1 then Inr ()
      else rbind (lift_budget (ensure_active (a_sleep_t1 io) b)) (\<lambda>_.
        if remaining_seconds (a_sleep_t2 io) b \<le> 0 then Inl (XBudget (lit ''deadline''))
        else lift_budget (ensure_active (a_sleep_t3 io) b)))"

definition request_error :: "provider \<Rightarrow> nat \<Rightarrow> bool \<Rightarrow> pystr option \<Rightarrow> provider_error" where
  "request_error p status transport retry_after =
     (let retryable = status \<in> set transient_status \<or> (status = 0 \<and> transport)
      in call_error p status retryable retryable (if status = 429 then retry_after_seconds retry_after else None))"

text \<open>
  What the \<open>except\<close> clauses make of an exception: the counters they record when the attempt was
  recorded, and whether the call fails at once or keeps an error and may go round the loop.
\<close>

datatype handled = GiveUp call_failure | Keep provider_error

fun note_failure :: "call_exn \<Rightarrow> bool \<Rightarrow> call_state \<Rightarrow> call_state" where
  "note_failure x False st = st"
| "note_failure (XConfig t) True st = st"
| "note_failure (XDns t) True st = st"
| "note_failure (XRequest status tr ra) True st =
     note_call ''failure'' (if status = 429 then note_call ''rate_limited'' st else st)"
| "note_failure x True st = note_call ''failure'' st"

fun handle_exn :: "provider \<Rightarrow> call_exn \<Rightarrow> handled" where
  "handle_exn p (XBudget r) = GiveUp (FBudget r)"
| "handle_exn p (XConfig t) = GiveUp (FCall (call_error p 0 False False None))"
| "handle_exn p (XDns t) = Keep (call_error p 0 True True None)"
| "handle_exn p XSsl = GiveUp (FCall (call_error p 0 False False None))"
| "handle_exn p (XRequest status tr ra) = Keep (request_error p status tr ra)"
| "handle_exn p XTooLarge = GiveUp (FCall (call_error p 0 False True None))"
| "handle_exn p (XValue t) = GiveUp (FCall (call_error p 0 False True None))"
| "handle_exn p XKey = GiveUp (FCall (call_error p 0 False True None))"
| "handle_exn p XType = GiveUp (FCall (call_error p 0 False True None))"
| "handle_exn p XOther = GiveUp FOther"

text \<open>\<open>raise last_error or _ProviderCallError(p.name, 0, "UnknownError")\<close>.\<close>

definition give_up :: "provider \<Rightarrow> provider_error option \<Rightarrow> call_failure" where
  "give_up p last_error =
     FCall (case last_error of None \<Rightarrow> call_error p 0 False False None | Some e \<Rightarrow> e)"

fun call_loop ::
  "call_env \<Rightarrow> provider \<Rightarrow> pystr \<Rightarrow> pystr \<Rightarrow> int \<Rightarrow> (nat \<Rightarrow> attempt_io) \<Rightarrow> nat \<Rightarrow> nat \<Rightarrow> provider_error option
   \<Rightarrow> call_state \<Rightarrow> (call_failure, pystr) result \<times> call_state" where
  "call_loop env p u s mt ios max_retries 0 last_error st = (Inl (give_up p last_error), st)"
| "call_loop env p u s mt ios max_retries (Suc left) last_error st =
     (let attempt = max_retries - Suc left; io = ios attempt in
      case attempt_once env p u s mt io st of
        (Inr t, _, st1) \<Rightarrow> (Inr t, st1)
      | (Inl x, recorded, st1) \<Rightarrow>
          let st2 = note_failure x recorded st1 in
          (case handle_exn p x of
             GiveUp f \<Rightarrow> (Inl f, st2)
           | Keep e \<Rightarrow>
               if \<not> pe_retryable e then (Inl (give_up p (Some e)), st2)
               else (case sleep_before_retry io attempt max_retries (ks_budget st2) of
                       Inl (XBudget r) \<Rightarrow> (Inl (FBudget r), st2)
                     | Inl _ \<Rightarrow> (Inl FOther, st2)
                     | Inr _ \<Rightarrow> call_loop env p u s mt ios max_retries left (Some e) st2)))"

definition call_provider ::
  "call_env \<Rightarrow> provider \<Rightarrow> pystr \<Rightarrow> pystr \<Rightarrow> nat \<Rightarrow> int \<Rightarrow> (nat \<Rightarrow> attempt_io) \<Rightarrow> call_state
   \<Rightarrow> (call_failure, pystr) result \<times> call_state" where
  "call_provider env p u s max_retries mt ios st = call_loop env p u s mt ios max_retries max_retries None st"

subsection \<open>The provider loop\<close>

datatype complete_error = CBudget pystr | CUnavailable pystr "nat option"

definition unavailable :: "provider_error option \<Rightarrow> complete_error" where
  "unavailable last_error =
     (case last_error of
        Some e \<Rightarrow>
          if pe_status e = 429 then CUnavailable (lit ''provider_rate_limited'') (pe_retry_after e)
          else CUnavailable (lit ''provider_unavailable'') None
      | None \<Rightarrow> CUnavailable (lit ''provider_unavailable'') None)"

fun complete_loop ::
  "call_env \<Rightarrow> pystr \<Rightarrow> pystr \<Rightarrow> nat \<Rightarrow> int \<Rightarrow> (provider \<Rightarrow> nat \<Rightarrow> attempt_io) \<Rightarrow> provider list \<Rightarrow> provider_error option
   \<Rightarrow> call_state \<Rightarrow> (complete_error, pystr \<times> pystr) result \<times> call_state" where
  "complete_loop env u s max_retries mt ios [] last_error st = (Inl (unavailable last_error), st)"
| "complete_loop env u s max_retries mt ios (p # ps) last_error st =
     (case call_provider env p u s max_retries mt (ios p) st of
        (Inr t, st1) \<Rightarrow> (Inr (t, cache_namespace (p_spec p)), st1)
      | (Inl (FBudget r), st1) \<Rightarrow> (Inl (CBudget r), st1)
      | (Inl (FCall e), st1) \<Rightarrow>
          if pe_fallback e then complete_loop env u s max_retries mt ios ps (Some e) st1
          else (Inl (unavailable (Some e)), st1)
      | (Inl FOther, st1) \<Rightarrow> (Inl (unavailable last_error), st1))"

definition complete_request ::
  "call_env \<Rightarrow> provider \<times> provider option \<Rightarrow> bool \<Rightarrow> pystr \<Rightarrow> pystr \<Rightarrow> nat \<Rightarrow> int \<Rightarrow> (provider \<Rightarrow> nat \<Rightarrow> attempt_io)
   \<Rightarrow> call_state \<Rightarrow> (complete_error, pystr \<times> pystr) result \<times> call_state" where
  "complete_request env pf allow u s max_retries mt ios st =
     complete_loop env u s max_retries mt ios (eligible_providers pf allow) None st"

end
