(* ===== verification/Batch_Translation.thy ===== *)
theory Batch_Translation
  imports Segment_Envelope Provider_Calls
begin

section \<open>Translating batches\<close>

text \<open>
  Models the batch side of \<open>translator.py\<close>: the recovery counters of a request
  (\<open>BatchRecoveryTracker\<close>), the translation of one group with its envelope retry and paragraph
  fallback (\<open>_translate_group_operation\<close>, \<open>_translate_group\<close>), the handling of a group's failure
  (\<open>_do_group\<close>) and the placement of the results (\<open>translate_batch_detailed\<close>).

  Workers of one request run concurrently. Within a group the calls are sequential, so a group
  is a function on its state; the collecting thread sees the groups in completion order, which
  is an argument of \<open>collect\<close>.
\<close>

subsection \<open>Recovery counters\<close>

definition recovery_metric_names :: "string list" where
  "recovery_metric_names =
     [''envelope_retry_groups'', ''envelope_retry_recovered_groups'', ''paragraph_fallback_groups'',
      ''paragraph_fallback_recovered_segments'', ''paragraph_fallback_failed_segments'']"

text \<open>The counters, whether a sink is attached, and the increments it was called with.\<close>

record tracker =
  rt_counts :: "(string \<times> nat) list"
  rt_sink :: bool
  rt_published :: "(string \<times> nat) list list"

definition new_tracker :: tracker where
  "new_tracker = \<lparr>rt_counts = map (\<lambda>n. (n, 0)) recovery_metric_names, rt_sink = False, rt_published = []\<rparr>"

text \<open>\<open>_publish\<close> skips increments that are all zero; an exception of the sink is swallowed.\<close>

definition publish :: "(string \<times> nat) list \<Rightarrow> tracker \<Rightarrow> tracker" where
  "publish incs t = (if list_all (\<lambda>p. snd p = 0) incs then t else t\<lparr>rt_published := rt_published t @ [incs]\<rparr>)"

definition bump_count :: "string \<Rightarrow> nat \<Rightarrow> (string \<times> nat) list \<Rightarrow> (string \<times> nat) list" where
  "bump_count name n cs = map (\<lambda>p. if fst p = name then (fst p, snd p + n) else p) cs"

definition tracker_record :: "string \<Rightarrow> pyval \<Rightarrow> tracker \<Rightarrow> (py_error, unit) result \<times> tracker" where
  "tracker_record name n t =
     (if name \<notin> fst ` set (rt_counts t) then (Inl (ValueError (lit ''unknown recovery metric'')), t)
      else if \<not> is_pos_int n then (Inl (ValueError (lit ''recovery metric count must be a positive integer'')), t)
      else let k = nat (int_of n); t1 = t\<lparr>rt_counts := bump_count name k (rt_counts t)\<rparr>
           in (Inr (), if rt_sink t then publish (bump_count name k (map (\<lambda>m. (m, 0)) recovery_metric_names)) t1 else t1))"

definition attach_sink_and_flush :: "bool \<Rightarrow> tracker \<Rightarrow> (py_error, unit) result \<times> tracker" where
  "attach_sink_and_flush callable_sink t =
     (if \<not> callable_sink then (Inl (ValueError (lit ''recovery metric sink must be callable'')), t)
      else if rt_sink t then (Inl (RuntimeError (lit ''recovery metric sink is already attached'')), t)
      else (Inr (), publish (rt_counts t) (t\<lparr>rt_sink := True\<rparr>)))"

definition note_recovery :: "string \<Rightarrow> tracker option \<Rightarrow> tracker option" where
  "note_recovery name = map_option (\<lambda>t. snd (tracker_record name (PInt 1) t))"

subsection \<open>Items\<close>

datatype recovery_path = Direct | EnvelopeRetry | ParagraphFallback | ParagraphFallbackFailed | Failed | EmptySlot

record batch_item =
  it_text :: pystr
  it_provider :: pystr
  it_cacheable :: bool
  it_path :: recovery_path
  it_error :: "pystr option"
  it_retry_after :: "nat option"

definition item :: "pystr \<Rightarrow> pystr \<Rightarrow> bool \<Rightarrow> recovery_path \<Rightarrow> batch_item" where
  "item body provider cacheable path =
     \<lparr>it_text = body, it_provider = provider, it_cacheable = cacheable, it_path = path, it_error = None, it_retry_after = None\<rparr>"

definition error_item :: "recovery_path \<Rightarrow> pystr \<Rightarrow> nat option \<Rightarrow> batch_item" where
  "error_item path code retry_after =
     \<lparr>it_text = lit ''[TRANSLATION ERROR: '' @ code @ lit '']'', it_provider = [], it_cacheable = False, it_path = path,
      it_error = Some code, it_retry_after = retry_after\<rparr>"

subsection \<open>One group\<close>

record group_env =
  ge_call :: call_env
  ge_prompt :: prompt_env
  ge_pf :: "provider \<times> provider option"
  ge_allow :: bool
  ge_sl :: pystr
  ge_tg :: pystr
  ge_glossary :: "pyval list option"
  ge_tokens :: "nat \<Rightarrow> pystr"
  ge_parse :: "pystr \<Rightarrow> pyval option"
  ge_ios :: "nat \<Rightarrow> provider \<Rightarrow> nat \<Rightarrow> attempt_io"
  ge_clock :: "nat \<Rightarrow> seconds"

text \<open>
  \<open>gs_next\<close> counts the operations so far, and selects the clock reading and the provider
  exchange of the next one; \<open>gs_tok\<close> counts the random tokens drawn.
\<close>

record group_state =
  gs_call :: call_state
  gs_next :: nat
  gs_tok :: nat
  gs_tracker :: "tracker option"

datatype group_error = GBudget pystr | GUnavailable pystr "nat option" | GFailed | GNoReturn

fun group_exn :: "complete_error \<Rightarrow> group_error" where
  "group_exn (CBudget r) = GBudget r"
| "group_exn (CUnavailable code ra) = GUnavailable code ra"

definition budget_group_exn :: "budget_error \<Rightarrow> group_error" where
  "budget_group_exn e = (case e of WorkBudgetExceeded r \<Rightarrow> GBudget r | _ \<Rightarrow> GFailed)"

definition run_complete ::
  "group_env \<Rightarrow> pystr \<Rightarrow> pystr \<Rightarrow> nat \<Rightarrow> int \<Rightarrow> group_state \<Rightarrow> (group_error, pystr \<times> pystr) result \<times> group_state" where
  "run_complete ge u prompt max_retries max_tokens st =
     (case complete_request (ge_call ge) (ge_pf ge) (ge_allow ge) u prompt max_retries max_tokens
             (ge_ios ge (gs_next st)) (gs_call st) of
        (Inl e, cs) \<Rightarrow> (Inl (group_exn e), st\<lparr>gs_call := cs, gs_next := gs_next st + 1\<rparr>)
      | (Inr r, cs) \<Rightarrow> (Inr r, st\<lparr>gs_call := cs, gs_next := gs_next st + 1\<rparr>))"

definition translate_text_operation ::
  "group_env \<Rightarrow> pystr \<Rightarrow> nat \<Rightarrow> group_state \<Rightarrow> (group_error, pystr \<times> pystr) result \<times> group_state" where
  "translate_text_operation ge body max_retries st =
     (case ensure_active (ge_clock ge (gs_next st)) (ks_budget (gs_call st)) of
        Inl e \<Rightarrow> (Inl (budget_group_exn e), st)
      | Inr _ \<Rightarrow>
         (case single_prompt (ge_prompt ge) (ge_sl ge) (ge_tg ge) (ge_glossary ge) of
            Inl _ \<Rightarrow> (Inl GFailed, st)
          | Inr prompt \<Rightarrow>
              let cfg = pe_cfg (ge_prompt ge) in
              run_complete ge body prompt max_retries (int (output_cap cfg body (tc_max_tokens cfg))) st))"

text \<open>
  The loop that draws identifiers not used before: \<open>None\<close> when it never ends, which needs a
  token source that keeps repeating itself.
\<close>

partial_function (option) draw_ids ::
  "(nat \<Rightarrow> pystr) \<Rightarrow> nat \<Rightarrow> pystr list \<Rightarrow> nat \<Rightarrow> pystr list \<Rightarrow> (pystr list \<times> nat \<times> pystr list) option" where
  "draw_ids tokens k used n ids =
     (if n \<le> length ids then Some (ids, k, used)
      else if tokens k \<in> set used then draw_ids tokens (k + 1) used n ids
      else draw_ids tokens (k + 1) (tokens k # used) n (ids @ [tokens k]))"

definition envelope_json :: "pystr option \<Rightarrow> (pystr \<times> pystr) list \<Rightarrow> json" where
  "envelope_json context segments =
     JDict ([(lit ''protocol'', JStr segment_protocol),
             (lit ''segments'', JList (map (\<lambda>(i, t). JDict [(lit ''id'', JStr i), (lit ''text'', JStr t)]) segments))]
            @ (case context of None \<Rightarrow> [] | Some c \<Rightarrow> if c = [] then [] else [(lit ''context'', JStr c)]))"

text \<open>The envelope attempts: \<open>attempt\<close> is 0, then 1; \<open>Inr None\<close> is two malformed answers.\<close>

fun envelope_attempts ::
  "group_env \<Rightarrow> pystr list \<Rightarrow> nat list \<Rightarrow> pystr \<Rightarrow> nat \<Rightarrow> nat \<Rightarrow> pystr list \<Rightarrow> group_state
   \<Rightarrow> (group_error, batch_item list option) result \<times> group_state" where
  "envelope_attempts ge texts idxs prompt attempt 0 used st = (Inr None, st)"
| "envelope_attempts ge texts idxs prompt attempt (Suc left) used st =
     (case draw_ids (ge_tokens ge) (gs_tok st) used (length idxs) [] of
        None \<Rightarrow> (Inl GNoReturn, st)
      | Some (ids, k, used') \<Rightarrow>
          let cfg = pe_cfg (ge_prompt ge);
              combined = dumps (envelope_json (build_context_block cfg texts idxs) (zip ids (map (\<lambda>i. texts ! i) idxs)))
          in (case run_complete ge combined prompt 1 (int (output_cap cfg combined (tc_batch_max_tokens cfg))) (st\<lparr>gs_tok := k\<rparr>) of
                (Inl e, st1) \<Rightarrow> (Inl e, st1)
              | (Inr (out, provider), st1) \<Rightarrow>
                 (case parse_segment_envelope (tc_max_response cfg) (ge_parse ge) out ids of
                    Some segs \<Rightarrow>
                      (Inr (Some (map (\<lambda>seg. item seg provider True (if attempt = 0 then Direct else EnvelopeRetry)) segs)),
                       if attempt = 1
                       then st1\<lparr>gs_tracker := note_recovery ''envelope_retry_recovered_groups'' (gs_tracker st1)\<rparr> else st1)
                  | None \<Rightarrow>
                      envelope_attempts ge texts idxs prompt (attempt + 1) left used'
                        (if attempt = 0
                         then st1\<lparr>gs_tracker := note_recovery ''envelope_retry_groups'' (gs_tracker st1)\<rparr> else st1))))"

text \<open>The paragraph fallback: an exhausted budget is fatal, every other failure is a marker.\<close>

fun recover_paragraphs ::
  "group_env \<Rightarrow> pystr list \<Rightarrow> group_state \<Rightarrow> (group_error, batch_item list) result \<times> group_state" where
  "recover_paragraphs ge [] st = (Inr [], st)"
| "recover_paragraphs ge (body # rest) st =
     (case translate_text_operation ge body 1 st of
        (Inl (GBudget r), st1) \<Rightarrow> (Inl (GBudget r), st1)
      | (Inl e, st1) \<Rightarrow>
          let code = (case e of GUnavailable c _ \<Rightarrow> c | _ \<Rightarrow> lit ''translation_failed'');
              ra = (case e of GUnavailable _ n \<Rightarrow> n | _ \<Rightarrow> None);
              st2 = st1\<lparr>gs_tracker := note_recovery ''paragraph_fallback_failed_segments'' (gs_tracker st1)\<rparr>
          in (case recover_paragraphs ge rest st2 of
                (Inl f, st3) \<Rightarrow> (Inl f, st3)
              | (Inr its, st3) \<Rightarrow> (Inr (error_item ParagraphFallbackFailed code ra # its), st3))
      | (Inr (translated, provider), st1) \<Rightarrow>
          let st2 = st1\<lparr>gs_tracker := note_recovery ''paragraph_fallback_recovered_segments'' (gs_tracker st1)\<rparr>
          in (case recover_paragraphs ge rest st2 of
                (Inl f, st3) \<Rightarrow> (Inl f, st3)
              | (Inr its, st3) \<Rightarrow> (Inr (item translated provider False ParagraphFallback # its), st3)))"

definition single_item :: "(group_error, pystr \<times> pystr) result \<times> group_state \<Rightarrow> (group_error, batch_item list) result \<times> group_state" where
  "single_item r = (case r of (Inl e, st) \<Rightarrow> (Inl e, st) | (Inr (t, p), st) \<Rightarrow> (Inr [item t p True Direct], st))"

definition translate_group_operation ::
  "group_env \<Rightarrow> pystr list \<Rightarrow> nat list \<Rightarrow> group_state \<Rightarrow> (group_error, batch_item list) result \<times> group_state" where
  "translate_group_operation ge texts idxs st =
     (if length idxs = 1 \<and> tc_context_window (pe_cfg (ge_prompt ge)) = 0
      then single_item (translate_text_operation ge (texts ! hd idxs) 1 st)
      else (case batch_prompt (ge_prompt ge) (ge_sl ge) (ge_tg ge) (ge_glossary ge) of
              Inl _ \<Rightarrow> (Inl GFailed, st)
            | Inr prompt \<Rightarrow>
               (case envelope_attempts ge texts idxs prompt 0 2 [] st of
                  (Inl e, st1) \<Rightarrow> (Inl e, st1)
                | (Inr (Some its), st1) \<Rightarrow> (Inr its, st1)
                | (Inr None, st1) \<Rightarrow>
                    recover_paragraphs ge (map (\<lambda>i. texts ! i) idxs)
                      (st1\<lparr>gs_tracker := note_recovery ''paragraph_fallback_groups'' (gs_tracker st1)\<rparr>))))"

definition translate_group ::
  "group_env \<Rightarrow> pystr list \<Rightarrow> nat list \<Rightarrow> group_state \<Rightarrow> (group_error, batch_item list) result \<times> group_state" where
  "translate_group ge texts idxs st =
     (if length idxs = 1 \<and> tc_context_window (pe_cfg (ge_prompt ge)) = 0
      then single_item (translate_text_operation ge (texts ! hd idxs) 1 st)
      else (case ensure_active (ge_clock ge (gs_next st)) (ks_budget (gs_call st)) of
              Inl e \<Rightarrow> (Inl (budget_group_exn e), st)
            | Inr _ \<Rightarrow> translate_group_operation ge texts idxs st))"

text \<open>
  \<open>_do_group\<close>: an exhausted budget is cancelled for the whole request and raised again (\<open>Inl\<close>);
  every other exception fills the group with markers. \<open>GNoReturn\<close> is not an exception: the
  worker is still drawing identifiers.
\<close>

definition failed_group :: "group_error \<Rightarrow> nat list \<Rightarrow> batch_item list" where
  "failed_group e idxs =
     (case e of
        GUnavailable code ra \<Rightarrow> map (\<lambda>_. error_item Failed code ra) idxs
      | _ \<Rightarrow> map (\<lambda>_. error_item Failed (lit ''translation_failed'') None) idxs)"

definition cancel_group :: "pystr \<Rightarrow> group_state \<Rightarrow> group_state" where
  "cancel_group r st = st\<lparr>gs_call := (gs_call st)\<lparr>ks_budget := snd (cancel (PStr r) (ks_budget (gs_call st)))\<rparr>\<rparr>"

definition do_group ::
  "group_env \<Rightarrow> pystr list \<Rightarrow> nat list \<Rightarrow> group_state \<Rightarrow> (group_error, batch_item list) result \<times> group_state" where
  "do_group ge texts idxs st =
     (case (case ensure_active (ge_clock ge (gs_next st)) (ks_budget (gs_call st)) of
              Inl e \<Rightarrow> (Inl (budget_group_exn e), st)
            | Inr _ \<Rightarrow> translate_group ge texts idxs st) of
        (Inr its, st1) \<Rightarrow> (Inr its, st1)
      | (Inl (GBudget r), st1) \<Rightarrow> (Inl (GBudget r), cancel_group r st1)
      | (Inl GNoReturn, st1) \<Rightarrow> (Inl GNoReturn, st1)
      | (Inl e, st1) \<Rightarrow> (Inr (failed_group e idxs), st1))"

subsection \<open>Collecting the results\<close>

definition empty_item :: batch_item where
  "empty_item = item [] [] False EmptySlot"

definition missing_item :: batch_item where
  "missing_item = item (lit ''[TRANSLATION ERROR: missing segment]'') [] False Failed"

fun place :: "nat list \<Rightarrow> batch_item list \<Rightarrow> batch_item list \<Rightarrow> batch_item list" where
  "place [] its results = results"
| "place (i # idxs) [] results = place idxs [] (results[i := missing_item])"
| "place (i # idxs) (it # its) results = place idxs its (results[i := it])"

text \<open>The collecting loop over the groups in completion order; the first exhausted budget is raised.\<close>

fun collect :: "batch_item list \<Rightarrow> (nat list \<times> (group_error, batch_item list) result) list \<Rightarrow> (group_error, batch_item list) result" where
  "collect results [] = Inr results"
| "collect results ((idxs, Inl r) # rest) = Inl r"
| "collect results ((idxs, Inr its) # rest) = collect (place idxs its results) rest"

definition batch_results :: "pystr list \<Rightarrow> (nat list \<times> (group_error, batch_item list) result) list \<Rightarrow> (group_error, batch_item list) result" where
  "batch_results texts done = collect (map (\<lambda>_. empty_item) texts) done"

definition translate_batch :: "(group_error, batch_item list) result \<Rightarrow> (group_error, (pystr \<times> pystr) list) result" where
  "translate_batch detailed = rbind detailed (\<lambda>its. Inr (map (\<lambda>it. (it_text it, it_provider it)) its))"

end
