(* ===== verification/Metrics.thy ===== *)
theory Metrics
  imports Batch_Translation Batching
begin

section \<open>Request metrics\<close>

text \<open>
  Models the metrics of \<open>server.py\<close>: the fixed schema of counters, the functions that record a
  request, a response, an outcome, a rejected budget, a partial batch, recovery increments and
  the shape of a batch, and the aggregates of the \<open>/metrics\<close> endpoint. Every function updates
  the counters under one lock.
\<close>

subsection \<open>Schema\<close>

type_synonym counters = "(string \<times> nat) list"

definition http_response_classes :: "string list" where
  "http_response_classes = [''2xx'', ''3xx'', ''4xx'', ''5xx'']"

definition metric_outcomes :: "string list" where
  "metric_outcomes =
     [''auth_rejected'', ''auth_unavailable'', ''auth_rate_limited'', ''csrf_rejected'', ''api_rate_limited'',
      ''work_budget_exhausted'', ''provider_unavailable'', ''invalid_provider_response'', ''translation_failed'',
      ''internal_error'', ''batch_partial_failure_requests'']"

definition work_budget_reasons :: "string list" where
  "work_budget_reasons =
     [''attempts'', ''input_bytes'', ''output_tokens'', ''deadline'', ''queue'', ''cancelled'', ''unknown'']"

definition group_size_buckets :: "string list" where
  "group_size_buckets = [''single'', ''2_4'', ''5_8'', ''9_10'', ''over_10'']"

definition source_token_buckets :: "string list" where
  "source_token_buckets = [''up_to_128'', ''up_to_256'', ''up_to_450'', ''up_to_600'', ''over_600'']"

definition latency_buckets :: "string list" where
  "latency_buckets = [''up_to_250'', ''up_to_500'', ''up_to_1000'', ''up_to_2500'', ''up_to_5000'', ''over_5000'']"

record metrics =
  mt_total_requests :: nat
  mt_total_latency :: real
  mt_cache_hits :: nat
  mt_cache_misses :: nat
  mt_errors :: nat
  mt_latency :: counters
  mt_responses :: counters
  mt_outcomes :: counters
  mt_reasons :: counters
  mt_recovery :: counters
  mt_partial_segments :: nat
  mt_groups :: nat
  mt_paragraphs :: nat
  mt_group_sizes :: counters
  mt_group_tokens :: counters

definition zeros :: "string list \<Rightarrow> counters" where
  "zeros names = map (\<lambda>n. (n, 0)) names"

definition empty_metrics :: metrics where
  "empty_metrics =
     \<lparr>mt_total_requests = 0, mt_total_latency = 0, mt_cache_hits = 0, mt_cache_misses = 0, mt_errors = 0,
      mt_latency = zeros latency_buckets, mt_responses = zeros http_response_classes, mt_outcomes = zeros metric_outcomes,
      mt_reasons = zeros work_budget_reasons, mt_recovery = zeros recovery_metric_names, mt_partial_segments = 0,
      mt_groups = 0, mt_paragraphs = 0, mt_group_sizes = zeros group_size_buckets, mt_group_tokens = zeros source_token_buckets\<rparr>"

subsection \<open>Recording\<close>

definition latency_bucket :: "real \<Rightarrow> string" where
  "latency_bucket ms =
     (if ms \<le> 250 then ''up_to_250'' else if ms \<le> 500 then ''up_to_500'' else if ms \<le> 1000 then ''up_to_1000''
      else if ms \<le> 2500 then ''up_to_2500'' else if ms \<le> 5000 then ''up_to_5000'' else ''over_5000'')"

definition record_metric :: "real \<Rightarrow> nat \<Rightarrow> nat \<Rightarrow> bool \<Rightarrow> metrics \<Rightarrow> metrics" where
  "record_metric latency_ms hits misses failed m =
     m\<lparr>mt_total_requests := mt_total_requests m + 1, mt_total_latency := mt_total_latency m + latency_ms,
       mt_cache_hits := mt_cache_hits m + hits, mt_cache_misses := mt_cache_misses m + misses,
       mt_latency := bump_count (latency_bucket latency_ms) 1 (mt_latency m),
       mt_errors := mt_errors m + (if failed then 1 else 0)\<rparr>"

definition response_class :: "nat \<Rightarrow> string" where
  "response_class status =
     (let c = status div 100 in if c = 2 then ''2xx'' else if c = 3 then ''3xx'' else if c = 4 then ''4xx''
      else if c = 5 then ''5xx'' else ''other'')"

definition record_http_response :: "nat \<Rightarrow> metrics \<Rightarrow> metrics" where
  "record_http_response status m =
     (if response_class status \<notin> set http_response_classes then m
      else m\<lparr>mt_responses := bump_count (response_class status) 1 (mt_responses m)\<rparr>)"

definition record_outcome :: "string \<Rightarrow> metrics \<Rightarrow> (py_error, metrics) result" where
  "record_outcome name m =
     (if name \<notin> set metric_outcomes then Inl (ValueError (lit ''unknown metric outcome''))
      else Inr (m\<lparr>mt_outcomes := bump_count name 1 (mt_outcomes m)\<rparr>))"

definition record_work_budget_exhaustion :: "string \<Rightarrow> metrics \<Rightarrow> metrics" where
  "record_work_budget_exhaustion reason m =
     (let bounded = (if reason \<in> set work_budget_reasons then reason else ''unknown'') in
      m\<lparr>mt_outcomes := bump_count ''work_budget_exhausted'' 1 (mt_outcomes m),
        mt_reasons := bump_count bounded 1 (mt_reasons m)\<rparr>)"

definition record_batch_partial_failure :: "pyval \<Rightarrow> metrics \<Rightarrow> (py_error, metrics) result" where
  "record_batch_partial_failure segment_count m =
     (if \<not> is_pos_int segment_count then Inl (ValueError (lit ''segment_count must be a positive integer''))
      else Inr (m\<lparr>mt_outcomes := bump_count ''batch_partial_failure_requests'' 1 (mt_outcomes m),
                  mt_partial_segments := mt_partial_segments m + nat (int_of segment_count)\<rparr>))"

text \<open>The increments of a tracker, one count per name.\<close>

definition record_segment_recovery :: "counters \<Rightarrow> metrics \<Rightarrow> (py_error, metrics) result" where
  "record_segment_recovery increments m =
     (if fst ` set increments \<noteq> set recovery_metric_names then Inl (ValueError (lit ''invalid recovery metric dimensions''))
      else if list_all (\<lambda>p. snd p = 0) increments then Inr m
      else Inr (m\<lparr>mt_recovery := fold (\<lambda>(n, k). bump_count n k) increments (mt_recovery m)\<rparr>))"

definition record_segment_recovery_safely :: "counters \<Rightarrow> metrics \<Rightarrow> metrics" where
  "record_segment_recovery_safely increments m =
     (case record_segment_recovery increments m of Inl _ \<Rightarrow> m | Inr m1 \<Rightarrow> m1)"

definition group_size_bucket :: "nat \<Rightarrow> string" where
  "group_size_bucket n =
     (if n = 1 then ''single'' else if n \<le> 4 then ''2_4'' else if n \<le> 8 then ''5_8''
      else if n \<le> 10 then ''9_10'' else ''over_10'')"

definition source_token_bucket :: "nat \<Rightarrow> string" where
  "source_token_bucket tokens =
     (if tokens \<le> 128 then ''up_to_128'' else if tokens \<le> 256 then ''up_to_256'' else if tokens \<le> 450 then ''up_to_450''
      else if tokens \<le> 600 then ''up_to_600'' else ''over_600'')"

definition count_names :: "('a \<Rightarrow> string) \<Rightarrow> 'a list \<Rightarrow> counters \<Rightarrow> counters" where
  "count_names f xs cs = fold (\<lambda>x. bump_count (f x) 1) xs cs"

definition group_tokens :: "pystr list \<Rightarrow> nat list \<Rightarrow> nat" where
  "group_tokens paragraphs g = sum_list (map (para_tokens paragraphs) g)"

definition record_batch_plan :: "pystr list \<Rightarrow> nat list list \<Rightarrow> metrics \<Rightarrow> (py_error, metrics) result" where
  "record_batch_plan paragraphs groups m =
     (if [] \<in> set groups then Inl (ValueError (lit ''batch groups must not be empty''))
      else Inr (m\<lparr>mt_groups := mt_groups m + length groups,
                  mt_paragraphs := mt_paragraphs m + sum_list (map length groups),
                  mt_group_sizes := count_names (\<lambda>g. group_size_bucket (length g)) groups (mt_group_sizes m),
                  mt_group_tokens := count_names (\<lambda>g. source_token_bucket (group_tokens paragraphs g)) groups
                    (mt_group_tokens m)\<rparr>))"

subsection \<open>Facts\<close>

definition total :: "counters \<Rightarrow> nat" where
  "total cs = sum_list (map snd cs)"

lemma names_bump [simp]: "map fst (bump_count n k cs) = map fst cs"
  by (induction cs) (auto simp: bump_count_def)

lemma total_bump: "distinct (map fst cs) \<Longrightarrow> n \<in> fst ` set cs \<Longrightarrow> total (bump_count n k cs) = total cs + k"
proof (induction cs)
  case (Cons p cs)
  show ?case
  proof (cases "fst p = n")
    case True
    then have "n \<notin> fst ` set cs" using Cons.prems(1) by auto
    then have "bump_count n k cs = cs" unfolding bump_count_def by (intro map_idI) (force simp: image_iff)
    then show ?thesis using True by (simp add: total_def bump_count_def)
  next
    case False
    then show ?thesis using Cons by (simp add: total_def bump_count_def)
  qed
qed simp

lemma names_count [simp]: "map fst (count_names f xs cs) = map fst cs"
  unfolding count_names_def by (induction xs arbitrary: cs) simp_all

lemma total_count:
  "distinct (map fst cs) \<Longrightarrow> (\<And>x. f x \<in> fst ` set cs) \<Longrightarrow> total (count_names f xs cs) = total cs + length xs"
proof (induction xs arbitrary: cs)
  case (Cons x xs)
  have n: "fst ` set (bump_count (f x) 1 cs) = fst ` set cs" by (metis names_bump set_map)
  have "count_names f (x # xs) cs = count_names f xs (bump_count (f x) 1 cs)" by (simp add: count_names_def)
  then show ?case using Cons n by (simp add: total_bump)
qed (simp add: count_names_def)

lemma total_zeros [simp]: "total (zeros names) = 0"
  by (induction names) (simp_all add: total_def zeros_def)

lemma names_zeros [simp]: "map fst (zeros names) = names"
  by (simp add: zeros_def comp_def)

lemma names_fold [simp]: "map fst (fold (\<lambda>(n, k). bump_count n k) incs cs) = map fst cs"
  by (induction incs arbitrary: cs) auto

text \<open>The schema never changes and the counters agree with each other.\<close>

definition metrics_ok :: "metrics \<Rightarrow> bool" where
  "metrics_ok m \<longleftrightarrow>
     map fst (mt_latency m) = latency_buckets \<and> map fst (mt_responses m) = http_response_classes
     \<and> map fst (mt_outcomes m) = metric_outcomes \<and> map fst (mt_reasons m) = work_budget_reasons
     \<and> map fst (mt_recovery m) = recovery_metric_names \<and> map fst (mt_group_sizes m) = group_size_buckets
     \<and> map fst (mt_group_tokens m) = source_token_buckets
     \<and> total (mt_latency m) = mt_total_requests m \<and> mt_errors m \<le> mt_total_requests m
     \<and> total (mt_group_sizes m) = mt_groups m \<and> total (mt_group_tokens m) = mt_groups m
     \<and> mt_groups m \<le> mt_paragraphs m
     \<and> map_of (mt_outcomes m) ''work_budget_exhausted'' = Some (total (mt_reasons m))"

lemma bump_in: "map fst cs = names \<Longrightarrow> n \<in> set names \<Longrightarrow> n \<in> fst ` set cs"
  by (metis set_map)

lemma map_of_bump_count: "map_of (bump_count n k cs) m = (if m = n then map_option (\<lambda>v. v + k) (map_of cs m) else map_of cs m)"
  by (induction cs) (auto simp: bump_count_def)

lemma latency_bucket_known [simp]: "latency_bucket ms \<in> set latency_buckets"
  by (simp add: latency_bucket_def latency_buckets_def)

lemma size_bucket_known [simp]: "group_size_bucket n \<in> set group_size_buckets"
  by (simp add: group_size_bucket_def group_size_buckets_def)

lemma token_bucket_known [simp]: "source_token_bucket n \<in> set source_token_buckets"
  by (simp add: source_token_bucket_def source_token_buckets_def)

lemma names_distinct [simp]:
  "distinct latency_buckets" "distinct group_size_buckets" "distinct source_token_buckets" "distinct work_budget_reasons"
  by (simp_all add: latency_buckets_def group_size_buckets_def source_token_buckets_def work_budget_reasons_def)

lemma total_bump_named:
  "map fst cs = names \<Longrightarrow> distinct names \<Longrightarrow> n \<in> set names \<Longrightarrow> total (bump_count n k cs) = total cs + k"
  by (metis bump_in total_bump)

lemma total_count_named:
  "map fst cs = names \<Longrightarrow> distinct names \<Longrightarrow> (\<And>x. f x \<in> set names) \<Longrightarrow> total (count_names f xs cs) = total cs + length xs"
  by (metis bump_in total_count)

lemma groups_le_paragraphs: "[] \<notin> set gs \<Longrightarrow> length gs \<le> sum_list (map length gs)"
proof (induction gs)
  case (Cons g gs)
  then have "g \<noteq> []" "[] \<notin> set gs" by auto
  then show ?case using Cons.IH by (cases g) auto
qed simp

lemma reason_known: "(if r \<in> set work_budget_reasons then r else ''unknown'') \<in> set work_budget_reasons"
  by (simp add: work_budget_reasons_def)

subsection \<open>Histories\<close>

datatype metric_op =
  MRequest real nat nat bool | MResponse nat | MOutcome string | MBudget string | MPartial pyval
  | MRecovery counters | MPlan "pystr list" "nat list list"

text \<open>A call that raises changes nothing.\<close>

definition or_same :: "('e, metrics) result \<Rightarrow> metrics \<Rightarrow> metrics" where
  "or_same r m = (case r of Inl _ \<Rightarrow> m | Inr m1 \<Rightarrow> m1)"

fun metric_step :: "metric_op \<Rightarrow> metrics \<Rightarrow> metrics" where
  "metric_step (MRequest ms hits misses failed) m = record_metric ms hits misses failed m"
| "metric_step (MResponse status) m = record_http_response status m"
| "metric_step (MOutcome name) m = or_same (record_outcome name m) m"
| "metric_step (MBudget reason) m = record_work_budget_exhaustion reason m"
| "metric_step (MPartial n) m = or_same (record_batch_partial_failure n m) m"
| "metric_step (MRecovery incs) m = record_segment_recovery_safely incs m"
| "metric_step (MPlan paragraphs groups) m = or_same (record_batch_plan paragraphs groups m) m"

lemma metrics_ok_empty: "metrics_ok empty_metrics"
  by (simp add: metrics_ok_def empty_metrics_def) (simp add: zeros_def metric_outcomes_def)

lemma metrics_ok_step:
  assumes "metrics_ok m" "x \<noteq> MOutcome ''work_budget_exhausted''"
  shows "metrics_ok (metric_step x m)"
proof (cases x)
  case (MRequest ms hits misses failed)
  have "total (bump_count (latency_bucket ms) 1 (mt_latency m)) = total (mt_latency m) + 1"
    using assms(1) by (intro total_bump_named [of _ latency_buckets]) (simp_all add: metrics_ok_def)
  then show ?thesis using MRequest assms(1) by (simp add: metrics_ok_def record_metric_def)
next
  case (MResponse status)
  then show ?thesis using assms(1) by (simp add: metrics_ok_def record_http_response_def)
next
  case (MOutcome name)
  then show ?thesis using assms by (auto simp: metrics_ok_def record_outcome_def or_same_def map_of_bump_count)
next
  case (MBudget reason)
  have "total (bump_count (if reason \<in> set work_budget_reasons then reason else ''unknown'') 1 (mt_reasons m))
      = total (mt_reasons m) + 1"
    using assms(1) reason_known by (intro total_bump_named [of _ work_budget_reasons]) (simp_all add: metrics_ok_def)
  then show ?thesis using MBudget assms(1)
    by (simp add: metrics_ok_def record_work_budget_exhaustion_def map_of_bump_count Let_def)
next
  case (MPartial n)
  then show ?thesis using assms(1) by (simp add: metrics_ok_def record_batch_partial_failure_def or_same_def map_of_bump_count)
next
  case (MRecovery incs)
  then show ?thesis using assms(1)
    by (simp add: metrics_ok_def record_segment_recovery_safely_def record_segment_recovery_def)
next
  case (MPlan paragraphs groups)
  have "total (count_names (\<lambda>g. group_size_bucket (length g)) groups (mt_group_sizes m)) = total (mt_group_sizes m) + length groups"
    using assms(1) by (intro total_count_named [of _ group_size_buckets]) (simp_all add: metrics_ok_def)
  moreover have "total (count_names (\<lambda>g. source_token_bucket (group_tokens paragraphs g)) groups (mt_group_tokens m))
      = total (mt_group_tokens m) + length groups"
    using assms(1) by (intro total_count_named [of _ source_token_buckets]) (simp_all add: metrics_ok_def)
  ultimately show ?thesis using MPlan assms(1) groups_le_paragraphs [of groups]
    by (auto simp: metrics_ok_def record_batch_plan_def or_same_def)
qed

lemma metrics_ok_run:
  "list_all (\<lambda>x. x \<noteq> MOutcome ''work_budget_exhausted'') ops \<Longrightarrow> metrics_ok (fold metric_step ops empty_metrics)"
proof (induction ops rule: rev_induct)
  case (snoc x ops)
  then show ?case using metrics_ok_step by simp
qed (simp add: metrics_ok_empty)

text \<open>
  The metrics have a fixed schema and add up. Whatever requests, reasons and batches are
  recorded, no counter name is ever added or lost; the latency buckets sum to the number of
  requests, both batch histograms to the number of groups, and the reasons of rejected budgets
  to the outcome that counts them. (The outcome \<open>work_budget_exhausted\<close> is recorded only
  together with its reason.)
\<close>

theorem metrics_account:
  assumes "list_all (\<lambda>x. x \<noteq> MOutcome ''work_budget_exhausted'') ops"
  shows "metrics_ok (fold metric_step ops empty_metrics)"
  by (rule metrics_ok_run [OF assms])

theorem metrics_account_witness:
  "metrics_ok (fold metric_step [MRequest 300 0 1 True, MBudget ''queue'', MBudget ''odd'', MPlan [[97]] [[0]]] empty_metrics)"
  by (rule metrics_account) simp

end
