(* ===== verification/Cache_Scope.thy ===== *)
theory Cache_Scope
  imports Json
begin

section \<open>Cache scopes and cache keys\<close>

text \<open>
  Models the scope side of \<open>cache.py\<close>: \<open>CacheScope\<close> with its validation, the legacy scope,
  \<open>_scope_for\<close>, the reasoning filter, and \<open>compute_key\<close>, the SHA-256 (\<open>sha\<close>, an argument) of
  the compact JSON text of every dimension of a translation.
\<close>

subsection \<open>Model\<close>

definition cached_reasoning :: "pystr \<Rightarrow> pystr \<Rightarrow> bool" where
  "cached_reasoning text translated \<longleftrightarrow>
     prefix (lit ''<think>'') (lstrip translated) \<and> \<not> contains (lit ''<think>'') text"

record cache_scope =
  sc_tenant :: pystr
  sc_book_id :: pystr
  sc_chapter_id :: pystr
  sc_context_hash :: pystr
  sc_provider :: pystr
  sc_model :: pystr
  sc_prompt_hash :: pystr
  sc_protocol_version :: pystr

definition scope_field :: "string \<Rightarrow> pyval \<Rightarrow> (py_error, pystr) result" where
  "scope_field name v =
     (case v of
        PStr s \<Rightarrow>
          if strip s = []
          then Inl (ValueError (lit ''cache scope '' @ lit name @ lit '' must be a non-empty string''))
          else if 1024 < length s
          then Inl (ValueError (lit ''cache scope '' @ lit name @ lit '' is too long''))
          else Inr (strip s)
      | _ \<Rightarrow> Inl (ValueError (lit ''cache scope '' @ lit name @ lit '' must be a non-empty string'')))"

definition new_scope ::
  "pyval \<Rightarrow> pyval \<Rightarrow> pyval \<Rightarrow> pyval \<Rightarrow> pyval \<Rightarrow> pyval \<Rightarrow> pyval \<Rightarrow> pyval
   \<Rightarrow> (py_error, cache_scope) result" where
  "new_scope tenant book_id chapter_id context_hash provider model prompt_hash protocol_version =
     rbind (scope_field ''tenant'' tenant) (\<lambda>t.
     rbind (scope_field ''book_id'' book_id) (\<lambda>b.
     rbind (scope_field ''chapter_id'' chapter_id) (\<lambda>c.
     rbind (scope_field ''context_hash'' context_hash) (\<lambda>x.
     rbind (scope_field ''provider'' provider) (\<lambda>p.
     rbind (scope_field ''model'' model) (\<lambda>m.
     rbind (scope_field ''prompt_hash'' prompt_hash) (\<lambda>h.
     rbind (scope_field ''protocol_version'' protocol_version) (\<lambda>v.
       Inr \<lparr>sc_tenant = t, sc_book_id = b, sc_chapter_id = c, sc_context_hash = x,
            sc_provider = p, sc_model = m, sc_prompt_hash = h, sc_protocol_version = v\<rparr>))))))))"

text \<open>\<open>provider or "legacy"\<close>: every falsy value is replaced.\<close>

fun falsy :: "pyval \<Rightarrow> bool" where
  "falsy PNone = True"
| "falsy (PBool b) = (\<not> b)"
| "falsy (PInt n) = (n = 0)"
| "falsy (PFloat f) = (f = Fin 0)"
| "falsy (PStr s) = (s = [])"
| "falsy (PList xs) = (xs = [])"
| "falsy (PDict ps) = (ps = [])"
| "falsy POther = False"

definition legacy_scope :: "pyval \<Rightarrow> pyval \<Rightarrow> (py_error, cache_scope) result" where
  "legacy_scope model provider =
     (if (case model of PStr s \<Rightarrow> strip s = [] | _ \<Rightarrow> True)
      then Inl (ValueError (lit ''cache model must be a non-empty string''))
      else let l = PStr (lit ''legacy'') in
           new_scope l l l l (if falsy provider then l else provider) model l l)"

text \<open>A \<open>scope\<close> argument: missing, a \<open>CacheScope\<close>, or something else.\<close>

datatype scope_arg = NoScope | Scope cache_scope | NotScope

definition scope_for :: "pystr \<Rightarrow> scope_arg \<Rightarrow> pyval \<Rightarrow> (py_error, cache_scope) result" where
  "scope_for model scope provider =
     (case scope of
        NoScope \<Rightarrow> legacy_scope (PStr model) provider
      | NotScope \<Rightarrow> Inl (ValueError (lit ''scope must be a CacheScope''))
      | Scope s \<Rightarrow>
          if model \<noteq> [] \<and> model \<noteq> sc_model s
          then Inl (ValueError (lit ''model and scope.model must match''))
          else Inr s)"

definition cache_key_version :: pystr where
  "cache_key_version = lit ''cwa-translate-cache/v2''"

definition key_payload :: "cache_scope \<Rightarrow> pystr \<Rightarrow> pystr \<Rightarrow> pystr \<Rightarrow> json" where
  "key_payload s source_lang target_lang text =
     JList (map JStr
       [cache_key_version, sc_tenant s, sc_book_id s, sc_chapter_id s, sc_context_hash s,
        sc_provider s, sc_model s, sc_prompt_hash s, sc_protocol_version s,
        strip source_lang, strip target_lang, strip text])"

definition compute_key ::
  "(pystr \<Rightarrow> pystr) \<Rightarrow> pyval \<Rightarrow> pyval \<Rightarrow> pyval \<Rightarrow> scope_arg \<Rightarrow> (py_error, pystr) result" where
  "compute_key sha text source_lang target_lang scope =
     (case text of
        PStr tx \<Rightarrow>
         (case source_lang of
            PStr sl \<Rightarrow>
              if strip sl = [] then Inl (ValueError (lit ''source_lang must be a non-empty string''))
              else
               (case target_lang of
                  PStr tg \<Rightarrow>
                    if strip tg = [] then Inl (ValueError (lit ''target_lang must be a non-empty string''))
                    else
                     (case scope of
                        Scope s \<Rightarrow>
                          let encoded = dumps (key_payload s sl tg tx) in
                          if utf8_len encoded = None then Inl UnicodeEncodeError
                          else Inr (sha encoded)
                      | _ \<Rightarrow> Inl (ValueError (lit ''cache_scope must be a CacheScope'')))
                | _ \<Rightarrow> Inl (ValueError (lit ''target_lang must be a non-empty string'')))
          | _ \<Rightarrow> Inl (ValueError (lit ''source_lang must be a non-empty string'')))
      | _ \<Rightarrow> Inl (ValueError (lit ''cache text must be a string'')))"

subsection \<open>Facts\<close>

lemma scope_field_Inr:
  "scope_field n v = Inr s \<Longrightarrow> s \<noteq> [] \<and> strip s = s \<and> length s \<le> 1024"
  by (auto simp: scope_field_def not_less split: pyval.splits if_splits
      intro: order_trans [OF length_strip_le])

definition scope_clean :: "cache_scope \<Rightarrow> bool" where
  "scope_clean s \<longleftrightarrow> list_all (\<lambda>f. f \<noteq> [] \<and> strip f = f \<and> length f \<le> 1024)
     [sc_tenant s, sc_book_id s, sc_chapter_id s, sc_context_hash s, sc_provider s, sc_model s,
      sc_prompt_hash s, sc_protocol_version s]"

lemma new_scope_clean: "new_scope a b c d e f g h = Inr s \<Longrightarrow> scope_clean s"
  unfolding new_scope_def scope_clean_def
  by (auto simp: rbind_eq_Inr dest!: scope_field_Inr)

lemma key_payload_inj:
  "key_payload s sl tg t = key_payload s' sl' tg' t' \<Longrightarrow>
   s = s' \<and> strip sl = strip sl' \<and> strip tg = strip tg' \<and> strip t = strip t'"
  by (cases s; cases s') (simp add: key_payload_def)

lemma key_payload_eq:
  "key_payload s sl tg t = key_payload s' sl' tg' t' \<longleftrightarrow>
   s = s' \<and> strip sl = strip sl' \<and> strip tg = strip tg' \<and> strip t = strip t'"
  by (standard, erule key_payload_inj, simp add: key_payload_def)

lemma compute_key_Inr:
  "compute_key sha text sl tg sc = Inr k \<longleftrightarrow>
   (\<exists>tx s1 t1 s. text = PStr tx \<and> sl = PStr s1 \<and> tg = PStr t1 \<and> sc = Scope s
      \<and> strip s1 \<noteq> [] \<and> strip t1 \<noteq> [] \<and> utf8_len (dumps (key_payload s s1 t1 tx)) \<noteq> None
      \<and> k = sha (dumps (key_payload s s1 t1 tx)))"
  by (auto simp: compute_key_def Let_def split: pyval.splits scope_arg.splits if_splits)

subsection \<open>Properties\<close>

text \<open>
  C27: Cache keys separate every dimension. Two lookups compute the same cache key exactly when
  they agree on the whole scope (tenant, book, chapter, context, provider, model, prompt,
  protocol), on both languages and on the text up to surrounding whitespace. The only
  assumption is that SHA-256 does not collide on the two canonical JSON payloads at hand.
\<close>

theorem cache_key_separates:
  assumes "compute_key sha (PStr t) (PStr sl) (PStr tg) (Scope s) = Inr k"
    and "compute_key sha (PStr t') (PStr sl') (PStr tg') (Scope s') = Inr k'"
    and "inj_on sha {dumps (key_payload s sl tg t), dumps (key_payload s' sl' tg' t')}"
  shows "k = k' \<longleftrightarrow> s = s' \<and> strip sl = strip sl' \<and> strip tg = strip tg' \<and> strip t = strip t'"
proof -
  have k: "k = sha (dumps (key_payload s sl tg t))" "k' = sha (dumps (key_payload s' sl' tg' t'))"
    using assms(1,2) by (auto simp: compute_key_Inr)
  then have "k = k' \<longleftrightarrow> dumps (key_payload s sl tg t) = dumps (key_payload s' sl' tg' t')"
    using inj_on_eq_iff [OF assms(3)] by blast
  also have "\<dots> \<longleftrightarrow> key_payload s sl tg t = key_payload s' sl' tg' t'"
    using dumps_inj [of "key_payload s sl tg t" "key_payload s' sl' tg' t'"] by metis
  also have "\<dots> \<longleftrightarrow> s = s' \<and> strip sl = strip sl' \<and> strip tg = strip tg' \<and> strip t = strip t'"
    by (rule key_payload_eq)
  finally show ?thesis .
qed

theorem cache_key_separates_witness:
  "\<exists>k k'. compute_key id (PStr (lit ''hi'')) (PStr (lit ''English'')) (PStr (lit ''Spanish''))
      (Scope \<lparr>sc_tenant = lit ''t'', sc_book_id = lit ''b'', sc_chapter_id = lit ''c'',
        sc_context_hash = lit ''x'', sc_provider = lit ''p'', sc_model = lit ''m'',
        sc_prompt_hash = lit ''h'', sc_protocol_version = lit ''v''\<rparr>) = Inr k
    \<and> compute_key id (PStr (lit ''ho'')) (PStr (lit ''English'')) (PStr (lit ''Spanish''))
      (Scope \<lparr>sc_tenant = lit ''t'', sc_book_id = lit ''b'', sc_chapter_id = lit ''c'',
        sc_context_hash = lit ''x'', sc_provider = lit ''p'', sc_model = lit ''m'',
        sc_prompt_hash = lit ''h'', sc_protocol_version = lit ''v''\<rparr>) = Inr k'
    \<and> k \<noteq> k'"
proof -
  let ?s = "\<lparr>sc_tenant = lit ''t'', sc_book_id = lit ''b'', sc_chapter_id = lit ''c'',
        sc_context_hash = lit ''x'', sc_provider = lit ''p'', sc_model = lit ''m'',
        sc_prompt_hash = lit ''h'', sc_protocol_version = lit ''v''\<rparr>"
  let ?p = "\<lambda>t. key_payload ?s (lit ''English'') (lit ''Spanish'') t"
  have st: "strip (lit ''ho'') = lit ''ho''" "strip (lit ''hi'') = lit ''hi''"
    "strip (lit ''English'') = lit ''English''" "strip (lit ''Spanish'') = lit ''Spanish''"
    by (simp_all add: strip_def lstrip_def rstrip_def is_space_def)
  have e: "utf8_len (dumps (?p (lit ''hi''))) \<noteq> None" "utf8_len (dumps (?p (lit ''ho''))) \<noteq> None"
    unfolding key_payload_def st
    by (simp_all add: utf8_len_def cache_key_version_def json_str_def esc_char_def is_surrogate_def)
  have k1: "compute_key id (PStr (lit ''hi'')) (PStr (lit ''English'')) (PStr (lit ''Spanish'')) (Scope ?s)
      = Inr (dumps (?p (lit ''hi'')))"
    and k2: "compute_key id (PStr (lit ''ho'')) (PStr (lit ''English'')) (PStr (lit ''Spanish'')) (Scope ?s)
      = Inr (dumps (?p (lit ''ho'')))"
    using e st by (simp_all add: compute_key_Inr is_space_def)
  have "strip (lit ''hi'') \<noteq> strip (lit ''ho'')" unfolding st by simp
  then have "dumps (?p (lit ''hi'')) \<noteq> dumps (?p (lit ''ho''))"
    using cache_key_separates [OF k1 k2 inj_on_id] by blast
  then show ?thesis using k1 k2 by blast
qed

end
