(* ===== verification/Server_Rules.thy ===== *)
theory Server_Rules
  imports Admission Metrics Cache_Scope Providers
begin

section \<open>Rules for request fields and origins\<close>

text \<open>
  Models the validation side of \<open>server.py\<close>: the start-up checks of the batch and export
  limits, the cache namespace of a request, the consent to a remote fallback, the provider
  policy a reader has seen, the languages, texts that UTF-8 cannot represent, and the browser
  origins. A request body is the list of pairs of a JSON object. \<open>TypeError\<close> stands for an
  exception that the handlers do not catch.
\<close>

subsection \<open>Start-up limits\<close>

definition in_range :: "int \<Rightarrow> int \<Rightarrow> int \<Rightarrow> bool" where
  "in_range lo hi n \<longleftrightarrow> lo \<le> n \<and> n \<le> hi"

definition require :: "bool \<Rightarrow> string \<Rightarrow> (py_error, unit) result" where
  "require ok msg = (if ok then Inr () else Inl (ValueError (lit msg)))"

definition min_attempts :: "int \<Rightarrow> int \<Rightarrow> int" where
  "min_attempts max_paragraphs batch_size = - ((- max_paragraphs) div batch_size)"

definition check_batch_settings :: "int \<Rightarrow> int \<Rightarrow> int \<Rightarrow> (py_error, unit) result" where
  "check_batch_settings batch_size max_paragraphs tries =
     rbind (require (in_range 1 50 batch_size) ''BT_BATCH_SIZE must be an integer from 1 to 50'') (\<lambda>_.
     rbind (require (in_range 1 1000 max_paragraphs) ''BT_MAX_BATCH_PARAGRAPHS must be an integer from 1 to 1000'') (\<lambda>_.
     rbind (require (batch_size \<le> max_paragraphs) ''BT_BATCH_SIZE must not exceed BT_MAX_BATCH_PARAGRAPHS'') (\<lambda>_.
     if tries < min_attempts max_paragraphs batch_size
     then Inl (ValueError (lit ''BT_REQUEST_MAX_ATTEMPTS too small for BT_MAX_BATCH_PARAGRAPHS / ''
            @ lit ''BT_BATCH_SIZE: need at least '' @ show_int (min_attempts max_paragraphs batch_size) @ lit '' attempts''))
     else Inr ())))"

definition check_export_settings :: "int \<Rightarrow> int \<Rightarrow> int \<Rightarrow> (py_error, unit) result" where
  "check_export_settings paragraphs title_chars total_chars =
     rbind (require (in_range 1 5000 paragraphs) ''BT_MAX_EXPORT_PARAGRAPHS must be an integer from 1 to 5000'') (\<lambda>_.
     rbind (require (in_range 1 500 title_chars) ''BT_MAX_EXPORT_TITLE_CHARS must be an integer from 1 to 500'') (\<lambda>_.
     require (in_range 1024 10485760 total_chars) ''BT_MAX_EXPORT_TOTAL_CHARS must be an integer from 1024 to 10485760''))"

definition check_rate_settings :: "int list \<Rightarrow> (py_error, unit) result" where
  "check_rate_settings ns = require (list_all (\<lambda>n. 0 < n) ns) ''rate-limit settings must be positive integers''"

subsection \<open>Fields of a request\<close>

type_synonym body = "(pystr \<times> pyval) list"

text \<open>The settings and the start-up state that the handlers read.\<close>

record server_config =
  sv_mode :: auth_mode
  sv_scope_max :: nat
  sv_max_paragraphs :: nat
  sv_max_chars :: nat
  sv_export_paragraphs :: nat
  sv_export_title :: nat
  sv_export_total :: nat
  sv_generation :: pystr
  sv_allowed_origins :: "pystr list"
  sv_public_origin :: pystr
  sv_limits :: limits
  sv_edge :: edge_config

definition namespace_field :: "server_config \<Rightarrow> body \<Rightarrow> string \<Rightarrow> (py_error, pystr) result" where
  "namespace_field sv data field =
     (case (case map_of data (lit field) of None \<Rightarrow> PStr (lit ''unscoped'') | Some v \<Rightarrow> v) of
        PStr s \<Rightarrow>
          let v = strip s; q = lit [CHR 0x27] @ lit field @ lit [CHR 0x27] in
          if v = [] then Inl (ValueError (q @ lit '' must be a non-empty string''))
          else if sv_scope_max sv < length v
          then Inl (ValueError (q @ lit '' exceeds the '' @ show_nat (sv_scope_max sv) @ lit ''-character limit''))
          else if list_ex is_ctrl v then Inl (ValueError (q @ lit '' contains control characters''))
          else Inr v
      | _ \<Rightarrow> Inl (ValueError (lit [CHR 0x27] @ lit field @ lit [CHR 0x27] @ lit '' must be a non-empty string'')))"

text \<open>\<open>_request_cache_namespace\<close>: the tenant is the authenticated subject, never a field.\<close>

definition request_cache_namespace ::
  "server_config \<Rightarrow> pystr option \<Rightarrow> body \<Rightarrow> (py_error, pystr \<times> pystr \<times> pystr) result" where
  "request_cache_namespace sv subj data =
     (let tenant = (case subj of None \<Rightarrow> lit ''legacy-anonymous'' | Some s \<Rightarrow> if s = [] then lit ''legacy-anonymous'' else s)
      in rbind (namespace_field sv data ''book_id'') (\<lambda>b.
         rbind (namespace_field sv data ''chapter_id'') (\<lambda>c. Inr (tenant, b, c))))"

definition cloud_fallback_consent :: "body \<Rightarrow> (py_error, bool) result" where
  "cloud_fallback_consent data =
     (case map_of data (lit ''allow_cloud_fallback'') of
        None \<Rightarrow> Inr False
      | Some (PBool b) \<Rightarrow> Inr b
      | Some _ \<Rightarrow> Inl (ValueError (lit [CHR 0x27] @ lit ''allow_cloud_fallback'' @ lit [CHR 0x27] @ lit '' must be a boolean'')))"

text \<open>Membership in a set of texts: lists and objects are not hashable.\<close>

definition member_of :: "pyval option \<Rightarrow> pyval list \<Rightarrow> (py_error, bool) result" where
  "member_of v vs =
     (case v of
        Some (PList _) \<Rightarrow> Inl (TypeError (lit ''unhashable type: list''))
      | Some (PDict _) \<Rightarrow> Inl (TypeError (lit ''unhashable type: dict''))
      | None \<Rightarrow> Inr (PNone \<in> set vs)
      | Some x \<Rightarrow> Inr (x \<in> set vs))"

definition locality_text :: "locality \<Rightarrow> pystr" where
  "locality_text l = (case l of Local \<Rightarrow> lit ''local'' | Remote \<Rightarrow> lit ''remote'')"

definition current_policy :: "server_config \<Rightarrow> provider \<times> provider option \<Rightarrow> pyval \<times> pyval \<times> pyval" where
  "current_policy sv pf =
     (case provider_policy pf of (p, f) \<Rightarrow>
        (PStr (locality_text p), (case f of None \<Rightarrow> PNone | Some l \<Rightarrow> PStr (locality_text l)), PStr (sv_generation sv)))"

definition policy_error :: py_error where
  "policy_error = ValueError (lit [CHR 0x27] @ lit ''provider_policy'' @ lit [CHR 0x27] @ lit '' must be an exact locality policy'')"

definition stale_provider_policy ::
  "server_config \<Rightarrow> provider \<times> provider option \<Rightarrow> body \<Rightarrow> (py_error, bool) result" where
  "stale_provider_policy sv pf data =
     (case map_of data (lit ''provider_policy'') of
        None \<Rightarrow> Inr (sv_mode sv \<in> {Cwa_Session_Mode, Reader_Session_Mode, Forwarded_Mode})
      | Some (PDict d) \<Rightarrow>
          let get = (\<lambda>k. map_of d (lit k)) in
          if fst ` set d \<noteq> {lit ''primary'', lit ''fallback'', lit ''generation''} then Inl policy_error
          else rbind (member_of (get ''primary'') [PStr (lit ''local''), PStr (lit ''remote'')]) (\<lambda>ok1.
            if \<not> ok1 then Inl policy_error
            else rbind (member_of (get ''fallback'') [PNone, PStr (lit ''local''), PStr (lit ''remote'')]) (\<lambda>ok2.
              if \<not> ok2 then Inl policy_error
              else (case get ''generation'' of
                      Some (PStr g) \<Rightarrow>
                        if length g \<noteq> 32 then Inl policy_error
                        else Inr ((get ''primary'', get ''fallback'', get ''generation'')
                                  \<noteq> (case current_policy sv pf of (p, f, g) \<Rightarrow> (Some p, Some f, Some g)))
                    | _ \<Rightarrow> Inl policy_error)))
      | Some _ \<Rightarrow> Inl policy_error)"

subsection \<open>Languages and texts\<close>

definition valid_languages :: "pystr list" where
  "valid_languages = map lit
   [''Afrikaans'', ''Albanian'', ''Amharic'', ''Arabic'', ''Aymara'', ''Basque'', ''Bengali'', ''Bosnian'',
    ''Bulgarian'', ''Burmese'', ''Catalan'', ''Cebuano'', ''Chewa'', ''Chinese'', ''Chinese (Traditional)'',
    ''Croatian'', ''Czech'', ''Danish'', ''Dutch'', ''English'', ''Esperanto'', ''Estonian'', ''Finnish'',
    ''French'', ''Gaelic'', ''Galician'', ''Ganda'', ''German'', ''Greek'', ''Guarani'', ''Gujarati'',
    ''Hausa'', ''Hawaiian'', ''Hebrew'', ''Hindi'', ''Hungarian'', ''Icelandic'', ''Igbo'', ''Indonesian'',
    ''Italian'', ''Japanese'', ''Javanese'', ''Kannada'', ''Kazakh'', ''Khmer'', ''Korean'', ''Kyrgyz'',
    ''Lao'', ''Latin'', ''Latvian'', ''Lingala'', ''Lithuanian'', ''Macedonian'', ''Maithili'', ''Malagasy'',
    ''Malay'', ''Malayalam'', ''Maori'', ''Marathi'', ''Mongolian'', ''Nahuatl'', ''Navajo'', ''Nepali'',
    ''Norwegian'', ''Odia'', ''Oromo'', ''Pashto'', ''Persian'', ''Polish'', ''Portuguese'', ''Punjabi'',
    ''Quechua'', ''Romanian'', ''Russian'', ''Samoan'', ''Serbian'', ''Shona'', ''Sindhi'', ''Sinhala'',
    ''Slovak'', ''Slovenian'', ''Somali'', ''Spanish'', ''Sundanese'', ''Swahili'', ''Swedish'', ''Tagalog'',
    ''Tajik'', ''Tamil'', ''Telugu'', ''Thai'', ''Tibetan'', ''Turkish'', ''Turkmen'', ''Ukrainian'', ''Urdu'',
    ''Uzbek'', ''Vietnamese'', ''Welsh'', ''Xhosa'', ''Yoruba'', ''Zulu'']"

definition repr_list :: "pystr list \<Rightarrow> pystr" where
  "repr_list xs = [91] @ join (lit '', '') (map (\<lambda>x. [39] @ x @ [39]) xs) @ [93]"

text \<open>\<open>_validate_languages\<close>: an error text, or \<open>None\<close>.\<close>

definition validate_languages :: "pyval \<Rightarrow> pyval \<Rightarrow> pystr option" where
  "validate_languages source_lang target_lang =
     (case (source_lang, target_lang) of
        (PStr s, PStr t) \<Rightarrow>
          let invalid = (if s \<in> set valid_languages then [] else [lit ''source_lang '' @ [39] @ s @ [39]])
                      @ (if t \<in> set valid_languages then [] else [lit ''target_lang '' @ [39] @ t @ [39]])
          in if invalid \<noteq> []
             then Some (lit ''Invalid language(s): '' @ join (lit '', '') invalid @ lit ''. Valid: '' @ repr_list valid_languages)
             else None
      | _ \<Rightarrow> Some (lit [CHR 0x27] @ lit ''source_lang'' @ lit [CHR 0x27] @ lit '' and '' @ lit [CHR 0x27]
                   @ lit ''target_lang'' @ lit [CHR 0x27] @ lit '' must be strings''))"

definition has_invalid_unicode :: "pystr \<Rightarrow> bool" where
  "has_invalid_unicode s \<longleftrightarrow> utf8_len s = None"

subsection \<open>Browser origins\<close>

definition cors_invalid :: py_error where
  "cors_invalid = ValueError (lit ''BT_ALLOWED_ORIGINS contains an invalid origin'')"

definition cors_inexact :: py_error where
  "cors_inexact = ValueError (lit ''BT_ALLOWED_ORIGINS must contain exact http(s) origins'')"

definition validate_cors_origin :: "unicode_ops \<Rightarrow> pystr \<Rightarrow> (py_error, pystr) result" where
  "validate_cors_origin uo origin =
     (if origin = [] \<or> origin \<noteq> strip origin \<or> list_ex is_ctrl origin then Inl cors_invalid
      else case urlsplit uo origin of
        None \<Rightarrow> Inl cors_invalid
      | Some u \<Rightarrow>
          (case url_port u of
             Inl _ \<Rightarrow> Inl cors_invalid
           | Inr _ \<Rightarrow>
              (case url_hostname uo u of
                 None \<Rightarrow> Inl cors_inexact
               | Some host \<Rightarrow>
                   if u_scheme u \<notin> {lit ''http'', lit ''https''} \<or> host = [] \<or> url_username u \<noteq> None \<or> url_password u \<noteq> None
                      \<or> u_path u \<noteq> [] \<or> u_query u \<noteq> [] \<or> u_fragment u \<noteq> [] \<or> list_ex is_space host
                   then Inl cors_inexact else Inr origin)))"

definition configured_origin :: "unicode_ops \<Rightarrow> pystr \<Rightarrow> (py_error, pystr) result" where
  "configured_origin uo origin =
     (if origin = [] \<or> origin \<noteq> strip origin \<or> origin = lit ''*'' then Inl cors_inexact else validate_cors_origin uo origin)"

definition configured_cors_origins :: "unicode_ops \<Rightarrow> pystr \<Rightarrow> (py_error, pystr list) result" where
  "configured_cors_origins uo v = (if v = [] then Inr [] else rmap (configured_origin uo) (split_on 44 v))"

definition configured_public_origin :: "unicode_ops \<Rightarrow> pystr \<Rightarrow> (py_error, pystr) result" where
  "configured_public_origin uo v =
     (case validate_cors_origin uo v of
        Inl _ \<Rightarrow> Inl (ValueError (lit ''BT_PUBLIC_ORIGIN must be one exact http(s) origin in browser auth modes''))
      | Inr o1 \<Rightarrow> Inr o1)"

definition is_origin_allowed :: "server_config \<Rightarrow> pystr option \<Rightarrow> pystr option" where
  "is_origin_allowed sv origin =
     (case origin of None \<Rightarrow> None | Some x \<Rightarrow> if x \<noteq> [] \<and> x \<in> set (sv_allowed_origins sv) then Some x else None)"

definition cookie_modes :: "auth_mode list" where
  "cookie_modes = [Cwa_Session_Mode, Reader_Session_Mode, Forwarded_Mode]"

definition has_valid_browser_origin :: "server_config \<Rightarrow> (pystr \<Rightarrow> pystr) \<Rightarrow> headers \<Rightarrow> bool" where
  "has_valid_browser_origin sv cf hs \<longleftrightarrow>
     (if sv_mode sv \<notin> set cookie_modes then True
      else if sv_public_origin sv = [] then False
      else (case header_lookup cf hs (lit ''Origin'') of None \<Rightarrow> [] | Some x \<Rightarrow> x) = sv_public_origin sv)"

subsection \<open>Facts and properties\<close>

lemma length_chunks: "0 < n \<Longrightarrow> length (chunks n xs) = (length xs + n - 1) div n"
proof (induction n xs rule: chunks.induct)
  case (1 n xs)
  show ?case
  proof (cases "xs = []")
    case False
    have "(length xs + n - 1) div n = Suc ((length xs - n + n - 1) div n)"
    proof (cases "n \<le> length xs")
      case True
      then have e: "length xs + n - 1 = n + (length xs - n + n - 1)" using "1.prems" by simp
      show ?thesis unfolding e using "1.prems" by (subst div_add_self1) simp_all
    next
      case long: False
      obtain y ys where ys: "xs = y # ys" using False by (cases xs) auto
      have "(length xs + n - 1) div n = (n + length ys) div n" using ys by (simp add: add.commute)
      also have "\<dots> = 1" using long ys "1.prems" by (subst div_add_self1) simp_all
      finally have "(length xs + n - 1) div n = 1" .
      moreover have "(length xs - n + n - 1) div n = 0" using long "1.prems" by simp
      ultimately show ?thesis by simp
    qed
    then show ?thesis using 1 False by (simp add: chunks.simps [of n xs])
  qed (use "1.prems" in \<open>simp add: chunks.simps\<close>)
qed

lemma length_work_of: "length (work_of texts) \<le> length texts"
  unfolding work_of_def by (metis length_filter_le length_upt minus_nat.diff_0)

lemma min_attempts_nat:
  "0 < n \<Longrightarrow> min_attempts (int m) (int n) = int ((m + n - 1) div n)"
proof -
  assume n: "0 < n"
  obtain q r where m: "m = q * n + r" "r < n" using n by (metis div_mult_mod_eq mod_less_divisor)
  show ?thesis
  proof (cases "r = 0")
    case True
    have "(q * n + n - 1) div n = q" using n by (intro div_nat_eqI) (auto simp: algebra_simps)
    moreover have "(- int q * int n) div int n = - int q" using n by (intro nonzero_mult_div_cancel_right) simp
    ultimately show ?thesis using True m by (simp add: min_attempts_def)
  next
    case False
    have "(q * n + r + n - 1) div n = Suc q" using n m(2) False by (intro div_nat_eqI) (auto simp: algebra_simps)
    moreover have "(- (int q * int n + int r)) div int n = - int q - 1"
      using n m(2) False by (intro int_div_pos_eq [where r = "int n - int r"]) (auto simp: algebra_simps)
    ultimately show ?thesis using m by (simp add: min_attempts_def)
  qed
qed

text \<open>
  The start-up check of the limits does what it is for, as long as groups are not limited by
  source tokens. A request of at most \<open>BT_MAX_BATCH_PARAGRAPHS\<close> paragraphs is planned as at most
  \<open>BT_REQUEST_MAX_ATTEMPTS\<close> groups, so its clean path fits in the attempt budget.
\<close>

theorem clean_request_fits:
  assumes "check_batch_settings (int (tc_batch_size cfg)) (int max_paragraphs) (int tries) = Inr ()"
    and "tc_token_budget cfg = 0" "length texts \<le> max_paragraphs"
    and "translation_groups cfg texts PNone PNone = Inr groups"
  shows "length groups \<le> tries"
proof -
  let ?n = "tc_batch_size cfg"
  have n: "0 < ?n" and a: "min_attempts (int max_paragraphs) (int ?n) \<le> int tries"
    using assms(1) by (auto simp: check_batch_settings_def rbind_eq_Inr require_def in_range_def split: if_splits)
  have "length groups = (length (work_of texts) + ?n - 1) div ?n"
    using assms(2,4) n length_chunks [OF n] by (auto simp: translation_groups_def Let_def split: if_splits)
  also have "\<dots> \<le> (max_paragraphs + ?n - 1) div ?n"
    using length_work_of [of texts] assms(3) by (intro div_le_mono) linarith
  finally show ?thesis using a by (simp add: min_attempts_nat [OF n])
qed

theorem clean_request_fits_witness:
  "check_batch_settings (int (tc_batch_size default_tconfig)) (int 50) (int 20) = Inr ()
   \<and> (\<exists>groups. translation_groups default_tconfig [lit ''a'', lit ''b''] PNone PNone = Inr groups \<and> length groups \<le> 20)"
proof -
  have c: "check_batch_settings (int (tc_batch_size default_tconfig)) (int 50) (int 20) = Inr ()"
    by (simp add: check_batch_settings_def default_tconfig_def require_def in_range_def min_attempts_def rbind_def)
  obtain groups where g: "translation_groups default_tconfig [lit ''a'', lit ''b''] PNone PNone = Inr groups"
    by (simp add: translation_groups_def default_tconfig_def)
  have "tc_token_budget default_tconfig = 0" "length [lit ''a'', lit ''b''] \<le> 50" by (simp_all add: default_tconfig_def)
  from clean_request_fits [OF c this g] show ?thesis using c g by blast
qed

text \<open>
  With a source-token budget the check is not enough: two paragraphs that fill the budget each
  need two calls, while the check accepts a budget of one.
\<close>

lemma token_budget_unchecked:
  "\<exists>cfg texts groups. check_batch_settings (int (tc_batch_size cfg)) 2 1 = Inr () \<and> length texts \<le> 2
     \<and> translation_groups cfg texts PNone PNone = Inr groups \<and> 1 < length groups"
proof -
  let ?cfg = "default_tconfig\<lparr>tc_batch_size := 2, tc_token_budget := 1\<rparr>" and ?t = "[[97], [98]] :: pystr list"
  have "check_batch_settings (int (tc_batch_size ?cfg)) 2 1 = Inr ()"
    by (simp add: check_batch_settings_def require_def in_range_def min_attempts_def rbind_def)
  moreover have "translation_groups ?cfg ?t PNone PNone = Inr [[0], [1]]"
    by (simp add: translation_groups_def default_tconfig_def work_of_def group_indices_def add_index_def para_tokens_def
        estimate_tokens_def is_cjk_def strip_def lstrip_def rstrip_def is_space_def)
  ultimately show ?thesis by (intro exI [of _ ?cfg] exI [of _ ?t] exI [of _ "[[0], [1]]"]) simp
qed

text \<open>
  A malformed \<open>provider_policy\<close> is refused as a bad request unless one of its localities is a
  list or an object: membership in a set then raises an exception that no handler catches.
\<close>

lemma malformed_policy_unhandled:
  "stale_provider_policy sv pf [(lit ''provider_policy'',
     PDict [(lit ''primary'', PList []), (lit ''fallback'', PNone), (lit ''generation'', PStr [])])]
   = Inl (TypeError (lit ''unhashable type: list''))"
  by (simp add: stale_provider_policy_def member_of_def rbind_def insert_commute)

end
