(* ===== verification/Server_Gate.thy ===== *)
theory Server_Gate
  imports Server_Rules
begin

section \<open>The request gate\<close>

text \<open>
  Models what happens to every request before its handler runs: \<open>before_request_hook\<close> of
  \<open>server.py\<close> (browser origin, admission of authentication attempts, authentication, admission
  of work), the CORS headers that \<open>after_request_hook\<close> adds, the error handlers, and the
  \<open>/session\<close> route that exchanges and revokes reader sessions. A request carries the clock
  readings, resolver answers and the exchange with the reader authority that it meets.
\<close>

subsection \<open>Model\<close>

record server =
  sr_admission :: admission
  sr_resolver :: resolver_cache
  sr_auth :: authenticator
  sr_metrics :: metrics

record web_request =
  wr_method :: pystr
  wr_path :: pystr
  wr_headers :: headers
  wr_remote :: "pystr option"
  wr_resolver :: "nat \<Rightarrow> resolver_io"
  wr_auth_now :: real
  wr_rate_now :: real
  wr_now :: real
  wr_check :: "pystr \<Rightarrow> check_io"
  wr_body_empty :: bool
  wr_authority :: "out_headers \<Rightarrow> probe_io"
  wr_new_token :: pyval

definition note_outcome :: "string \<Rightarrow> server \<Rightarrow> server" where
  "note_outcome name st = st\<lparr>sr_metrics := or_same (record_outcome name (sr_metrics st)) (sr_metrics st)\<rparr>"

text \<open>The key of the request at its \<open>n\<close>-th question to the resolver.\<close>

definition ask_client_ip :: "server_config \<Rightarrow> auth_oracles \<Rightarrow> web_request \<Rightarrow> nat \<Rightarrow> server \<Rightarrow> pystr \<times> server" where
  "ask_client_ip sv ao q n st =
     (case client_ip (or_cf (ao_base ao)) (sv_edge sv) (wr_resolver q n) (wr_headers q) (wr_remote q) (sr_resolver st) of
        (key, c) \<Rightarrow> (key, st\<lparr>sr_resolver := c\<rparr>))"

definition ask_binding :: "server_config \<Rightarrow> auth_oracles \<Rightarrow> web_request \<Rightarrow> nat \<Rightarrow> server \<Rightarrow> (auth_error, cwa_binding) result \<times> server" where
  "ask_binding sv ao q n st =
     (case cwa_session_binding (or_cf (ao_base ao)) (sv_edge sv) (wr_resolver q n) (wr_headers q) (wr_remote q) (sr_resolver st) of
        (b, c) \<Rightarrow> (b, st\<lparr>sr_resolver := c\<rparr>))"

definition binding_of :: "cwa_binding \<Rightarrow> binding" where
  "binding_of b = (PStr (fst b), case snd b of None \<Rightarrow> PNone | Some ua \<Rightarrow> PStr ua)"

definition auth_request_of :: "web_request \<Rightarrow> cwa_binding option \<Rightarrow> auth_request" where
  "auth_request_of q b =
     \<lparr>ar_headers = wr_headers q, ar_remote_addr = wr_remote q, ar_binding = map_option binding_of b,
      ar_io = wr_check q, ar_now = wr_now q\<rparr>"

text \<open>A refusal has a status, an error code and the value of \<open>Retry-After\<close>.\<close>

datatype refusal = Refusal nat string "nat option"

definition rate_limited :: "server_config \<Rightarrow> refusal" where
  "rate_limited sv = Refusal 429 ''rate_limited'' (Some (lm_retry_after (sv_limits sv)))"

text \<open>The guarded part: the binding, the authentication and the key under which work is counted.\<close>

definition run_authentication ::
  "server_config \<Rightarrow> auth_oracles \<Rightarrow> web_request \<Rightarrow> server \<Rightarrow> (refusal, auth_identity \<times> pystr) result \<times> server" where
  "run_authentication sv ao q st =
     (case (if sv_mode sv = Cwa_Session_Mode \<or> sv_mode sv = Reader_Session_Mode
            then (case ask_binding sv ao q 1 st of (Inl e, st1) \<Rightarrow> (Inl e, st1) | (Inr b, st1) \<Rightarrow> (Inr (Some b), st1))
            else (Inr None, st)) of
        (bound, st1) \<Rightarrow>
          (case (case bound of
                   Inl e \<Rightarrow> (Inl e, sr_auth st1)
                 | Inr b \<Rightarrow> authenticate_request ao (auth_request_of q b) (sr_auth st1)) of
             (res, au) \<Rightarrow>
               let st2 = st1\<lparr>sr_auth := au\<rparr> in
               (case res of
                  Inl AuthRejected \<Rightarrow> (Inl (Refusal 401 ''unauthorized'' None), note_outcome ''auth_rejected'' st2)
                | Inl AuthUnavailable \<Rightarrow>
                    (Inl (Refusal 503 ''authentication_unavailable'' None), note_outcome ''auth_unavailable'' st2)
                | Inr i \<Rightarrow>
                    if ai_subject i = lit ''legacy-anonymous''
                    then (case ask_client_ip sv ao q 2 st2 of
                            (ip, st3) \<Rightarrow> (Inr (i, lit ''authenticated:legacy-anonymous:'' @ ip), st3))
                    else (Inr (i, lit ''authenticated:'' @ ai_subject i), st2))))"

definition authentication_gate ::
  "server_config \<Rightarrow> auth_oracles \<Rightarrow> web_request \<Rightarrow> server \<Rightarrow> (refusal, auth_identity \<times> pystr) result \<times> server" where
  "authentication_gate sv ao q st0 =
     (case ask_client_ip sv ao q 0 st0 of
        (key, st) \<Rightarrow>
          (case check_auth_rate_limit (sv_limits sv) (wr_auth_now q) key (sr_admission st) of
             (ok, ad) \<Rightarrow>
               if \<not> ok then (Inl (rate_limited sv), note_outcome ''auth_rate_limited'' (st\<lparr>sr_admission := ad\<rparr>))
               else (case acquire_auth_inflight (sv_limits sv) key ad of
                       (got, ad1) \<Rightarrow>
                         if \<not> got then (Inl (rate_limited sv), note_outcome ''auth_rate_limited'' (st\<lparr>sr_admission := ad1\<rparr>))
                         else (case run_authentication sv ao q (st\<lparr>sr_admission := ad1\<rparr>) of
                                 (res, st1) \<Rightarrow> (res, st1\<lparr>sr_admission := release_auth_inflight key (sr_admission st1)\<rparr>)))))"

definition unsafe_methods :: "pystr list" where
  "unsafe_methods = [lit ''POST'', lit ''PUT'', lit ''PATCH'', lit ''DELETE'']"

definition protected :: "server_config \<Rightarrow> web_request \<Rightarrow> bool" where
  "protected sv q \<longleftrightarrow>
     wr_method q \<noteq> lit ''OPTIONS'' \<and> wr_path q \<notin> {lit ''/health'', lit ''/ready'', lit ''/ping''}
     \<and> \<not> (sv_mode sv = Reader_Session_Mode \<and> wr_path q = lit ''/session'' \<and> wr_method q = lit ''POST'')"

definition rate_counted :: "web_request \<Rightarrow> bool" where
  "rate_counted q \<longleftrightarrow>
     wr_method q \<noteq> lit ''OPTIONS''
     \<and> wr_path q \<notin> {lit ''/health'', lit ''/ready'', lit ''/metrics'', lit ''/ping'', lit ''/stats''}"

text \<open>The default of \<open>getattr\<close> is evaluated in any case, so the resolver may be asked.\<close>

definition work_gate ::
  "server_config \<Rightarrow> auth_oracles \<Rightarrow> web_request \<Rightarrow> (auth_identity \<times> pystr) option \<Rightarrow> server \<Rightarrow> (refusal, auth_identity option) result \<times> server" where
  "work_gate sv ao q who st =
     (if \<not> rate_counted q then (Inr (map_option fst who), st)
      else case ask_client_ip sv ao q 3 st of
        (ip, st1) \<Rightarrow>
          (case check_rate_limit (sv_limits sv) (wr_rate_now q) (case who of None \<Rightarrow> ip | Some (_, key) \<Rightarrow> key) (sr_admission st1) of
             (ok, ad) \<Rightarrow>
               if \<not> ok then (Inl (rate_limited sv), note_outcome ''api_rate_limited'' (st1\<lparr>sr_admission := ad\<rparr>))
               else (Inr (map_option fst who), st1\<lparr>sr_admission := ad\<rparr>)))"

definition before_request_hook ::
  "server_config \<Rightarrow> auth_oracles \<Rightarrow> web_request \<Rightarrow> server \<Rightarrow> (refusal, auth_identity option) result \<times> server" where
  "before_request_hook sv ao q st =
     (if wr_method q \<in> set unsafe_methods \<and> \<not> has_valid_browser_origin sv (or_cf (ao_base ao)) (wr_headers q)
      then (Inl (Refusal 403 ''forbidden'' None), note_outcome ''csrf_rejected'' st)
      else if \<not> protected sv q then work_gate sv ao q None st
      else (case authentication_gate sv ao q st of
              (Inl r, st1) \<Rightarrow> (Inl r, st1)
            | (Inr who, st1) \<Rightarrow> work_gate sv ao q (Some who) st1))"

text \<open>\<open>after_request_hook\<close>: the response is counted, and the origin may be granted access.\<close>

definition cors_headers :: "server_config \<Rightarrow> (pystr \<Rightarrow> pystr) \<Rightarrow> headers \<Rightarrow> headers" where
  "cors_headers sv cf hs =
     (case is_origin_allowed sv (header_lookup cf hs (lit ''Origin'')) of
        None \<Rightarrow> []
      | Some allowed \<Rightarrow>
          [(lit ''Access-Control-Allow-Origin'', allowed),
           (lit ''Access-Control-Allow-Headers'', lit ''Content-Type, X-BT-Token''),
           (lit ''Access-Control-Allow-Methods'', lit ''GET, POST, DELETE, OPTIONS''),
           (lit ''Access-Control-Expose-Headers'', lit ''X-Request-ID, Retry-After''),
           (lit ''Vary'', lit ''Origin'')]
          @ (if sv_mode sv = Cwa_Session_Mode \<or> sv_mode sv = Reader_Session_Mode
             then [(lit ''Access-Control-Allow-Credentials'', lit ''true'')] else []))"

definition after_request_hook :: "server_config \<Rightarrow> auth_oracles \<Rightarrow> web_request \<Rightarrow> nat \<Rightarrow> server \<Rightarrow> headers \<times> server" where
  "after_request_hook sv ao q status st =
     (cors_headers sv (or_cf (ao_base ao)) (wr_headers q), st\<lparr>sr_metrics := record_http_response status (sr_metrics st)\<rparr>)"

definition http_error_code :: "nat \<Rightarrow> string" where
  "http_error_code status =
     (if status = 400 then ''bad_request'' else if status = 401 then ''unauthorized'' else if status = 403 then ''forbidden''
      else if status = 404 then ''not_found'' else if status = 405 then ''method_not_allowed''
      else if status = 413 then ''request_too_large'' else if status = 415 then ''unsupported_media_type''
      else if status = 429 then ''rate_limited'' else ''http_error'')"

definition unhandled_error :: "server \<Rightarrow> refusal \<times> server" where
  "unhandled_error st = (Refusal 500 ''internal_error'' None, note_outcome ''internal_error'' st)"

subsection \<open>Reader sessions\<close>

datatype session_reply = SessionRefused refusal | SessionRevoked pystr | SessionIssued session_issue pystr pystr

definition set_broker :: "broker \<Rightarrow> server \<Rightarrow> server" where
  "set_broker rb st = st\<lparr>sr_auth := (sr_auth st)\<lparr>au_broker := Some rb\<rparr>\<rparr>"

definition revoke_session :: "auth_oracles \<Rightarrow> web_request \<Rightarrow> cwa_binding \<Rightarrow> broker \<Rightarrow> server \<Rightarrow> session_reply \<times> server" where
  "revoke_session ao q b rb st =
     (case revoke (ao_base ao) (wr_now q) (wr_headers q) (binding_of b) rb of
        (Inl BrokerRejected, rb1) \<Rightarrow> (SessionRefused (Refusal 401 ''unauthorized'' None), set_broker rb1 st)
      | (Inl BrokerUnavailable, rb1) \<Rightarrow> (case unhandled_error (set_broker rb1 st) of (r, st1) \<Rightarrow> (SessionRefused r, st1))
      | (Inr _, rb1) \<Rightarrow> (SessionRevoked (clear_cookie rb1), set_broker rb1 st))"

definition exchange_session :: "server_config \<Rightarrow> auth_oracles \<Rightarrow> web_request \<Rightarrow> cwa_binding \<Rightarrow> broker \<Rightarrow> server \<Rightarrow> session_reply \<times> server" where
  "exchange_session sv ao q b rb st0 =
     (case ask_client_ip sv ao q 5 st0 of
        (key, st) \<Rightarrow>
          (case check_auth_rate_limit (sv_limits sv) (wr_auth_now q) key (sr_admission st) of
             (ok, ad) \<Rightarrow>
               if \<not> ok then (SessionRefused (rate_limited sv), st\<lparr>sr_admission := ad\<rparr>)
               else (case acquire_auth_inflight (sv_limits sv) key ad of
                       (got, ad1) \<Rightarrow>
                         if \<not> got then (SessionRefused (rate_limited sv), st\<lparr>sr_admission := ad1\<rparr>)
                         else (case exchange (ao_base ao) (wr_authority q) (wr_new_token q) (wr_now q) (wr_headers q) (binding_of b) rb of
                                 (res, rb1) \<Rightarrow>
                                   let st1 = set_broker rb1 (st\<lparr>sr_admission := release_auth_inflight key ad1\<rparr>) in
                                   (case res of
                                      Inl BrokerRejected \<Rightarrow> (SessionRefused (Refusal 401 ''unauthorized'' None), st1)
                                    | Inl BrokerUnavailable \<Rightarrow>
                                        (SessionRefused (Refusal 503 ''authentication_unavailable'' None), st1)
                                    | Inr issue \<Rightarrow>
                                        (SessionIssued issue (reader_type_name (rb_reader_type rb)) (rb_reader_version rb), st1))))))"

definition reader_session_route :: "server_config \<Rightarrow> auth_oracles \<Rightarrow> web_request \<Rightarrow> server \<Rightarrow> session_reply \<times> server" where
  "reader_session_route sv ao q st =
     (case au_broker (sr_auth st) of
        None \<Rightarrow> (SessionRefused (Refusal 404 ''not_found'' None), st)
      | Some rb \<Rightarrow>
          if sv_mode sv \<noteq> Reader_Session_Mode then (SessionRefused (Refusal 404 ''not_found'' None), st)
          else (case ask_binding sv ao q 4 st of
                  (Inl _, st1) \<Rightarrow> (SessionRefused (Refusal 401 ''unauthorized'' None), st1)
                | (Inr b, st1) \<Rightarrow>
                    if wr_method q = lit ''DELETE'' then revoke_session ao q b rb st1
                    else if \<not> wr_body_empty q then (SessionRefused (Refusal 400 ''bad_request'' None), st1)
                    else exchange_session sv ao q b rb st1))"

subsection \<open>Facts\<close>

lemma note_outcome_fields [simp]:
  "sr_admission (note_outcome n st) = sr_admission st" "sr_auth (note_outcome n st) = sr_auth st"
  "sr_resolver (note_outcome n st) = sr_resolver st"
  by (simp_all add: note_outcome_def)

lemma ask_client_ip_fields:
  "ask_client_ip sv ao q n st = (key, st1) \<Longrightarrow> sr_admission st1 = sr_admission st \<and> sr_auth st1 = sr_auth st \<and> sr_metrics st1 = sr_metrics st"
  by (auto simp: ask_client_ip_def split: prod.splits)

lemma ask_binding_fields:
  "ask_binding sv ao q n st = (b, st1) \<Longrightarrow> sr_admission st1 = sr_admission st \<and> sr_auth st1 = sr_auth st \<and> sr_metrics st1 = sr_metrics st"
  by (auto simp: ask_binding_def split: prod.splits)

text \<open>A table of slots without duplicate or empty entries; a slot taken and given back leaves no trace.\<close>

definition slots_tidy :: "admission \<Rightarrow> bool" where
  "slots_tidy ad \<longleftrightarrow> distinct_keys (ad_inflight ad) \<and> (\<forall>k. map_of (ad_inflight ad) k \<noteq> Some 0)"

lemma update_self: "distinct_keys s \<Longrightarrow> map_of s k = Some v \<Longrightarrow> AList.update k v s = s"
proof (induction s)
  case (Cons p s)
  then show ?case by (cases p) (auto simp: distinct_keys_def)
qed simp

lemma update_twice: "AList.update k v (AList.update k w s) = AList.update k v s"
  by (induction s) auto

lemma delete_new: "map_of s k = None \<Longrightarrow> AList.delete k (AList.update k v s) = s"
proof (induction s)
  case (Cons p s)
  then show ?case by (cases p) (auto simp: AList.delete_eq split: if_splits)
qed (simp add: AList.delete_eq)

lemma slot_returned:
  assumes "slots_tidy ad" "acquire_auth_inflight lm k ad = (True, ad1)"
  shows "ad_inflight (release_auth_inflight k ad1) = ad_inflight ad \<and> ad_rate ad1 = ad_rate ad \<and> ad_auth ad1 = ad_auth ad"
proof -
  have ad1: "ad1 = ad\<lparr>ad_inflight := AList.update k (Suc (slots (ad_inflight ad) k)) (ad_inflight ad)\<rparr>"
    using assms(2) by (auto simp: acquire_auth_inflight_def Let_def split: if_splits)
  show ?thesis
  proof (cases "map_of (ad_inflight ad) k")
    case None
    then show ?thesis using ad1 delete_new [OF None] by (simp add: release_auth_inflight_def slots_def)
  next
    case (Some n)
    then have "0 < n" using assms(1) by (metis slots_tidy_def gr0I)
    then show ?thesis using ad1 Some update_self [of "ad_inflight ad" k n] assms(1)
      by (simp add: release_auth_inflight_def slots_def slots_tidy_def update_twice)
  qed
qed

lemma check_auth_inflight: "check_auth_rate_limit lm now ip ad = (ok, ad1) \<Longrightarrow> ad_inflight ad1 = ad_inflight ad \<and> ad_rate ad1 = ad_rate ad"
  by (auto simp: check_auth_rate_limit_def split: prod.splits)

lemma check_rate_inflight: "check_rate_limit lm now ip ad = (ok, ad1) \<Longrightarrow> ad_inflight ad1 = ad_inflight ad"
  by (auto simp: check_rate_limit_def split: prod.splits)

lemma run_authentication_admission: "run_authentication sv ao q st = (res, st1) \<Longrightarrow> sr_admission st1 = sr_admission st"
  by (auto simp: run_authentication_def Let_def dest!: ask_binding_fields ask_client_ip_fields
      split: prod.splits sum.splits if_splits auth_error.splits)

lemma acquire_False: "acquire_auth_inflight lm k ad = (False, ad1) \<Longrightarrow> ad1 = ad"
  by (auto simp: acquire_auth_inflight_def Let_def split: if_splits)

lemma authentication_gate_slots:
  assumes "authentication_gate sv ao q st = (res, st1)" "slots_tidy (sr_admission st)"
  shows "ad_inflight (sr_admission st1) = ad_inflight (sr_admission st)"
proof -
  obtain key s0 where k: "ask_client_ip sv ao q 0 st = (key, s0)" by fastforce
  obtain ok ad where c: "check_auth_rate_limit (sv_limits sv) (wr_auth_now q) key (sr_admission s0) = (ok, ad)" by fastforce
  obtain got ad1 where g: "acquire_auth_inflight (sv_limits sv) key ad = (got, ad1)" by fastforce
  obtain r s1 where a: "run_authentication sv ao q (s0\<lparr>sr_admission := ad1\<rparr>) = (r, s1)" by fastforce
  have ad: "ad_inflight ad = ad_inflight (sr_admission st)" "slots_tidy ad"
    using check_auth_inflight [OF c] ask_client_ip_fields [OF k] assms(2) by (simp_all add: slots_tidy_def)
  have s1: "sr_admission s1 = ad1" using run_authentication_admission [OF a] by simp
  consider "\<not> ok" | "ok" "\<not> got" | "ok" "got" by blast
  then show ?thesis
  proof cases
    case 1
    then show ?thesis using assms(1) k c ad(1) by (auto simp: authentication_gate_def)
  next
    case 2
    then show ?thesis using assms(1) k c g ad(1) acquire_False [of "sv_limits sv" key ad ad1] by (auto simp: authentication_gate_def)
  next
    case 3
    then show ?thesis using assms(1) k c g a ad slot_returned [OF ad(2), of _ key ad1] s1
      by (auto simp: authentication_gate_def)
  qed
qed

lemma work_gate_slots: "work_gate sv ao q who st = (res, st1) \<Longrightarrow> ad_inflight (sr_admission st1) = ad_inflight (sr_admission st)"
  by (auto simp: work_gate_def dest!: ask_client_ip_fields check_rate_inflight split: prod.splits if_splits)

lemma work_gate_who: "work_gate sv ao q who st = (Inr i, st1) \<Longrightarrow> i = map_option fst who"
  by (auto simp: work_gate_def split: prod.splits if_splits)

lemma authentication_gate_Inr:
  assumes "authentication_gate sv ao q st = (Inr (i, key), st1)"
  shows "\<exists>b. fst (authenticate_request ao (auth_request_of q b) (sr_auth st)) = Inr i"
proof -
  obtain k s0 where k: "ask_client_ip sv ao q 0 st = (k, s0)" by fastforce
  then obtain ad where "\<exists>s1. run_authentication sv ao q (s0\<lparr>sr_admission := ad\<rparr>) = (Inr (i, key), s1)"
    using assms by (auto simp: authentication_gate_def split: prod.splits if_splits)
  then obtain s1 where r: "run_authentication sv ao q (s0\<lparr>sr_admission := ad\<rparr>) = (Inr (i, key), s1)" by blast
  have "sr_auth s0 = sr_auth st" using ask_client_ip_fields [OF k] by simp
  with r show ?thesis
    by (auto simp: run_authentication_def Let_def dest!: ask_binding_fields
        split: prod.splits sum.splits if_splits auth_error.splits) (metis fst_conv)+
qed

subsection \<open>Properties\<close>

text \<open>
  C1: the gate lets no unauthenticated request through. A request that reaches its handler on a
  protected path was authenticated in this very request, and its handler sees that identity; a
  write in a cookie mode came from the configured public origin; and every other request
  carries no identity.
\<close>

theorem request_gate_sound:
  assumes "before_request_hook sv ao q st = (Inr who, st1)"
  shows "(if protected sv q
          then \<exists>i b. who = Some i \<and> fst (authenticate_request ao (auth_request_of q b) (sr_auth st)) = Inr i
          else who = None)
    \<and> (wr_method q \<notin> set unsafe_methods \<or> sv_mode sv \<notin> set cookie_modes
       \<or> (header_lookup (or_cf (ao_base ao)) (wr_headers q) (lit ''Origin'') = Some (sv_public_origin sv)
          \<and> sv_public_origin sv \<noteq> []))"
proof -
  have origin: "\<not> (wr_method q \<in> set unsafe_methods \<and> \<not> has_valid_browser_origin sv (or_cf (ao_base ao)) (wr_headers q))"
    using assms by (auto simp: before_request_hook_def split: if_splits)
  then have "wr_method q \<notin> set unsafe_methods \<or> sv_mode sv \<notin> set cookie_modes
       \<or> (header_lookup (or_cf (ao_base ao)) (wr_headers q) (lit ''Origin'') = Some (sv_public_origin sv)
          \<and> sv_public_origin sv \<noteq> [])"
    by (auto simp: has_valid_browser_origin_def simp del: lit_Cons split: option.splits if_splits)
  moreover have "if protected sv q
          then \<exists>i b. who = Some i \<and> fst (authenticate_request ao (auth_request_of q b) (sr_auth st)) = Inr i
          else who = None"
  proof (cases "protected sv q")
    case False
    then show ?thesis using assms origin work_gate_who [of sv ao q None st who st1]
      by (auto simp: before_request_hook_def split: if_splits)
  next
    case True
    then obtain i key s1 where g: "authentication_gate sv ao q st = (Inr (i, key), s1)"
      "work_gate sv ao q (Some (i, key)) s1 = (Inr who, st1)"
      using assms origin by (auto simp: before_request_hook_def split: prod.splits sum.splits if_splits)
    then show ?thesis using True authentication_gate_Inr [OF g(1)] work_gate_who [OF g(2)] by auto
  qed
  ultimately show ?thesis by blast
qed

text \<open>
  C38: whatever the outcome of a request, it leaves no slot of the authentication authority
  behind: the table of slots after the gate is the table before it.
\<close>

theorem gate_releases_slots:
  assumes "slots_tidy (sr_admission st)"
  shows "ad_inflight (sr_admission (snd (before_request_hook sv ao q st))) = ad_inflight (sr_admission st)"
proof -
  obtain res st1 where h: "before_request_hook sv ao q st = (res, st1)" by fastforce
  obtain r s1 where g: "authentication_gate sv ao q st = (r, s1)" by fastforce
  have "ad_inflight (sr_admission st1) = ad_inflight (sr_admission st)"
    using h g authentication_gate_slots [OF g assms] work_gate_slots
    by (auto simp: before_request_hook_def split: prod.splits sum.splits if_splits)
  with h show ?thesis by simp
qed

text \<open>
  Credential guessing is stopped before the authority is asked. Once a client's attempts of
  the last minute are used up, a protected request is refused with 429 whatever credentials it
  carries and whatever the authority would answer, and the authenticator, its cache of
  decisions and its sessions are as before.
\<close>

theorem auth_attempts_bounded:
  assumes "protected sv q" "has_valid_browser_origin sv (or_cf (ao_base ao)) (wr_headers q)"
    and "ask_client_ip sv ao q 0 st = (key, st0)"
    and "\<not> fst (check_auth_rate_limit (sv_limits sv) (wr_auth_now q) key (sr_admission st))"
  shows "fst (before_request_hook sv ao q st) = Inl (Refusal 429 ''rate_limited'' (Some (lm_retry_after (sv_limits sv))))
    \<and> sr_auth (snd (before_request_hook sv ao q st)) = sr_auth st"
  using assms ask_client_ip_fields [OF assms(3)]
  by (cases "check_auth_rate_limit (sv_limits sv) (wr_auth_now q) key (sr_admission st)")
    (simp add: before_request_hook_def authentication_gate_def rate_limited_def)

subsection \<open>Witnesses\<close>

definition demo_config :: "nat \<Rightarrow> server_config" where
  "demo_config n = \<lparr>sv_mode = Disabled_Mode, sv_scope_max = 9, sv_max_paragraphs = 9, sv_max_chars = 9,
     sv_export_paragraphs = 9, sv_export_title = 9, sv_export_total = 9, sv_generation = [], sv_allowed_origins = [],
     sv_public_origin = [], sv_limits = demo_limits\<lparr>lm_auth_per_minute := n\<rparr>,
     sv_edge = \<lparr>ec_networks = [], ec_proxy_host = [], ec_trust_proxy = False\<rparr>\<rparr>"

definition disabled_auth :: authenticator where
  "disabled_auth = \<lparr>au_mode = Disabled_Mode, au_api_token = [], au_cwa_auth_url = [], au_cookie_names = [],
     au_tenant_key = [], au_cwa_timeout = 2, au_max_inflight = 9, au_max_response = 9, au_cache = vc_new 2 9,
     au_broker = None, au_networks = [], au_subject_header = [], au_roles_header = []\<rparr>"

definition demo_server :: server where
  "demo_server = \<lparr>sr_admission = no_admission, sr_resolver = ([], 0, []), sr_auth = disabled_auth, sr_metrics = empty_metrics\<rparr>"

definition stats_request :: web_request where
  "stats_request = \<lparr>wr_method = lit ''GET'', wr_path = lit ''/stats'', wr_headers = [], wr_remote = Some (lit ''1''),
     wr_resolver = (\<lambda>_. \<lparr>rs_now = 0, rs_getaddrinfo = None\<rparr>), wr_auth_now = 1, wr_rate_now = 1, wr_now = 1,
     wr_check = (\<lambda>_. \<lparr>ck_get_at = 0, ck_flight = Refused, ck_put_at = 0\<rparr>), wr_body_empty = True,
     wr_authority = (\<lambda>_. (0, None)), wr_new_token = PNone\<rparr>"

definition null_oracles :: auth_oracles where
  "null_oracles = \<lparr>ao_base = \<lparr>or_cf = id, or_sha = id, or_mac = (\<lambda>_ _. []), or_inflate = (\<lambda>_ _. None),
     or_loads = (\<lambda>_. JsonInvalid)\<rparr>, ao_digest = id, ao_unicode = ascii_unicode\<rparr>"

lemma demo_key: "ask_client_ip (demo_config n) null_oracles stats_request k demo_server = (lit ''1'', demo_server)"
  by (simp add: ask_client_ip_def client_ip_def demo_config_def stats_request_def peer_text_def last_hop_def demo_server_def)

lemma demo_protected: "protected (demo_config n) stats_request" "\<not> rate_counted stats_request"
  by (simp_all add: protected_def rate_counted_def stats_request_def)

theorem request_gate_sound_witness:
  "\<exists>i b. fst (authenticate_request null_oracles (auth_request_of stats_request b) disabled_auth) = Inr i
     \<and> fst (before_request_hook (demo_config 5) null_oracles stats_request demo_server) = Inr (Some i)"
proof -
  obtain who st1 where h: "before_request_hook (demo_config 5) null_oracles stats_request demo_server = (Inr who, st1)"
  proof -
    have "\<exists>who st1. before_request_hook (demo_config 5) null_oracles stats_request demo_server = (Inr who, st1)"
      using demo_key [of 5] demo_protected(1) [of 5] demo_protected(2)
      by (simp add: before_request_hook_def authentication_gate_def work_gate_def run_authentication_def unsafe_methods_def
          has_valid_browser_origin_def cookie_modes_def check_auth_rate_limit_def check_window_rate_limit_def
          acquire_auth_inflight_def authenticate_request_def slots_def no_admission_def bucket_def live_def
          demo_config_def demo_limits_def stats_request_def demo_server_def disabled_auth_def ask_client_ip_def
          client_ip_def peer_text_def last_hop_def)
    then show ?thesis using that by blast
  qed
  then show ?thesis using request_gate_sound [OF h] demo_protected(1) [of 5] by (auto simp: demo_server_def)
qed

theorem gate_releases_slots_witness:
  "ad_inflight (sr_admission (snd (before_request_hook (demo_config 5) null_oracles stats_request demo_server))) = []"
proof -
  have "slots_tidy (sr_admission demo_server)" by (simp add: slots_tidy_def demo_server_def no_admission_def)
  from gate_releases_slots [OF this] show ?thesis by (simp add: demo_server_def no_admission_def)
qed

theorem auth_attempts_bounded_witness:
  "fst (before_request_hook (demo_config 0) null_oracles stats_request demo_server) = Inl (Refusal 429 ''rate_limited'' (Some 10))"
proof -
  have o1: "has_valid_browser_origin (demo_config 0) (or_cf (ao_base null_oracles)) (wr_headers stats_request)"
    by (simp add: has_valid_browser_origin_def demo_config_def cookie_modes_def)
  have l: "\<not> fst (check_auth_rate_limit (sv_limits (demo_config 0)) (wr_auth_now stats_request) (lit ''1'') (sr_admission demo_server))"
    by (simp add: check_auth_rate_limit_def check_window_rate_limit_def demo_config_def demo_limits_def demo_server_def
        no_admission_def bucket_def live_def)
  from auth_attempts_bounded [OF demo_protected(1) o1 demo_key l] show ?thesis
    by (simp add: demo_config_def demo_limits_def)
qed

end
