(* ===== verification/Keyed_Table.thy ===== *)
theory Keyed_Table
  imports Prelude
begin

section \<open>Tenant-owned SQLite tables\<close>

text \<open>
  The glossary and feedback modules each keep one SQLite table whose primary key is
  (tenant hash, book hash, item key). A table is its rows in insertion order; a missing table
  is an empty one, since every call creates the schema first. The row counts, the conflict
  update and the two caps are shared here, together with the contract \<open>capped_table\<close>: every
  call keeps the caps, and a call made for one tenant and book leaves the rows of every other
  tenant and book alone.
\<close>

type_synonym row_key = "pystr \<times> pystr \<times> pystr"
type_synonym 'p table = "(row_key, 'p) odict"

definition key_tenant :: "row_key \<Rightarrow> pystr" where
  "key_tenant k = fst k"

definition key_book :: "row_key \<Rightarrow> pystr" where
  "key_book k = fst (snd k)"

definition key_item :: "row_key \<Rightarrow> pystr" where
  "key_item k = snd (snd k)"

lemma key_parts [simp]:
  "key_tenant (t, b, i) = t" "key_book (t, b, i) = b" "key_item (t, b, i) = i"
  by (simp_all add: key_tenant_def key_book_def key_item_def)

definition book_rows :: "pystr \<Rightarrow> pystr \<Rightarrow> 'p table \<Rightarrow> 'p table" where
  "book_rows th bh t = filter (\<lambda>r. key_tenant (fst r) = th \<and> key_book (fst r) = bh) t"

definition tenant_rows :: "pystr \<Rightarrow> 'p table \<Rightarrow> 'p table" where
  "tenant_rows th t = filter (\<lambda>r. key_tenant (fst r) = th) t"

text \<open>The two counts taken before a write: rows other than the one about to be written.\<close>

definition other_book_rows :: "row_key \<Rightarrow> 'p table \<Rightarrow> nat" where
  "other_book_rows k t =
     length (filter (\<lambda>r. key_tenant (fst r) = key_tenant k \<and> key_book (fst r) = key_book k
                       \<and> key_item (fst r) \<noteq> key_item k) t)"

definition other_tenant_rows :: "row_key \<Rightarrow> 'p table \<Rightarrow> nat" where
  "other_tenant_rows k t =
     length (filter (\<lambda>r. key_tenant (fst r) = key_tenant k
                       \<and> \<not> (key_book (fst r) = key_book k \<and> key_item (fst r) = key_item k)) t)"

definition caps_ok :: "nat \<Rightarrow> nat \<Rightarrow> 'p table \<Rightarrow> bool" where
  "caps_ok bcap tcap t \<longleftrightarrow>
     distinct_keys t
     \<and> (\<forall>th bh. length (book_rows th bh t) \<le> bcap)
     \<and> (\<forall>th. length (tenant_rows th t) \<le> tcap)"

subsection \<open>Counting rows through a write\<close>

lemma filter_update_length:
  assumes "distinct_keys t" and "\<And>p q. P (k, p) = P (k, q)"
  shows "length (filter P (AList.update k v t)) =
    length (filter (\<lambda>r. P r \<and> fst r \<noteq> k) t) + (if P (k, v) then 1 else 0)"
  using assms(1)
proof (induction t)
  case (Cons r t)
  obtain a b where r: "r = (a, b)" by (cases r)
  have d: "distinct_keys t" and na: "a \<notin> fst ` set t"
    using Cons.prems by (simp_all add: distinct_keys_def r)
  show ?case
  proof (cases "a = k")
    case True
    then have "filter (\<lambda>r. P r \<and> fst r \<noteq> k) t = filter P t"
      using na by (intro filter_cong) auto
    then show ?thesis using True r assms(2) by simp
  next
    case False
    then show ?thesis using Cons.IH [OF d] r by simp
  qed
qed simp

lemma row_key_eq_iff:
  "k = k' \<longleftrightarrow> key_tenant k = key_tenant k' \<and> key_book k = key_book k' \<and> key_item k = key_item k'"
  by (auto simp: key_tenant_def key_book_def key_item_def prod_eq_iff)

lemma length_book_rows_update:
  assumes "distinct_keys t"
  shows "length (book_rows th bh (AList.update k v t)) =
    (if key_tenant k = th \<and> key_book k = bh then Suc (other_book_rows k t)
     else length (book_rows th bh t))"
proof -
  have "filter (\<lambda>r. (key_tenant (fst r) = th \<and> key_book (fst r) = bh) \<and> fst r \<noteq> k) t =
    (if key_tenant k = th \<and> key_book k = bh
     then filter (\<lambda>r. key_tenant (fst r) = key_tenant k \<and> key_book (fst r) = key_book k
                    \<and> key_item (fst r) \<noteq> key_item k) t
     else book_rows th bh t)"
    by (auto simp: book_rows_def row_key_eq_iff intro!: filter_cong)
  then show ?thesis
    using filter_update_length [OF assms,
        of "\<lambda>r. key_tenant (fst r) = th \<and> key_book (fst r) = bh" k v]
    by (auto simp: book_rows_def other_book_rows_def)
qed

lemma length_tenant_rows_update:
  assumes "distinct_keys t"
  shows "length (tenant_rows th (AList.update k v t)) =
    (if key_tenant k = th then Suc (other_tenant_rows k t) else length (tenant_rows th t))"
proof -
  have "filter (\<lambda>r. key_tenant (fst r) = th \<and> fst r \<noteq> k) t =
    (if key_tenant k = th
     then filter (\<lambda>r. key_tenant (fst r) = key_tenant k
                    \<and> \<not> (key_book (fst r) = key_book k \<and> key_item (fst r) = key_item k)) t
     else tenant_rows th t)"
    by (auto simp: tenant_rows_def row_key_eq_iff intro!: filter_cong)
  then show ?thesis
    using filter_update_length [OF assms, of "\<lambda>r. key_tenant (fst r) = th" k v]
    by (auto simp: tenant_rows_def other_tenant_rows_def)
qed

lemma caps_ok_Nil [simp]: "caps_ok b c []"
  by (simp add: caps_ok_def book_rows_def tenant_rows_def)

lemma caps_ok_update:
  assumes "caps_ok bcap tcap t" "other_book_rows k t < bcap" "other_tenant_rows k t < tcap"
  shows "caps_ok bcap tcap (AList.update k v t)"
  using assms
  by (auto simp: caps_ok_def length_book_rows_update length_tenant_rows_update Suc_le_eq)

lemma caps_ok_filter: "caps_ok bcap tcap t \<Longrightarrow> caps_ok bcap tcap (filter P t)"
proof -
  assume ok: "caps_ok bcap tcap t"
  have le: "length (filter Q (filter P t)) \<le> length (filter Q t)" for Q
    by (induction t) auto
  have "length (book_rows th bh (filter P t)) \<le> bcap" for th bh
    using ok unfolding caps_ok_def book_rows_def by (blast intro: order_trans [OF le])
  moreover have "length (tenant_rows th (filter P t)) \<le> tcap" for th
    using ok unfolding caps_ok_def tenant_rows_def by (blast intro: order_trans [OF le])
  ultimately show ?thesis using ok by (simp add: caps_ok_def)
qed

lemma book_rows_update_other:
  "key_tenant k \<noteq> th \<or> key_book k \<noteq> bh \<Longrightarrow> book_rows th bh (AList.update k v t) = book_rows th bh t"
  by (induction t) (auto simp: book_rows_def)

lemma book_rows_filter_other:
  "(\<And>r. key_tenant (fst r) = th \<Longrightarrow> key_book (fst r) = bh \<Longrightarrow> P r) \<Longrightarrow>
   book_rows th bh (filter P t) = book_rows th bh t"
  by (auto simp: book_rows_def intro: filter_cong)

subsection \<open>The contract of a capped table\<close>

text \<open>\<open>owner\<close> names the hashed tenant and book a call is made for.\<close>

locale capped_table =
  fixes step :: "'op \<Rightarrow> 'p table \<Rightarrow> 'p table"
    and owner :: "'op \<Rightarrow> pystr \<times> pystr"
    and bcap tcap :: nat
  assumes keeps_caps: "caps_ok bcap tcap t \<Longrightarrow> caps_ok bcap tcap (step x t)"
    and confined: "owner x \<noteq> (th, bh) \<Longrightarrow> book_rows th bh (step x t) = book_rows th bh t"
begin

lemma run_caps: "caps_ok bcap tcap t \<Longrightarrow> caps_ok bcap tcap (fold step xs t)"
  by (induction xs arbitrary: t) (simp_all add: keeps_caps)

lemma run_confined:
  "\<forall>x\<in>set xs. owner x \<noteq> (th, bh) \<Longrightarrow> book_rows th bh (fold step xs t) = book_rows th bh t"
  by (induction xs arbitrary: t) (simp_all add: confined)

end

end
