(* ===== verification/Glossary.thy ===== *)
theory Glossary
  imports Keyed_Table
begin

section \<open>The per-book glossary store\<close>

text \<open>
  Models \<open>glossary.py\<close>. The SHA-256 of a text (\<open>sha\<close>) and the Unicode case folding
  (\<open>casefold\<close>) are arguments. SQLite stores text as UTF-8, so binding a text with a lone
  surrogate raises, like hashing it. A write transaction is a function to a result; the
  surrounding \<open>try\<close>/\<open>rollback\<close> leaves the table unchanged when it raises.
\<close>

subsection \<open>Model\<close>

record glossary_config =
  g_max_entries :: nat
  g_max_term_chars :: nat
  g_max_tenant_entries :: nat

record glossary_row =
  source_text :: pystr
  target_text :: pystr
  g_created_at :: pystr
  g_updated_at :: pystr

type_synonym glossary_table = "glossary_row table"
type_synonym glossary_entry = "pystr \<times> pystr"

definition hash_text :: "(pystr \<Rightarrow> pystr) \<Rightarrow> pystr \<Rightarrow> (py_error, pystr) result" where
  "hash_text sha v = (if utf8_len v = None then Inl UnicodeEncodeError else Inr (sha v))"

definition bind_text :: "pystr \<Rightarrow> (py_error, unit) result" where
  "bind_text v = (if utf8_len v = None then Inl UnicodeEncodeError else Inr ())"

definition normalize_term :: "glossary_config \<Rightarrow> pyval \<Rightarrow> string \<Rightarrow> (py_error, pystr) result" where
  "normalize_term cfg v fld =
     (case v of
        PStr s \<Rightarrow>
          let value = strip s in
          if value = []
          then Inl (ValueError (lit ''glossary '' @ lit fld @ lit '' must be a non-empty string''))
          else if g_max_term_chars cfg < length value
          then Inl (ValueError (lit ''glossary '' @ lit fld @ lit '' exceeds the ''
                 @ show_nat (g_max_term_chars cfg) @ lit ''-character limit''))
          else if list_ex is_ctrl value
          then Inl (ValueError (lit ''glossary '' @ lit fld @ lit '' contains control characters''))
          else Inr value
      | _ \<Rightarrow> Inl (ValueError (lit ''glossary '' @ lit fld @ lit '' must be a string'')))"

definition glossary_rows :: "pystr \<Rightarrow> pystr \<Rightarrow> glossary_table \<Rightarrow> (pystr \<times> glossary_row) list" where
  "glossary_rows th bh t =
     sort_key fst (map (\<lambda>r. (key_item (fst r), snd r)) (book_rows th bh t))"

definition list_entries ::
  "(pystr \<Rightarrow> pystr) \<Rightarrow> pystr \<Rightarrow> pystr \<Rightarrow> glossary_table \<Rightarrow> (py_error, glossary_entry list) result" where
  "list_entries sha tenant book_id t =
     rbind (hash_text sha tenant) (\<lambda>th. rbind (hash_text sha book_id) (\<lambda>bh.
       Inr (map (\<lambda>r. (source_text (snd r), target_text (snd r))) (glossary_rows th bh t))))"

text \<open>The body of the write transaction of \<open>put_entry\<close>.\<close>

definition put_tx ::
  "glossary_config \<Rightarrow> (pystr \<Rightarrow> pystr) \<Rightarrow> (pystr \<Rightarrow> pystr) \<Rightarrow> pystr \<Rightarrow> pystr \<Rightarrow> pystr \<Rightarrow> pystr \<Rightarrow> pystr
   \<Rightarrow> glossary_table \<Rightarrow> (py_error, glossary_table) result" where
  "put_tx cfg sha casefold tenant book_id src tgt now t =
     rbind (hash_text sha tenant) (\<lambda>th. rbind (hash_text sha book_id) (\<lambda>bh.
       let source_norm = casefold src; k = (th, bh, source_norm) in
       rbind (bind_text source_norm) (\<lambda>_.
         if g_max_entries cfg \<le> other_book_rows k t
         then Inl (ValueError (lit ''glossary exceeds the '' @ show_nat (g_max_entries cfg)
                @ lit ''-entry limit''))
         else if g_max_tenant_entries cfg \<le> other_tenant_rows k t
         then Inl (ValueError (lit ''glossary exceeds the '' @ show_nat (g_max_tenant_entries cfg)
                @ lit ''-entry limit across all books''))
         else rbind (bind_text src) (\<lambda>_. rbind (bind_text tgt) (\<lambda>_.
           let created = (case map_of t k of None \<Rightarrow> now | Some r \<Rightarrow> g_created_at r) in
           Inr (AList.update k
                  \<lparr>source_text = src, target_text = tgt, g_created_at = created,
                   g_updated_at = now\<rparr> t))))))"

definition put_entry ::
  "glossary_config \<Rightarrow> (pystr \<Rightarrow> pystr) \<Rightarrow> (pystr \<Rightarrow> pystr) \<Rightarrow> pystr \<Rightarrow> pystr \<Rightarrow> pyval \<Rightarrow> pyval \<Rightarrow> pystr
   \<Rightarrow> glossary_table \<Rightarrow> (py_error, glossary_entry) result \<times> glossary_table" where
  "put_entry cfg sha casefold tenant book_id source target now t =
     (case normalize_term cfg source ''source'' of
        Inl e \<Rightarrow> (Inl e, t)
      | Inr src \<Rightarrow>
          (case normalize_term cfg target ''target'' of
             Inl e \<Rightarrow> (Inl e, t)
           | Inr tgt \<Rightarrow>
               (case put_tx cfg sha casefold tenant book_id src tgt now t of
                  Inl e \<Rightarrow> (Inl e, t)
                | Inr t' \<Rightarrow> (Inr (src, tgt), t'))))"

definition delete_entry ::
  "glossary_config \<Rightarrow> (pystr \<Rightarrow> pystr) \<Rightarrow> (pystr \<Rightarrow> pystr) \<Rightarrow> pystr \<Rightarrow> pystr \<Rightarrow> pyval
   \<Rightarrow> glossary_table \<Rightarrow> (py_error, bool) result \<times> glossary_table" where
  "delete_entry cfg sha casefold tenant book_id source t =
     (case rbind (normalize_term cfg source ''source'') (\<lambda>src.
             rbind (hash_text sha tenant) (\<lambda>th. rbind (hash_text sha book_id) (\<lambda>bh.
               rbind (bind_text (casefold src)) (\<lambda>_. Inr (th, bh, casefold src))))) of
        Inl e \<Rightarrow> (Inl e, t)
      | Inr k \<Rightarrow> (Inr (k \<in> fst ` set t), AList.delete k t))"

subsection \<open>Calls as steps\<close>

datatype glossary_op =
    GPut pystr pystr pyval pyval pystr
  | GDelete pystr pystr pyval

fun glossary_step ::
  "glossary_config \<Rightarrow> (pystr \<Rightarrow> pystr) \<Rightarrow> (pystr \<Rightarrow> pystr) \<Rightarrow> glossary_op \<Rightarrow> glossary_table
   \<Rightarrow> glossary_table" where
  "glossary_step cfg sha cf (GPut ten bk s g now) t = snd (put_entry cfg sha cf ten bk s g now t)"
| "glossary_step cfg sha cf (GDelete ten bk s) t = snd (delete_entry cfg sha cf ten bk s t)"

fun glossary_owner :: "(pystr \<Rightarrow> pystr) \<Rightarrow> glossary_op \<Rightarrow> pystr \<times> pystr" where
  "glossary_owner sha (GPut ten bk s g now) = (sha ten, sha bk)"
| "glossary_owner sha (GDelete ten bk s) = (sha ten, sha bk)"

subsection \<open>Facts\<close>

lemma hash_text_Inr: "hash_text sha v = Inr h \<longleftrightarrow> utf8_len v \<noteq> None \<and> h = sha v"
  by (auto simp: hash_text_def)

lemma bind_text_Inr: "bind_text v = Inr u \<longleftrightarrow> utf8_len v \<noteq> None"
  by (auto simp: bind_text_def)

lemmas glossary_result_simps = py_simps hash_text_Inr bind_text_Inr Let_def

lemma normalize_term_Inr:
  assumes "normalize_term cfg v f = Inr s"
  shows "\<exists>raw. v = PStr raw \<and> s = strip raw" "s \<noteq> []" "strip s = s"
    "length s \<le> g_max_term_chars cfg" "\<forall>c\<in>set s. \<not> is_ctrl c"
  using assms
  by (auto simp: normalize_term_def Let_def list_ex_iff not_less split: pyval.splits if_splits)

lemma put_tx_Inr:
  assumes "put_tx cfg sha cf ten bk src tgt now t = Inr t'"
  shows "\<exists>created. t' = AList.update (sha ten, sha bk, cf src)
      \<lparr>source_text = src, target_text = tgt, g_created_at = created, g_updated_at = now\<rparr> t
    \<and> created = (case map_of t (sha ten, sha bk, cf src) of None \<Rightarrow> now | Some r \<Rightarrow> g_created_at r)"
    and "other_book_rows (sha ten, sha bk, cf src) t < g_max_entries cfg"
    and "other_tenant_rows (sha ten, sha bk, cf src) t < g_max_tenant_entries cfg"
    and "utf8_len ten \<noteq> None" "utf8_len bk \<noteq> None" "utf8_len (cf src) \<noteq> None"
  using assms
  by (auto simp: put_tx_def glossary_result_simps not_le split: if_splits)

lemma put_tx_caps:
  "put_tx cfg sha cf ten bk src tgt now t = Inr t' \<Longrightarrow>
   caps_ok (g_max_entries cfg) (g_max_tenant_entries cfg) t \<Longrightarrow>
   caps_ok (g_max_entries cfg) (g_max_tenant_entries cfg) t'"
  using put_tx_Inr(1-3) caps_ok_update by metis

lemma put_entry_Inr:
  assumes "put_entry cfg sha cf ten bk s g now t = (Inr (src, tgt), t')"
  shows "normalize_term cfg s ''source'' = Inr src" "normalize_term cfg g ''target'' = Inr tgt"
    "put_tx cfg sha cf ten bk src tgt now t = Inr t'"
  using assms by (auto simp: put_entry_def split: sum.splits)

lemma put_entry_snd:
  "snd (put_entry cfg sha cf ten bk s g now t) = t
   \<or> (\<exists>src tgt. put_tx cfg sha cf ten bk src tgt now t = Inr (snd (put_entry cfg sha cf ten bk s g now t)))"
  by (auto simp: put_entry_def split: sum.splits)

lemma delete_entry_snd:
  "snd (delete_entry cfg sha cf ten bk s t) = t
   \<or> (\<exists>src. normalize_term cfg s ''source'' = Inr src
        \<and> snd (delete_entry cfg sha cf ten bk s t) = AList.delete (sha ten, sha bk, cf src) t)"
  by (auto simp: delete_entry_def glossary_result_simps split: sum.splits)

lemma delete_as_filter: "AList.delete k t = filter (\<lambda>r. fst r \<noteq> k) t"
  by (induction t) auto

interpretation gl: capped_table "glossary_step cfg sha cf" "glossary_owner sha"
    "g_max_entries cfg" "g_max_tenant_entries cfg" for cfg sha cf
proof unfold_locales
  fix t x
  assume ok: "caps_ok (g_max_entries cfg) (g_max_tenant_entries cfg) (t :: glossary_table)"
  show "caps_ok (g_max_entries cfg) (g_max_tenant_entries cfg) (glossary_step cfg sha cf x t)"
  proof (cases x)
    case (GPut ten bk s g now)
    then show ?thesis
      using put_entry_snd [of cfg sha cf ten bk s g now t] ok
      by (auto dest: put_tx_caps)
  next
    case (GDelete ten bk s)
    then show ?thesis
      using ok delete_entry_snd [of cfg sha cf ten bk s t]
      by (auto simp: delete_as_filter intro: caps_ok_filter)
  qed
next
  fix x th bh and t :: glossary_table
  assume o: "glossary_owner sha x \<noteq> (th, bh)"
  show "book_rows th bh (glossary_step cfg sha cf x t) = book_rows th bh t"
  proof (cases x)
    case (GPut ten bk s g now)
    then show ?thesis
      using put_entry_snd [of cfg sha cf ten bk s g now t] o
      by (auto dest!: put_tx_Inr(1) simp: book_rows_update_other)
  next
    case (GDelete ten bk s)
    then show ?thesis
      using o delete_entry_snd [of cfg sha cf ten bk s t]
      by (auto simp: delete_as_filter intro!: book_rows_filter_other)
  qed
qed

lemma list_entries_book_rows:
  "book_rows (sha ten) (sha bk) t = book_rows (sha ten) (sha bk) t' \<Longrightarrow>
   list_entries sha ten bk t = list_entries sha ten bk t'"
  by (simp add: list_entries_def glossary_rows_def hash_text_def rbind_def)

lemma map_of_book_rows:
  "distinct_keys t \<Longrightarrow> map_of t (th, bh, i) = Some r \<Longrightarrow> ((th, bh, i), r) \<in> set (book_rows th bh t)"
  by (auto simp: book_rows_def dest: map_of_SomeD)

subsection \<open>Properties\<close>

text \<open>
  C32: The glossary stays within its caps. Starting from an empty table, after any sequence of
  insertions and deletions by any tenants, no book of a tenant has more than
  \<open>GLOSSARY_MAX_ENTRIES\<close> terms, no tenant has more than \<open>GLOSSARY_MAX_TENANT_ENTRIES\<close> terms over
  all books, and no term is stored twice.
\<close>

theorem glossary_caps_hold:
  "caps_ok (g_max_entries cfg) (g_max_tenant_entries cfg) (fold (glossary_step cfg sha cf) ops [])"
  by (rule gl.run_caps) simp

text \<open>
  Tenants are isolated. If the hash separates a tenant and book from those of every call in
  a sequence, the listing of that tenant and book is the same before and after the sequence.
\<close>

theorem glossary_isolation:
  assumes "\<forall>x\<in>set ops. glossary_owner sha x \<noteq> (sha ten, sha bk)"
  shows "list_entries sha ten bk (fold (glossary_step cfg sha cf) ops t) = list_entries sha ten bk t"
  by (rule list_entries_book_rows) (rule gl.run_confined [OF assms])

theorem glossary_isolation_witness:
  "list_entries id (lit ''ann'') (lit ''b'') (fold (glossary_step
      \<lparr>g_max_entries = 5, g_max_term_chars = 9, g_max_tenant_entries = 9\<rparr> id ascii_lower)
      [GPut (lit ''bob'') (lit ''b'') (PStr (lit ''Rex'')) (PStr (lit ''Rey'')) (lit ''t0'')] [])
   = Inr []"
proof -
  let ?ops = "[GPut (lit ''bob'') (lit ''b'') (PStr (lit ''Rex'')) (PStr (lit ''Rey'')) (lit ''t0'')]"
  have "\<forall>x\<in>set ?ops. glossary_owner id x \<noteq> (id (lit ''ann''), id (lit ''b''))" by simp
  from glossary_isolation [OF this, of _ ascii_lower "[]"] show ?thesis
    by (simp add: list_entries_def hash_text_def utf8_len_def is_surrogate_def glossary_rows_def
        book_rows_def)
qed

text \<open>
  Insert or replace, then look up. A successful \<open>put_entry\<close> returns the stripped terms, which
  are non-empty, within the character limit and free of control characters; the row under the
  case-folded term now holds them, with the creation time of the row it replaced if there was
  one; every other row is untouched, and the entry is in the listing of that tenant and book.
\<close>

theorem glossary_put_then_list:
  assumes "put_entry cfg sha cf ten bk source target now t = (Inr (src, tgt), t')" "distinct_keys t"
  shows "(\<exists>s g. source = PStr s \<and> target = PStr g \<and> src = strip s \<and> tgt = strip g)
    \<and> src \<noteq> [] \<and> tgt \<noteq> [] \<and> length src \<le> g_max_term_chars cfg \<and> length tgt \<le> g_max_term_chars cfg
    \<and> list_all (\<lambda>c. \<not> is_ctrl c) (src @ tgt)
    \<and> map_of t' = (map_of t)((sha ten, sha bk, cf src) \<mapsto>
      \<lparr>source_text = src, target_text = tgt,
       g_created_at = (case map_of t (sha ten, sha bk, cf src) of None \<Rightarrow> now | Some r \<Rightarrow> g_created_at r),
       g_updated_at = now\<rparr>)
    \<and> (\<exists>es. list_entries sha ten bk t' = Inr es \<and> (src, tgt) \<in> set es)"
proof -
  note n = put_entry_Inr(1,2) [OF assms(1)] and facts = put_tx_Inr [OF put_entry_Inr(3) [OF assms(1)]]
  note terms = normalize_term_Inr [OF n(1)] normalize_term_Inr [OF n(2)]
  have m: "map_of t' = (map_of t)((sha ten, sha bk, cf src) \<mapsto>
      \<lparr>source_text = src, target_text = tgt,
       g_created_at = (case map_of t (sha ten, sha bk, cf src) of None \<Rightarrow> now | Some r \<Rightarrow> g_created_at r),
       g_updated_at = now\<rparr>)"
    using facts(1) by auto
  have "distinct_keys t'" using facts(1) assms(2) by auto
  then obtain r where "((sha ten, sha bk, cf src), r) \<in> set (book_rows (sha ten) (sha bk) t')"
    "source_text r = src" "target_text r = tgt"
    using m map_of_book_rows [of t' "sha ten" "sha bk" "cf src"] by fastforce
  then have "(src, tgt) \<in> set (map (\<lambda>r. (source_text (snd r), target_text (snd r)))
      (glossary_rows (sha ten) (sha bk) t'))"
    by (force simp: glossary_rows_def image_image)
  then have "\<exists>es. list_entries sha ten bk t' = Inr es \<and> (src, tgt) \<in> set es"
    using facts(4,5) by (simp add: list_entries_def hash_text_def)
  then show ?thesis using m terms by (auto simp: list_all_iff)
qed

theorem glossary_put_then_list_witness:
  "\<exists>es. list_entries id (lit ''ann'') (lit ''b'') (snd (put_entry
      \<lparr>g_max_entries = 5, g_max_term_chars = 9, g_max_tenant_entries = 9\<rparr> id ascii_lower
      (lit ''ann'') (lit ''b'') (PStr (lit '' Rex'')) (PStr (lit ''Rey '')) (lit ''t0'') []))
    = Inr es \<and> (lit ''Rex'', lit ''Rey'') \<in> set es"
proof -
  let ?cfg = "\<lparr>g_max_entries = 5, g_max_term_chars = 9, g_max_tenant_entries = 9\<rparr>"
  obtain t' where p: "put_entry ?cfg id ascii_lower (lit ''ann'') (lit ''b'') (PStr (lit '' Rex''))
      (PStr (lit ''Rey '')) (lit ''t0'') [] = (Inr (lit ''Rex'', lit ''Rey''), t')"
    by (simp add: put_entry_def put_tx_def normalize_term_def strip_def lstrip_def rstrip_def
        is_space_def is_ctrl_def hash_text_def bind_text_def utf8_len_def is_surrogate_def
        ascii_lower_def is_upper_def other_book_rows_def other_tenant_rows_def)
  show ?thesis
    unfolding p snd_conv using glossary_put_then_list [OF p distinct_keys_Nil] by (elim conjE)
qed

text \<open>
  Deleting a freshly added term restores the table. If a term was not stored before a
  successful \<open>put_entry\<close>, then \<open>delete_entry\<close> with the same tenant, book and source reports a
  removed row and leaves exactly the table there was before.
\<close>

theorem glossary_put_delete_roundtrip:
  assumes "put_entry cfg sha cf ten bk source target now t = (Inr (src, tgt), t')"
    and "map_of t (sha ten, sha bk, cf src) = None"
  shows "delete_entry cfg sha cf ten bk source t' = (Inr True, t)"
proof -
  note n = put_entry_Inr(1) [OF assms(1)] and tx = put_entry_Inr(3) [OF assms(1)]
  note facts = put_tx_Inr [OF tx]
  have nk: "(sha ten, sha bk, cf src) \<notin> fst ` set t" using assms(2) by (simp add: map_of_eq_None_iff)
  have "AList.delete k (AList.update k v t) = t" if "k \<notin> fst ` set t" for k and v :: glossary_row
    using that by (induction t) auto
  moreover have "k \<in> fst ` set (AList.update k v t)" for k and v :: glossary_row
    by (induction t) auto
  ultimately show ?thesis
    using facts nk n by (auto simp: delete_entry_def hash_text_def bind_text_def)
qed

theorem glossary_put_delete_roundtrip_witness:
  "delete_entry \<lparr>g_max_entries = 5, g_max_term_chars = 9, g_max_tenant_entries = 9\<rparr> id ascii_lower
     (lit ''ann'') (lit ''b'') (PStr (lit ''Rex'')) (snd (put_entry
      \<lparr>g_max_entries = 5, g_max_term_chars = 9, g_max_tenant_entries = 9\<rparr> id ascii_lower
      (lit ''ann'') (lit ''b'') (PStr (lit ''Rex'')) (PStr (lit ''Rey'')) (lit ''t0'') []))
   = (Inr True, [])"
proof -
  let ?cfg = "\<lparr>g_max_entries = 5, g_max_term_chars = 9, g_max_tenant_entries = 9\<rparr>"
  obtain t' where p: "put_entry ?cfg id ascii_lower (lit ''ann'') (lit ''b'') (PStr (lit ''Rex''))
      (PStr (lit ''Rey'')) (lit ''t0'') [] = (Inr (lit ''Rex'', lit ''Rey''), t')"
    by (simp add: put_entry_def put_tx_def normalize_term_def strip_def lstrip_def rstrip_def
        is_space_def is_ctrl_def hash_text_def bind_text_def utf8_len_def is_surrogate_def
        ascii_lower_def is_upper_def other_book_rows_def other_tenant_rows_def)
  show ?thesis using glossary_put_delete_roundtrip [OF p] p by simp
qed

end
