(* ===== verification/Feedback.thy ===== *)
theory Feedback
  imports Glossary
begin

section \<open>Per-paragraph feedback\<close>

text \<open>
  Models \<open>feedback.py\<close>: one rating (+1 or -1) per tenant, book and opaque paragraph key, with
  the same hashing, caps and transaction shape as the glossary.
\<close>

subsection \<open>Model\<close>

record feedback_config =
  f_max_entries :: nat
  f_max_key_chars :: nat
  f_max_tenant_entries :: nat

record feedback_row =
  f_rating :: int
  f_created_at :: pystr
  f_updated_at :: pystr

type_synonym feedback_table = "feedback_row table"

definition rating_up :: int where "rating_up = 1"
definition rating_down :: int where "rating_down = -1"

definition normalize_key :: "feedback_config \<Rightarrow> pyval \<Rightarrow> (py_error, pystr) result" where
  "normalize_key cfg v =
     (case v of
        PStr s \<Rightarrow>
          let value = strip s in
          if value = []
          then Inl (ValueError (lit ''feedback paragraph key must be a non-empty string''))
          else if f_max_key_chars cfg < length value
          then Inl (ValueError (lit ''feedback paragraph key exceeds the ''
                 @ show_nat (f_max_key_chars cfg) @ lit ''-character limit''))
          else if list_ex is_ctrl value
          then Inl (ValueError (lit ''feedback paragraph key contains control characters''))
          else Inr value
      | _ \<Rightarrow> Inl (ValueError (lit ''feedback paragraph key must be a string'')))"

text \<open>Python's \<open>==\<close> between a value and a number: booleans and floats compare numerically.\<close>

fun eq_number :: "pyval \<Rightarrow> int \<Rightarrow> bool" where
  "eq_number (PInt n) i = (n = i)"
| "eq_number (PBool b) i = ((if b then 1 else 0) = i)"
| "eq_number (PFloat (Fin r)) i = (r = real_of_int i)"
| "eq_number _ i = False"

definition normalize_rating :: "pyval \<Rightarrow> (py_error, int) result" where
  "normalize_rating v =
     (if eq_number v rating_up then Inr rating_up
      else if eq_number v rating_down then Inr rating_down
      else if v = PStr (lit ''up'') then Inr rating_up
      else if v = PStr (lit ''down'') then Inr rating_down
      else Inl (ValueError (lit ''feedback rating must be +1/-1 (or 'up'/'down')'')))"

definition feedback_tx ::
  "feedback_config \<Rightarrow> (pystr \<Rightarrow> pystr) \<Rightarrow> pystr \<Rightarrow> pystr \<Rightarrow> pystr \<Rightarrow> int \<Rightarrow> pystr
   \<Rightarrow> feedback_table \<Rightarrow> (py_error, feedback_table) result" where
  "feedback_tx cfg sha tenant book_id key score now t =
     rbind (hash_text sha tenant) (\<lambda>th. rbind (hash_text sha book_id) (\<lambda>bh.
       let k = (th, bh, key) in
       rbind (bind_text key) (\<lambda>_.
         if f_max_entries cfg \<le> other_book_rows k t
         then Inl (ValueError (lit ''feedback exceeds the '' @ show_nat (f_max_entries cfg)
                @ lit ''-entry limit''))
         else if f_max_tenant_entries cfg \<le> other_tenant_rows k t
         then Inl (ValueError (lit ''feedback exceeds the '' @ show_nat (f_max_tenant_entries cfg)
                @ lit ''-entry limit across all books''))
         else
           let created = (case map_of t k of None \<Rightarrow> now | Some r \<Rightarrow> f_created_at r) in
           Inr (AList.update k \<lparr>f_rating = score, f_created_at = created, f_updated_at = now\<rparr> t))))"

definition record_feedback ::
  "feedback_config \<Rightarrow> (pystr \<Rightarrow> pystr) \<Rightarrow> pystr \<Rightarrow> pystr \<Rightarrow> pyval \<Rightarrow> pyval \<Rightarrow> pystr
   \<Rightarrow> feedback_table \<Rightarrow> (py_error, pystr \<times> int) result \<times> feedback_table" where
  "record_feedback cfg sha tenant book_id para_key rating now t =
     (case normalize_key cfg para_key of
        Inl e \<Rightarrow> (Inl e, t)
      | Inr key \<Rightarrow>
          (case normalize_rating rating of
             Inl e \<Rightarrow> (Inl e, t)
           | Inr score \<Rightarrow>
               (case feedback_tx cfg sha tenant book_id key score now t of
                  Inl e \<Rightarrow> (Inl e, t)
                | Inr t' \<Rightarrow> (Inr (key, score), t'))))"

text \<open>\<open>GROUP BY rating\<close> followed by the two sums is a count of the rows of each rating.\<close>

record summary =
  s_up :: int
  s_down :: int
  s_total :: int
  s_score :: int

definition count_rating :: "int \<Rightarrow> feedback_table \<Rightarrow> int" where
  "count_rating r rows = int (length (filter (\<lambda>p. f_rating (snd p) = r) rows))"

definition get_summary ::
  "(pystr \<Rightarrow> pystr) \<Rightarrow> pystr \<Rightarrow> pystr \<Rightarrow> feedback_table \<Rightarrow> (py_error, summary) result" where
  "get_summary sha tenant book_id t =
     rbind (hash_text sha tenant) (\<lambda>th. rbind (hash_text sha book_id) (\<lambda>bh.
       let rows = book_rows th bh t;
           up = count_rating rating_up rows;
           down = count_rating rating_down rows
       in Inr \<lparr>s_up = up, s_down = down, s_total = up + down, s_score = up - down\<rparr>))"

subsection \<open>Calls as steps\<close>

datatype feedback_op = FRecord pystr pystr pyval pyval pystr

fun feedback_step ::
  "feedback_config \<Rightarrow> (pystr \<Rightarrow> pystr) \<Rightarrow> feedback_op \<Rightarrow> feedback_table \<Rightarrow> feedback_table" where
  "feedback_step cfg sha (FRecord ten bk key rating now) t =
     snd (record_feedback cfg sha ten bk key rating now t)"

fun feedback_owner :: "(pystr \<Rightarrow> pystr) \<Rightarrow> feedback_op \<Rightarrow> pystr \<times> pystr" where
  "feedback_owner sha (FRecord ten bk key rating now) = (sha ten, sha bk)"

subsection \<open>Facts\<close>

lemma normalize_rating_Inr: "normalize_rating v = Inr r \<Longrightarrow> r = 1 \<or> r = -1"
  by (auto simp: normalize_rating_def rating_up_def rating_down_def split: if_splits)

lemma feedback_tx_Inr:
  assumes "feedback_tx cfg sha ten bk key score now t = Inr t'"
  shows "\<exists>created. t' = AList.update (sha ten, sha bk, key)
      \<lparr>f_rating = score, f_created_at = created, f_updated_at = now\<rparr> t"
    and "other_book_rows (sha ten, sha bk, key) t < f_max_entries cfg"
    and "other_tenant_rows (sha ten, sha bk, key) t < f_max_tenant_entries cfg"
    and "utf8_len ten \<noteq> None" "utf8_len bk \<noteq> None"
  using assms
  by (auto simp: feedback_tx_def glossary_result_simps not_le split: if_splits)

lemma feedback_tx_caps:
  "feedback_tx cfg sha ten bk key score now t = Inr t' \<Longrightarrow>
   caps_ok (f_max_entries cfg) (f_max_tenant_entries cfg) t \<Longrightarrow>
   caps_ok (f_max_entries cfg) (f_max_tenant_entries cfg) t'"
  using feedback_tx_Inr(1-3) caps_ok_update by metis

lemma record_feedback_Inr:
  assumes "record_feedback cfg sha ten bk pk rating now t = (Inr (key, score), t')"
  shows "normalize_key cfg pk = Inr key" "normalize_rating rating = Inr score"
    "feedback_tx cfg sha ten bk key score now t = Inr t'"
  using assms by (auto simp: record_feedback_def split: sum.splits)

lemma record_feedback_snd:
  "snd (record_feedback cfg sha ten bk pk rating now t) = t
   \<or> (\<exists>key score. normalize_rating rating = Inr score \<and>
        feedback_tx cfg sha ten bk key score now t = Inr (snd (record_feedback cfg sha ten bk pk rating now t)))"
  by (auto simp: record_feedback_def split: sum.splits)

interpretation fb: capped_table "feedback_step cfg sha" "feedback_owner sha"
    "f_max_entries cfg" "f_max_tenant_entries cfg" for cfg sha
proof unfold_locales
  fix t :: feedback_table and x
  assume "caps_ok (f_max_entries cfg) (f_max_tenant_entries cfg) t"
  then show "caps_ok (f_max_entries cfg) (f_max_tenant_entries cfg) (feedback_step cfg sha x t)"
    using record_feedback_snd by (cases x) (metis feedback_step.simps feedback_tx_caps)
next
  fix x th bh and t :: feedback_table
  assume o: "feedback_owner sha x \<noteq> (th, bh)"
  obtain ten bk pk rating now where x: "x = FRecord ten bk pk rating now" by (cases x)
  show "book_rows th bh (feedback_step cfg sha x t) = book_rows th bh t"
    using record_feedback_snd [of cfg sha ten bk pk rating now t] o x
    by (auto dest!: feedback_tx_Inr(1) simp: book_rows_update_other)
qed

text \<open>Every stored rating is +1 or -1.\<close>

definition ratings_ok :: "feedback_table \<Rightarrow> bool" where
  "ratings_ok t \<longleftrightarrow> list_all (\<lambda>r. f_rating (snd r) = 1 \<or> f_rating (snd r) = -1) t"

lemma ratings_ok_update:
  "ratings_ok t \<Longrightarrow> f_rating v = 1 \<or> f_rating v = -1 \<Longrightarrow> ratings_ok (AList.update k v t)"
  by (induction t) (auto simp: ratings_ok_def)

lemma ratings_ok_step: "ratings_ok t \<Longrightarrow> ratings_ok (feedback_step cfg sha x t)"
proof -
  assume ok: "ratings_ok t"
  obtain ten bk pk rating now where x: "x = FRecord ten bk pk rating now" by (cases x)
  show ?thesis
    using record_feedback_snd [of cfg sha ten bk pk rating now t] ok x
    by (auto dest!: feedback_tx_Inr(1) normalize_rating_Inr intro!: ratings_ok_update)
qed

lemma ratings_ok_run: "ratings_ok t \<Longrightarrow> ratings_ok (fold (feedback_step cfg sha) ops t)"
  by (induction ops arbitrary: t) (simp_all add: ratings_ok_step)

lemma count_ratings_total:
  "list_all (\<lambda>r. f_rating (snd r) = 1 \<or> f_rating (snd r) = -1) rows \<Longrightarrow>
   count_rating 1 rows + count_rating (-1) rows = int (length rows)"
  by (induction rows) (auto simp: count_rating_def)

lemma ratings_ok_book: "ratings_ok t \<Longrightarrow> ratings_ok (book_rows th bh t)"
  by (auto simp: ratings_ok_def list_all_iff book_rows_def)

subsection \<open>Properties\<close>

text \<open>
  The summary accounts for every stored rating. After any sequence of calls on an empty
  table, the totals of a tenant and book add up to the number of its rows, which is at most
  \<open>FEEDBACK_MAX_ENTRIES\<close>, and the score lies between minus and plus that number.
\<close>

theorem feedback_summary_accounts:
  assumes "get_summary sha ten bk (fold (feedback_step cfg sha) ops []) = Inr s"
  shows "s_total s = int (length (book_rows (sha ten) (sha bk) (fold (feedback_step cfg sha) ops [])))
    \<and> s_total s = s_up s + s_down s \<and> s_score s = s_up s - s_down s
    \<and> 0 \<le> s_up s \<and> 0 \<le> s_down s \<and> s_total s \<le> int (f_max_entries cfg)
    \<and> \<bar>s_score s\<bar> \<le> s_total s"
proof -
  let ?t = "fold (feedback_step cfg sha) ops []"
  let ?rows = "book_rows (sha ten) (sha bk) ?t"
  have "ratings_ok ?t" by (rule ratings_ok_run) (simp add: ratings_ok_def)
  then have "ratings_ok ?rows" by (rule ratings_ok_book)
  then have tot: "count_rating 1 ?rows + count_rating (-1) ?rows = int (length ?rows)"
    using count_ratings_total by (simp add: ratings_ok_def)
  have "caps_ok (f_max_entries cfg) (f_max_tenant_entries cfg) ?t"
    by (rule fb.run_caps) simp
  then have cap: "length ?rows \<le> f_max_entries cfg" by (simp add: caps_ok_def)
  have s: "s_up s = count_rating 1 ?rows" "s_down s = count_rating (-1) ?rows"
    "s_total s = s_up s + s_down s" "s_score s = s_up s - s_down s"
    using assms
    by (auto simp: get_summary_def glossary_result_simps rating_up_def rating_down_def)
  have nn: "0 \<le> s_up s" "0 \<le> s_down s" by (simp_all add: s count_rating_def)
  have "s_total s = int (length ?rows)" using s tot by simp
  moreover have "s_total s \<le> int (f_max_entries cfg)" using s tot cap by simp
  moreover have "\<bar>s_score s\<bar> \<le> s_total s" using s nn by simp
  ultimately show ?thesis using s nn by simp
qed

theorem feedback_summary_accounts_witness:
  "s_total (projr (get_summary id (lit ''ann'') (lit ''b'') (fold (feedback_step
      \<lparr>f_max_entries = 5, f_max_key_chars = 9, f_max_tenant_entries = 9\<rparr> id)
      [FRecord (lit ''ann'') (lit ''b'') (PStr (lit ''p1'')) (PStr (lit ''up'')) (lit ''t0'')] []))) \<le> 5"
proof -
  let ?cfg = "\<lparr>f_max_entries = 5, f_max_key_chars = 9, f_max_tenant_entries = 9\<rparr>"
  let ?ops = "[FRecord (lit ''ann'') (lit ''b'') (PStr (lit ''p1'')) (PStr (lit ''up'')) (lit ''t0'')]"
  obtain s where s: "get_summary id (lit ''ann'') (lit ''b'') (fold (feedback_step ?cfg id) ?ops []) = Inr s"
    by (simp add: get_summary_def hash_text_def utf8_len_def is_surrogate_def Let_def
        del: fold_simps)
  show ?thesis using feedback_summary_accounts [OF s] s by simp
qed

text \<open>
  Recording a rating is an upsert on the paragraph. A successful \<open>record_feedback\<close> returns
  the stripped key and +1 or -1; the row of that paragraph now has that rating, every other
  row is untouched, and so a second vote replaces the first instead of adding to it.
\<close>

theorem feedback_upsert:
  assumes "record_feedback cfg sha ten bk pk rating now t = (Inr (key, score), t')"
    and "distinct_keys t"
  shows "(\<exists>s. pk = PStr s \<and> key = strip s) \<and> (score = 1 \<or> score = -1)
    \<and> map_option f_rating (map_of t' (sha ten, sha bk, key)) = Some score
    \<and> map_of t' = (map_of t)((sha ten, sha bk, key) := map_of t' (sha ten, sha bk, key))
    \<and> length (book_rows (sha ten) (sha bk) t') = Suc (other_book_rows (sha ten, sha bk, key) t)"
proof -
  note r = record_feedback_Inr [OF assms(1)]
  have k: "\<exists>s. pk = PStr s \<and> key = strip s"
    using r(1) by (auto simp: normalize_key_def Let_def split: pyval.splits if_splits)
  have sc: "score = 1 \<or> score = -1" using normalize_rating_Inr [OF r(2)] .
  obtain c where t': "t' = AList.update (sha ten, sha bk, key)
      \<lparr>f_rating = score, f_created_at = c, f_updated_at = now\<rparr> t"
    using feedback_tx_Inr(1) [OF r(3)] by blast
  show ?thesis
    using k sc assms(2) by (simp add: t' length_book_rows_update)
qed

theorem feedback_upsert_witness:
  "map_option f_rating (map_of (snd (record_feedback
      \<lparr>f_max_entries = 5, f_max_key_chars = 9, f_max_tenant_entries = 9\<rparr> id
      (lit ''ann'') (lit ''b'') (PStr (lit ''p1'')) (PInt (-1)) (lit ''t0'') []))
      (lit ''ann'', lit ''b'', lit ''p1'')) = Some (-1)"
proof -
  let ?cfg = "\<lparr>f_max_entries = 5, f_max_key_chars = 9, f_max_tenant_entries = 9\<rparr>"
  obtain t' where p: "record_feedback ?cfg id (lit ''ann'') (lit ''b'') (PStr (lit ''p1''))
      (PInt (-1)) (lit ''t0'') [] = (Inr (lit ''p1'', -1), t')"
    by (simp add: record_feedback_def feedback_tx_def normalize_key_def normalize_rating_def
        rating_up_def rating_down_def strip_def lstrip_def rstrip_def is_space_def is_ctrl_def
        hash_text_def bind_text_def utf8_len_def is_surrogate_def other_book_rows_def
        other_tenant_rows_def)
  show ?thesis
    unfolding p snd_conv using feedback_upsert [OF p distinct_keys_Nil] by simp
qed

end
