(* ===== verification/Iso_Time.thy ===== *)
theory Iso_Time
  imports Prelude
begin

section \<open>UTC timestamps as ISO text\<close>

text \<open>
  \<open>cache.py\<close> stores \<open>datetime.isoformat()\<close> texts and compares them as text. A UTC timestamp is
  its broken-down fields; \<open>isoformat\<close> prints them the way \<open>datetime\<close> does, leaving the
  microseconds out when they are zero. The main result is that text order is time order, so
  that comparing the stored texts is sound. \<open>minus_days\<close> is \<open>now - timedelta(days=n)\<close>.
\<close>

subsection \<open>Model\<close>

text \<open>year, month, day, hour, minute, second, microsecond\<close>

type_synonym date = "nat \<times> nat \<times> nat"
type_synonym clock = "nat \<times> nat \<times> nat \<times> nat"
type_synonym datetime = "date \<times> clock"

text \<open>The last \<open>k\<close> decimal digits of \<open>n\<close>, most significant first.\<close>

fun pad :: "nat \<Rightarrow> nat \<Rightarrow> pystr" where
  "pad 0 n = []"
| "pad (Suc k) n = (48 + n div 10 ^ k mod 10) # pad k (n mod 10 ^ k)"

definition iso_clock :: "clock \<Rightarrow> pystr" where
  "iso_clock c = (case c of (h, mi, s, us) \<Rightarrow>
     pad 2 h @ 58 # pad 2 mi @ 58 # pad 2 s
     @ (if us = 0 then [] else 46 # pad 6 us) @ lit ''+00:00'')"

definition iso_date :: "date \<Rightarrow> pystr" where
  "iso_date d = (case d of (y, m, dd) \<Rightarrow> pad 4 y @ 45 # pad 2 m @ 45 # pad 2 dd)"

definition isoformat :: "datetime \<Rightarrow> pystr" where
  "isoformat t = iso_date (fst t) @ 84 # iso_clock (snd t)"

definition leap :: "nat \<Rightarrow> bool" where
  "leap y \<longleftrightarrow> y mod 4 = 0 \<and> (y mod 100 \<noteq> 0 \<or> y mod 400 = 0)"

definition days_in_month :: "nat \<Rightarrow> nat \<Rightarrow> nat" where
  "days_in_month y m =
     (if m = 2 then (if leap y then 29 else 28) else if m \<in> {4, 6, 9, 11} then 30 else 31)"

definition valid_date :: "date \<Rightarrow> bool" where
  "valid_date d \<longleftrightarrow> (case d of (y, m, dd) \<Rightarrow>
     1 \<le> y \<and> y \<le> 9999 \<and> 1 \<le> m \<and> m \<le> 12 \<and> 1 \<le> dd \<and> dd \<le> days_in_month y m)"

definition valid_clock :: "clock \<Rightarrow> bool" where
  "valid_clock c \<longleftrightarrow> (case c of (h, mi, s, us) \<Rightarrow> h < 24 \<and> mi < 60 \<and> s < 60 \<and> us < 1000000)"

definition valid_datetime :: "datetime \<Rightarrow> bool" where
  "valid_datetime t \<longleftrightarrow> valid_date (fst t) \<and> valid_clock (snd t)"

text \<open>The day before; \<open>None\<close> is the \<open>OverflowError\<close> before 1 January of year 1.\<close>

definition prev_day :: "date \<Rightarrow> date option" where
  "prev_day d = (case d of (y, m, dd) \<Rightarrow>
     if 1 < dd then Some (y, m, dd - 1)
     else if 1 < m then Some (y, m - 1, days_in_month y (m - 1))
     else if 1 < y then Some (y - 1, 12, 31)
     else None)"

fun days_before :: "nat \<Rightarrow> date \<Rightarrow> date option" where
  "days_before 0 d = Some d"
| "days_before (Suc n) d = (case prev_day d of None \<Rightarrow> None | Some d' \<Rightarrow> days_before n d')"

definition minus_days :: "datetime \<Rightarrow> nat \<Rightarrow> datetime option" where
  "minus_days t n = map_option (\<lambda>d. (d, snd t)) (days_before n (fst t))"

subsection \<open>Text order is time order\<close>

lemma length_pad [simp]: "length (pad k n) = k"
  by (induction k arbitrary: n) auto

lemma append_less_append:
  fixes xs ys us vs :: "'a::linorder list"
  assumes "length xs = length ys"
  shows "xs @ us < ys @ vs \<longleftrightarrow> xs < ys \<or> xs = ys \<and> us < vs"
  using assms by (induction xs ys rule: list_induct2) auto

lemma pad_inj: "m < 10 ^ k \<Longrightarrow> n < 10 ^ k \<Longrightarrow> pad k m = pad k n \<Longrightarrow> m = n"
proof (induction k arbitrary: m n)
  case (Suc k)
  have q: "m div 10 ^ k < 10" "n div 10 ^ k < 10"
    using Suc.prems by (simp_all add: div_less_iff_less_mult mult.commute)
  have "m div 10 ^ k = n div 10 ^ k" using Suc.prems(3) q by simp
  moreover have "m mod 10 ^ k = n mod 10 ^ k" using Suc.prems(3) by (intro Suc.IH) simp_all
  ultimately show ?case by (metis div_mult_mod_eq)
qed simp

lemma less_div_mod:
  fixes m n p :: nat
  shows "m < n \<longleftrightarrow> m div p < n div p \<or> m div p = n div p \<and> m mod p < n mod p"
proof -
  consider "m div p < n div p" | "m div p = n div p" | "n div p < m div p" by linarith
  then show ?thesis
  proof cases
    case 1
    then have "m < n" using div_le_mono [of n m p] by linarith
    then show ?thesis using 1 by simp
  next
    case 2
    then show ?thesis
      using div_mult_mod_eq [of m p] div_mult_mod_eq [of n p] by (metis nat_add_left_cancel_less less_irrefl)
  next
    case 3
    then have "n < m" using div_le_mono [of m n p] by linarith
    then show ?thesis using 3 by simp
  qed
qed

lemma pad_less: "m < 10 ^ k \<Longrightarrow> n < 10 ^ k \<Longrightarrow> pad k m < pad k n \<longleftrightarrow> m < n"
proof (induction k arbitrary: m n)
  case (Suc k)
  let ?p = "10 ^ k :: nat"
  have q: "m div ?p < 10" "n div ?p < 10"
    using Suc.prems by (simp_all add: div_less_iff_less_mult mult.commute)
  have IH: "pad k (m mod ?p) < pad k (n mod ?p) \<longleftrightarrow> m mod ?p < n mod ?p"
    by (rule Suc.IH) simp_all
  have "m < n \<longleftrightarrow> m div ?p < n div ?p \<or> m div ?p = n div ?p \<and> m mod ?p < n mod ?p"
    by (rule less_div_mod)
  then show ?case using q IH by simp
qed simp

lemma pair_less: "(a, b) < (c, d) \<longleftrightarrow> a < c \<or> a = c \<and> b < d"
  for a c :: "'a::order" and b d :: "'b::order"
  by (auto simp: less_prod_def)

lemma micro_less:
  assumes "us < 1000000" "us' < 1000000"
  shows "(if us = 0 then [] else 46 # pad 6 us) @ lit ''+00:00'' <
         (if us' = 0 then [] else 46 # pad 6 us') @ lit ''+00:00'' \<longleftrightarrow> us < us'"
proof -
  have "pad 6 us @ lit ''+00:00'' < pad 6 us' @ lit ''+00:00'' \<longleftrightarrow> us < us'"
    using assms pad_less [of us 6 us'] by (subst append_less_append) simp_all
  then show ?thesis by auto
qed

lemma iso_clock_less:
  assumes "valid_clock c" "valid_clock c'"
  shows "iso_clock c < iso_clock c' \<longleftrightarrow> c < c'"
proof -
  obtain h mi s us where c: "c = (h, mi, s, us)" by (cases c)
  obtain h' mi' s' us' where c': "c' = (h', mi', s', us')" by (cases c')
  have b: "h < 10 ^ 2" "mi < 10 ^ 2" "s < 10 ^ 2" "us < 1000000"
    "h' < 10 ^ 2" "mi' < 10 ^ 2" "s' < 10 ^ 2" "us' < 1000000"
    using assms by (auto simp: c c' valid_clock_def)
  have inj: "pad 2 h = pad 2 h' \<longleftrightarrow> h = h'" "pad 2 mi = pad 2 mi' \<longleftrightarrow> mi = mi'"
    "pad 2 s = pad 2 s' \<longleftrightarrow> s = s'"
    using pad_inj b by blast+
  show ?thesis
    unfolding iso_clock_def c c' prod.case
    by (simp only: append_less_append length_pad pad_less b inj Cons_less_Cons pair_less
        micro_less less_irrefl simp_thms)
qed

lemma length_iso_date [simp]: "length (iso_date d) = 10"
  by (cases d) (simp add: iso_date_def)

lemma iso_date_bounds: "valid_date (y, m, dd) \<Longrightarrow> y < 10 ^ 4 \<and> m < 10 ^ 2 \<and> dd < 10 ^ 2"
  by (auto simp: valid_date_def days_in_month_def split: if_splits)

lemma iso_date_less:
  assumes "valid_date d" "valid_date d'"
  shows "iso_date d < iso_date d' \<longleftrightarrow> d < d'" and "iso_date d = iso_date d' \<longleftrightarrow> d = d'"
proof -
  obtain y m dd where d: "d = (y, m, dd)" by (cases d)
  obtain y' m' dd' where d': "d' = (y', m', dd')" by (cases d')
  have b: "y < 10 ^ 4" "m < 10 ^ 2" "dd < 10 ^ 2" "y' < 10 ^ 4" "m' < 10 ^ 2" "dd' < 10 ^ 2"
    using assms iso_date_bounds d d' by blast+
  have inj: "pad 4 y = pad 4 y' \<longleftrightarrow> y = y'" "pad 2 m = pad 2 m' \<longleftrightarrow> m = m'"
    "pad 2 dd = pad 2 dd' \<longleftrightarrow> dd = dd'"
    using pad_inj b by blast+
  show "iso_date d < iso_date d' \<longleftrightarrow> d < d'"
    unfolding iso_date_def d d' prod.case
    by (simp only: append_less_append length_pad pad_less b inj Cons_less_Cons pair_less
        less_irrefl simp_thms)
  show "iso_date d = iso_date d' \<longleftrightarrow> d = d'"
    unfolding iso_date_def d d' prod.case
    by (simp only: append_eq_append_conv length_pad list.inject inj prod.inject simp_thms)
qed

theorem isoformat_less:
  assumes "valid_datetime t" "valid_datetime t'"
  shows "isoformat t < isoformat t' \<longleftrightarrow> t < t'"
proof -
  have "isoformat t < isoformat t' \<longleftrightarrow>
      iso_date (fst t) < iso_date (fst t')
      \<or> iso_date (fst t) = iso_date (fst t') \<and> iso_clock (snd t) < iso_clock (snd t')"
    unfolding isoformat_def by (subst append_less_append) simp_all
  also have "\<dots> \<longleftrightarrow> fst t < fst t' \<or> fst t = fst t' \<and> snd t < snd t'"
    using assms by (simp add: valid_datetime_def iso_date_less iso_clock_less)
  also have "\<dots> \<longleftrightarrow> t < t'" by (cases t; cases t') (simp only: pair_less fst_conv snd_conv)
  finally show ?thesis .
qed

subsection \<open>Going back in days\<close>

lemma prev_day_valid: "valid_date d \<Longrightarrow> prev_day d = Some d' \<Longrightarrow> valid_date d' \<and> d' < d"
proof -
  assume v: "valid_date d" and p: "prev_day d = Some d'"
  obtain y m dd where d: "d = (y, m, dd)" by (cases d)
  have b: "1 \<le> days_in_month y (m - 1)" "days_in_month (y - 1) 12 = 31"
    by (simp_all add: days_in_month_def)
  show ?thesis
    using v p b by (auto simp: d prev_day_def valid_date_def pair_less split: if_splits)
qed

lemma days_before_valid:
  "valid_date d \<Longrightarrow> days_before n d = Some d' \<Longrightarrow> valid_date d' \<and> d' \<le> d \<and> (0 < n \<longrightarrow> d' < d)"
proof (induction n arbitrary: d)
  case (Suc n)
  then obtain e where e: "prev_day d = Some e" "days_before n e = Some d'"
    by (auto split: option.splits)
  have "valid_date e" "e < d" using prev_day_valid [OF Suc.prems(1) e(1)] by auto
  then show ?case using Suc.IH [OF _ e(2)] by auto
qed simp

lemma minus_days_valid:
  "valid_datetime t \<Longrightarrow> minus_days t n = Some t' \<Longrightarrow> valid_datetime t' \<and> t' \<le> t \<and> (0 < n \<longrightarrow> t' < t)"
  using days_before_valid [of "fst t" n]
  by (cases t) (auto simp: minus_days_def valid_datetime_def less_eq_prod_def pair_less)

end
