(* ===== verification/Cache_Store.thy ===== *)
theory Cache_Store
  imports Cache_Scope Iso_Time
begin

section \<open>The translation cache\<close>

text \<open>
  Models \<open>CacheStore\<close> of \<open>cache.py\<close>: the rows of \<open>translations_v2\<close> in insertion order, the
  in-memory hit counters and the write watermark. Every call takes the clock readings it makes
  as UTC timestamps, compares their ISO texts as the SQL does, and returns its result with the
  store it leaves. SQLite statements succeed, except that binding a text with a lone surrogate
  raises as it does in the driver; a raising transaction is rolled back. Connections, file
  modes and logging are not modelled.
\<close>

subsection \<open>Model\<close>

record cache_row =
  cr_tenant_hash :: pystr
  cr_book_hash :: pystr
  cr_chapter_hash :: pystr
  cr_context_hash :: pystr
  cr_source_lang :: pystr
  cr_target_lang :: pystr
  cr_translated_text :: pystr
  cr_provider :: pystr
  cr_model :: pystr
  cr_prompt_hash :: pystr
  cr_protocol_version :: pystr
  cr_created_at :: pystr
  cr_last_accessed_at :: pystr
  cr_hit_count :: int

type_synonym cache_rows = "(pystr, cache_row) odict"

record cache_store =
  cs_ttl_days :: nat
  cs_max_entries :: nat
  cs_hit_flush_threshold :: nat
  cs_rows :: cache_rows
  cs_pending_hits :: "(pystr, nat) odict"
  cs_pending_hits_total :: nat
  cs_writes_since_prune :: nat

definition cutoff :: "datetime \<Rightarrow> nat \<Rightarrow> (py_error, pystr) result" where
  "cutoff now days =
     (case minus_days now days of None \<Rightarrow> Inl OverflowError | Some t \<Rightarrow> Inr (isoformat t))"

definition delete_expired :: "pystr \<Rightarrow> cache_rows \<Rightarrow> cache_rows" where
  "delete_expired limit rows = filter (\<lambda>p. \<not> cr_created_at (snd p) < limit) rows"

text \<open>\<open>ORDER BY last_accessed_at DESC, created_at DESC, cache_key DESC LIMIT -1 OFFSET n\<close>.\<close>

definition recency :: "pystr \<times> cache_row \<Rightarrow> pystr \<times> pystr \<times> pystr" where
  "recency p = (cr_last_accessed_at (snd p), cr_created_at (snd p), fst p)"

definition by_recency :: "cache_rows \<Rightarrow> cache_rows" where
  "by_recency rows = rev (sort_key recency rows)"

definition enforce_cap :: "nat \<Rightarrow> cache_rows \<Rightarrow> cache_rows" where
  "enforce_cap n rows =
     (let doomed = map fst (drop n (by_recency rows))
      in filter (\<lambda>p. fst p \<notin> set doomed) rows)"

fun check_positive :: "(string \<times> pyval) list \<Rightarrow> (py_error, unit) result" where
  "check_positive [] = Inr ()"
| "check_positive ((name, v) # rest) =
     (if is_pos_int v then check_positive rest
      else Inl (ValueError (lit name @ lit '' must be a positive integer'')))"

text \<open>The constructor: argument checks, then \<open>init\<close> prunes what the database file holds.\<close>

definition cs_open ::
  "pyval \<Rightarrow> pyval \<Rightarrow> pyval \<Rightarrow> datetime \<Rightarrow> cache_rows \<Rightarrow> (py_error, cache_store) result" where
  "cs_open ttl_days max_entries flush_threshold now rows =
     rbind (check_positive [(''ttl_days'', ttl_days), (''max_entries'', max_entries),
                            (''hit_flush_threshold'', flush_threshold)]) (\<lambda>_.
     rbind (cutoff now (nat (int_of ttl_days))) (\<lambda>limit.
       Inr \<lparr>cs_ttl_days = nat (int_of ttl_days), cs_max_entries = nat (int_of max_entries),
            cs_hit_flush_threshold = nat (int_of flush_threshold),
            cs_rows = enforce_cap (nat (int_of max_entries)) (delete_expired limit rows),
            cs_pending_hits = [], cs_pending_hits_total = 0, cs_writes_since_prune = 0\<rparr>))"

subsubsection \<open>Hit counters\<close>

definition bump_hit :: "pystr \<Rightarrow> (pystr \<times> nat) \<Rightarrow> cache_rows \<Rightarrow> cache_rows" where
  "bump_hit accessed_at kc rows =
     AList.map_entry (fst kc)
       (\<lambda>r. r\<lparr>cr_hit_count := cr_hit_count r + int (snd kc), cr_last_accessed_at := accessed_at\<rparr>) rows"

definition flush_hits :: "datetime \<Rightarrow> cache_store \<Rightarrow> nat \<times> cache_store" where
  "flush_hits now st =
     (if cs_pending_hits st = [] then (0, st)
      else (cs_pending_hits_total st,
            st\<lparr>cs_rows := fold (bump_hit (isoformat now)) (cs_pending_hits st) (cs_rows st),
               cs_pending_hits := [], cs_pending_hits_total := 0\<rparr>))"

definition queue_hit :: "datetime \<Rightarrow> pystr \<Rightarrow> cache_store \<Rightarrow> cache_store" where
  "queue_hit now key st =
     (let count = (case map_of (cs_pending_hits st) key of None \<Rightarrow> 0 | Some n \<Rightarrow> n);
          st' = st\<lparr>cs_pending_hits := AList.update key (Suc count) (cs_pending_hits st),
                   cs_pending_hits_total := Suc (cs_pending_hits_total st)\<rparr>
      in if cs_hit_flush_threshold st' \<le> cs_pending_hits_total st'
         then snd (flush_hits now st') else st')"

definition record_hit ::
  "(pystr \<Rightarrow> pystr) \<Rightarrow> datetime \<Rightarrow> pyval \<Rightarrow> pyval \<Rightarrow> pyval \<Rightarrow> scope_arg \<Rightarrow> cache_store
   \<Rightarrow> (py_error, unit) result \<times> cache_store" where
  "record_hit sha now text sl tg scope st =
     (case compute_key sha text sl tg scope of
        Inl e \<Rightarrow> (Inl e, st)
      | Inr key \<Rightarrow> (Inr (), queue_hit now key st))"

subsubsection \<open>Reading\<close>

fun text_of :: "pyval \<Rightarrow> pystr" where
  "text_of (PStr s) = s"
| "text_of _ = []"

definition cs_get ::
  "(pystr \<Rightarrow> pystr) \<Rightarrow> datetime \<Rightarrow> datetime \<Rightarrow> pyval \<Rightarrow> pyval \<Rightarrow> pyval \<Rightarrow> scope_arg \<Rightarrow> bool
   \<Rightarrow> cache_store \<Rightarrow> (py_error, pystr option) result \<times> cache_store" where
  "cs_get sha now flush_now text sl tg scope rec st =
     (case compute_key sha text sl tg scope of
        Inl e \<Rightarrow> (Inl e, st)
      | Inr key \<Rightarrow>
         (case cutoff now (cs_ttl_days st) of
            Inl e \<Rightarrow> (Inl e, st)
          | Inr limit \<Rightarrow>
             (case map_of (cs_rows st) key of
                None \<Rightarrow> (Inr None, st)
              | Some row \<Rightarrow>
                  if cr_created_at row < limit
                  then (Inr None, st\<lparr>cs_rows := AList.delete key (cs_rows st)\<rparr>)
                  else if cached_reasoning (text_of text) (cr_translated_text row)
                  then (Inr None, st)
                  else (Inr (Some (cr_translated_text row)),
                        if rec then queue_hit flush_now key st else st))))"

type_synonym cache_query = "pyval \<times> pyval \<times> pyval \<times> scope_arg"

fun query_key :: "(pystr \<Rightarrow> pystr) \<Rightarrow> cache_query \<Rightarrow> (py_error, pystr) result" where
  "query_key sha (text, sl, tg, scope) = compute_key sha text sl tg scope"

fun collect_hits ::
  "datetime \<Rightarrow> bool \<Rightarrow> (pystr \<rightharpoonup> pystr) \<Rightarrow> (pystr \<times> pystr) list \<Rightarrow> cache_store
   \<Rightarrow> pystr option list \<times> cache_store" where
  "collect_hits now rec found [] st = ([], st)"
| "collect_hits now rec found ((text, key) # rest) st =
     (case found key of
        None \<Rightarrow> (let (out, st') = collect_hits now rec found rest st in (None # out, st'))
      | Some translated \<Rightarrow>
          if cached_reasoning text translated
          then (let (out, st') = collect_hits now rec found rest st in (None # out, st'))
          else (let st1 = (if rec then queue_hit now key st else st);
                    (out, st') = collect_hits now rec found rest st1
                in (Some translated # out, st')))"

definition cs_get_many ::
  "(pystr \<Rightarrow> pystr) \<Rightarrow> datetime \<Rightarrow> datetime \<Rightarrow> cache_query list \<Rightarrow> bool
   \<Rightarrow> cache_store \<Rightarrow> (py_error, pystr option list) result \<times> cache_store" where
  "cs_get_many sha now flush_now queries rec st =
     (if queries = [] then (Inr [], st)
      else case rmap (query_key sha) queries of
        Inl e \<Rightarrow> (Inl e, st)
      | Inr keys \<Rightarrow>
         (case cutoff now (cs_ttl_days st) of
            Inl e \<Rightarrow> (Inl e, st)
          | Inr limit \<Rightarrow>
              let expired = (\<lambda>p. fst p \<in> set keys \<and> cr_created_at (snd p) < limit);
                  found = (\<lambda>k. case map_of (cs_rows st) k of None \<Rightarrow> None
                            | Some r \<Rightarrow> if cr_created_at r < limit then None else Some (cr_translated_text r));
                  st1 = st\<lparr>cs_rows := filter (\<lambda>p. \<not> expired p) (cs_rows st)\<rparr>;
                  (out, st2) = collect_hits flush_now rec found
                    (zip (map (\<lambda>q. text_of (fst q)) queries) keys) st1
              in (Inr out, st2)))"

subsubsection \<open>Writing\<close>

type_synonym cache_entry = "pyval \<times> pyval \<times> pyval \<times> pyval \<times> scope_arg"

fun scope_get :: "scope_arg \<Rightarrow> cache_scope option" where
  "scope_get (Scope s) = Some s"
| "scope_get _ = None"

fun make_row ::
  "(pystr \<Rightarrow> pystr) \<Rightarrow> pystr \<Rightarrow> cache_entry \<Rightarrow> (py_error, pystr \<times> cache_row) result" where
  "make_row sha now (text, sl, tg, translated, scope) =
     (if (case translated of PStr s \<Rightarrow> strip s = [] | _ \<Rightarrow> True)
      then Inl (ValueError (lit ''translated_text must be a non-empty string''))
      else rbind (compute_key sha text sl tg scope) (\<lambda>key.
        case scope_get scope of
          None \<Rightarrow> Inl (ValueError (lit ''cache_scope must be a CacheScope''))
        | Some s \<Rightarrow> Inr (key,
            \<lparr>cr_tenant_hash = sha (sc_tenant s), cr_book_hash = sha (sc_book_id s),
             cr_chapter_hash = sha (sc_chapter_id s), cr_context_hash = sha (sc_context_hash s),
             cr_source_lang = strip (text_of sl), cr_target_lang = strip (text_of tg),
             cr_translated_text = text_of translated, cr_provider = sc_provider s,
             cr_model = sc_model s, cr_prompt_hash = sc_prompt_hash s,
             cr_protocol_version = sc_protocol_version s, cr_created_at = now,
             cr_last_accessed_at = now, cr_hit_count = 0\<rparr>)))"

text \<open>\<open>INSERT \<dots> ON CONFLICT(cache_key) DO UPDATE\<close>: hashes, languages and hits are kept.\<close>

definition upsert_row :: "pystr \<times> cache_row \<Rightarrow> cache_rows \<Rightarrow> cache_rows" where
  "upsert_row kr rows =
     (case map_of rows (fst kr) of
        None \<Rightarrow> rows @ [kr]
      | Some old \<Rightarrow>
          AList.update (fst kr)
            (old\<lparr>cr_translated_text := cr_translated_text (snd kr),
                cr_provider := cr_provider (snd kr), cr_model := cr_model (snd kr),
                cr_prompt_hash := cr_prompt_hash (snd kr),
                cr_protocol_version := cr_protocol_version (snd kr),
                cr_created_at := cr_created_at (snd kr),
                cr_last_accessed_at := cr_last_accessed_at (snd kr)\<rparr>) rows)"

definition prune_threshold :: "cache_store \<Rightarrow> nat" where
  "prune_threshold st = min 1000 (cs_max_entries st)"

definition put_rows ::
  "datetime \<Rightarrow> (pystr \<times> cache_row) list \<Rightarrow> cache_store \<Rightarrow> (py_error, unit) result \<times> cache_store" where
  "put_rows prune_now new st =
     (if list_ex (\<lambda>kr. utf8_len (cr_translated_text (snd kr)) = None) new
      then (Inl UnicodeEncodeError, st)
      else
        let rows = fold upsert_row new (cs_rows st);
            writes = cs_writes_since_prune st + length new
        in if prune_threshold st \<le> writes
           then (case cutoff prune_now (cs_ttl_days st) of
                   Inl e \<Rightarrow> (Inl e, st\<lparr>cs_writes_since_prune := 0\<rparr>)
                 | Inr limit \<Rightarrow>
                     (Inr (), st\<lparr>cs_rows := enforce_cap (cs_max_entries st) (delete_expired limit rows),
                                cs_writes_since_prune := 0\<rparr>))
           else (Inr (), st\<lparr>cs_rows := rows, cs_writes_since_prune := writes\<rparr>))"

definition put_many ::
  "(pystr \<Rightarrow> pystr) \<Rightarrow> datetime \<Rightarrow> datetime \<Rightarrow> cache_entry list \<Rightarrow> cache_store
   \<Rightarrow> (py_error, unit) result \<times> cache_store" where
  "put_many sha now prune_now entries st =
     (if entries = [] then (Inl (ValueError (lit ''cache entries must be one non-empty list'')), st)
      else case rmap (make_row sha (isoformat now)) entries of
        Inl e \<Rightarrow> (Inl e, st)
      | Inr new \<Rightarrow> put_rows prune_now new st)"

definition cs_put ::
  "(pystr \<Rightarrow> pystr) \<Rightarrow> datetime \<Rightarrow> datetime \<Rightarrow> pyval \<Rightarrow> pyval \<Rightarrow> pyval \<Rightarrow> pyval \<Rightarrow> scope_arg
   \<Rightarrow> cache_store \<Rightarrow> (py_error, unit) result \<times> cache_store" where
  "cs_put sha now prune_now text sl tg translated scope st =
     put_many sha now prune_now [(text, sl, tg, translated, scope)] st"

definition cleanup ::
  "datetime \<Rightarrow> datetime \<Rightarrow> pyval option \<Rightarrow> cache_store \<Rightarrow> (py_error, nat) result \<times> cache_store" where
  "cleanup flush_now now days st =
     (case (case days of None \<Rightarrow> Some (cs_ttl_days st)
              | Some v \<Rightarrow> if is_pos_int v then Some (nat (int_of v)) else None) of
        None \<Rightarrow> (Inl (ValueError (lit ''days must be a positive integer'')), st)
      | Some n \<Rightarrow>
          let st1 = snd (flush_hits flush_now st) in
          (case cutoff now n of
             Inl e \<Rightarrow> (Inl e, st1)
           | Inr limit \<Rightarrow>
               let kept = delete_expired limit (cs_rows st1) in
               (Inr (length (cs_rows st1) - length kept),
                st1\<lparr>cs_rows := enforce_cap (cs_max_entries st1) kept\<rparr>)))"

text \<open>The counts of \<open>stats\<close>: rows that are not expired, and their hits.\<close>

definition cache_stats ::
  "datetime \<Rightarrow> datetime \<Rightarrow> cache_store \<Rightarrow> (py_error, nat \<times> int) result \<times> cache_store" where
  "cache_stats flush_now now st =
     (let st1 = snd (flush_hits flush_now st) in
      (case cutoff now (cs_ttl_days st1) of
         Inl e \<Rightarrow> (Inl e, st1)
       | Inr limit \<Rightarrow>
           let live = delete_expired limit (cs_rows st1)
           in (Inr (length live, sum_list (map (\<lambda>p. cr_hit_count (snd p)) live)), st1)))"

subsection \<open>Calls as steps\<close>

datatype cache_op =
    CGet datetime datetime pyval pyval pyval scope_arg bool
  | CGetMany datetime datetime "cache_query list" bool
  | CRecordHit datetime pyval pyval pyval scope_arg
  | CPutMany datetime datetime "cache_entry list"
  | CCleanup datetime datetime "pyval option"
  | CStats datetime datetime
  | CFlush datetime

fun cache_step :: "(pystr \<Rightarrow> pystr) \<Rightarrow> cache_op \<Rightarrow> cache_store \<Rightarrow> cache_store" where
  "cache_step sha (CGet now fl t s g sc rec) st = snd (cs_get sha now fl t s g sc rec st)"
| "cache_step sha (CGetMany now fl qs rec) st = snd (cs_get_many sha now fl qs rec st)"
| "cache_step sha (CRecordHit now t s g sc) st = snd (record_hit sha now t s g sc st)"
| "cache_step sha (CPutMany now pr es) st = snd (put_many sha now pr es st)"
| "cache_step sha (CCleanup fl now d) st = snd (cleanup fl now d st)"
| "cache_step sha (CStats fl now) st = snd (cache_stats fl now st)"
| "cache_step sha (CFlush now) st = snd (flush_hits now st)"

end
