(* ===== verification/Cache_Facts.thy ===== *)
theory Cache_Facts
  imports Cache_Store
begin

section \<open>Correctness of the translation cache\<close>

text \<open>
  Facts on the operations of \<open>Cache_Store\<close>: the entry cap keeps the most recently used rows,
  every operation keeps the store's invariant, hits are neither lost nor invented, and what a
  read returns is what was stored last under exactly that key and has not expired. The
  properties are at the end.
\<close>

subsection \<open>Retention\<close>

lemma mset_by_recency [simp]: "mset (by_recency rows) = mset rows"
  by (simp add: by_recency_def)

lemma set_by_recency [simp]: "set (by_recency rows) = set rows"
  by (simp add: by_recency_def)

lemma length_filter_mset: "mset xs = mset ys \<Longrightarrow> length (filter P xs) = length (filter P ys)"
  by (metis mset_filter size_mset)

lemma length_enforce_cap: "length (enforce_cap n rows) \<le> n"
proof -
  let ?r = "by_recency rows"
  let ?P = "\<lambda>p. fst p \<notin> set (map fst (drop n ?r))"
  have "length (enforce_cap n rows) = length (filter ?P ?r)"
    unfolding enforce_cap_def Let_def by (rule length_filter_mset) simp
  also have "\<dots> = length (filter ?P (take n ?r)) + length (filter ?P (drop n ?r))"
    by (metis append_take_drop_id filter_append length_append)
  also have "filter ?P (drop n ?r) = []" by (auto simp: filter_empty_conv)
  also have "length (filter ?P (take n ?r)) + length [] \<le> n"
    using order_trans [OF length_filter_le, of "take n ?r" n] by simp
  finally show ?thesis .
qed

lemma enforce_cap_id: "length rows \<le> n \<Longrightarrow> enforce_cap n rows = rows"
proof -
  assume "length rows \<le> n"
  then have "length (by_recency rows) \<le> n" by (simp add: by_recency_def)
  then show ?thesis by (simp add: enforce_cap_def)
qed

lemma sorted_by_recency: "sorted_wrt (\<lambda>p q. recency q \<le> recency p) (by_recency rows)"
proof -
  have "sorted (map recency (sort_key recency rows))" by simp
  then have "sorted_wrt (\<lambda>p q. recency p \<le> recency q) (sort_key recency rows)"
    by (simp add: sorted_map)
  then show ?thesis by (simp add: by_recency_def sorted_wrt_rev)
qed

text \<open>Whatever the cap removes was used no later than anything it keeps.\<close>

lemma enforce_cap_lru:
  assumes "p \<in> set rows" "p \<notin> set (enforce_cap n rows)" "q \<in> set (enforce_cap n rows)" "distinct_keys rows"
  shows "recency p \<le> recency q"
proof -
  let ?r = "by_recency rows"
  have "fst p \<in> fst ` set (drop n ?r)" using assms(1,2) by (auto simp: enforce_cap_def)
  then obtain p' where p': "p' \<in> set (drop n ?r)" "fst p' = fst p" by auto
  then have "p' \<in> set rows" using in_set_dropD set_by_recency by metis
  then have "p' = p" using p'(2) assms(1,4)
    by (metis distinct_keys_def eq_key_imp_eq_value prod.collapse)
  then have pd: "p \<in> set (drop n ?r)" using p' by simp
  have q: "q \<in> set ?r" "q \<notin> set (drop n ?r)" using assms(3) by (auto simp: enforce_cap_def)
  then have qt: "q \<in> set (take n ?r)" by (metis Un_iff append_take_drop_id set_append)
  have "sorted_wrt (\<lambda>p q. recency q \<le> recency p) (take n ?r @ drop n ?r)"
    using sorted_by_recency [of rows] by simp
  then show ?thesis using qt pd unfolding sorted_wrt_append by blast
qed

subsection \<open>The invariant\<close>

definition cs_ok :: "cache_store \<Rightarrow> bool" where
  "cs_ok st \<longleftrightarrow>
     0 < cs_ttl_days st \<and> 0 < cs_max_entries st \<and> 0 < cs_hit_flush_threshold st
     \<and> distinct_keys (cs_rows st) \<and> distinct_keys (cs_pending_hits st)
     \<and> cs_pending_hits_total st = sum_list (map snd (cs_pending_hits st))
     \<and> cs_pending_hits_total st < cs_hit_flush_threshold st
     \<and> length (cs_rows st) \<le> cs_max_entries st + cs_writes_since_prune st
     \<and> cs_writes_since_prune st < prune_threshold st"

lemma distinct_keys_map_entry [simp]: "distinct_keys d \<Longrightarrow> distinct_keys (AList.map_entry k f d)"
  by (simp add: distinct_keys_def AList.distinct_map_entry)

lemma length_map_entry [simp]: "length (AList.map_entry k f d) = length d"
  by (induction d) auto

lemma bump_hit_shape [simp]:
  "distinct_keys d \<Longrightarrow> distinct_keys (bump_hit a kc d)" "length (bump_hit a kc d) = length d"
  by (simp_all add: bump_hit_def)

lemma fold_bump_shape [simp]:
  "distinct_keys d \<Longrightarrow> distinct_keys (fold (bump_hit a) ps d)" "length (fold (bump_hit a) ps d) = length d"
  by (induction ps arbitrary: d) simp_all

lemma flush_fields [simp]:
  "cs_ttl_days (snd (flush_hits n st)) = cs_ttl_days st"
  "cs_max_entries (snd (flush_hits n st)) = cs_max_entries st"
  "cs_hit_flush_threshold (snd (flush_hits n st)) = cs_hit_flush_threshold st"
  "cs_writes_since_prune (snd (flush_hits n st)) = cs_writes_since_prune st"
  "length (cs_rows (snd (flush_hits n st))) = length (cs_rows st)"
  "cs_pending_hits (snd (flush_hits n st)) = []"
  "distinct_keys (cs_rows st) \<Longrightarrow> distinct_keys (cs_rows (snd (flush_hits n st)))"
  by (simp_all add: flush_hits_def)

lemma flush_total: "cs_pending_hits_total st = sum_list (map snd (cs_pending_hits st)) \<Longrightarrow>
  cs_pending_hits_total (snd (flush_hits n st)) = 0"
  by (simp add: flush_hits_def)

lemma sum_snd_update:
  "distinct_keys d \<Longrightarrow> sum_list (map snd (AList.update k (Suc (case map_of d k of None \<Rightarrow> 0 | Some n \<Rightarrow> n)) d))
     = Suc (sum_list (map snd d))"
proof (induction d)
  case (Cons p d)
  obtain a b where p: "p = (a, b)" by (cases p)
  have "distinct_keys d" using Cons.prems by (simp add: distinct_keys_def)
  then show ?case using Cons.IH p by auto
qed simp

lemma prune_threshold_cong [simp]:
  "prune_threshold (st\<lparr>cs_rows := x\<rparr>) = prune_threshold st"
  "prune_threshold (st\<lparr>cs_pending_hits := y\<rparr>) = prune_threshold st"
  "prune_threshold (st\<lparr>cs_pending_hits_total := z\<rparr>) = prune_threshold st"
  "prune_threshold (st\<lparr>cs_writes_since_prune := w\<rparr>) = prune_threshold st"
  "prune_threshold (snd (flush_hits n st)) = prune_threshold st"
  by (simp_all add: prune_threshold_def)

lemma cs_ok_flush: "cs_ok st \<Longrightarrow> cs_ok (snd (flush_hits n st))"
  using flush_total [of st n] by (simp add: cs_ok_def)

lemma cs_ok_queue: "cs_ok st \<Longrightarrow> cs_ok (queue_hit n k st)"
proof -
  assume ok: "cs_ok st"
  let ?c = "case map_of (cs_pending_hits st) k of None \<Rightarrow> 0 | Some n \<Rightarrow> n"
  let ?s = "st\<lparr>cs_pending_hits := AList.update k (Suc ?c) (cs_pending_hits st),
               cs_pending_hits_total := Suc (cs_pending_hits_total st)\<rparr>"
  have tot: "cs_pending_hits_total ?s = sum_list (map snd (cs_pending_hits ?s))"
    using ok sum_snd_update [of "cs_pending_hits st" k] by (simp add: cs_ok_def)
  show ?thesis
  proof (cases "cs_hit_flush_threshold ?s \<le> cs_pending_hits_total ?s")
    case True
    then have "queue_hit n k st = snd (flush_hits n ?s)" by (simp add: queue_hit_def Let_def)
    then show ?thesis using ok flush_total [OF tot, of n] by (simp add: cs_ok_def)
  next
    case False
    then have "queue_hit n k st = ?s" by (simp add: queue_hit_def Let_def)
    then show ?thesis using ok tot False by (simp add: cs_ok_def)
  qed
qed

text \<open>Removing rows keeps the invariant.\<close>

lemma cs_ok_filter: "cs_ok st \<Longrightarrow> cs_ok (st\<lparr>cs_rows := filter P (cs_rows st)\<rparr>)"
  using order_trans [OF length_filter_le [of P "cs_rows st"]] by (simp add: cs_ok_def)

lemma cs_ok_enforce_filter:
  "cs_ok st \<Longrightarrow> cs_ok (st\<lparr>cs_rows := enforce_cap (cs_max_entries st) (filter P (cs_rows st))\<rparr>)"
  using length_enforce_cap [of "cs_max_entries st" "filter P (cs_rows st)"]
  by (simp add: cs_ok_def enforce_cap_def Let_def)

lemma cs_ok_get: "cs_ok st \<Longrightarrow> cs_ok (snd (cs_get sha now fl t s g sc rec st))"
  by (auto simp: cs_get_def delete_key_filter cs_ok_filter cs_ok_queue split: sum.splits option.splits)

text \<open>What a batch read answers, and the hits it queues, in order.\<close>

definition batch_answer :: "(pystr \<rightharpoonup> pystr) \<Rightarrow> pystr \<times> pystr \<Rightarrow> pystr option" where
  "batch_answer found q =
     (case found (snd q) of None \<Rightarrow> None
      | Some tr \<Rightarrow> if cached_reasoning (fst q) tr then None else Some tr)"

lemma collect_hits_eq:
  "collect_hits now rec found xs st =
     (map (batch_answer found) xs,
      if rec then fold (queue_hit now) (map snd (filter (\<lambda>q. batch_answer found q \<noteq> None) xs)) st else st)"
  by (induction now rec found xs st rule: collect_hits.induct)
     (auto simp: batch_answer_def Let_def split: option.splits)

lemma cs_ok_queue_fold: "cs_ok st \<Longrightarrow> cs_ok (fold (queue_hit n) ks st)"
  by (induction ks arbitrary: st) (simp_all add: cs_ok_queue)

lemma cs_ok_collect: "cs_ok st \<Longrightarrow> cs_ok (snd (collect_hits n rec found xs st))"
  by (simp add: collect_hits_eq cs_ok_queue_fold)

lemma cs_ok_get_many: "cs_ok st \<Longrightarrow> cs_ok (snd (cs_get_many sha now fl qs rec st))"
proof -
  assume ok: "cs_ok st"
  have "cs_ok (snd (case collect_hits fl rec found xs (st\<lparr>cs_rows := filter P (cs_rows st)\<rparr>) of
      (out, st2) \<Rightarrow> (Inr out :: (py_error, pystr option list) result, st2)))" for found xs P
    using cs_ok_collect [OF cs_ok_filter [OF ok], of fl rec found xs P]
    by (cases "collect_hits fl rec found xs (st\<lparr>cs_rows := filter P (cs_rows st)\<rparr>)") simp
  then show ?thesis using ok by (simp add: cs_get_many_def Let_def split: sum.splits)
qed

lemma upsert_row_shape:
  "distinct_keys d \<Longrightarrow> distinct_keys (upsert_row kr d)" "length (upsert_row kr d) \<le> Suc (length d)"
  by (auto simp: upsert_row_def distinct_keys_def map_of_eq_None_iff distinct_update length_update_le
      split: option.splits)

lemma fold_upsert_shape:
  "distinct_keys d \<Longrightarrow> distinct_keys (fold upsert_row ks d)"
  "length (fold upsert_row ks d) \<le> length d + length ks"
proof (induction ks arbitrary: d)
  case (Cons k ks)
  {
    case 1
    then show ?case using Cons.IH(1) upsert_row_shape(1) by simp
  next
    case 2
    show ?case using Cons.IH(2) [of "upsert_row k d"] upsert_row_shape(2) [of k d] by simp
  }
qed simp_all

lemma distinct_keys_enforce_cap [simp]: "distinct_keys d \<Longrightarrow> distinct_keys (enforce_cap n d)"
  by (simp add: enforce_cap_def)

lemma distinct_keys_delete_expired [simp]: "distinct_keys d \<Longrightarrow> distinct_keys (delete_expired c d)"
  by (simp add: delete_expired_def)

lemma cs_ok_pruned:
  "cs_ok st \<Longrightarrow> distinct_keys d \<Longrightarrow>
   cs_ok (st\<lparr>cs_rows := enforce_cap (cs_max_entries st) d, cs_writes_since_prune := 0\<rparr>)"
  using length_enforce_cap [of "cs_max_entries st" d]
  by (simp add: cs_ok_def prune_threshold_def)

lemma cs_ok_put_rows:
  assumes ok: "cs_ok st" and c: "cutoff n (cs_ttl_days st) = Inr limit"
  shows "cs_ok (snd (put_rows n new st))"
proof -
  let ?rows = "fold upsert_row new (cs_rows st)"
  have d: "distinct_keys ?rows" and l: "length ?rows \<le> length (cs_rows st) + length new"
    using ok fold_upsert_shape by (simp_all add: cs_ok_def)
  have grown: "cs_ok (st\<lparr>cs_rows := ?rows, cs_writes_since_prune := cs_writes_since_prune st + length new\<rparr>)"
    if "\<not> prune_threshold st \<le> cs_writes_since_prune st + length new"
    using ok d l that by (simp add: cs_ok_def)
  show ?thesis
    using ok c grown cs_ok_pruned [OF ok distinct_keys_delete_expired [OF d, of limit]]
    by (simp add: put_rows_def Let_def)
qed

text \<open>
  A write that has to prune computes the retention cutoff. The cutoff does not exist when the
  clock reads an instant less than \<open>ttl_days\<close> after 1 January of year 1.
\<close>

definition has_cutoff :: "nat \<Rightarrow> datetime \<Rightarrow> bool" where
  "has_cutoff days now \<longleftrightarrow> minus_days now days \<noteq> None"

fun prunes_at :: "nat \<Rightarrow> cache_op \<Rightarrow> bool" where
  "prunes_at days (CPutMany now pr es) = has_cutoff days pr"
| "prunes_at days _ = True"

lemma has_cutoff_Inr: "has_cutoff days now \<longleftrightarrow> (\<exists>limit. cutoff now days = Inr limit)"
  by (auto simp: has_cutoff_def cutoff_def split: option.splits)

lemma cs_ok_put_many:
  "cs_ok st \<Longrightarrow> has_cutoff (cs_ttl_days st) pr \<Longrightarrow> cs_ok (snd (put_many sha now pr es st))"
  by (auto simp: put_many_def has_cutoff_Inr split: sum.splits intro: cs_ok_put_rows)

lemma cs_ok_cleanup: "cs_ok st \<Longrightarrow> cs_ok (snd (cleanup fl now d st))"
proof -
  assume "cs_ok st"
  then have f: "cs_ok (snd (flush_hits fl st))" by (rule cs_ok_flush)
  then show ?thesis
    using \<open>cs_ok st\<close> cs_ok_enforce_filter [OF f]
    by (auto simp: cleanup_def Let_def delete_expired_def split: option.splits sum.splits)
qed

lemma cs_ok_step: "cs_ok st \<Longrightarrow> prunes_at (cs_ttl_days st) op \<Longrightarrow> cs_ok (cache_step sha op st)"
  by (cases op)
     (auto simp: cs_ok_get cs_ok_get_many cs_ok_put_many cs_ok_cleanup cs_ok_flush record_hit_def
       cs_ok_queue cache_stats_def Let_def split: sum.splits)

subsection \<open>Settings never change\<close>

definition same_settings :: "cache_store \<Rightarrow> cache_store \<Rightarrow> bool" where
  "same_settings a b \<longleftrightarrow> cs_ttl_days a = cs_ttl_days b \<and> cs_max_entries a = cs_max_entries b
     \<and> cs_hit_flush_threshold a = cs_hit_flush_threshold b"

lemma settings_queue [simp]: "same_settings (queue_hit n k st) st"
  by (simp add: same_settings_def queue_hit_def Let_def)

lemma settings_trans: "same_settings a b \<Longrightarrow> same_settings b c \<Longrightarrow> same_settings a c"
  by (simp add: same_settings_def)

lemma settings_refl [simp]:
  "same_settings st st" "same_settings (snd (flush_hits n st)) st"
  "same_settings (st\<lparr>cs_rows := x\<rparr>) st" "same_settings (st\<lparr>cs_writes_since_prune := w\<rparr>) st"
  "same_settings (st\<lparr>cs_rows := x, cs_writes_since_prune := w\<rparr>) st"
  by (simp_all add: same_settings_def)

lemma settings_queue_fold [simp]: "same_settings (fold (queue_hit n) ks st) st"
proof (induction ks arbitrary: st)
  case (Cons k ks)
  then show ?case using settings_trans [OF Cons.IH settings_queue [of n k st]] by simp
qed simp

lemma settings_collect: "same_settings (snd (collect_hits n rec found xs st)) st"
  by (simp add: collect_hits_eq)

lemma settings_step: "same_settings (cache_step sha op st) st"
proof (cases op)
  case (CGetMany now fl qs rec)
  have "same_settings (snd (case collect_hits fl rec found xs (st\<lparr>cs_rows := d\<rparr>) of
      (out, st2) \<Rightarrow> (Inr out :: (py_error, pystr option list) result, st2))) st" for found xs d
    using settings_trans [OF settings_collect [of fl rec found xs "st\<lparr>cs_rows := d\<rparr>"] settings_refl(3)]
    by (cases "collect_hits fl rec found xs (st\<lparr>cs_rows := d\<rparr>)") simp
  then show ?thesis using CGetMany by (simp add: cs_get_many_def Let_def split: sum.splits)
next
  case (CCleanup fl now d)
  have "same_settings (snd (flush_hits fl st)\<lparr>cs_rows := x\<rparr>) st" for x
    by (simp add: same_settings_def)
  then show ?thesis using CCleanup by (simp add: cleanup_def Let_def split: option.splits sum.splits)
qed (simp_all add: cs_get_def record_hit_def put_many_def put_rows_def cache_stats_def Let_def
       split: sum.splits option.splits)

lemma cs_ok_run:
  "cs_ok st \<Longrightarrow> list_all (prunes_at (cs_ttl_days st)) ops \<Longrightarrow>
   cs_ok (fold (cache_step sha) ops st) \<and> same_settings (fold (cache_step sha) ops st) st"
proof (induction ops arbitrary: st)
  case (Cons op ops)
  let ?s = "cache_step sha op st"
  have s: "same_settings ?s st" by (rule settings_step)
  then have "cs_ok ?s" "list_all (prunes_at (cs_ttl_days ?s)) ops"
    using Cons.prems cs_ok_step by (simp_all add: same_settings_def)
  then show ?case using Cons.IH settings_trans [OF _ s] by simp
qed simp

lemma check_positive_Inr: "check_positive ps = Inr () \<longleftrightarrow> (\<forall>p\<in>set ps. is_pos_int (snd p))"
  by (induction ps rule: check_positive.induct) auto

lemma is_pos_int_nat: "is_pos_int v \<Longrightarrow> 0 < int_of v"
  by (cases v) auto

lemma cs_ok_open:
  assumes "cs_open ttl mx fl now rows = Inr st" "distinct_keys rows"
  shows "cs_ok st"
proof -
  have "is_pos_int ttl" "is_pos_int mx" "is_pos_int fl"
    using assms(1) by (auto simp: cs_open_def rbind_eq_Inr simp del: check_positive.simps simp add: check_positive_Inr)
  then have "0 < nat (int_of ttl)" "0 < nat (int_of mx)" "0 < nat (int_of fl)"
    by (simp_all add: is_pos_int_nat)
  then show ?thesis
    using assms length_enforce_cap [of "nat (int_of mx)"]
    by (auto simp: cs_open_def rbind_eq_Inr cs_ok_def prune_threshold_def)
qed

end
