(* ===== verification/Cache_History.thy ===== *)
theory Cache_History
  imports Cache_Facts
begin

section \<open>What the translation cache answers\<close>

text \<open>
  The cache against its history. A run of calls is recorded together with the log of the writes
  that succeeded; every stored row is the last write of its key, so a read returns what was
  written last under exactly its key, and nothing older than the retention period. The theory
  also has the write-then-read round trip, the bounds of the store and the hit accounting.
\<close>

subsection \<open>Runs and their write log\<close>

type_synonym write_log = "(pystr \<times> pystr \<times> datetime) list"

fun log_of :: "(pystr \<Rightarrow> pystr) \<Rightarrow> cache_op \<Rightarrow> cache_store \<Rightarrow> write_log" where
  "log_of sha (CPutMany now pr es) st =
     (case (rmap (make_row sha (isoformat now)) es, fst (put_many sha now pr es st)) of
        (Inr new, Inr _) \<Rightarrow> map (\<lambda>kr. (fst kr, cr_translated_text (snd kr), now)) new
      | _ \<Rightarrow> [])"
| "log_of sha _ st = []"

fun cache_run :: "(pystr \<Rightarrow> pystr) \<Rightarrow> cache_op list \<Rightarrow> write_log \<times> cache_store \<Rightarrow> write_log \<times> cache_store" where
  "cache_run sha [] ls = ls"
| "cache_run sha (op # ops) (wl, st) = cache_run sha ops (wl @ log_of sha op st, cache_step sha op st)"

definition last_write :: "write_log \<Rightarrow> pystr \<Rightarrow> (pystr \<times> datetime) option" where
  "last_write wl k = map_of (rev wl) k"

text \<open>The clock readings of a call are dates Python can hold.\<close>

fun op_valid :: "cache_op \<Rightarrow> bool" where
  "op_valid (CPutMany now pr es) = valid_datetime now"
| "op_valid _ = True"

definition row_logged :: "write_log \<Rightarrow> pystr \<Rightarrow> cache_row \<Rightarrow> bool" where
  "row_logged wl k r \<longleftrightarrow> (\<exists>w. last_write wl k = Some (cr_translated_text r, w)
     \<and> cr_created_at r = isoformat w \<and> valid_datetime w)"

definition logged :: "write_log \<Rightarrow> cache_rows \<Rightarrow> bool" where
  "logged wl rows \<longleftrightarrow> distinct_keys rows \<and> (\<forall>k r. map_of rows k = Some r \<longrightarrow> row_logged wl k r)"

lemma last_write_snoc:
  "last_write (wl @ [(k, e)]) k' = (if k = k' then Some e else last_write wl k')"
  by (simp add: last_write_def)

lemma map_of_filter_SomeD:
  "distinct_keys d \<Longrightarrow> map_of (filter P d) k = Some r \<Longrightarrow> map_of d k = Some r"
  by (metis distinct_keys_def distinct_keys_filter filter_is_subset map_of_eq_Some_iff subsetD)

lemma map_of_filter_keep:
  "distinct_keys d \<Longrightarrow> map_of d k = Some r \<Longrightarrow> P (k, r) \<Longrightarrow> map_of (filter P d) k = Some r"
  by (simp add: distinct_keys_def distinct_map_filter)

lemma logged_filter: "logged wl d \<Longrightarrow> logged wl (filter P d)"
  using map_of_filter_SomeD by (fastforce simp: logged_def)

lemma logged_delete: "logged wl d \<Longrightarrow> logged wl (AList.delete k d)"
  by (simp add: delete_key_filter logged_filter)

lemma logged_enforce: "logged wl d \<Longrightarrow> logged wl (enforce_cap n d)"
  by (simp add: enforce_cap_def logged_filter)

lemma logged_expire: "logged wl d \<Longrightarrow> logged wl (delete_expired c d)"
  by (simp add: delete_expired_def logged_filter)

lemma map_of_bump:
  "map_of (bump_hit a kc d) k =
     (if k = fst kc then map_option (\<lambda>r. r\<lparr>cr_hit_count := cr_hit_count r + int (snd kc),
        cr_last_accessed_at := a\<rparr>) (map_of d k) else map_of d k)"
  by (auto simp: bump_hit_def map_of_map_entry split: option.splits)

lemma logged_bump: "logged wl d \<Longrightarrow> logged wl (bump_hit a kc d)"
  by (auto simp: logged_def map_of_bump row_logged_def split: if_splits)

lemma logged_bumps: "logged wl d \<Longrightarrow> logged wl (fold (bump_hit a) ps d)"
  by (induction ps arbitrary: d) (simp_all add: logged_bump)

lemma logged_flush: "logged wl (cs_rows st) \<Longrightarrow> logged wl (cs_rows (snd (flush_hits n st)))"
  by (simp add: flush_hits_def logged_bumps)

lemma logged_queue: "logged wl (cs_rows st) \<Longrightarrow> logged wl (cs_rows (queue_hit n k st))"
  by (simp add: queue_hit_def Let_def flush_hits_def logged_bumps)

lemma logged_queue_fold: "logged wl (cs_rows st) \<Longrightarrow> logged wl (cs_rows (fold (queue_hit n) ks st))"
  by (induction ks arbitrary: st) (simp_all add: logged_queue)

lemma map_of_upsert:
  "map_of (upsert_row (k, r) d) k' =
     (if k' = k then Some (case map_of d k of None \<Rightarrow> r
        | Some old \<Rightarrow> r\<lparr>cr_tenant_hash := cr_tenant_hash old, cr_book_hash := cr_book_hash old,
            cr_chapter_hash := cr_chapter_hash old, cr_context_hash := cr_context_hash old,
            cr_source_lang := cr_source_lang old, cr_target_lang := cr_target_lang old,
            cr_hit_count := cr_hit_count old\<rparr>)
      else map_of d k')"
  by (auto simp: upsert_row_def update_conv' map_add_def split: option.splits)

lemma logged_upsert:
  assumes "logged wl d" "cr_created_at r = isoformat now" "valid_datetime now"
  shows "logged (wl @ [(k, cr_translated_text r, now)]) (upsert_row (k, r) d)"
  unfolding logged_def
proof (intro conjI allI impI)
  show "distinct_keys (upsert_row (k, r) d)" using assms(1) upsert_row_shape(1) by (simp add: logged_def)
  fix k' r' assume m: "map_of (upsert_row (k, r) d) k' = Some r'"
  show "row_logged (wl @ [(k, cr_translated_text r, now)]) k' r'"
  proof (cases "k' = k")
    case True
    then have "cr_translated_text r' = cr_translated_text r" "cr_created_at r' = cr_created_at r"
      using m by (auto simp: map_of_upsert split: option.splits)
    then show ?thesis using True assms(2,3) by (simp add: row_logged_def last_write_snoc)
  next
    case False
    then have "map_of d k' = Some r'" using m by (simp add: map_of_upsert)
    then show ?thesis using False assms(1) by (simp add: logged_def row_logged_def last_write_snoc)
  qed
qed

lemma logged_upserts:
  assumes "logged wl d" "\<forall>kr\<in>set new. cr_created_at (snd kr) = isoformat now" "valid_datetime now"
  shows "logged (wl @ map (\<lambda>kr. (fst kr, cr_translated_text (snd kr), now)) new) (fold upsert_row new d)"
  using assms(1,2)
proof (induction new arbitrary: wl d)
  case (Cons kr new)
  obtain k r where kr: "kr = (k, r)" by (cases kr)
  have "logged (wl @ [(k, cr_translated_text r, now)]) (upsert_row kr d)"
    using logged_upsert [OF Cons.prems(1) _ assms(3)] Cons.prems(2) kr by simp
  from Cons.IH [OF this] show ?case using Cons.prems(2) kr by simp
qed simp

lemma make_row_Inr:
  assumes "make_row sha now (t, sl, tg, tr, sc) = Inr (k, r)"
  shows "compute_key sha t sl tg sc = Inr k" "cr_created_at r = now" "cr_last_accessed_at r = now"
    "cr_translated_text r = text_of tr" "cr_hit_count r = 0"
  using assms by (auto simp: rbind_eq_Inr split: if_splits option.splits)

lemma rmap_make_row_created:
  "rmap (make_row sha now) es = Inr new \<Longrightarrow> kr \<in> set new \<Longrightarrow> cr_created_at (snd kr) = now"
  using rmap_Inr_set [of "make_row sha now" es new kr] make_row_Inr(2) by (metis prod.collapse prod_cases5)

lemma logged_put_many:
  assumes "logged wl (cs_rows st)" "valid_datetime now"
  shows "logged (wl @ log_of sha (CPutMany now pr es) st) (cs_rows (snd (put_many sha now pr es st)))"
proof (cases "rmap (make_row sha (isoformat now)) es")
  case (Inl e)
  then show ?thesis using assms(1) by (simp add: put_many_def)
next
  case (Inr new)
  have cr: "\<forall>kr\<in>set new. cr_created_at (snd kr) = isoformat now"
    using rmap_make_row_created [OF Inr] by blast
  show ?thesis
    using Inr assms(1) logged_upserts [OF assms(1) cr assms(2)]
    by (simp add: put_many_def put_rows_def Let_def logged_enforce logged_expire split: sum.splits)
qed

lemma logged_step:
  assumes "logged wl (cs_rows st)" "op_valid op"
  shows "logged (wl @ log_of sha op st) (cs_rows (cache_step sha op st))"
proof (cases op)
  case (CPutMany now pr es)
  then show ?thesis using logged_put_many assms by simp
next
  case (CGetMany now fl qs rec)
  then show ?thesis using assms(1)
    by (simp add: cs_get_many_def collect_hits_eq Let_def logged_filter logged_queue_fold split: sum.splits)
next
  case (CCleanup fl now d)
  then show ?thesis using logged_flush [OF assms(1), of fl]
    by (simp add: cleanup_def Let_def logged_enforce logged_expire assms(1) split: option.splits sum.splits)
next
  case (CGet now fl t s g sc rec)
  then show ?thesis using assms(1)
    by (simp add: cs_get_def logged_delete logged_queue split: sum.splits option.splits)
qed (use assms(1) in \<open>simp_all add: record_hit_def cache_stats_def Let_def logged_queue logged_flush
       split: sum.splits\<close>)

lemma logged_run:
  "cache_run sha ops (wl, st) = (wl', st') \<Longrightarrow> logged wl (cs_rows st) \<Longrightarrow> list_all op_valid ops
   \<Longrightarrow> logged wl' (cs_rows st') \<and> same_settings st' st"
proof (induction ops arbitrary: wl st)
  case (Cons op ops)
  have "logged wl' (cs_rows st') \<and> same_settings st' (cache_step sha op st)"
    using Cons.IH [of "wl @ log_of sha op st" "cache_step sha op st"] Cons.prems logged_step by simp
  then show ?case using settings_trans [OF _ settings_step] by blast
qed simp

subsection \<open>Reads\<close>

lemma cutoff_Inr: "cutoff now n = Inr limit \<longleftrightarrow> (\<exists>l. minus_days now n = Some l \<and> limit = isoformat l)"
  by (auto simp: cutoff_def split: option.splits)

lemma not_expired_iff:
  "valid_datetime now \<Longrightarrow> valid_datetime w \<Longrightarrow> minus_days now n = Some l \<Longrightarrow>
   \<not> isoformat w < isoformat l \<longleftrightarrow> l \<le> w"
  using isoformat_less minus_days_valid by (metis not_le)

text \<open>The answer a single read gives, as a function of the rows.\<close>

lemma cs_get_Some:
  "fst (cs_get sha now fl t s g sc rec st) = Inr (Some tr) \<longleftrightarrow>
   (\<exists>k limit r. compute_key sha t s g sc = Inr k \<and> cutoff now (cs_ttl_days st) = Inr limit
      \<and> map_of (cs_rows st) k = Some r \<and> \<not> cr_created_at r < limit
      \<and> \<not> cached_reasoning (text_of t) (cr_translated_text r) \<and> tr = cr_translated_text r)"
  by (auto simp: cs_get_def split: sum.splits option.splits if_splits)

lemma cs_get_many_Inr:
  assumes "fst (cs_get_many sha now fl qs rec st) = Inr out" "i < length qs" "out ! i = Some tr"
    and q: "qs ! i = (t, s, g, sc)"
  shows "\<exists>k limit r. compute_key sha t s g sc = Inr k \<and> cutoff now (cs_ttl_days st) = Inr limit
      \<and> map_of (cs_rows st) k = Some r \<and> \<not> cr_created_at r < limit
      \<and> \<not> cached_reasoning (text_of t) (cr_translated_text r) \<and> tr = cr_translated_text r"
proof -
  have ne: "qs \<noteq> []" using assms(2) by auto
  obtain ks where ks: "rmap (query_key sha) qs = Inr ks"
    using assms(1) ne by (auto simp: cs_get_many_def split: sum.splits)
  obtain limit where limit: "cutoff now (cs_ttl_days st) = Inr limit"
    using assms(1) ne ks by (auto simp: cs_get_many_def split: sum.splits)
  let ?f = "\<lambda>k. case map_of (cs_rows st) k of None \<Rightarrow> None
       | Some r \<Rightarrow> if cr_created_at r < limit then None else Some (cr_translated_text r)"
  have out: "out = map (batch_answer ?f) (zip (map (\<lambda>q. text_of (fst q)) qs) ks)"
    using assms(1) ne ks limit by (simp add: cs_get_many_def collect_hits_eq Let_def)
  have len: "length ks = length qs" using rmap_Inr_length [OF ks] .
  have key: "compute_key sha t s g sc = Inr (ks ! i)"
    using rmap_Inr_nth [OF ks assms(2)] q by simp
  have "batch_answer ?f (text_of t, ks ! i) = Some tr"
    using assms(2,3) out len q by simp
  then show ?thesis using key limit
    by (auto simp: batch_answer_def split: option.splits if_splits)
qed

lemma logged_answer:
  assumes "logged wl (cs_rows st)" "valid_datetime now"
    and "\<exists>k limit r. compute_key sha t s g sc = Inr k \<and> cutoff now (cs_ttl_days st) = Inr limit
      \<and> map_of (cs_rows st) k = Some r \<and> \<not> cr_created_at r < limit
      \<and> \<not> cached_reasoning (text_of t) (cr_translated_text r) \<and> tr = cr_translated_text r"
  shows "\<exists>k w l. compute_key sha t s g sc = Inr k \<and> last_write wl k = Some (tr, w)
      \<and> minus_days now (cs_ttl_days st) = Some l \<and> l \<le> w"
proof -
  obtain k r l where k: "compute_key sha t s g sc = Inr k" "map_of (cs_rows st) k = Some r"
    "minus_days now (cs_ttl_days st) = Some l" "\<not> cr_created_at r < isoformat l" "tr = cr_translated_text r"
    using assms(3) by (auto simp: cutoff_Inr)
  then obtain w where "last_write wl k = Some (tr, w)" "cr_created_at r = isoformat w" "valid_datetime w"
    using assms(1) unfolding logged_def row_logged_def by blast
  moreover from this have "l \<le> w" using k(4) not_expired_iff [OF assms(2) _ k(3), of w] by simp
  ultimately show ?thesis using k(1,3) by blast
qed

subsection \<open>Hits\<close>

definition pending_hits :: "cache_store \<Rightarrow> pystr \<Rightarrow> nat" where
  "pending_hits st k = (case map_of (cs_pending_hits st) k of None \<Rightarrow> 0 | Some n \<Rightarrow> n)"

text \<open>The hits of a stored row: what the table holds plus what is still counted in memory.\<close>

definition row_hits :: "cache_store \<Rightarrow> pystr \<Rightarrow> int option" where
  "row_hits st k = map_option (\<lambda>r. cr_hit_count r + int (pending_hits st k)) (map_of (cs_rows st) k)"

lemma map_of_bumps:
  "distinct_keys ps \<Longrightarrow> map_option cr_hit_count (map_of (fold (bump_hit a) ps d) k) =
     map_option (\<lambda>r. cr_hit_count r + int (case map_of ps k of None \<Rightarrow> 0 | Some n \<Rightarrow> n)) (map_of d k)"
proof (induction ps arbitrary: d)
  case Nil
  then show ?case by (simp add: option.map_comp comp_def cong: map_option_cong)
next
  case (Cons p ps)
  obtain a' n where p: "p = (a', n)" by (cases p)
  have d: "distinct_keys ps" "map_of ps a' = None"
    using Cons.prems p by (auto simp: distinct_keys_def map_of_eq_None_iff)
  show ?case using Cons.IH [OF d(1), of "bump_hit a p d"] p d(2)
    by (auto simp: map_of_bump option.map_comp comp_def split: option.splits)
qed

lemma row_hits_flush: "cs_ok st \<Longrightarrow> row_hits (snd (flush_hits n st)) k = row_hits st k"
  using map_of_bumps [of "cs_pending_hits st" "isoformat n" "cs_rows st" k]
  by (auto simp: flush_hits_def row_hits_def pending_hits_def cs_ok_def cong: map_option_cong
      split: option.splits)

lemma row_hits_queue:
  assumes "cs_ok st"
  shows "row_hits (queue_hit n k st) k' = map_option (\<lambda>h. h + (if k = k' then 1 else 0)) (row_hits st k')"
proof -
  let ?s = "st\<lparr>cs_pending_hits := AList.update k (Suc (pending_hits st k)) (cs_pending_hits st),
               cs_pending_hits_total := Suc (cs_pending_hits_total st)\<rparr>"
  have dk: "distinct_keys (cs_pending_hits ?s)" using assms by (simp add: cs_ok_def)
  have s: "row_hits ?s k' = map_option (\<lambda>h. h + (if k = k' then 1 else 0)) (row_hits st k')"
    by (auto simp: row_hits_def pending_hits_def update_conv' option.map_comp comp_def ac_simps cong: map_option_cong)
  have f: "row_hits (snd (flush_hits n ?s)) k' = row_hits ?s k'"
    using map_of_bumps [OF dk, of "isoformat n" "cs_rows ?s" k']
    by (auto simp: flush_hits_def row_hits_def pending_hits_def cong: map_option_cong split: option.splits)
  show ?thesis using s f by (simp add: queue_hit_def Let_def pending_hits_def split: if_splits)
qed

lemma map_of_enforce_keep:
  assumes "distinct_keys d" "map_of d k = Some r" "0 < n"
    and newest: "\<forall>p\<in>set d. fst p \<noteq> k \<longrightarrow> cr_last_accessed_at (snd p) < cr_last_accessed_at r"
  shows "map_of (enforce_cap n d) k = Some r"
proof -
  have mem: "(k, r) \<in> set d" using assms(2) by (rule map_of_SomeD)
  have uniq: "p = (k, r)" if "p \<in> set d" "fst p = k" for p
    using that assms(1,2) by (metis distinct_keys_def map_of_eq_Some_iff option.inject prod.collapse)
  have "k \<notin> fst ` set (drop n (by_recency d))"
  proof
    assume "k \<in> fst ` set (drop n (by_recency d))"
    then obtain p where p: "p \<in> set (drop n (by_recency d))" "fst p = k" by auto
    then have "p \<in> set d" using in_set_dropD [of p n "by_recency d"] by simp
    from uniq [OF this p(2)] have kd: "(k, r) \<in> set (drop n (by_recency d))" using p(1) by simp
    then obtain j where j: "j < length (by_recency d) - n" "drop n (by_recency d) ! j = (k, r)"
      by (metis in_set_conv_nth length_drop)
    define i where "i = n + j"
    have i: "0 < i" "i < length (by_recency d)" "by_recency d ! i = (k, r)"
      using j assms(3) by (auto simp: i_def)
    let ?h = "by_recency d ! 0"
    have "distinct (map fst (by_recency d))"
      using assms(1) by (metis distinct_keys_def mset_by_recency mset_eq_imp_distinct_iff mset_map)
    then have "map fst (by_recency d) ! 0 \<noteq> map fst (by_recency d) ! i"
      using i by (simp only: nth_eq_iff_index_eq length_map)
    moreover have ne: "0 < length (by_recency d)" using i by linarith
    ultimately have "fst ?h \<noteq> k" using i by (metis fst_conv nth_map)
    moreover have "recency (k, r) \<le> recency ?h"
      using sorted_wrt_nth_less [OF sorted_by_recency i(1,2)] i(3) by simp
    moreover have "?h \<in> set d" using nth_mem [OF ne] by simp
    ultimately show False using newest by (auto simp: recency_def less_eq_prod_def)
  qed
  then show ?thesis
    unfolding enforce_cap_def Let_def using map_of_filter_keep [OF assms(1,2)] by simp
qed

subsection \<open>Properties\<close>

text \<open>
  The cache stays bounded. Whatever the database file held when it was opened, after any
  sequence of reads, writes, hit recordings, cleanups and statistics calls the table has no
  duplicate key, at most \<open>max_entries\<close> rows beyond which only the writes since the last prune
  (fewer than \<open>min(1000, max_entries)\<close>) can stand, and fewer buffered hits than the flush
  threshold.
\<close>

theorem cache_bounded:
  assumes "cs_open ttl mx fl now db = Inr st0" "distinct_keys db"
    and "list_all (prunes_at (cs_ttl_days st0)) ops"
    and "fold (cache_step sha) ops st0 = st"
  shows "distinct_keys (cs_rows st)
    \<and> length (cs_rows st) < cs_max_entries st0 + min 1000 (cs_max_entries st0)
    \<and> cs_pending_hits_total st = sum_list (map snd (cs_pending_hits st))
    \<and> cs_pending_hits_total st < cs_hit_flush_threshold st0"
proof -
  have "cs_ok st \<and> same_settings st st0"
    using cs_ok_run [OF cs_ok_open [OF assms(1,2)] assms(3), of sha] assms(4) by simp
  then show ?thesis by (auto simp: cs_ok_def same_settings_def prune_threshold_def)
qed

text \<open>
  C20: Reads are fresh. Starting from an empty database, whenever a single or a batch read returns
  a text, that text is exactly what the last successful write under the same cache key stored,
  and that write is not older than \<open>ttl_days\<close> at the time of the read (as instants, although
  the code compares ISO strings).
\<close>

theorem cache_reads_last_write:
  assumes "cs_open ttl mx ft now0 [] = Inr st0"
    and "cache_run sha ops ([], st0) = (wl, st)" "list_all op_valid ops" "valid_datetime now"
  shows "(fst (cs_get sha now fl t s g sc rec st) = Inr (Some tr) \<longrightarrow>
      (\<exists>k w l. compute_key sha t s g sc = Inr k \<and> last_write wl k = Some (tr, w)
        \<and> minus_days now (cs_ttl_days st0) = Some l \<and> l \<le> w))
    \<and> (fst (cs_get_many sha now fl qs rec st) = Inr out \<and> i < length qs \<and> out ! i = Some tr
        \<and> qs ! i = (t, s, g, sc) \<longrightarrow>
      (\<exists>k w l. compute_key sha t s g sc = Inr k \<and> last_write wl k = Some (tr, w)
        \<and> minus_days now (cs_ttl_days st0) = Some l \<and> l \<le> w))"
proof -
  have e: "logged [] (cs_rows st0)"
    using assms(1) by (auto simp: cs_open_def rbind_eq_Inr delete_expired_def enforce_cap_def logged_def)
  have lg: "logged wl (cs_rows st)" and "same_settings st st0"
    using logged_run [OF assms(2) e assms(3)] by auto
  then have ttl: "cs_ttl_days st0 = cs_ttl_days st" by (simp add: same_settings_def)
  note ans = logged_answer [OF lg assms(4), of sha t s g sc tr]
  show ?thesis
    unfolding ttl
  proof (intro conjI impI)
    assume "fst (cs_get sha now fl t s g sc rec st) = Inr (Some tr)"
    from ans [OF this [unfolded cs_get_Some]]
    show "\<exists>k w l. compute_key sha t s g sc = Inr k \<and> last_write wl k = Some (tr, w)
        \<and> minus_days now (cs_ttl_days st) = Some l \<and> l \<le> w" .
  next
    assume *: "fst (cs_get_many sha now fl qs rec st) = Inr out \<and> i < length qs \<and> out ! i = Some tr
        \<and> qs ! i = (t, s, g, sc)"
    show "\<exists>k w l. compute_key sha t s g sc = Inr k \<and> last_write wl k = Some (tr, w)
        \<and> minus_days now (cs_ttl_days st) = Some l \<and> l \<le> w"
      by (rule ans, rule cs_get_many_Inr [of sha now fl qs rec st out i]) (use * in simp_all)
  qed
qed

text \<open>
  Write-then-read round trip. After a successful \<open>put\<close>, and even when that put pruned the
  table, a \<open>get\<close> with the same arguments returns the stored text until the entry is older than
  \<open>ttl_days\<close>, provided that the clock moved on since the other rows were used and that the
  text is not one the reasoning filter withholds.
\<close>

theorem cache_put_get_roundtrip:
  assumes ok: "cs_ok st" and put: "cs_put sha now pr t s g (PStr tr) sc st = (Inr (), st')"
    and newest: "\<forall>p\<in>set (cs_rows st). cr_last_accessed_at (snd p) < isoformat now"
    and valid: "valid_datetime now" "valid_datetime pr" "valid_datetime later"
    and prune: "minus_days pr (cs_ttl_days st) = Some l1" "l1 \<le> now"
    and age: "minus_days later (cs_ttl_days st) = Some l2" "l2 \<le> now"
    and clean: "\<not> cached_reasoning (text_of t) tr"
  shows "fst (cs_get sha later fl t s g sc rec st') = Inr (Some tr)"
proof -
  obtain k r where mk: "make_row sha (isoformat now) (t, s, g, PStr tr, sc) = Inr (k, r)"
    and pr: "put_rows pr [(k, r)] st = (Inr (), st')"
    using put by (auto simp: cs_put_def put_many_def rbind_eq_Inr split: sum.splits)
  note mk' = make_row_Inr [OF mk]
  let ?rows = "upsert_row (k, r) (cs_rows st)"
  have dk: "distinct_keys ?rows" using ok upsert_row_shape(1) by (simp add: cs_ok_def)
  obtain r' where r': "map_of ?rows k = Some r'" "cr_translated_text r' = tr"
      "cr_created_at r' = isoformat now" "cr_last_accessed_at r' = isoformat now"
    using mk' by (auto simp: map_of_upsert split: option.splits)
  have others: "cr_last_accessed_at (snd p) < cr_last_accessed_at r'" if "p \<in> set ?rows" "fst p \<noteq> k" for p
  proof -
    have "map_of ?rows (fst p) = Some (snd p)" using that(1) dk by (simp add: distinct_keys_def)
    then have "map_of (cs_rows st) (fst p) = Some (snd p)" using that(2) by (simp add: map_of_upsert)
    then show ?thesis using newest r'(4) by (metis map_of_SomeD snd_conv)
  qed
  have live: "\<not> cr_created_at r' < isoformat l1" "\<not> cr_created_at r' < isoformat l2"
    using r'(3) not_expired_iff [OF valid(2,1) prune(1)] not_expired_iff [OF valid(3,1) age(1)]
      prune(2) age(2) by simp_all
  let ?de = "delete_expired (isoformat l1) ?rows"
  have de: "map_of ?de k = Some r'"
    unfolding delete_expired_def using map_of_filter_keep [OF dk r'(1)] live(1) by simp
  have "map_of (enforce_cap (cs_max_entries st) ?de) k = Some r'"
    using ok others
    by (intro map_of_enforce_keep de distinct_keys_delete_expired dk)
       (auto simp: cs_ok_def delete_expired_def)
  then have row: "map_of (cs_rows st') k = Some r'" and ttl: "cs_ttl_days st' = cs_ttl_days st"
    using pr r'(1) prune(1)
    by (auto simp: put_rows_def Let_def cutoff_def split: if_splits)
  show ?thesis
    unfolding cs_get_Some using mk'(1) row ttl age(1) live(2) clean r'(2) by (auto simp: cutoff_Inr)
qed

text \<open>
  No hit is lost or invented. Counting both the table and the in-memory buffer, queueing a hit
  adds exactly one to its key and nothing to any other, whether or not it triggers a flush, and
  a flush moves every buffered hit of a stored row into the table.
\<close>

theorem cache_hits_accounted:
  assumes "cs_ok st"
  shows "row_hits (queue_hit n k st) k' = map_option (\<lambda>h. h + (if k = k' then 1 else 0)) (row_hits st k')
    \<and> row_hits (snd (flush_hits n st)) k' = row_hits st k'
    \<and> cs_pending_hits (snd (flush_hits n st)) = []
    \<and> fst (flush_hits n st) = sum_list (map snd (cs_pending_hits st))"
  using row_hits_queue row_hits_flush assms by (simp add: flush_hits_def cs_ok_def)

subsection \<open>Concrete runs\<close>

text \<open>A store with a cap of two rows, one entry and three instants, for the witnesses below.\<close>

definition ex_scope :: cache_scope where
  "ex_scope = \<lparr>sc_tenant = [116], sc_book_id = [98], sc_chapter_id = [99], sc_context_hash = [120],
     sc_provider = [112], sc_model = [109], sc_prompt_hash = [104], sc_protocol_version = [118]\<rparr>"

definition ex_now :: "nat \<Rightarrow> datetime" where
  "ex_now d = ((2024, 5, d), (12, 0, 0, 0))"

definition ex_entry :: cache_entry where
  "ex_entry = (PStr [65], PStr [69], PStr [83], PStr [66], Scope ex_scope)"

definition ex_store :: cache_store where
  "ex_store = \<lparr>cs_ttl_days = 1, cs_max_entries = 2, cs_hit_flush_threshold = 2, cs_rows = [],
     cs_pending_hits = [], cs_pending_hits_total = 0, cs_writes_since_prune = 0\<rparr>"

lemma ex_open: "cs_open (PInt 1) (PInt 2) (PInt 2) (ex_now 2) [] = Inr ex_store"
  by (simp add: cs_open_def ex_store_def ex_now_def cutoff_def minus_days_def prev_day_def
      delete_expired_def enforce_cap_def)

lemma ex_key: "compute_key (\<lambda>_. [7]) (PStr [65]) (PStr [69]) (PStr [83]) (Scope ex_scope) = Inr [7]"
  unfolding compute_key_Inr
  by (simp add: ex_scope_def key_payload_def cache_key_version_def json_str_def esc_char_def
      utf8_len_def is_surrogate_def strip_def lstrip_def rstrip_def is_space_def)

lemma ex_put: "\<exists>st. cs_put (\<lambda>_. [7]) (ex_now 3) (ex_now 3) (PStr [65]) (PStr [69]) (PStr [83]) (PStr [66])
    (Scope ex_scope) ex_store = (Inr (), st)"
  by (simp add: cs_put_def put_many_def ex_key put_rows_def utf8_len_def is_surrogate_def
      prune_threshold_def ex_store_def is_space_def)

lemma ex_valid: "valid_datetime (ex_now 2)" "valid_datetime (ex_now 3)" "valid_datetime (ex_now 4)"
  by (simp_all add: ex_now_def valid_datetime_def valid_date_def valid_clock_def days_in_month_def)

lemma ex_minus: "minus_days (ex_now 3) 1 = Some (ex_now 2)" "minus_days (ex_now 4) 1 = Some (ex_now 3)"
  by (simp_all add: ex_now_def minus_days_def prev_day_def)

lemma ex_now_le: "ex_now a \<le> ex_now b \<longleftrightarrow> a \<le> b"
  by (auto simp: ex_now_def less_eq_prod_def)

theorem cache_bounded_witness:
  "length (cs_rows (fold (cache_step (\<lambda>_. [7])) [CPutMany (ex_now 3) (ex_now 3) [ex_entry],
     CFlush (ex_now 4)] ex_store)) < 4"
proof -
  let ?ops = "[CPutMany (ex_now 3) (ex_now 3) [ex_entry], CFlush (ex_now 4)]"
  have "list_all (prunes_at (cs_ttl_days ex_store)) ?ops"
    using ex_minus by (simp add: has_cutoff_def ex_store_def)
  from cache_bounded [OF ex_open distinct_keys_Nil this refl, of "\<lambda>_. [7]"]
  show ?thesis by (simp only: ex_store_def cache_store.simps) simp
qed

theorem cache_reads_last_write_witness:
  "\<exists>wl st w. cache_run (\<lambda>_. [7]) [CPutMany (ex_now 3) (ex_now 3) [ex_entry]] ([], ex_store) = (wl, st)
    \<and> last_write wl [7] = Some ([66], w) \<and> ex_now 3 \<le> w"
proof -
  let ?ops = "[CPutMany (ex_now 3) (ex_now 3) [ex_entry]]"
  let ?st = "snd (put_many (\<lambda>_. [7]) (ex_now 3) (ex_now 3) [ex_entry] ex_store)"
  have run: "cache_run (\<lambda>_. [7]) ?ops ([], ex_store) = (log_of (\<lambda>_. [7]) (hd ?ops) ex_store, ?st)" by simp
  have ov: "list_all op_valid ?ops" using ex_valid(2) by simp
  have get: "fst (cs_get (\<lambda>_. [7]) (ex_now 4) (ex_now 4) (PStr [65]) (PStr [69]) (PStr [83]) (Scope ex_scope) False ?st)
      = Inr (Some [66])"
    unfolding cs_get_Some
    by (simp add: ex_key put_many_def put_rows_def ex_entry_def ex_store_def utf8_len_def is_surrogate_def
        prune_threshold_def is_space_def upsert_row_def cutoff_def ex_minus [simplified] cached_reasoning_def lstrip_def)
  have "\<exists>k w l. compute_key (\<lambda>_. [7]) (PStr [65]) (PStr [69]) (PStr [83]) (Scope ex_scope) = Inr k
      \<and> last_write (log_of (\<lambda>_. [7]) (hd ?ops) ex_store) k = Some ([66], w)
      \<and> minus_days (ex_now 4) (cs_ttl_days ex_store) = Some l \<and> l \<le> w"
    using cache_reads_last_write [OF ex_open run ov ex_valid(3)] get by blast
  then obtain w where "last_write (log_of (\<lambda>_. [7]) (hd ?ops) ex_store) [7] = Some ([66], w)" "ex_now 3 \<le> w"
    using ex_key ex_minus(2) by (auto simp: ex_store_def)
  then show ?thesis using run by blast
qed

theorem cache_put_get_roundtrip_witness:
  "\<exists>st. cs_put (\<lambda>_. [7]) (ex_now 3) (ex_now 3) (PStr [65]) (PStr [69]) (PStr [83]) (PStr [66])
      (Scope ex_scope) ex_store = (Inr (), st)
    \<and> fst (cs_get (\<lambda>_. [7]) (ex_now 4) (ex_now 4) (PStr [65]) (PStr [69]) (PStr [83]) (Scope ex_scope) True st)
      = Inr (Some [66])"
proof -
  obtain st where put: "cs_put (\<lambda>_. [7]) (ex_now 3) (ex_now 3) (PStr [65]) (PStr [69]) (PStr [83]) (PStr [66])
      (Scope ex_scope) ex_store = (Inr (), st)" using ex_put by blast
  have "fst (cs_get (\<lambda>_. [7]) (ex_now 4) (ex_now 4) (PStr [65]) (PStr [69]) (PStr [83]) (Scope ex_scope) True st)
      = Inr (Some [66])"
    by (rule cache_put_get_roundtrip [OF cs_ok_open [OF ex_open] put _ ex_valid(2,2,3), where ?l1.0 = "ex_now 2" and ?l2.0 = "ex_now 3"])
       (simp_all add: ex_store_def ex_minus [simplified] ex_now_le cached_reasoning_def lstrip_def is_space_def)
  then show ?thesis using put by blast
qed

theorem cache_hits_accounted_witness:
  "row_hits (queue_hit (ex_now 3) [7] ex_store) [8] = map_option (\<lambda>h. h + (if [7] = [8::nat] then 1 else 0)) (row_hits ex_store [8])"
  using cache_hits_accounted [OF cs_ok_open [OF ex_open]] by simp

end
