(* ===== verification/Single_Flight.thy ===== *)
theory Single_Flight
  imports Prelude
begin

section \<open>Duplicate-work coalescing\<close>

text \<open>
  Models \<open>singleflight.py\<close>. Flights are objects that callers keep a reference to after the
  registry has dropped them, so they live in a heap (\<open>sf_heap\<close>, addressed by position) and the
  registry \<open>sf_flights\<close> maps keys to addresses. \<open>run\<close> is split at its lock boundaries into
  \<open>sf_enter\<close>, \<open>sf_complete\<close>, the wait and \<open>sf_release\<close>; the relation \<open>sf_step\<close> interleaves
  these sections of any number of concurrent callers with \<open>invalidate\<close> and \<open>stats\<close>. The
  operation's outcome and every clock reading are chosen by the environment.
\<close>

subsection \<open>Model\<close>

datatype ('v, 'e) outcome = Returned 'v | Raised 'e

record ('v, 'e) flight =
  fl_created_at :: real
  fl_event :: bool
  fl_completed_at :: "real option"
  fl_value :: "'v option"
  fl_error :: "'e option"
  fl_waiters :: int

record ('v, 'e) single_flight =
  sf_max_entries :: nat
  sf_result_ttl :: real
  sf_heap :: "('v, 'e) flight list"
  sf_flights :: "(pystr, nat) odict"
  sf_leaders :: nat
  sf_shared_results :: nat
  sf_followers_waiting :: int
  sf_wait_timeouts :: nat
  sf_capacity_rejections :: nat

definition sf_init :: "pyval \<Rightarrow> pyval \<Rightarrow> (py_error, ('v, 'e) single_flight) result" where
  "sf_init max_entries ttl =
     (if \<not> is_pos_int max_entries
      then Inl (ValueError (lit ''max_entries must be a positive integer''))
      else case finite_number ttl of
        None \<Rightarrow> Inl (ValueError (lit ''result_ttl_seconds must be a finite non-negative number''))
      | Some t \<Rightarrow>
          if t < 0 then Inl (ValueError (lit ''result_ttl_seconds must be a finite non-negative number''))
          else Inr \<lparr>sf_max_entries = nat (int_of max_entries), sf_result_ttl = t, sf_heap = [],
                    sf_flights = [], sf_leaders = 0, sf_shared_results = 0, sf_followers_waiting = 0,
                    sf_wait_timeouts = 0, sf_capacity_rejections = 0\<rparr>)"

definition completed_of :: "('v, 'e) single_flight \<Rightarrow> nat \<Rightarrow> real option" where
  "completed_of st i = fl_completed_at (sf_heap st ! i)"

definition expire_completed :: "real \<Rightarrow> ('v, 'e) single_flight \<Rightarrow> ('v, 'e) single_flight" where
  "expire_completed now st = st\<lparr>sf_flights := filter (\<lambda>p.
     \<not> (case completed_of st (snd p) of None \<Rightarrow> False | Some t \<Rightarrow> sf_result_ttl st \<le> now - t)) (sf_flights st)\<rparr>"

text \<open>\<open>min(completed)\<close> over the pairs of completion time and key.\<close>

definition completed_pairs :: "('v, 'e) single_flight \<Rightarrow> (real \<times> pystr) list" where
  "completed_pairs st = concat (map (\<lambda>p. case completed_of st (snd p) of None \<Rightarrow> []
     | Some t \<Rightarrow> [(t, fst p)]) (sf_flights st))"

definition evict_oldest_completed :: "('v, 'e) single_flight \<Rightarrow> ('v, 'e) single_flight option" where
  "evict_oldest_completed st =
     (case completed_pairs st of [] \<Rightarrow> None
      | p # ps \<Rightarrow> Some (st\<lparr>sf_flights := AList.delete (snd (fold min ps p)) (sf_flights st)\<rparr>))"

lemma evict_smaller:
  "evict_oldest_completed st = Some st' \<Longrightarrow> length (sf_flights st') < length (sf_flights st)"
proof -
  assume "evict_oldest_completed st = Some st'"
  then obtain p ps where ps: "completed_pairs st = p # ps"
    and st': "st' = st\<lparr>sf_flights := AList.delete (snd (fold min ps p)) (sf_flights st)\<rparr>"
    by (auto simp: evict_oldest_completed_def split: list.splits)
  have "fold min ps p \<in> set (p # ps)" by (induction ps arbitrary: p) (auto simp: min_def)
  then have "snd (fold min ps p) \<in> fst ` set (sf_flights st)"
    unfolding ps [symmetric] by (force simp: completed_pairs_def split: option.splits)
  then show ?thesis using st'
    by (auto simp: AList.delete_eq intro!: length_filter_less)
qed

text \<open>The loop that makes room; the flag is false when only active flights are left.\<close>

function make_room :: "('v, 'e) single_flight \<Rightarrow> bool \<times> ('v, 'e) single_flight" where
  "make_room st =
     (if sf_max_entries st \<le> length (sf_flights st)
      then (case evict_oldest_completed st of None \<Rightarrow> (False, st) | Some st' \<Rightarrow> make_room st')
      else (True, st))"
  by pat_completeness auto
termination
  by (relation "measure (\<lambda>st. length (sf_flights st))") (auto dest: evict_smaller)

declare make_room.simps [simp del]

definition sf_validate :: "pyval \<Rightarrow> pyval \<Rightarrow> (py_error, pystr) result" where
  "sf_validate key timeout =
     (case key of
        PStr k \<Rightarrow>
          if k = [] then Inl (ValueError (lit ''singleflight key must be a non-empty string''))
          else (case finite_number timeout of
                  None \<Rightarrow> Inl (ValueError (lit ''timeout must be a finite non-negative number''))
                | Some t \<Rightarrow> if t < 0 then Inl (ValueError (lit ''timeout must be a finite non-negative number''))
                           else Inr k)
      | _ \<Rightarrow> Inl (ValueError (lit ''singleflight key must be a non-empty string'')))"

datatype entry = Leader nat | Follower nat bool | AtCapacity

text \<open>The first critical section of \<open>run\<close>.\<close>

definition sf_enter :: "real \<Rightarrow> pystr \<Rightarrow> ('v, 'e) single_flight \<Rightarrow> entry \<times> ('v, 'e) single_flight" where
  "sf_enter now key st0 =
     (let st = expire_completed now st0 in
      case map_of (sf_flights st) key of
        None \<Rightarrow>
          (case make_room st of
             (False, st1) \<Rightarrow> (AtCapacity, st1\<lparr>sf_capacity_rejections := Suc (sf_capacity_rejections st1)\<rparr>)
           | (True, st1) \<Rightarrow>
               (Leader (length (sf_heap st1)),
                st1\<lparr>sf_heap := sf_heap st1 @ [\<lparr>fl_created_at = now, fl_event = False, fl_completed_at = None,
                                               fl_value = None, fl_error = None, fl_waiters = 0\<rparr>],
                    sf_flights := AList.update key (length (sf_heap st1)) (sf_flights st1),
                    sf_leaders := Suc (sf_leaders st1)\<rparr>))
      | Some i \<Rightarrow>
          let joined = (completed_of st i = None);
              st1 = st\<lparr>sf_shared_results := Suc (sf_shared_results st)\<rparr>
          in (Follower i joined,
              if joined
              then st1\<lparr>sf_heap := (sf_heap st1)[i := (sf_heap st1 ! i)\<lparr>fl_waiters := fl_waiters (sf_heap st1 ! i) + 1\<rparr>],
                       sf_followers_waiting := sf_followers_waiting st1 + 1\<rparr>
              else st1))"

text \<open>The leader's second critical section, on both of its paths.\<close>

definition sf_complete :: "real \<Rightarrow> ('v, 'e) outcome \<Rightarrow> nat \<Rightarrow> ('v, 'e) single_flight \<Rightarrow> ('v, 'e) single_flight" where
  "sf_complete now res i st =
     st\<lparr>sf_heap := (sf_heap st)[i :=
       (case res of
          Returned v \<Rightarrow> (sf_heap st ! i)\<lparr>fl_value := Some v, fl_completed_at := Some now, fl_event := True\<rparr>
        | Raised e \<Rightarrow> (sf_heap st ! i)\<lparr>fl_error := Some e, fl_completed_at := Some now, fl_event := True\<rparr>)]\<rparr>"

text \<open>The follower's second critical section, entered by callers that joined an active flight.\<close>

definition sf_release :: "bool \<Rightarrow> nat \<Rightarrow> ('v, 'e) single_flight \<Rightarrow> ('v, 'e) single_flight" where
  "sf_release completed i st =
     st\<lparr>sf_heap := (sf_heap st)[i := (sf_heap st ! i)\<lparr>fl_waiters := fl_waiters (sf_heap st ! i) - 1\<rparr>],
        sf_followers_waiting := sf_followers_waiting st - 1,
        sf_wait_timeouts := (if completed then sf_wait_timeouts st else Suc (sf_wait_timeouts st))\<rparr>"

datatype ('v, 'e) sf_result = Shared "'v option" | OperationError 'e | SingleFlightTimeout

definition follower_result :: "bool \<Rightarrow> nat \<Rightarrow> ('v, 'e) single_flight \<Rightarrow> ('v, 'e) sf_result" where
  "follower_result completed i st =
     (if \<not> completed then SingleFlightTimeout
      else case fl_error (sf_heap st ! i) of
        Some e \<Rightarrow> OperationError e
      | None \<Rightarrow> Shared (fl_value (sf_heap st ! i)))"

definition sf_invalidate :: "pystr \<Rightarrow> ('v, 'e) single_flight \<Rightarrow> ('v, 'e) single_flight" where
  "sf_invalidate key st =
     (case map_of (sf_flights st) key of
        None \<Rightarrow> st
      | Some i \<Rightarrow> if completed_of st i = None then st
                 else st\<lparr>sf_flights := AList.delete key (sf_flights st)\<rparr>)"

text \<open>\<open>stats\<close>: leaders, shared results, waiting, timeouts, rejections, active and retained entries.\<close>

definition sf_stats :: "real \<Rightarrow> ('v, 'e) single_flight
    \<Rightarrow> (nat \<times> nat \<times> int \<times> nat \<times> nat \<times> nat \<times> nat) \<times> ('v, 'e) single_flight" where
  "sf_stats now st0 =
     (let st = expire_completed now st0
      in ((sf_leaders st, sf_shared_results st, sf_followers_waiting st, sf_wait_timeouts st,
           sf_capacity_rejections st,
           length (filter (\<lambda>p. completed_of st (snd p) = None) (sf_flights st)), length (sf_flights st)), st))"

subsection \<open>Concurrent callers\<close>

text \<open>Where a call of \<open>run\<close> stands; a finished call remembers its flight and what it got.\<close>

datatype ('v, 'e) pc =
    Leading nat
  | Waiting nat bool
  | Woken nat bool bool
  | Led nat "('v, 'e) outcome"
  | Followed nat "('v, 'e) sf_result"
  | Rejected

type_synonym ('v, 'e) caller = "pystr \<times> ('v, 'e) pc"

record ('v, 'e) world =
  w_sf :: "('v, 'e) single_flight"
  w_callers :: "('v, 'e) caller list"

fun entry_pc :: "entry \<Rightarrow> ('v, 'e) pc" where
  "entry_pc (Leader i) = Leading i"
| "entry_pc (Follower i joined) = Waiting i joined"
| "entry_pc AtCapacity = Rejected"

inductive sf_step :: "('v, 'e) world \<Rightarrow> ('v, 'e) world \<Rightarrow> bool" where
  enter: "sf_validate key timeout = Inr k \<Longrightarrow> sf_enter now k (w_sf w) = (en, st) \<Longrightarrow>
    sf_step w \<lparr>w_sf = st, w_callers = w_callers w @ [(k, entry_pc en)]\<rparr>"
| operation_done: "c < length (w_callers w) \<Longrightarrow> w_callers w ! c = (k, Leading i) \<Longrightarrow>
    sf_step w \<lparr>w_sf = sf_complete now res i (w_sf w), w_callers = (w_callers w)[c := (k, Led i res)]\<rparr>"
| wake: "c < length (w_callers w) \<Longrightarrow> w_callers w ! c = (k, Waiting i joined) \<Longrightarrow>
    fl_event (sf_heap (w_sf w) ! i) \<Longrightarrow>
    sf_step w (w\<lparr>w_callers := (w_callers w)[c := (k, Woken i joined True)]\<rparr>)"
| time_out: "c < length (w_callers w) \<Longrightarrow> w_callers w ! c = (k, Waiting i joined) \<Longrightarrow>
    \<not> fl_event (sf_heap (w_sf w) ! i) \<Longrightarrow>
    sf_step w (w\<lparr>w_callers := (w_callers w)[c := (k, Woken i joined False)]\<rparr>)"
| release: "c < length (w_callers w) \<Longrightarrow> w_callers w ! c = (k, Woken i joined completed) \<Longrightarrow>
    st = (if joined then sf_release completed i (w_sf w) else w_sf w) \<Longrightarrow>
    sf_step w \<lparr>w_sf = st, w_callers = (w_callers w)[c := (k, Followed i (follower_result completed i st))]\<rparr>"
| invalidate: "sf_step w (w\<lparr>w_sf := sf_invalidate key (w_sf w)\<rparr>)"
| stats: "sf_step w (w\<lparr>w_sf := snd (sf_stats now (w_sf w))\<rparr>)"

definition sf_reachable :: "('v, 'e) single_flight \<Rightarrow> ('v, 'e) world \<Rightarrow> bool" where
  "sf_reachable st w \<longleftrightarrow> sf_step\<^sup>*\<^sup>* \<lparr>w_sf = st, w_callers = []\<rparr> w"

end
