(* ===== verification/Single_Flight_Facts.thy ===== *)
theory Single_Flight_Facts
  imports Single_Flight
begin

section \<open>Correctness of duplicate-work coalescing\<close>

text \<open>
  The invariants of \<open>sf_step\<close>, proved for every interleaving: the registry is bounded and holds
  every active flight, an active flight has exactly one running leader, the waiting gauges count
  the callers that wait, and what a follower gets is what the leader of its key produced.
\<close>

subsection \<open>The registry only forgets completed flights\<close>

definition forgets :: "('v, 'e) single_flight \<Rightarrow> ('v, 'e) single_flight \<Rightarrow> bool" where
  "forgets st st' \<longleftrightarrow> sf_heap st' = sf_heap st \<and> sf_max_entries st' = sf_max_entries st
     \<and> sf_followers_waiting st' = sf_followers_waiting st
     \<and> (\<exists>P. sf_flights st' = filter P (sf_flights st)
          \<and> (\<forall>p\<in>set (sf_flights st). completed_of st (snd p) = None \<longrightarrow> P p))"

lemma forgets_filter:
  "\<forall>p\<in>set (sf_flights st). completed_of st (snd p) = None \<longrightarrow> P p \<Longrightarrow>
   forgets st (st\<lparr>sf_flights := filter P (sf_flights st)\<rparr>)"
  unfolding forgets_def by (intro conjI exI [of _ P]) simp_all

lemma forgets_refl [simp]: "forgets st st"
  using forgets_filter [of st "\<lambda>_. True"] by simp

lemma forgets_trans: "forgets a b \<Longrightarrow> forgets b c \<Longrightarrow> forgets a c"
proof -
  assume ab: "forgets a b" and bc: "forgets b c"
  obtain P where P: "sf_flights b = filter P (sf_flights a)"
      "\<forall>p\<in>set (sf_flights a). completed_of a (snd p) = None \<longrightarrow> P p"
    using ab by (auto simp: forgets_def)
  obtain Q where Q: "sf_flights c = filter Q (sf_flights b)"
      "\<forall>p\<in>set (sf_flights b). completed_of b (snd p) = None \<longrightarrow> Q p"
    using bc by (auto simp: forgets_def)
  have "completed_of b i = completed_of a i" for i using ab by (simp add: forgets_def completed_of_def)
  then have "sf_flights c = filter (\<lambda>p. P p \<and> Q p) (sf_flights a)
      \<and> (\<forall>p\<in>set (sf_flights a). completed_of a (snd p) = None \<longrightarrow> P p \<and> Q p)"
    using P Q by auto
  then show ?thesis using ab bc unfolding forgets_def by (auto intro!: exI [of _ "\<lambda>p. P p \<and> Q p"])
qed

lemma forgets_expire [simp]: "forgets st (expire_completed now st)"
  unfolding expire_completed_def by (rule forgets_filter) auto

lemma forgets_delete:
  assumes "distinct_keys (sf_flights st)" "(k, i) \<in> set (sf_flights st)" "completed_of st i \<noteq> None"
  shows "forgets st (st\<lparr>sf_flights := AList.delete k (sf_flights st)\<rparr>)"
proof -
  have "p = (k, i)" if "p \<in> set (sf_flights st)" "fst p = k" for p
    using that assms(1,2) by (metis distinct_keys_def eq_key_imp_eq_value prod.collapse)
  then have "\<forall>p\<in>set (sf_flights st). completed_of st (snd p) = None \<longrightarrow> fst p \<noteq> k"
    using assms(3) by fastforce
  then show ?thesis unfolding delete_key_filter by (rule forgets_filter)
qed

lemma fold_min_in: "fold min ps p \<in> set (p # ps)" for p :: "'a::linorder"
  by (induction ps arbitrary: p) (auto simp: min_def)

lemma forgets_evict:
  "evict_oldest_completed st = Some st' \<Longrightarrow> distinct_keys (sf_flights st) \<Longrightarrow> forgets st st'"
proof -
  assume e: "evict_oldest_completed st = Some st'" and d: "distinct_keys (sf_flights st)"
  obtain p ps where ps: "completed_pairs st = p # ps"
    and st': "st' = st\<lparr>sf_flights := AList.delete (snd (fold min ps p)) (sf_flights st)\<rparr>"
    using e by (auto simp: evict_oldest_completed_def split: list.splits)
  have "fold min ps p \<in> set (completed_pairs st)" using fold_min_in [of ps p] ps by simp
  then obtain i where "(snd (fold min ps p), i) \<in> set (sf_flights st)" "completed_of st i \<noteq> None"
    by (force simp: completed_pairs_def split: option.splits)
  then show ?thesis using forgets_delete [OF d] st' by simp
qed

lemma forgets_distinct: "forgets st st' \<Longrightarrow> distinct_keys (sf_flights st) \<Longrightarrow> distinct_keys (sf_flights st')"
  by (auto simp: forgets_def)

lemma make_room_forgets:
  "make_room st = (ok, st') \<Longrightarrow> distinct_keys (sf_flights st) \<Longrightarrow>
   forgets st st' \<and> (ok \<longrightarrow> length (sf_flights st') < sf_max_entries st')"
proof (induction st arbitrary: ok st' rule: make_room.induct)
  case (1 st)
  show ?case
  proof (cases "sf_max_entries st \<le> length (sf_flights st)")
    case True
    show ?thesis
    proof (cases "evict_oldest_completed st")
      case None
      then show ?thesis using 1(2) True by (simp add: make_room.simps [of st])
    next
      case (Some st1)
      then have f: "forgets st st1" using 1(3) forgets_evict by blast
      have "make_room st1 = (ok, st')" using 1(2) True Some by (simp add: make_room.simps [of st])
      then show ?thesis using 1(1) [OF True Some] forgets_distinct [OF f 1(3)] forgets_trans [OF f] by blast
    qed
  next
    case False
    then show ?thesis using 1(2) by (simp add: make_room.simps [of st])
  qed
qed

lemma forgets_invalidate: "distinct_keys (sf_flights st) \<Longrightarrow> forgets st (sf_invalidate k st)"
  using forgets_delete by (fastforce simp: sf_invalidate_def dest: map_of_SomeD split: option.splits)

subsection \<open>Counting callers\<close>

definition count_if :: "('a \<Rightarrow> bool) \<Rightarrow> 'a list \<Rightarrow> nat" where
  "count_if P xs = length (filter P xs)"

lemma count_if_simps [simp]:
  "count_if P [] = 0"
  "count_if P (xs @ [x]) = count_if P xs + (if P x then 1 else 0)"
  by (simp_all add: count_if_def)

lemma count_if_update:
  "c < length xs \<Longrightarrow> count_if P (xs[c := x]) + (if P (xs ! c) then 1 else 0) = count_if P xs + (if P x then 1 else 0)"
proof (induction xs arbitrary: c)
  case (Cons y xs)
  then show ?case by (cases c) (auto simp: count_if_def)
qed simp

lemma count_if_pos: "x \<in> set xs \<Longrightarrow> P x \<Longrightarrow> 0 < count_if P xs"
  by (auto simp: count_if_def filter_empty_conv)

lemma count_if_one:
  "count_if P xs \<le> 1 \<Longrightarrow> a < length xs \<Longrightarrow> b < length xs \<Longrightarrow> P (xs ! a) \<Longrightarrow> P (xs ! b) \<Longrightarrow> a = b"
proof (induction xs arbitrary: a b)
  case (Cons x xs)
  have *: "c < length xs \<Longrightarrow> P (xs ! c) \<Longrightarrow> 0 < count_if P xs" for c by (rule count_if_pos [OF nth_mem])
  then show ?case using Cons
    by (cases a; cases b) (force simp: count_if_def split: if_splits)+
qed simp

subsection \<open>The invariant\<close>

fun pc_flight :: "('v, 'e) pc \<Rightarrow> nat option" where
  "pc_flight (Leading i) = Some i"
| "pc_flight (Waiting i _) = Some i"
| "pc_flight (Woken i _ _) = Some i"
| "pc_flight (Led i _) = Some i"
| "pc_flight (Followed i _) = Some i"
| "pc_flight Rejected = None"

fun waits_on :: "nat \<Rightarrow> ('v, 'e) pc \<Rightarrow> bool" where
  "waits_on i (Waiting j joined) \<longleftrightarrow> i = j \<and> joined"
| "waits_on i (Woken j joined _) \<longleftrightarrow> i = j \<and> joined"
| "waits_on i _ \<longleftrightarrow> False"

fun is_waiting :: "('v, 'e) pc \<Rightarrow> bool" where
  "is_waiting (Waiting _ joined) \<longleftrightarrow> joined"
| "is_waiting (Woken _ joined _) \<longleftrightarrow> joined"
| "is_waiting _ \<longleftrightarrow> False"

definition active :: "('v, 'e) single_flight \<Rightarrow> nat \<Rightarrow> bool" where
  "active st i \<longleftrightarrow> i < length (sf_heap st) \<and> completed_of st i = None"

text \<open>Registry: bounded, one entry per key, and every active flight is in it under its key.\<close>

definition reg_ok :: "(nat \<Rightarrow> pystr) \<Rightarrow> ('v, 'e) world \<Rightarrow> bool" where
  "reg_ok owner w \<longleftrightarrow>
     distinct_keys (sf_flights (w_sf w)) \<and> length (sf_flights (w_sf w)) \<le> sf_max_entries (w_sf w)
     \<and> (\<forall>p\<in>set (sf_flights (w_sf w)). snd p < length (sf_heap (w_sf w)) \<and> owner (snd p) = fst p)
     \<and> (\<forall>i. active (w_sf w) i \<longrightarrow> (owner i, i) \<in> set (sf_flights (w_sf w)))
     \<and> (\<forall>c\<in>set (w_callers w). \<forall>i. pc_flight (snd c) = Some i \<longrightarrow> i < length (sf_heap (w_sf w)) \<and> owner i = fst c)"

definition lead_ok :: "('v, 'e) world \<Rightarrow> bool" where
  "lead_ok w \<longleftrightarrow> (\<forall>i. count_if (\<lambda>c. snd c = Leading i) (w_callers w) = (if active (w_sf w) i then 1 else 0))"

definition wait_ok :: "('v, 'e) world \<Rightarrow> bool" where
  "wait_ok w \<longleftrightarrow>
     sf_followers_waiting (w_sf w) = int (count_if (\<lambda>c. is_waiting (snd c)) (w_callers w))
     \<and> (\<forall>i<length (sf_heap (w_sf w)).
          fl_waiters (sf_heap (w_sf w) ! i) = int (count_if (\<lambda>c. waits_on i (snd c)) (w_callers w)))"

definition outcome_of :: "('v, 'e) flight \<Rightarrow> ('v, 'e) outcome option" where
  "outcome_of f = (case fl_error f of Some e \<Rightarrow> Some (Raised e) | None \<Rightarrow> map_option Returned (fl_value f))"

definition flight_ok :: "('v, 'e) flight \<Rightarrow> bool" where
  "flight_ok f \<longleftrightarrow> (if fl_completed_at f = None then \<not> fl_event f \<and> fl_value f = None \<and> fl_error f = None
     else fl_event f \<and> (fl_value f = None \<longleftrightarrow> fl_error f \<noteq> None))"

fun pc_ok :: "('v, 'e) single_flight \<Rightarrow> ('v, 'e) pc \<Rightarrow> bool" where
  "pc_ok st (Waiting i joined) = (joined \<or> fl_event (sf_heap st ! i))"
| "pc_ok st (Woken i joined completed) = ((completed \<longrightarrow> fl_event (sf_heap st ! i)) \<and> (joined \<or> completed))"
| "pc_ok st (Led i res) = (fl_event (sf_heap st ! i) \<and> outcome_of (sf_heap st ! i) = Some res)"
| "pc_ok st (Followed i r) =
     (r \<noteq> SingleFlightTimeout \<longrightarrow> fl_event (sf_heap st ! i) \<and> r = follower_result True i st)"
| "pc_ok st _ = True"

definition res_ok :: "('v, 'e) world \<Rightarrow> bool" where
  "res_ok w \<longleftrightarrow> (\<forall>f\<in>set (sf_heap (w_sf w)). flight_ok f)
     \<and> (\<forall>c\<in>set (w_callers w). pc_ok (w_sf w) (snd c))
     \<and> (\<forall>i<length (sf_heap (w_sf w)). fl_event (sf_heap (w_sf w) ! i) \<longrightarrow>
          (\<exists>c\<in>set (w_callers w). \<exists>res. snd c = Led i res))"

subsection \<open>Every step keeps the invariant\<close>

text \<open>Forgetting completed flights leaves everything but the registry alone.\<close>

lemma forgets_members:
  assumes "forgets st st'"
  shows "set (sf_flights st') \<subseteq> set (sf_flights st)" "length (sf_flights st') \<le> length (sf_flights st)"
    "sf_heap st' = sf_heap st" "sf_max_entries st' = sf_max_entries st"
    "sf_followers_waiting st' = sf_followers_waiting st" "active st' = active st"
    "p \<in> set (sf_flights st) \<Longrightarrow> completed_of st (snd p) = None \<Longrightarrow> p \<in> set (sf_flights st')"
  using assms by (auto simp: forgets_def active_def completed_of_def fun_eq_iff)

lemma reg_ok_forgets:
  assumes "reg_ok owner w" "forgets (w_sf w) st"
  shows "reg_ok owner (w\<lparr>w_sf := st\<rparr>)"
proof -
  note f = forgets_members [OF assms(2)]
  have "(owner i, i) \<in> set (sf_flights st)" if "active (w_sf w) i" for i
    using f(7) [of "(owner i, i)"] that assms(1) by (simp add: reg_ok_def active_def)
  then show ?thesis
    using assms(1) f(1) order_trans [OF f(2)] forgets_distinct [OF assms(2)] f(3,4,6)
    unfolding reg_ok_def by (auto simp: subset_iff)
qed

lemma pc_ok_heap: "sf_heap st' = sf_heap st \<Longrightarrow> pc_ok st' pc = pc_ok st pc"
  by (cases pc) (auto simp: follower_result_def split: option.splits)

lemma other_ok_forgets:
  assumes "forgets (w_sf w) st"
  shows "lead_ok w \<Longrightarrow> lead_ok (w\<lparr>w_sf := st\<rparr>)" "wait_ok w \<Longrightarrow> wait_ok (w\<lparr>w_sf := st\<rparr>)"
    "res_ok w \<Longrightarrow> res_ok (w\<lparr>w_sf := st\<rparr>)"
  using forgets_members(3,5,6) [OF assms] pc_ok_heap [of st "w_sf w"]
  by (simp_all add: lead_ok_def wait_ok_def res_ok_def)

text \<open>A change of one flight that keeps its result, as joining and releasing make.\<close>

definition same_core :: "('v, 'e) flight \<Rightarrow> ('v, 'e) flight \<Rightarrow> bool" where
  "same_core f g \<longleftrightarrow> fl_event f = fl_event g \<and> fl_completed_at f = fl_completed_at g
     \<and> fl_value f = fl_value g \<and> fl_error f = fl_error g"

lemma same_core_waiters [simp]: "same_core (f\<lparr>fl_waiters := n\<rparr>) f"
  by (simp add: same_core_def)

text \<open>The heap may grow at the end; existing flights keep their result.\<close>

definition extends :: "('v, 'e) single_flight \<Rightarrow> ('v, 'e) single_flight \<Rightarrow> bool" where
  "extends st st' \<longleftrightarrow> length (sf_heap st) \<le> length (sf_heap st')
     \<and> (\<forall>i<length (sf_heap st). same_core (sf_heap st' ! i) (sf_heap st ! i))"

lemma extends_update [simp]:
  "extends st (st\<lparr>sf_heap := (sf_heap st)[i := (sf_heap st ! i)\<lparr>fl_waiters := n\<rparr>]\<rparr>)"
proof -
  have "same_core ((sf_heap st)[i := (sf_heap st ! i)\<lparr>fl_waiters := n\<rparr>] ! j) (sf_heap st ! j)"
    if "j < length (sf_heap st)" for j
    using that by (cases "i = j") (simp_all add: same_core_def)
  then show ?thesis by (simp add: extends_def)
qed

lemma extends_pc_ok:
  assumes "extends st st'" "pc_ok st pc" "\<And>i. pc_flight pc = Some i \<Longrightarrow> i < length (sf_heap st)"
  shows "pc_ok st' pc"
  using assms by (cases pc) (auto simp: extends_def same_core_def follower_result_def outcome_of_def
      split: option.splits)

lemma extends_active: "extends st st' \<Longrightarrow> i < length (sf_heap st) \<Longrightarrow> active st' i = active st i"
  by (auto simp: extends_def same_core_def active_def completed_of_def)

lemma flight_ok_core: "same_core f g \<Longrightarrow> flight_ok f = flight_ok g"
  by (simp add: same_core_def flight_ok_def)

lemma res_ok_extends:
  assumes "res_ok w" "reg_ok owner w" "extends (w_sf w) st"
    and new: "\<forall>i. length (sf_heap (w_sf w)) \<le> i \<and> i < length (sf_heap st) \<longrightarrow>
       flight_ok (sf_heap st ! i) \<and> \<not> fl_event (sf_heap st ! i)"
    and cs: "\<forall>c\<in>set cs. pc_ok st (snd c) \<or> c \<in> set (w_callers w)"
    and led: "\<forall>c\<in>set (w_callers w). (\<exists>i res. snd c = Led i res) \<longrightarrow> c \<in> set cs"
  shows "res_ok \<lparr>w_sf = st, w_callers = cs\<rparr>"
proof -
  let ?h = "sf_heap (w_sf w)" and ?h' = "sf_heap st"
  have fl: "flight_ok (?h' ! i)" if "i < length ?h'" for i
  proof (cases "i < length ?h")
    case True
    then show ?thesis using assms(1,3) flight_ok_core by (fastforce simp: res_ok_def extends_def)
  qed (use new that in simp)
  have pc: "pc_ok st (snd c)" if "c \<in> set cs" for c
  proof (cases "c \<in> set (w_callers w)")
    case True
    then show ?thesis using assms(1,2) extends_pc_ok [OF assms(3), of "snd c"]
      by (auto simp: res_ok_def reg_ok_def)
  qed (use cs that in blast)
  have ev: "\<exists>c\<in>set cs. \<exists>res. snd c = Led i res" if "i < length ?h'" "fl_event (?h' ! i)" for i
  proof -
    have i: "i < length ?h" using new that by (meson not_le)
    then have "fl_event (?h ! i)" using assms(3) that(2) by (simp add: extends_def same_core_def)
    then obtain c res where "c \<in> set (w_callers w)" "snd c = Led i res" using assms(1) i by (auto simp: res_ok_def)
    then show ?thesis using led by blast
  qed
  show ?thesis using fl pc ev by (simp add: res_ok_def in_set_conv_nth) (metis in_set_conv_nth)
qed

subsubsection \<open>Entering\<close>

text \<open>The effect of the first critical section, by its three outcomes.\<close>

definition lead_effect :: "pystr \<Rightarrow> ('v, 'e) single_flight \<Rightarrow> ('v, 'e) single_flight \<Rightarrow> bool" where
  "lead_effect k st st' \<longleftrightarrow> (\<exists>st1 f. forgets st st1 \<and> map_of (sf_flights st1) k = None
     \<and> length (sf_flights st1) < sf_max_entries st1 \<and> sf_heap st' = sf_heap st @ [f]
     \<and> flight_ok f \<and> fl_completed_at f = None \<and> fl_waiters f = 0
     \<and> sf_flights st' = sf_flights st1 @ [(k, length (sf_heap st))]
     \<and> sf_max_entries st' = sf_max_entries st \<and> sf_followers_waiting st' = sf_followers_waiting st)"

lemma update_new: "map_of d k = None \<Longrightarrow> AList.update k v d = d @ [(k, v)]"
  by (induction d) (auto split: if_splits)

lemma forgets_lookup:
  assumes "forgets st st'" "map_of (sf_flights st) k = None"
  shows "map_of (sf_flights st') k = None"
  using assms forgets_members(1) [OF assms(1)] by (auto simp: map_of_eq_None_iff)

lemma sf_enter_cases:
  assumes "sf_enter now k st = (en, st')" "distinct_keys (sf_flights st)"
  obtains (lead) "en = Leader (length (sf_heap st))" "lead_effect k st st'"
  | (join) i st1 where "en = Follower i True" "forgets st st1" "(k, i) \<in> set (sf_flights st1)"
      "completed_of st1 i = None"
      "st' = st1\<lparr>sf_shared_results := Suc (sf_shared_results st1),
          sf_heap := (sf_heap st1)[i := (sf_heap st1 ! i)\<lparr>fl_waiters := fl_waiters (sf_heap st1 ! i) + 1\<rparr>],
          sf_followers_waiting := sf_followers_waiting st1 + 1\<rparr>"
  | (hit) i st1 where "en = Follower i False" "forgets st st1" "(k, i) \<in> set (sf_flights st1)"
      "completed_of st1 i \<noteq> None" "st' = st1\<lparr>sf_shared_results := Suc (sf_shared_results st1)\<rparr>"
  | (full) st1 n where "en = AtCapacity" "forgets st st1" "st' = st1\<lparr>sf_capacity_rejections := n\<rparr>"
proof -
  let ?x = "expire_completed now st"
  have fx: "forgets st ?x" by simp
  show thesis
  proof (cases "map_of (sf_flights ?x) k")
    case None
    obtain ok st1 where mr: "make_room ?x = (ok, st1)" by fastforce
    note r = make_room_forgets [OF mr forgets_distinct [OF fx assms(2)]]
    then have f1: "forgets st st1" using forgets_trans [OF fx] by blast
    have n1: "map_of (sf_flights st1) k = None" using forgets_lookup r None by blast
    show thesis
    proof (cases ok)
      case True
      have "lead_effect k st st'"
        unfolding lead_effect_def
        using assms(1) None mr True r f1 n1 forgets_members(3,4,5) [OF f1]
        by (intro exI [of _ st1]) (auto simp: sf_enter_def Let_def update_new flight_ok_def)
      moreover have "en = Leader (length (sf_heap st))"
        using assms(1) None mr True forgets_members(3) [OF f1] by (simp add: sf_enter_def Let_def)
      ultimately show thesis by (rule lead [rotated])
    next
      case False
      then show thesis using full [OF _ f1, of "Suc (sf_capacity_rejections st1)"] assms(1) None mr by (simp add: sf_enter_def Let_def)
    qed
  next
    case (Some i)
    then have m: "(k, i) \<in> set (sf_flights ?x)" by (rule map_of_SomeD)
    show thesis
    proof (cases "completed_of ?x i = None")
      case True
      then show thesis using join [OF _ fx m True] assms(1) Some by (simp add: sf_enter_def Let_def)
    next
      case False
      then obtain t where "completed_of ?x i = Some t" by blast
      then show thesis using hit [OF _ fx m False] assms(1) Some by (simp add: sf_enter_def Let_def)
    qed
  qed
qed

definition sf_inv :: "('v, 'e) world \<Rightarrow> bool" where
  "sf_inv w \<longleftrightarrow> (\<exists>owner. reg_ok owner w) \<and> lead_ok w \<and> wait_ok w \<and> res_ok w"

text \<open>Counters that no invariant mentions.\<close>

lemma sf_inv_cong:
  assumes "sf_heap b = sf_heap a" "sf_flights b = sf_flights a" "sf_max_entries b = sf_max_entries a"
    "sf_followers_waiting b = sf_followers_waiting a" "sf_inv (w\<lparr>w_sf := a\<rparr>)"
  shows "sf_inv (w\<lparr>w_sf := b\<rparr>)"
proof -
  have act: "active b = active a" using assms(1) by (simp add: active_def completed_of_def fun_eq_iff)
  have pc: "pc_ok b pc = pc_ok a pc" for pc using pc_ok_heap [OF assms(1)] .
  obtain owner where "reg_ok owner (w\<lparr>w_sf := a\<rparr>)" using assms(5) by (auto simp: sf_inv_def)
  then have "reg_ok owner (w\<lparr>w_sf := b\<rparr>)" using assms(1-3) act by (simp add: reg_ok_def)
  moreover have "lead_ok (w\<lparr>w_sf := b\<rparr>)" using assms(5) act by (simp add: sf_inv_def lead_ok_def)
  moreover have "wait_ok (w\<lparr>w_sf := b\<rparr>)" using assms by (simp add: sf_inv_def wait_ok_def)
  moreover have "res_ok (w\<lparr>w_sf := b\<rparr>)" using assms(1,5) pc by (simp add: sf_inv_def res_ok_def)
  ultimately show ?thesis unfolding sf_inv_def by blast
qed

lemma sf_inv_forgets: "sf_inv w \<Longrightarrow> forgets (w_sf w) st \<Longrightarrow> sf_inv (w\<lparr>w_sf := st\<rparr>)"
  using reg_ok_forgets other_ok_forgets unfolding sf_inv_def by blast

text \<open>A caller that holds no flight, or only a completed one, does not disturb the invariant.\<close>

lemma sf_inv_append:
  assumes "sf_inv w" "pc_ok (w_sf w) pc" "\<not> is_waiting pc" "\<forall>i. pc \<noteq> Leading i"
    and ref: "\<forall>i. pc_flight pc = Some i \<longrightarrow> (k, i) \<in> set (sf_flights (w_sf w))"
  shows "sf_inv (w\<lparr>w_callers := w_callers w @ [(k, pc)]\<rparr>)"
proof -
  have nw: "\<not> waits_on i pc" for i using assms(3) by (cases pc) auto
  obtain owner where "reg_ok owner w" using assms(1) by (auto simp: sf_inv_def)
  then have "reg_ok owner (w\<lparr>w_callers := w_callers w @ [(k, pc)]\<rparr>)"
    using ref by (fastforce simp: reg_ok_def)
  then show ?thesis using assms nw
    by (auto simp: sf_inv_def lead_ok_def wait_ok_def res_ok_def)
qed

lemma sf_inv_lead:
  assumes inv: "sf_inv w" and le: "lead_effect k (w_sf w) st"
  shows "sf_inv \<lparr>w_sf = st, w_callers = w_callers w @ [(k, Leading (length (sf_heap (w_sf w))))]\<rparr>"
proof -
  let ?st0 = "w_sf w" and ?n = "length (sf_heap (w_sf w))"
  let ?w = "\<lparr>w_sf = st, w_callers = w_callers w @ [(k, Leading ?n)]\<rparr>"
  obtain owner where ro: "reg_ok owner w" using inv by (auto simp: sf_inv_def)
  obtain st1 f where e: "forgets ?st0 st1" "map_of (sf_flights st1) k = None"
      "length (sf_flights st1) < sf_max_entries st1" "sf_heap st = sf_heap ?st0 @ [f]"
      "flight_ok f" "fl_completed_at f = None" "fl_waiters f = 0"
      "sf_flights st = sf_flights st1 @ [(k, ?n)]"
      "sf_max_entries st = sf_max_entries ?st0" "sf_followers_waiting st = sf_followers_waiting ?st0"
    using le by (auto simp: lead_effect_def)
  have ro1: "reg_ok owner (w\<lparr>w_sf := st1\<rparr>)" using reg_ok_forgets [OF ro e(1)] .
  note f1 = forgets_members(3-6) [OF e(1)]
  have act: "active st i \<longleftrightarrow> active ?st0 i \<or> i = ?n" for i
    using e(4,6) by (auto simp: active_def completed_of_def nth_append)
  have lt: "pc_flight (snd c) = Some i \<Longrightarrow> i \<noteq> ?n" if "c \<in> set (w_callers w)" for c i
    using ro that by (auto simp: reg_ok_def)
  have zero: "count_if (\<lambda>c. snd c = Leading ?n) (w_callers w) = 0"
      "count_if (\<lambda>c. waits_on ?n (snd c)) (w_callers w) = 0"
  proof -
    have "\<not> waits_on ?n (snd c)" "snd c \<noteq> Leading ?n" if "c \<in> set (w_callers w)" for c
      using lt [OF that] by (cases "snd c"; auto)+
    then show "count_if (\<lambda>c. snd c = Leading ?n) (w_callers w) = 0"
      "count_if (\<lambda>c. waits_on ?n (snd c)) (w_callers w) = 0"
      by (simp_all add: count_if_def filter_empty_conv)
  qed
  have "reg_ok (owner(?n := k)) ?w"
    using ro1 ro e(2,3,4,8,9) f1 act
    by (auto simp: reg_ok_def distinct_keys_def map_of_eq_None_iff image_iff)
  moreover have "lead_ok ?w"
    using inv act zero(1) by (auto simp: sf_inv_def lead_ok_def active_def)
  moreover have "wait_ok ?w"
    using inv e(4,7,10) zero(2) by (auto simp: sf_inv_def wait_ok_def nth_append less_Suc_eq)
  moreover have "res_ok ?w"
  proof (rule res_ok_extends [OF _ ro])
    show "extends ?st0 st" using e(4) by (simp add: extends_def nth_append same_core_def)
    show "\<forall>i. ?n \<le> i \<and> i < length (sf_heap st) \<longrightarrow> flight_ok (sf_heap st ! i) \<and> \<not> fl_event (sf_heap st ! i)"
      using e(4,5,6) by (auto simp: nth_append flight_ok_def less_Suc_eq)
  qed (use inv in \<open>auto simp: sf_inv_def\<close>)
  ultimately show ?thesis unfolding sf_inv_def by blast
qed

lemma sf_inv_join:
  assumes inv: "sf_inv w" and ki: "(k, i) \<in> set (sf_flights (w_sf w))"
  defines "st \<equiv> (w_sf w)\<lparr>sf_heap := (sf_heap (w_sf w))[i := (sf_heap (w_sf w) ! i)\<lparr>fl_waiters := fl_waiters (sf_heap (w_sf w) ! i) + 1\<rparr>],
          sf_followers_waiting := sf_followers_waiting (w_sf w) + 1\<rparr>"
  shows "sf_inv \<lparr>w_sf = st, w_callers = w_callers w @ [(k, Waiting i True)]\<rparr>"
proof -
  let ?w = "\<lparr>w_sf = st, w_callers = w_callers w @ [(k, Waiting i True)]\<rparr>"
  obtain owner where ro: "reg_ok owner w" using inv by (auto simp: sf_inv_def)
  have i: "i < length (sf_heap (w_sf w))" "owner i = k" using ro ki by (auto simp: reg_ok_def)
  have ext: "extends (w_sf w) st"
    using extends_update [of "w_sf w" i] by (simp add: extends_def st_def)
  have act: "active st = active (w_sf w)"
    using i extends_active [OF ext] by (auto simp: fun_eq_iff active_def st_def)
  have "reg_ok owner ?w" using ro act i by (auto simp: reg_ok_def st_def)
  moreover have "lead_ok ?w" using inv act by (auto simp: sf_inv_def lead_ok_def)
  moreover have "wait_ok ?w" using inv i by (auto simp: sf_inv_def wait_ok_def st_def nth_list_update)
  moreover have "res_ok ?w"
    by (rule res_ok_extends [OF _ ro ext]) (use inv in \<open>auto simp: sf_inv_def st_def\<close>)
  ultimately show ?thesis unfolding sf_inv_def by blast
qed

lemma world_updates [simp]:
  "(w :: ('v, 'e) world)\<lparr>w_callers := cs, w_sf := st\<rparr> = \<lparr>w_sf = st, w_callers = cs\<rparr>"
  "(w :: ('v, 'e) world)\<lparr>w_sf := st, w_callers := cs\<rparr> = \<lparr>w_sf = st, w_callers = cs\<rparr>"
  by (cases w, simp)+

lemma sf_inv_enter:
  assumes inv: "sf_inv w" and en: "sf_enter now k (w_sf w) = (en, st)"
  shows "sf_inv \<lparr>w_sf = st, w_callers = w_callers w @ [(k, entry_pc en)]\<rparr>"
proof -
  let ?w = "w\<lparr>w_callers := w_callers w @ [(k, entry_pc en)]\<rparr>"
  have "distinct_keys (sf_flights (w_sf w))" using inv by (auto simp: sf_inv_def reg_ok_def)
  from en this have "sf_inv (?w\<lparr>w_sf := st\<rparr>)"
  proof (cases rule: sf_enter_cases)
    case lead
    then show ?thesis using sf_inv_lead [OF inv] by simp
  next
    case (join i st1)
    note inv1 = sf_inv_join [OF sf_inv_forgets [OF inv join(2)], of k i]
    show ?thesis
      by (rule sf_inv_cong [OF _ _ _ _ inv1 [THEN back_subst [of sf_inv]]]) (use join in simp_all)
  next
    case (hit i st1)
    have inv1: "sf_inv (w\<lparr>w_sf := st1\<rparr>)" by (rule sf_inv_forgets [OF inv hit(2)])
    have "i < length (sf_heap st1)" "flight_ok (sf_heap st1 ! i)"
      using inv1 hit(3) by (force simp: sf_inv_def reg_ok_def res_ok_def)+
    then have "fl_event (sf_heap st1 ! i)" using hit(4) by (simp add: flight_ok_def completed_of_def)
    then have "sf_inv (?w\<lparr>w_sf := st1\<rparr>)"
      using sf_inv_append [OF inv1, of "entry_pc en" k] hit by simp
    then show ?thesis by (rule sf_inv_cong [rotated -1]) (use hit in simp_all)
  next
    case (full st1 n)
    have "sf_inv (?w\<lparr>w_sf := st1\<rparr>)"
      using sf_inv_append [OF sf_inv_forgets [OF inv full(2)], of "entry_pc en" k] full by simp
    then show ?thesis by (rule sf_inv_cong [rotated -1]) (use full in simp_all)
  qed
  then show ?thesis by simp
qed

subsubsection \<open>The leader's result\<close>

definition completed_flight :: "real \<Rightarrow> ('v, 'e) outcome \<Rightarrow> ('v, 'e) flight \<Rightarrow> ('v, 'e) flight" where
  "completed_flight now res f = (case res of
     Returned v \<Rightarrow> f\<lparr>fl_value := Some v, fl_completed_at := Some now, fl_event := True\<rparr>
   | Raised e \<Rightarrow> f\<lparr>fl_error := Some e, fl_completed_at := Some now, fl_event := True\<rparr>)"

lemma completed_flight_ok:
  assumes "flight_ok f" "fl_completed_at f = None"
  shows "flight_ok (completed_flight now res f)" "fl_event (completed_flight now res f)"
    "outcome_of (completed_flight now res f) = Some res" "fl_completed_at (completed_flight now res f) = Some now"
    "fl_waiters (completed_flight now res f) = fl_waiters f"
  using assms by (cases res; simp add: completed_flight_def flight_ok_def outcome_of_def)+

lemma sf_complete_heap:
  "sf_complete now res i st = st\<lparr>sf_heap := (sf_heap st)[i := completed_flight now res (sf_heap st ! i)]\<rparr>"
  by (cases res) (simp_all add: sf_complete_def completed_flight_def)

lemma leading_active:
  assumes "sf_inv w" "(k, Leading i) \<in> set (w_callers w)"
  shows "active (w_sf w) i" "count_if (\<lambda>c. snd c = Leading i) (w_callers w) = 1" "flight_ok (sf_heap (w_sf w) ! i)"
proof -
  have "0 < count_if (\<lambda>c. snd c = Leading i) (w_callers w)" using count_if_pos [OF assms(2)] by simp
  then show "active (w_sf w) i" "count_if (\<lambda>c. snd c = Leading i) (w_callers w) = 1"
    using assms(1) by (auto simp: sf_inv_def lead_ok_def split: if_splits)
  then show "flight_ok (sf_heap (w_sf w) ! i)" using assms(1) by (simp add: sf_inv_def res_ok_def active_def)
qed

lemma callers_update_mem: "c \<in> set (cs[n := x]) \<Longrightarrow> c = x \<or> c \<in> set cs"
  using set_update_subset_insert by fastforce

lemma reg_ok_callers:
  assumes "reg_ok owner w" "c < length (w_callers w)" "w_callers w ! c = (k, pc)" "pc_flight pc' = pc_flight pc"
  shows "reg_ok owner (w\<lparr>w_callers := (w_callers w)[c := (k, pc')]\<rparr>)"
proof -
  have "(k, pc) \<in> set (w_callers w)" using assms(2,3) by (metis nth_mem)
  then show ?thesis using assms(1,4) by (auto simp: reg_ok_def dest!: callers_update_mem)
qed

lemma sf_inv_done:
  assumes inv: "sf_inv w" and c: "c < length (w_callers w)" "w_callers w ! c = (k, Leading i)"
  shows "sf_inv \<lparr>w_sf = sf_complete now res i (w_sf w), w_callers = (w_callers w)[c := (k, Led i res)]\<rparr>"
proof -
  let ?st = "w_sf w" and ?st' = "sf_complete now res i (w_sf w)" and ?cs = "(w_callers w)[c := (k, Led i res)]"
  let ?w = "\<lparr>w_sf = ?st', w_callers = ?cs\<rparr>"
  have mem: "(k, Leading i) \<in> set (w_callers w)" using c by (metis nth_mem)
  note la = leading_active [OF inv mem]
  have i: "i < length (sf_heap ?st)" "fl_completed_at (sf_heap ?st ! i) = None"
    using la(1) by (simp_all add: active_def completed_of_def)
  note cf = completed_flight_ok [OF la(3) i(2), of now res]
  have act: "active ?st' j \<longleftrightarrow> active ?st j \<and> j \<noteq> i" for j
    using i(1) cf(4) by (auto simp: active_def completed_of_def sf_complete_heap nth_list_update)
  obtain owner where ro: "reg_ok owner w" using inv by (auto simp: sf_inv_def)
  have "reg_ok owner ?w"
    using reg_ok_callers [OF ro c, of "Led i res"] act by (auto simp: reg_ok_def sf_complete_heap)
  moreover have "lead_ok ?w"
  proof -
    have "count_if (\<lambda>c. snd c = Leading j) ?cs = (if active ?st' j then 1 else 0)" for j
    proof -
      have "count_if (\<lambda>c. snd c = Leading j) (w_callers w) = (if active ?st j then 1 else 0)"
        using inv by (simp add: sf_inv_def lead_ok_def)
      then show ?thesis
        using count_if_update [OF c(1), of "\<lambda>c. snd c = Leading j" "(k, Led i res)"] la(1,2) act [of j] c(2)
        by (cases "j = i") simp_all
    qed
    then show ?thesis by (simp add: lead_ok_def)
  qed
  moreover have "wait_ok ?w"
  proof -
    have "count_if (\<lambda>c. waits_on j (snd c)) ?cs = count_if (\<lambda>c. waits_on j (snd c)) (w_callers w)"
      "count_if (\<lambda>c. is_waiting (snd c)) ?cs = count_if (\<lambda>c. is_waiting (snd c)) (w_callers w)" for j
      using count_if_update [OF c(1), of "\<lambda>c. waits_on j (snd c)" "(k, Led i res)"]
        count_if_update [OF c(1), of "\<lambda>c. is_waiting (snd c)" "(k, Led i res)"] c(2) by simp_all
    then show ?thesis using inv i cf(5) by (auto simp: sf_inv_def wait_ok_def sf_complete_heap nth_list_update)
  qed
  moreover have "res_ok ?w"
  proof -
    have ne: "\<not> fl_event (sf_heap ?st ! i)" using la(3) i(2) by (simp add: flight_ok_def)
    have pc: "pc_ok ?st' (snd d)" if "d \<in> set ?cs" for d
    proof (cases "d = (k, Led i res)")
      case True
      then show ?thesis using cf i by (simp add: sf_complete_heap)
    next
      case False
      then have "d \<in> set (w_callers w)" using that callers_update_mem by fastforce
      then have "pc_ok ?st (snd d)" using inv by (simp add: sf_inv_def res_ok_def)
      then show ?thesis using ne i(1) cf(2)
        by (cases "snd d") (auto simp: sf_complete_heap nth_list_update follower_result_def split: option.splits if_splits)
    qed
    have fl: "\<forall>f\<in>set (sf_heap ?st'). flight_ok f"
      using inv cf(1) by (auto simp: sf_inv_def res_ok_def sf_complete_heap dest!: callers_update_mem)
    have led: "\<exists>d\<in>set ?cs. \<exists>r. snd d = Led j r" if "j < length (sf_heap ?st')" "fl_event (sf_heap ?st' ! j)" for j
    proof (cases "j = i")
      case True
      have "(k, Led i res) \<in> set ?cs" using c(1) by (rule set_update_memI)
      then show ?thesis using True by force
    next
      case False
      then have "j < length (sf_heap ?st)" "fl_event (sf_heap ?st ! j)"
        using that by (simp_all add: sf_complete_heap)
      then obtain d r where d: "d \<in> set (w_callers w)" "snd d = Led j r"
        using inv unfolding sf_inv_def res_ok_def by blast
      then obtain n where n: "n < length (w_callers w)" "w_callers w ! n = d" by (metis in_set_conv_nth)
      then have "n \<noteq> c" using c(2) d(2) by auto
      then have "?cs ! n = d" using n by simp
      then show ?thesis using n(1) d(2) by (metis length_list_update nth_mem)
    qed
    show ?thesis using pc fl led by (simp add: res_ok_def)
  qed
  ultimately show ?thesis unfolding sf_inv_def by blast
qed

subsubsection \<open>Followers\<close>

text \<open>A follower moves on; its flight's waiter count moves with it.\<close>

lemma sf_inv_follow:
  assumes inv: "sf_inv w" and c: "c < length (w_callers w)" "w_callers w ! c = (k, pc)"
    and pcs: "pc_flight pc = Some i" "pc_flight pc' = Some i" "\<forall>j. pc \<noteq> Leading j" "\<forall>j. pc' \<noteq> Leading j"
      "\<forall>j r. pc \<noteq> Led j r" "is_waiting pc' \<longrightarrow> is_waiting pc" "pc_ok st pc'"
    and st: "st = (if is_waiting pc \<and> \<not> is_waiting pc'
        then (w_sf w)\<lparr>sf_heap := (sf_heap (w_sf w))[i := (sf_heap (w_sf w) ! i)\<lparr>fl_waiters := fl_waiters (sf_heap (w_sf w) ! i) - 1\<rparr>],
               sf_followers_waiting := sf_followers_waiting (w_sf w) - 1, sf_wait_timeouts := n\<rparr>
        else w_sf w)"
  shows "sf_inv \<lparr>w_sf = st, w_callers = (w_callers w)[c := (k, pc')]\<rparr>"
proof -
  let ?cs = "(w_callers w)[c := (k, pc')]"
  let ?w = "\<lparr>w_sf = st, w_callers = ?cs\<rparr>"
  have mem: "(k, pc) \<in> set (w_callers w)" using c by (metis nth_mem)
  obtain owner where ro: "reg_ok owner w" using inv by (auto simp: sf_inv_def)
  have i: "i < length (sf_heap (w_sf w))" using ro mem pcs(1) by (force simp: reg_ok_def)
  have ext: "extends (w_sf w) st"
    using extends_update [of "w_sf w" i] by (simp add: extends_def st same_core_def)
  have act: "active st = active (w_sf w)"
    using extends_active [OF ext] by (auto simp: fun_eq_iff active_def st)
  have wo: "waits_on j q \<longleftrightarrow> is_waiting q \<and> pc_flight q = Some j" for j and q :: "('a, 'b) pc"
    by (cases q) auto
  have "reg_ok owner ?w"
    using reg_ok_callers [OF ro c, of pc'] pcs(1,2) act by (auto simp: reg_ok_def st)
  moreover have "lead_ok ?w"
  proof -
    have "count_if (\<lambda>c. snd c = Leading j) ?cs = count_if (\<lambda>c. snd c = Leading j) (w_callers w)" for j
      using count_if_update [OF c(1), of "\<lambda>c. snd c = Leading j" "(k, pc')"] c(2) pcs(3,4) by simp
    then show ?thesis using inv act by (simp add: sf_inv_def lead_ok_def)
  qed
  moreover have "wait_ok ?w"
  proof -
    have "int (count_if (\<lambda>c. is_waiting (snd c)) ?cs) = sf_followers_waiting st"
      using count_if_update [OF c(1), of "\<lambda>c. is_waiting (snd c)" "(k, pc')"] c(2) pcs(6) inv
      by (auto simp: sf_inv_def wait_ok_def st split: if_splits)
    moreover have "int (count_if (\<lambda>c. waits_on j (snd c)) ?cs) = fl_waiters (sf_heap st ! j)"
      if "j < length (sf_heap (w_sf w))" for j
    proof -
      have "int (count_if (\<lambda>c. waits_on j (snd c)) (w_callers w)) = fl_waiters (sf_heap (w_sf w) ! j)"
        using inv that by (simp add: sf_inv_def wait_ok_def)
      then show ?thesis
        using count_if_update [OF c(1), of "\<lambda>c. waits_on j (snd c)" "(k, pc')"] c(2) pcs(1,2,6) i
        by (cases "j = i") (auto simp: wo st split: if_splits)
    qed
    ultimately show ?thesis by (simp add: wait_ok_def st)
  qed
  moreover have "res_ok ?w"
  proof (rule res_ok_extends [OF _ ro ext])
    show "res_ok w" using inv by (simp add: sf_inv_def)
    show "\<forall>d\<in>set ?cs. pc_ok st (snd d) \<or> d \<in> set (w_callers w)"
      using pcs(7) callers_update_mem by fastforce
    show "\<forall>d\<in>set (w_callers w). (\<exists>i res. snd d = Led i res) \<longrightarrow> d \<in> set ?cs"
    proof (intro ballI impI)
      fix d assume d: "d \<in> set (w_callers w)" "\<exists>i res. snd d = Led i res"
      obtain m where m: "m < length (w_callers w)" "w_callers w ! m = d" using d(1) by (metis in_set_conv_nth)
      have "m \<noteq> c" using m(2) c(2) d(2) pcs(5) by auto
      then have "?cs ! m = d" using m by simp
      then show "d \<in> set ?cs" using m(1) by (metis length_list_update nth_mem)
    qed
  qed (auto simp: st)
  ultimately show ?thesis unfolding sf_inv_def by blast
qed

lemma world_same_sf: "\<lparr>w_sf = w_sf w, w_callers = cs\<rparr> = (w :: ('v, 'e) world)\<lparr>w_callers := cs\<rparr>"
  by (cases w) simp

lemma sf_inv_step: "sf_step w w' \<Longrightarrow> sf_inv w \<Longrightarrow> sf_inv w'"
proof (induction rule: sf_step.induct)
  case (enter key timeout k now w en st)
  then show ?case using sf_inv_enter by blast
next
  case (operation_done c w k i now res)
  then show ?case using sf_inv_done by blast
next
  case (wake c w k i joined)
  then show ?case using sf_inv_follow [OF wake(4,1,2), of i "Woken i joined True" "w_sf w"] by (simp add: world_same_sf)
next
  case (time_out c w k i joined)
  have "pc_ok (w_sf w) (Waiting i joined)"
    using time_out(1,2,4) by (metis sf_inv_def res_ok_def nth_mem snd_conv)
  then show ?case using time_out sf_inv_follow [OF time_out(4,1,2), of i "Woken i joined False" "w_sf w"] by (simp add: world_same_sf)
next
  case (release c w k i joined completed st)
  have pc: "pc_ok (w_sf w) (Woken i joined completed)"
    using release(1,2,4) by (metis sf_inv_def res_ok_def nth_mem snd_conv)
  have ev: "fl_event (sf_heap st ! i) = fl_event (sf_heap (w_sf w) ! i)"
    using release(3) by (cases "i < length (sf_heap (w_sf w))") (simp_all add: sf_release_def list_update_beyond)
  have ok: "pc_ok st (Followed i (follower_result completed i st))"
    using pc ev by (simp add: follower_result_def)
  let ?n = "if completed then sf_wait_timeouts (w_sf w) else Suc (sf_wait_timeouts (w_sf w))"
  let ?r = "follower_result completed i st"
  have st: "st = (if is_waiting (Woken i joined completed :: ('a, 'b) pc) \<and> \<not> is_waiting (Followed i ?r)
      then (w_sf w)\<lparr>sf_heap := (sf_heap (w_sf w))[i := (sf_heap (w_sf w) ! i)\<lparr>fl_waiters := fl_waiters (sf_heap (w_sf w) ! i) - 1\<rparr>],
               sf_followers_waiting := sf_followers_waiting (w_sf w) - 1, sf_wait_timeouts := ?n\<rparr>
      else w_sf w)"
    unfolding release(3) sf_release_def by simp
  show ?case
    by (rule sf_inv_follow [OF release(4,1,2) _ _ _ _ _ _ ok st]) simp_all
next
  case (invalidate w key)
  have "distinct_keys (sf_flights (w_sf w))" using invalidate by (auto simp: sf_inv_def reg_ok_def)
  from forgets_invalidate [OF this] show ?case by (rule sf_inv_forgets [OF invalidate])
next
  case (stats w now)
  then show ?case using sf_inv_forgets [OF stats] by (simp add: sf_stats_def Let_def)
qed

lemma sf_init_inv: "sf_init m t = Inr st \<Longrightarrow> sf_inv \<lparr>w_sf = st, w_callers = []\<rparr>"
  by (auto simp: sf_init_def sf_inv_def reg_ok_def lead_ok_def wait_ok_def res_ok_def active_def
      split: option.splits if_splits)

lemma sf_reachable_inv:
  assumes "sf_init m t = Inr st" "sf_reachable st w"
  shows "sf_inv w"
  using assms(2) unfolding sf_reachable_def
  by (induction rule: rtranclp_induct) (use sf_init_inv [OF assms(1)] sf_inv_step in auto)

lemma inv_members:
  assumes "sf_inv w" "c \<in> set (w_callers w)"
  obtains owner where "reg_ok owner w" "\<And>i. pc_flight (snd c) = Some i \<Longrightarrow> i < length (sf_heap (w_sf w)) \<and> owner i = fst c"
    "pc_ok (w_sf w) (snd c)"
proof -
  obtain owner where ro: "reg_ok owner w" using assms(1) by (auto simp: sf_inv_def)
  show thesis by (rule that [OF ro]) (use ro assms in \<open>auto simp: reg_ok_def sf_inv_def res_ok_def\<close>)
qed

lemma event_has_leader:
  assumes inv: "sf_inv w" and i: "i < length (sf_heap (w_sf w))" "fl_event (sf_heap (w_sf w) ! i)"
    and "reg_ok owner w"
  shows "\<exists>res. (owner i, Led i res) \<in> set (w_callers w) \<and> outcome_of (sf_heap (w_sf w) ! i) = Some res"
proof -
  obtain c res where c: "c \<in> set (w_callers w)" "snd c = Led i res"
    using assms by (auto simp: sf_inv_def res_ok_def)
  then have "owner i = fst c" using assms(4) by (fastforce simp: reg_ok_def)
  moreover have "outcome_of (sf_heap (w_sf w) ! i) = Some res"
    using inv c by (force simp: sf_inv_def res_ok_def)
  ultimately show ?thesis using c by (metis prod.collapse)
qed

lemma active_has_leader:
  assumes inv: "sf_inv w" and i: "active (w_sf w) i" and ro: "reg_ok owner w"
  shows "(owner i, Leading i) \<in> set (w_callers w)"
proof -
  have "count_if (\<lambda>c. snd c = Leading i) (w_callers w) \<noteq> 0" using inv i by (simp add: sf_inv_def lead_ok_def)
  then obtain c where c: "c \<in> set (w_callers w)" "snd c = Leading i"
    by (auto simp: count_if_def filter_empty_conv)
  then have "fst c = owner i" using ro by (fastforce simp: reg_ok_def)
  then show ?thesis using c by (metis prod.collapse)
qed

subsection \<open>Properties\<close>

text \<open>
  C23: One execution per key. In every reachable state of any number of concurrent callers, at most
  one caller is running the operation of a key, the registry holds at most \<open>max_entries\<close>
  flights, and no follower is orphaned: a caller that waits either waits for a leader of the same
  key that is still running, or its flight has already delivered.
\<close>

theorem singleflight_one_leader:
  assumes "sf_init m t = Inr st" "sf_reachable st w"
  shows "(\<forall>c<length (w_callers w). \<forall>c'<length (w_callers w). \<forall>k i i'.
        w_callers w ! c = (k, Leading i) \<and> w_callers w ! c' = (k, Leading i') \<longrightarrow> c = c')
    \<and> length (sf_flights (w_sf w)) \<le> sf_max_entries (w_sf w)
    \<and> (\<forall>k i joined. (k, Waiting i joined) \<in> set (w_callers w) \<longrightarrow>
        (k, Leading i) \<in> set (w_callers w) \<or> fl_event (sf_heap (w_sf w) ! i))"
proof -
  have inv: "sf_inv w" by (rule sf_reachable_inv [OF assms])
  obtain owner where ro: "reg_ok owner w" using inv by (auto simp: sf_inv_def)
  have one: "c = c'" if c: "c < length (w_callers w)" "c' < length (w_callers w)"
      "w_callers w ! c = (k, Leading i)" "w_callers w ! c' = (k, Leading i')" for c c' k i i'
  proof -
    have mem: "(k, Leading i) \<in> set (w_callers w)" "(k, Leading i') \<in> set (w_callers w)"
      using c by (metis nth_mem)+
    note la = leading_active [OF inv mem(1)]
    have "owner i = k" "owner i' = k" using ro mem by (force simp: reg_ok_def)+
    then have "(k, i) \<in> set (sf_flights (w_sf w))" "(k, i') \<in> set (sf_flights (w_sf w))"
      using ro la(1) leading_active(1) [OF inv mem(2)] by (auto simp: reg_ok_def)
    then have "i = i'" using ro by (metis distinct_keys_def eq_key_imp_eq_value reg_ok_def)
    then show ?thesis using count_if_one [of "\<lambda>c. snd c = Leading i" "w_callers w" c c'] la(2) c by simp
  qed
  have wt: "(k, Leading i) \<in> set (w_callers w) \<or> fl_event (sf_heap (w_sf w) ! i)"
    if "(k, Waiting i joined) \<in> set (w_callers w)" for k i joined
  proof -
    have i: "i < length (sf_heap (w_sf w))" "owner i = k" using ro that by (force simp: reg_ok_def)+
    have "active (w_sf w) i \<or> fl_event (sf_heap (w_sf w) ! i)"
      using inv i(1) nth_mem [OF i(1)]
      by (auto simp: sf_inv_def res_ok_def flight_ok_def active_def completed_of_def split: if_splits)
    then show ?thesis using active_has_leader [OF inv _ ro] i(2) by blast
  qed
  show ?thesis using one wt ro by (auto simp: reg_ok_def)
qed

text \<open>
  Followers get the leader's result. Whatever a coalesced call returns or raises (other than
  its own timeout) is exactly what the operation of one leading call under the same key returned
  or raised.
\<close>

theorem singleflight_shares_leader_result:
  assumes "sf_init m t = Inr st" "sf_reachable st w" "(k, Followed i r) \<in> set (w_callers w)"
  shows "r = SingleFlightTimeout
    \<or> (\<exists>v. r = Shared (Some v) \<and> (k, Led i (Returned v)) \<in> set (w_callers w))
    \<or> (\<exists>e. r = OperationError e \<and> (k, Led i (Raised e)) \<in> set (w_callers w))"
proof (cases "r = SingleFlightTimeout")
  case False
  have inv: "sf_inv w" by (rule sf_reachable_inv [OF assms(1,2)])
  obtain owner where ro: "reg_ok owner w" and i: "i < length (sf_heap (w_sf w))" "owner i = k"
    and pc: "pc_ok (w_sf w) (Followed i r)"
    by (rule inv_members [OF inv assms(3)]) auto
  obtain res where res: "(k, Led i res) \<in> set (w_callers w)" "outcome_of (sf_heap (w_sf w) ! i) = Some res"
    using event_has_leader [OF inv i(1) _ ro] pc False i(2) by auto
  then show ?thesis using pc False
    by (cases res) (auto simp: follower_result_def outcome_of_def split: option.splits)
qed simp

text \<open>
  The waiting gauges are exact. In every reachable state \<open>followers_waiting\<close> is the number of
  callers that joined an active flight and have not returned yet, and every flight's \<open>waiters\<close>
  is the number of those on it; with no such caller both are zero.
\<close>

theorem singleflight_gauges_exact:
  assumes "sf_init m t = Inr st" "sf_reachable st w"
  shows "sf_followers_waiting (w_sf w) = int (count_if (\<lambda>c. is_waiting (snd c)) (w_callers w))
    \<and> (\<forall>i<length (sf_heap (w_sf w)).
        fl_waiters (sf_heap (w_sf w) ! i) = int (count_if (\<lambda>c. waits_on i (snd c)) (w_callers w)))"
  using sf_reachable_inv [OF assms] unfolding sf_inv_def wait_ok_def by blast

subsection \<open>A concrete run\<close>

text \<open>Two callers share one key: the first leads, the second joins, is woken and returns.\<close>

definition ex_flight :: "bool \<Rightarrow> real option \<Rightarrow> nat option \<Rightarrow> int \<Rightarrow> (nat, nat) flight" where
  "ex_flight ev tm v n = \<lparr>fl_created_at = 0, fl_event = ev, fl_completed_at = tm, fl_value = v,
     fl_error = None, fl_waiters = n\<rparr>"

definition ex_sf :: "(nat, nat) flight list \<Rightarrow> (pystr, nat) odict \<Rightarrow> nat \<Rightarrow> nat \<Rightarrow> int \<Rightarrow> (nat, nat) single_flight" where
  "ex_sf h d l s f = \<lparr>sf_max_entries = 1, sf_result_ttl = 10, sf_heap = h, sf_flights = d, sf_leaders = l,
     sf_shared_results = s, sf_followers_waiting = f, sf_wait_timeouts = 0, sf_capacity_rejections = 0\<rparr>"

lemma ex_sf_init: "sf_init (PInt 1) (PInt 10) = Inr (ex_sf [] [] 0 0 0)"
  by (simp add: sf_init_def ex_sf_def)

lemma make_room_space: "length (sf_flights st) < sf_max_entries st \<Longrightarrow> make_room st = (True, st)"
  by (simp add: make_room.simps [of st])

lemmas ex_sf_eval = ex_sf_def ex_flight_def sf_enter_def expire_completed_def completed_of_def Let_def
  make_room_space sf_validate_def sf_complete_def sf_release_def follower_result_def

lemma ex_sf_run:
  "sf_reachable (ex_sf [] [] 0 0 0) \<lparr>w_sf = ex_sf [ex_flight True (Some 2) (Some 5) 0] [([65], 0)] 1 1 0,
     w_callers = [([65], Led 0 (Returned 5)), ([65], Followed 0 (Shared (Some 5)))]\<rparr>"
proof -
  let ?w0 = "\<lparr>w_sf = ex_sf [] [] 0 0 0, w_callers = []\<rparr>"
  let ?w1 = "\<lparr>w_sf = ex_sf [ex_flight False None None 0] [([65], 0)] 1 0 0, w_callers = [([65], Leading 0)]\<rparr>"
  let ?w2 = "\<lparr>w_sf = ex_sf [ex_flight False None None 1] [([65], 0)] 1 1 1,
     w_callers = [([65], Leading 0), ([65], Waiting 0 True)]\<rparr>"
  let ?w3 = "\<lparr>w_sf = ex_sf [ex_flight True (Some 2) (Some 5) 1] [([65], 0)] 1 1 1,
     w_callers = [([65], Led 0 (Returned 5)), ([65], Waiting 0 True)]\<rparr>"
  let ?w4 = "\<lparr>w_sf = ex_sf [ex_flight True (Some 2) (Some 5) 1] [([65], 0)] 1 1 1,
     w_callers = [([65], Led 0 (Returned 5)), ([65], Woken 0 True True)]\<rparr>"
  let ?w5 = "\<lparr>w_sf = ex_sf [ex_flight True (Some 2) (Some 5) 0] [([65], 0)] 1 1 0,
     w_callers = [([65], Led 0 (Returned 5)), ([65], Followed 0 (Shared (Some 5)))]\<rparr>"
  have "sf_step ?w0 ?w1"
    using enter [of "PStr [65]" "PInt 1" "[65]" 0 ?w0 "Leader 0"] by (simp add: ex_sf_eval)
  moreover have "sf_step ?w1 ?w2"
    using enter [of "PStr [65]" "PInt 1" "[65]" 1 ?w1 "Follower 0 True"] by (simp add: ex_sf_eval)
  moreover have "sf_step ?w2 ?w3"
    using operation_done [of 0 ?w2 "[65]" 0 2 "Returned 5"] by (simp add: ex_sf_eval)
  moreover have "sf_step ?w3 ?w4"
    using wake [of 1 ?w3 "[65]" 0 True] by (simp add: ex_sf_eval)
  moreover have "sf_step ?w4 ?w5"
    using release [OF _ _ refl, of 1 ?w4 "[65]" 0 True True] by (simp add: ex_sf_eval)
  ultimately show ?thesis
    unfolding sf_reachable_def by (meson converse_rtranclp_into_rtranclp rtranclp.rtrancl_refl)
qed

theorem singleflight_one_leader_witness:
  "length (sf_flights (ex_sf [ex_flight True (Some 2) (Some 5) 0] [([65], 0)] 1 1 0)) \<le> 1"
  using singleflight_one_leader [OF ex_sf_init ex_sf_run] by (simp add: ex_sf_def)

theorem singleflight_shares_leader_result_witness:
  "(\<exists>v. Shared (Some 5) = (Shared (Some v) :: (nat, nat) sf_result) \<and>
     ([65 :: nat], Led 0 (Returned v)) \<in> set [([65], Led 0 (Returned (5 :: nat))), ([65], Followed 0 (Shared (Some 5) :: (nat, nat) sf_result))])"
  using singleflight_shares_leader_result [OF ex_sf_init ex_sf_run, of "[65]" 0 "Shared (Some 5)"] by simp

theorem singleflight_gauges_exact_witness:
  "sf_followers_waiting (ex_sf [ex_flight True (Some 2) (Some 5) 0] [([65], 0)] 1 1 0) = 0"
  using singleflight_gauges_exact [OF ex_sf_init ex_sf_run] by (simp add: count_if_def ex_sf_def)

end
