(* ===== verification/Edge_Trust.thy ===== *)
theory Edge_Trust
  imports Ip_Address
begin

section \<open>The trusted edge peers\<close>

text \<open>
  Models \<open>parse_edge_trusted_proxies\<close> of \<open>proxy/edge_trust.py\<close>, which the installers and the
  nginx renderer share: a bounded, comma-separated list of exact IPv4 peers.
\<close>

definition edge_error :: py_error where
  "edge_error = ValueError (lit ''BT_EDGE_TRUSTED_PROXIES must be a bounded list of at most 32 exact IPv4 peers'')"

fun unusable_peer :: "ip \<Rightarrow> bool" where
  "unusable_peer (V4 os) \<longleftrightarrow> os = [0, 0, 0, 0] \<or> (224 \<le> hd os \<and> hd os \<le> 239)"
| "unusable_peer (V6 _ _) \<longleftrightarrow> True"

definition parse_peer :: "pystr \<Rightarrow> (py_error, pystr) result" where
  "parse_peer item =
     (let peer = strip item in
      if peer = [] \<or> 37 \<in> set peer then Inl edge_error
      else case split1 47 peer of
        (address, pfx) \<Rightarrow>
          (case ip_address address of
             None \<Rightarrow> Inl edge_error
           | Some parsed \<Rightarrow>
               if (case pfx of None \<Rightarrow> False | Some p \<Rightarrow> p \<noteq> show_nat (max_prefixlen parsed))
               then Inl edge_error
               else if unusable_peer parsed then Inl edge_error
               else Inr (show_ip parsed)))"

text \<open>The loop with its set of peers, kept here in the order of first occurrence.\<close>

fun add_peers :: "pystr list \<Rightarrow> pystr list \<Rightarrow> (py_error, pystr list) result" where
  "add_peers peers [] = Inr peers"
| "add_peers peers (item # items) =
     rbind (parse_peer item) (\<lambda>p.
       let peers' = List.insert p peers
       in if 32 < length peers' then Inl edge_error else add_peers peers' items)"

definition parse_edge_trusted_proxies :: "pyval \<Rightarrow> (py_error, pystr list) result" where
  "parse_edge_trusted_proxies value =
     (case value of
        PStr s \<Rightarrow>
          if 4096 < length s \<or> s \<noteq> strip s \<or> \<not> is_ascii s \<or> list_ex is_ctrl s then Inl edge_error
          else if s = [] then Inr []
          else rbind (add_peers [] (split_on 44 s)) (\<lambda>peers. Inr (sort peers))
      | _ \<Rightarrow> Inl edge_error)"

subsection \<open>Facts\<close>

text \<open>An exact IPv4 peer in canonical text.\<close>

definition edge_peer :: "pystr \<Rightarrow> bool" where
  "edge_peer p \<longleftrightarrow> (\<exists>os. octets_ok os \<and> p = show_ipv4 os \<and> \<not> unusable_peer (V4 os))"

lemma ip_address_V4: "ip_address s = Some (V4 os) \<longleftrightarrow> 47 \<notin> set s \<and> parse_ipv4 s = Some os"
  by (auto simp: ip_address_def split: option.splits if_splits)

lemma parse_peer_edge: "parse_peer item = Inr p \<Longrightarrow> edge_peer p"
proof -
  assume "parse_peer item = Inr p"
  then obtain ip where ip: "ip_address (fst (split1 47 (strip item))) = Some ip" "\<not> unusable_peer ip" "p = show_ip ip"
    by (auto simp: parse_peer_def Let_def split: if_splits option.splits prod.splits)
  then obtain os where "ip = V4 os" by (cases ip) auto
  then show ?thesis using ip by (auto simp: edge_peer_def ip_address_V4 parse_ipv4_Some)
qed

lemma show_ipv4_clean:
  assumes "c \<in> set (show_ipv4 os)"
  shows "\<not> is_space c" "c \<noteq> 37" "c \<noteq> 44" "c \<noteq> 47" "c < 128" "\<not> is_ctrl c"
  using show_ipv4_chars [OF assms] by (auto simp: is_digit_def is_space_def is_ctrl_def)

lemma show_ipv4_not_Nil: "octets_ok os \<Longrightarrow> show_ipv4 os \<noteq> []"
  by (cases os; cases "tl os") (auto simp: octets_ok_def show_ipv4_def show_nat_not_Nil)

lemma parse_peer_canonical: "edge_peer p \<Longrightarrow> parse_peer p = Inr p"
proof -
  assume "edge_peer p"
  then obtain os where os: "octets_ok os" "p = show_ipv4 os" "\<not> unusable_peer (V4 os)"
    by (auto simp: edge_peer_def)
  note cl = show_ipv4_clean [of _ os]
  have st: "strip p = p" using strip_no_spaces os(2) cl(1) by blast
  have "47 \<notin> set p" using cl(4) os(2) by blast
  then have "takeWhile (\<lambda>c. c \<noteq> 47) p = p" "dropWhile (\<lambda>c. c \<noteq> 47) p = []"
    by (auto simp: takeWhile_eq_all_conv dropWhile_eq_Nil_conv)
  then have sp: "split1 47 p = (p, None)" by (simp only: split1_def list.case)
  have "ip_address p = Some (V4 os)" using os cl(4) by (auto simp: ip_address_V4 parse_ipv4_Some)
  then show ?thesis using os st sp cl(2) show_ipv4_not_Nil by (auto simp: parse_peer_def Let_def)
qed

lemma add_peers_Inr:
  "add_peers acc items = Inr out \<Longrightarrow> distinct acc \<Longrightarrow> list_all edge_peer acc \<Longrightarrow> length acc \<le> 32 \<Longrightarrow>
   distinct out \<and> list_all edge_peer out \<and> length out \<le> 32"
proof (induction items arbitrary: acc)
  case (Cons item items)
  then obtain p where p: "parse_peer item = Inr p" "length (List.insert p acc) \<le> 32"
      "add_peers (List.insert p acc) items = Inr out"
    by (auto simp: rbind_eq_Inr Let_def split: if_splits)
  have "list_all edge_peer (List.insert p acc)"
    using parse_peer_edge [OF p(1)] Cons.prems(3) by (simp add: list_all_iff)
  then show ?case using Cons.IH [OF p(3)] p(2) Cons.prems(2) by (simp add: distinct_insert)
qed simp

lemma add_peers_canonical:
  "list_all edge_peer items \<Longrightarrow> distinct (acc @ items) \<Longrightarrow> length (acc @ items) \<le> 32 \<Longrightarrow>
   \<exists>out. add_peers acc items = Inr out \<and> set out = set (acc @ items)"
proof (induction items arbitrary: acc)
  case (Cons p items)
  have "List.insert p acc = p # acc" using Cons.prems(2) by (simp add: List.insert_def)
  moreover have "\<exists>out. add_peers (p # acc) items = Inr out \<and> set out = set ((p # acc) @ items)"
    by (rule Cons.IH) (use Cons.prems in auto)
  ultimately show ?case using Cons.prems by (auto simp: parse_peer_canonical Let_def)
qed simp

lemma set_join: "c \<in> set (join [d] xs) \<Longrightarrow> c = d \<or> (\<exists>x\<in>set xs. c \<in> set x)"
  by (induction "[d]" xs rule: join.induct) auto

lemma length_join: "length (join [d] xs) \<le> sum_list (map (\<lambda>x. Suc (length x)) xs)"
  by (induction "[d]" xs rule: join.induct) auto

lemma edge_peer_clean:
  assumes "edge_peer p" "c \<in> set p"
  shows "\<not> is_space c" "c \<noteq> 44" "c < 128" "\<not> is_ctrl c"
proof -
  obtain os where "c \<in> set (show_ipv4 os)" using assms by (auto simp: edge_peer_def)
  from show_ipv4_clean [OF this] show "\<not> is_space c" "c \<noteq> 44" "c < 128" "\<not> is_ctrl c" by blast+
qed

lemma edge_peer_not_Nil: "\<not> edge_peer []"
  unfolding edge_peer_def using show_ipv4_not_Nil by metis

lemma edge_peer_length: "edge_peer p \<Longrightarrow> length p \<le> 15"
proof -
  assume "edge_peer p"
  then obtain os where os: "octets_ok os" "p = show_ipv4 os" by (auto simp: edge_peer_def)
  obtain a b c d where o: "os = [a, b, c, d]"
    using os(1) by (auto simp: octets_ok_def length_Suc_conv numeral_eq_Suc)
  then show ?thesis
    using os length_show_nat_octet [of a] length_show_nat_octet [of b] length_show_nat_octet [of c]
      length_show_nat_octet [of d] by (simp add: octets_ok_def show_ipv4_def)
qed

lemma sum_list_le_const: "\<forall>x\<in>set xs. f x \<le> n \<Longrightarrow> sum_list (map f xs) \<le> n * length xs" for f :: "'a \<Rightarrow> nat"
  by (induction xs) auto

subsection \<open>Property\<close>

text \<open>
  Trusted peers are exact, bounded and canonical. Whatever the setting, an accepted list is
  sorted, has no duplicates, has at most 32 entries, and every entry is the canonical text of one
  usable IPv4 address; writing the list back comma-separated and parsing it again gives the same
  list.
\<close>

theorem edge_peers_canonical:
  assumes "parse_edge_trusted_proxies v = Inr peers"
  shows "sorted peers \<and> distinct peers \<and> length peers \<le> 32 \<and> list_all edge_peer peers
    \<and> parse_edge_trusted_proxies (PStr (join [44] peers)) = Inr peers"
proof (cases "peers = []")
  case True
  then show ?thesis by (simp add: parse_edge_trusted_proxies_def is_ascii_def strip_def lstrip_def rstrip_def)
next
  case False
  then obtain s out where "add_peers [] (split_on 44 s) = Inr out" and p: "peers = sort out"
    using assms by (auto simp: parse_edge_trusted_proxies_def rbind_eq_Inr split: pyval.splits if_splits)
  then have ok: "distinct peers" "list_all edge_peer peers" "length peers \<le> 32" "sorted peers"
    using add_peers_Inr [of "[]" "split_on 44 s" out] by (simp_all add: list_all_iff)
  let ?t = "join [44] peers"
  have sp: "split_on 44 ?t = peers"
    using split_on_join [OF False, of 44] ok(2) edge_peer_clean(2) by (auto simp: list_all_iff)
  have ch: "\<not> is_ctrl c \<and> c < 128 \<and> \<not> is_space c" if "c \<in> set ?t" for c
  proof -
    have "c = 44 \<or> (\<exists>x\<in>set peers. c \<in> set x)" using that by (rule set_join)
    then consider "c = 44" | x where "x \<in> set peers" "c \<in> set x" by blast
    then show ?thesis
    proof cases
      case 2
      then have "edge_peer x" using ok(2) by (simp add: list_all_iff)
      from edge_peer_clean [OF this 2(2)] show ?thesis by blast
    qed (simp add: is_ctrl_def is_space_def)
  qed
  have "sum_list (map (\<lambda>x. Suc (length x)) peers) \<le> 16 * length peers"
    by (rule sum_list_le_const) (use ok(2) edge_peer_length in \<open>force simp: list_all_iff\<close>)
  then have "length ?t \<le> 4096" using length_join [of 44 peers] ok(3) by linarith
  moreover have "?t \<noteq> []" using sp False ok(2) edge_peer_not_Nil by (cases peers) auto
  moreover have "strip ?t = ?t" using strip_no_spaces ch by blast
  moreover obtain out' where "add_peers [] peers = Inr out'" "set out' = set peers"
    using add_peers_canonical [OF ok(2), of "[]"] ok(1,3) by auto
  moreover from this have "sort out' = peers"
    using add_peers_Inr [of "[]" peers out'] ok(1,4) by (intro sorted_distinct_set_unique) auto
  ultimately show ?thesis
    using ok sp ch by (auto simp: parse_edge_trusted_proxies_def is_ascii_def list_all_iff list_ex_iff)
qed

theorem edge_peers_canonical_witness:
  "parse_edge_trusted_proxies (PStr (lit ''10.0.0.2'')) = Inr [lit ''10.0.0.2''] \<and> sorted [lit ''10.0.0.2'']"
proof -
  have "parse_edge_trusted_proxies (PStr (lit ''10.0.0.2'')) = Inr [lit ''10.0.0.2'']"
    by (simp add: parse_edge_trusted_proxies_def strip_def lstrip_def rstrip_def is_space_def is_ascii_def
        is_ctrl_def parse_peer_def split1_def ip_address_def parse_ipv4_def parse_octet_def is_digit_def
        dec_value_def Let_def show_ipv4_def show_nat.simps)
  then show ?thesis using edge_peers_canonical by blast
qed

end
