(* ===== verification/Session_Facts.thy ===== *)
theory Session_Facts
  imports Reader_Session
begin

section \<open>Correctness of the session broker\<close>

text \<open>
  The broker's session table is a recency-ordered dictionary within its capacity (an instance of
  \<open>bounded_lru\<close>); every session in it was issued by an exchange of the run, so that an accepted
  request presents an issued, unexpired token from the address and user agent it was issued to.
\<close>

subsection \<open>Calls as steps\<close>

datatype rs_op =
    Exchange "out_headers \<Rightarrow> probe_io" pyval real headers binding
  | Authenticate real headers binding
  | Revoke real headers binding

fun rs_step :: "oracles \<Rightarrow> rs_op \<Rightarrow> broker \<Rightarrow> broker" where
  "rs_step orc (Exchange authority tok now hs b) rb = snd (exchange orc authority tok now hs b rb)"
| "rs_step orc (Authenticate now hs b) rb = snd (authenticate orc now hs b rb)"
| "rs_step orc (Revoke now hs b) rb = snd (revoke orc now hs b rb)"

subsection \<open>The session table\<close>

lemma store_session_eq:
  "store_session n now prior d r s =
     (let s3 = filter (\<lambda>p. \<not> sr_expires_at (snd p) \<le> now)
          (put_list d r (case prior of None \<Rightarrow> s | Some p \<Rightarrow> AList.delete p s))
      in drop (length s3 - n) s3)"
  by (simp add: store_session_def move_update pop_front_until_drop Let_def)

lemma store_session_distinct: "distinct_keys s \<Longrightarrow> distinct_keys (store_session n now prior d r s)"
  by (simp add: store_session_eq Let_def split: option.splits)

lemma store_session_length: "length (store_session n now prior d r s) \<le> n"
  by (simp add: store_session_eq Let_def)

lemma store_session_SomeD:
  assumes "distinct_keys s" "map_of (store_session n now prior d r s) k = Some v"
  shows "k = d \<and> v = r \<or> k \<noteq> d \<and> map_of s k = Some v"
proof -
  let ?s1 = "case prior of None \<Rightarrow> s | Some p \<Rightarrow> AList.delete p s"
  have d1: "distinct_keys ?s1" using assms(1) by (simp split: option.splits)
  let ?f = "filter (\<lambda>p. \<not> sr_expires_at (snd p) \<le> now) (put_list d r ?s1)"
  have df: "distinct_keys ?f" using d1 by simp
  have "map_of ?f k = Some v"
    using assms(2) map_of_drop_SomeD [OF df] unfolding store_session_eq Let_def by blast
  then have "map_of (put_list d r ?s1) k = Some v"
    using d1 by (simp add: map_of_filter_Some split: option.splits if_splits)
  then show ?thesis by (auto split: if_splits option.splits)
qed

lemma store_session_newest:
  assumes "now < sr_expires_at r" "0 < n"
  shows "map_of (store_session n now prior d r s) d = Some r"
proof -
  let ?s1 = "case prior of None \<Rightarrow> s | Some p \<Rightarrow> AList.delete p s"
  let ?f = "filter (\<lambda>p. \<not> sr_expires_at (snd p) \<le> now) (AList.delete d ?s1)"
  have e: "store_session n now prior d r s = drop (length (?f @ [(d, r)]) - n) (?f @ [(d, r)])"
    using assms(1) by (simp add: store_session_eq Let_def put_list_def)
  have "length (?f @ [(d, r)]) - n \<le> length ?f" using assms(2) by simp
  then have e2: "store_session n now prior d r s = drop (length (?f @ [(d, r)]) - n) ?f @ [(d, r)]"
    using e by simp
  have "map_of (drop m ?f) d = None" for m
    unfolding map_of_eq_None_iff by (auto simp: delete_key_filter dest!: in_set_dropD)
  then show ?thesis unfolding e2 by (simp add: map_add_def)
qed

lemma authenticate_sessions:
  "snd (authenticate orc now hs b rb) = rb
   \<or> (\<exists>d. snd (authenticate orc now hs b rb) = rb\<lparr>rb_sessions := AList.delete d (rb_sessions rb)\<rparr>
        \<or> snd (authenticate orc now hs b rb) = rb\<lparr>rb_sessions := move_to_end d (rb_sessions rb)\<rparr>)"
  by (auto simp: authenticate_def Let_def simp del: lit_Cons split: sum.split option.split prod.split)

text \<open>What a step does to the table: nothing, a removal, a touch, or storing an issued session.\<close>

definition table_shrinks :: "broker \<Rightarrow> broker \<Rightarrow> bool" where
  "table_shrinks rb rb' \<longleftrightarrow> (\<exists>s. rb' = rb\<lparr>rb_sessions := s\<rparr> \<and> length s \<le> length (rb_sessions rb)
     \<and> distinct_keys s \<and> (\<forall>k v. map_of s k = Some v \<longrightarrow> map_of (rb_sessions rb) k = Some v))"

lemma shrinks_refl: "distinct_keys (rb_sessions rb) \<Longrightarrow> table_shrinks rb rb"
  unfolding table_shrinks_def by (intro exI [of _ "rb_sessions rb"]) simp

lemma shrinks_trans: "table_shrinks a b \<Longrightarrow> table_shrinks b c \<Longrightarrow> table_shrinks a c"
  unfolding table_shrinks_def by (clarsimp, rule exI, rule conjI, rule refl) (auto intro: order_trans)

lemma shrinks_delete:
  "distinct_keys (rb_sessions rb) \<Longrightarrow> table_shrinks rb (rb\<lparr>rb_sessions := AList.delete d (rb_sessions rb)\<rparr>)"
  unfolding table_shrinks_def
  by (intro exI [of _ "AList.delete d (rb_sessions rb)"]) (auto simp: AList.delete_eq map_of_filter_Some split: option.splits)

lemma shrinks_move:
  "distinct_keys (rb_sessions rb) \<Longrightarrow> table_shrinks rb (rb\<lparr>rb_sessions := move_to_end d (rb_sessions rb)\<rparr>)"
  unfolding table_shrinks_def
  by (intro exI [of _ "move_to_end d (rb_sessions rb)"]) (auto simp: od_simps)

lemma shrinks_authenticate:
  "distinct_keys (rb_sessions rb) \<Longrightarrow> table_shrinks rb (snd (authenticate orc now hs b rb))"
  using authenticate_sessions [of orc now hs b rb] shrinks_refl shrinks_delete shrinks_move by metis

lemma shrinks_distinct: "table_shrinks a b \<Longrightarrow> distinct_keys (rb_sessions b)"
  by (auto simp: table_shrinks_def)

lemma shrinks_revoke:
  assumes "distinct_keys (rb_sessions rb)"
  shows "table_shrinks rb (snd (revoke orc now hs b rb))"
proof -
  let ?a = "snd (authenticate orc now hs b rb)"
  have a: "table_shrinks rb ?a" by (rule shrinks_authenticate [OF assms])
  have "table_shrinks rb (remove_token orc t ?a)" for t
    using shrinks_trans [OF a shrinks_delete [OF shrinks_distinct [OF a]]] a by (simp add: remove_token_def)
  then show ?thesis using shrinks_refl [OF assms] a
    by (auto simp: revoke_def split: sum.splits prod.splits)
qed

subsection \<open>Issuing\<close>

text \<open>The record a successful exchange stores.\<close>

definition issued_record :: "oracles \<Rightarrow> broker \<Rightarrow> real \<Rightarrow> pystr \<Rightarrow> bytes \<Rightarrow> bytes \<Rightarrow> session_record" where
  "issued_record orc rb now subj address ua =
     \<lparr>sr_subject = subj, sr_expires_at = now + real (rb_ttl_seconds rb),
      sr_address_binding = keyed_mac (or_mac orc) rb (lit ''address'') address,
      sr_user_agent_binding = keyed_mac (or_mac orc) rb (lit ''user-agent'') ua\<rparr>"

lemma exchange_Inl: "fst (exchange orc authority tok now hs b rb) = Inl e \<Longrightarrow>
    snd (exchange orc authority tok now hs b rb) = rb"
  by (auto simp: exchange_def Let_def simp del: lit_Cons split: sum.splits prod.splits)

lemma exchange_Inr:
  assumes "exchange orc authority tok now hs b rb = (Inr issue, rb')"
  obtains token creds prior identity address ua old where
    "tok = PStr token" "token_ok token" "credentials (or_cf orc) rb hs = Inr (creds, prior)"
    "upstream_identity orc authority rb creds b = Inr identity" "binding_parts b = Inr (address, ua)"
    "si_token issue = token" "si_subject issue = subject (or_mac orc) rb identity"
    "si_expires_in issue = rb_ttl_seconds rb"
    "validate_origin (or_cf orc) rb hs = Inr ()"
    "rb' = rb\<lparr>rb_sessions := store_session (rb_max_entries rb) now old (token_digest (or_mac orc) rb token)
        (issued_record orc rb now (si_subject issue) address ua) (rb_sessions rb)\<rparr>"
    "old = (case prior of Some p \<Rightarrow> if token_ok p then Some (token_digest (or_mac orc) rb p) else None | None \<Rightarrow> None)"
  using assms
  by (auto simp: exchange_def Let_def rbind_eq_Inr issued_record_def simp del: lit_Cons
      split: sum.splits prod.splits pyval.splits if_splits)

definition same_broker :: "broker \<Rightarrow> broker \<Rightarrow> bool" where
  "same_broker rb rb' \<longleftrightarrow> (\<exists>s. rb' = rb\<lparr>rb_sessions := s\<rparr>)"

lemma exchange_step:
  "snd (exchange orc authority tok now hs b rb) = rb
   \<or> (\<exists>issue. exchange orc authority tok now hs b rb = (Inr issue, snd (exchange orc authority tok now hs b rb)))"
  using exchange_Inl by (metis old.sum.exhaust prod.collapse)

interpretation rs: bounded_lru "rs_step orc" rb_sessions rb_max_entries for orc
proof unfold_locales
  fix x and rb :: broker
  assume d: "distinct_keys (rb_sessions rb)"
  have sh: "table_shrinks rb (rs_step orc x rb) \<Longrightarrow> distinct_keys (rb_sessions (rs_step orc x rb))"
    using shrinks_distinct by blast
  show "distinct_keys (rb_sessions (rs_step orc x rb))"
  proof (cases x)
    case (Exchange authority tok now hs b)
    then show ?thesis using exchange_step [of orc authority tok now hs b rb] d
      by (auto elim!: exchange_Inr simp: store_session_distinct)
  qed (use sh d shrinks_authenticate shrinks_revoke in auto)
  assume l: "length (rb_sessions rb) \<le> rb_max_entries rb"
  have sl: "table_shrinks rb (rs_step orc x rb) \<Longrightarrow> length (rb_sessions (rs_step orc x rb)) \<le> rb_max_entries rb"
    using l by (auto simp: table_shrinks_def)
  show "length (rb_sessions (rs_step orc x rb)) \<le> rb_max_entries rb"
  proof (cases x)
    case (Exchange authority tok now hs b)
    then show ?thesis using exchange_step [of orc authority tok now hs b rb] l
      by (auto elim!: exchange_Inr simp: store_session_length)
  qed (use sl d shrinks_authenticate shrinks_revoke in auto)
next
  fix x and rb :: broker
  show "rb_max_entries (rs_step orc x rb) = rb_max_entries rb"
  proof (cases x)
    case (Exchange authority tok now hs b)
    then show ?thesis using exchange_step [of orc authority tok now hs b rb] by (auto elim!: exchange_Inr)
  next
    case (Authenticate now hs b)
    then show ?thesis using authenticate_sessions [of orc now hs b rb] by auto
  next
    case (Revoke now hs b)
    have "rb_max_entries (snd (authenticate orc now hs b rb)) = rb_max_entries rb"
      using authenticate_sessions [of orc now hs b rb] by auto
    then show ?thesis using Revoke
      by (auto simp: revoke_def remove_token_def split: sum.splits prod.splits)
  qed
qed

lemma same_broker_trans: "same_broker a b \<Longrightarrow> same_broker b c \<Longrightarrow> same_broker a c"
  by (auto simp: same_broker_def)

lemma same_broker_upd [simp]: "same_broker rb (rb\<lparr>rb_sessions := s\<rparr>)"
  by (auto simp: same_broker_def)

lemma same_broker_refl [simp]: "same_broker rb rb"
  unfolding same_broker_def by (intro exI [of _ "rb_sessions rb"]) simp

lemma same_broker_authenticate: "same_broker rb (snd (authenticate orc now hs b rb))"
  using authenticate_sessions [of orc now hs b rb] same_broker_upd same_broker_refl by metis

lemma same_broker_step: "same_broker rb (rs_step orc x rb)"
proof (cases x)
  case (Exchange authority tok now hs b)
  then show ?thesis using exchange_step [of orc authority tok now hs b rb]
    by (auto elim!: exchange_Inr)
next
  case (Authenticate now hs b)
  then show ?thesis using same_broker_authenticate by simp
next
  case (Revoke now hs b)
  note a = same_broker_authenticate [of rb orc now hs b]
  have "same_broker rb (remove_token orc t (snd (authenticate orc now hs b rb)))" for t
    using same_broker_trans [OF a same_broker_upd] a by (simp add: remove_token_def)
  then show ?thesis using Revoke a by (auto simp: revoke_def split: sum.splits prod.splits)
qed

lemma same_broker_run: "same_broker rb (fold (rs_step orc) ops rb)"
  by (induction ops arbitrary: rb) (auto intro: same_broker_trans [OF same_broker_step])

lemma same_broker_digest:
  assumes "same_broker rb rb'"
  shows "token_digest m rb' = token_digest m rb" "keyed_mac m rb' = keyed_mac m rb"
    "issued_record orc rb' = issued_record orc rb" "presented_token cf rb' = presented_token cf rb"
    "rb_ttl_seconds rb' = rb_ttl_seconds rb"
  using assms by (auto simp: same_broker_def token_digest_def keyed_mac_def issued_record_def
      presented_token_def fun_eq_iff simp del: lit_Cons cong: option.case_cong if_cong)

subsection \<open>Where sessions come from\<close>

text \<open>The \<open>n\<close>-th call of the run is an exchange that succeeded and issued this session.\<close>

definition issued_at :: "oracles \<Rightarrow> broker \<Rightarrow> rs_op list \<Rightarrow> nat \<Rightarrow> pystr \<Rightarrow> real \<Rightarrow> bytes \<Rightarrow> bytes \<Rightarrow> session_issue \<Rightarrow> bool" where
  "issued_at orc rb0 ops n tok t address ua issue \<longleftrightarrow> n < length ops
     \<and> (\<exists>authority hs b. ops ! n = Exchange authority (PStr tok) t hs b \<and> binding_parts b = Inr (address, ua)
          \<and> fst (exchange orc authority (PStr tok) t hs b (fold (rs_step orc) (take n ops) rb0)) = Inr issue)"

lemma issued_at_snoc: "issued_at orc rb0 ops n tok t a u i \<Longrightarrow> issued_at orc rb0 (ops @ [x]) n tok t a u i"
  by (auto simp: issued_at_def nth_append)

lemma session_origin:
  assumes "rb_sessions rb0 = []"
  shows "map_of (rb_sessions (fold (rs_step orc) ops rb0)) d = Some r \<Longrightarrow>
    \<exists>n tok t address ua issue. issued_at orc rb0 ops n tok t address ua issue
      \<and> d = token_digest (or_mac orc) rb0 tok \<and> r = issued_record orc rb0 t (si_subject issue) address ua"
proof (induction ops arbitrary: d r rule: rev_induct)
  case Nil
  then show ?case using assms by simp
next
  case (snoc x ops)
  let ?rb = "fold (rs_step orc) ops rb0"
  have dk: "distinct_keys (rb_sessions ?rb)" using rs.run_distinct assms by simp
  note sb = same_broker_digest [OF same_broker_run [of rb0 orc ops]]
  have old: ?case if "map_of (rb_sessions ?rb) d = Some r" using snoc.IH [OF that] issued_at_snoc by blast
  have kept: ?case if "table_shrinks ?rb (rs_step orc x ?rb)"
    using that snoc.prems old by (auto simp: table_shrinks_def)
  show ?case
  proof (cases x)
    case (Exchange authority tok now hs b)
    consider "snd (exchange orc authority tok now hs b ?rb) = ?rb"
      | issue where "exchange orc authority tok now hs b ?rb = (Inr issue, snd (exchange orc authority tok now hs b ?rb))"
      using exchange_step by blast
    then show ?thesis
    proof cases
      case 1
      then show ?thesis using snoc.prems old Exchange by simp
    next
      case (2 issue)
      then obtain token old_d address ua where e: "tok = PStr token" "binding_parts b = Inr (address, ua)"
        and st: "snd (exchange orc authority tok now hs b ?rb) = ?rb\<lparr>rb_sessions := store_session (rb_max_entries ?rb) now old_d
           (token_digest (or_mac orc) ?rb token) (issued_record orc ?rb now (si_subject issue) address ua) (rb_sessions ?rb)\<rparr>"
        by (rule exchange_Inr) blast
      from snoc.prems st Exchange
      have "map_of (store_session (rb_max_entries ?rb) now old_d (token_digest (or_mac orc) ?rb token)
           (issued_record orc ?rb now (si_subject issue) address ua) (rb_sessions ?rb)) d = Some r" by simp
      from store_session_SomeD [OF dk this]
      consider "d = token_digest (or_mac orc) rb0 token" "r = issued_record orc rb0 now (si_subject issue) address ua"
        | "map_of (rb_sessions ?rb) d = Some r" by (auto simp: sb)
      then show ?thesis
      proof cases
        case a: 1
        have "issued_at orc rb0 (ops @ [x]) (length ops) token now address ua issue"
          using Exchange e 2 by (auto simp: issued_at_def) (metis fst_conv)
        then show ?thesis using a by blast
      qed (rule old)
    qed
  qed (use kept shrinks_authenticate [OF dk] shrinks_revoke [OF dk] in auto)
qed

lemma authenticate_Inr:
  assumes "fst (authenticate orc now hs b rb) = Inr s"
  obtains token address ua r where "presented_token (or_cf orc) rb hs = Inr token" "token_ok token"
    "binding_parts b = Inr (address, ua)" "map_of (rb_sessions rb) (token_digest (or_mac orc) rb token) = Some r"
    "now < sr_expires_at r" "sr_address_binding r = keyed_mac (or_mac orc) rb (lit ''address'') address"
    "sr_user_agent_binding r = keyed_mac (or_mac orc) rb (lit ''user-agent'') ua" "s = sr_subject r"
  using assms
  by (auto simp: authenticate_def Let_def rbind_eq_Inr not_le simp del: lit_Cons
      split: sum.splits prod.splits option.splits if_splits)

text \<open>Calls that would create a session under a given digest again.\<close>

fun mints :: "oracles \<Rightarrow> broker \<Rightarrow> bytes \<Rightarrow> rs_op \<Rightarrow> bool" where
  "mints orc rb d (Exchange authority (PStr tok) now hs b) \<longleftrightarrow> token_digest (or_mac orc) rb tok = d"
| "mints orc rb d _ \<longleftrightarrow> False"

lemma absent_step:
  assumes "distinct_keys (rb_sessions rb)" "map_of (rb_sessions rb) d = None" "\<not> mints orc rb d x"
  shows "map_of (rb_sessions (rs_step orc x rb)) d = None"
proof (rule ccontr)
  assume "map_of (rb_sessions (rs_step orc x rb)) d \<noteq> None"
  then obtain v where v: "map_of (rb_sessions (rs_step orc x rb)) d = Some v" by blast
  have sh: False if "table_shrinks rb (rs_step orc x rb)" using that v assms(2) by (auto simp: table_shrinks_def)
  show False
  proof (cases x)
    case (Exchange authority tok now hs b)
    then show ?thesis
      using exchange_step [of orc authority tok now hs b rb] v assms
      by (auto elim!: exchange_Inr dest: store_session_SomeD)
  qed (use sh shrinks_authenticate [OF assms(1)] shrinks_revoke [OF assms(1)] in auto)
qed

lemma absent_run:
  "distinct_keys (rb_sessions rb) \<Longrightarrow> map_of (rb_sessions rb) d = None \<Longrightarrow> list_all (\<lambda>x. \<not> mints orc rb d x) ops \<Longrightarrow>
   map_of (rb_sessions (fold (rs_step orc) ops rb)) d = None"
proof (induction ops arbitrary: rb)
  case (Cons x ops)
  have "mints orc (rs_step orc x rb) d y = mints orc rb d y" for y
    using same_broker_digest(1) [OF same_broker_step [of rb orc x]] by (cases "(orc, rb, d, y)" rule: mints.cases) auto
  then show ?case using Cons absent_step rs.step_distinct by simp
qed simp

lemma revoke_absent:
  assumes "revoke orc now hs b rb = (Inr (), rb')" "presented_token (or_cf orc) rb hs = Inr token" "token_ok token"
    "distinct_keys (rb_sessions rb)"
  shows "map_of (rb_sessions rb') (token_digest (or_mac orc) rb token) = None"
proof -
  let ?a = "snd (authenticate orc now hs b rb)"
  have "set cookies \<noteq> {}" if "parse_cookie_header (get_header (or_cf orc) hs (lit ''Cookie'')) = Inr cookies" for cookies
    using assms(2) that by (auto simp: presented_token_def simp del: lit_Cons split: if_splits)
  then have "rb' = remove_token orc token ?a"
    using assms(1-3)
    by (auto simp: revoke_def simp del: lit_Cons split: sum.splits prod.splits if_splits)
  then show ?thesis
    using assms(3) same_broker_digest(1) [OF same_broker_authenticate [of rb orc now hs b]]
    by (simp add: remove_token_def)
qed

subsection \<open>The request of a browser that holds a session\<close>

lemma cookie_char_clean: "cookie_name_char c \<Longrightarrow> \<not> is_space c \<and> c \<noteq> 61 \<and> c \<noteq> 59 \<and> \<not> is_ctrl c"
  by (auto simp: cookie_name_char_def is_alnum_def is_digit_def is_upper_def is_lower_def is_space_def is_ctrl_def)

lemma token_char_clean: "token_char c \<Longrightarrow> \<not> is_space c \<and> c \<noteq> 61 \<and> c \<noteq> 59 \<and> \<not> is_ctrl c \<and> c \<noteq> 34"
  by (auto simp: token_char_def is_alnum_def is_digit_def is_upper_def is_lower_def is_space_def is_ctrl_def)

lemma parse_session_cookie:
  assumes "cookie_name_ok name" "token_ok token"
  shows "parse_cookie_header (name @ 61 # token) = Inr [(name, token)]"
proof -
  let ?raw = "name @ 61 # token"
  have n: "\<forall>c\<in>set name. \<not> is_space c \<and> c \<noteq> 61 \<and> c \<noteq> 59 \<and> \<not> is_ctrl c"
    using assms(1) cookie_char_clean by (auto simp: cookie_name_ok_def list_all_iff)
  have t: "\<forall>c\<in>set token. \<not> is_space c \<and> c \<noteq> 61 \<and> c \<noteq> 59 \<and> \<not> is_ctrl c \<and> c \<noteq> 34"
    using assms(2) token_char_clean by (auto simp: token_ok_def list_all_iff)
  have tn: "token \<noteq> []" using assms(2) by (auto simp: token_ok_def)
  have len: "length ?raw \<le> 16384" using assms by (simp add: cookie_name_ok_def token_ok_def)
  have "\<not> list_ex is_ctrl ?raw" using n t by (auto simp: list_ex_iff is_ctrl_def)
  moreover have "split_on 59 ?raw = [?raw]" using n t by (intro split_on_single) auto
  moreover have "strip ?raw = ?raw" using n t by (intro strip_no_spaces) (auto simp: is_space_def)
  moreover have "split1 61 ?raw = (name, Some token)"
  proof -
    have "takeWhile (\<lambda>c. c \<noteq> 61) ?raw = name" "dropWhile (\<lambda>c. c \<noteq> 61) ?raw = 61 # token"
      using n by (simp_all add: takeWhile_append2 dropWhile_append2)
    then show ?thesis by (simp only: split1_def list.case)
  qed
  moreover have "strip name = name" "strip token = token" using n t by (simp_all add: strip_no_spaces)
  moreover have "unquote token = token" using tn t by (auto simp: unquote_def)
  moreover have "length token \<le> 8192" "\<not> list_ex is_ctrl token" using assms(2) t by (auto simp: token_ok_def list_ex_iff)
  ultimately show ?thesis using len tn assms(1)
    by (simp add: parse_cookie_header_def Let_def)
qed

lemma exchange_authenticate:
  assumes ex: "exchange orc authority tok now hs b rb = (Inr issue, rb')"
    and cfg: "0 < rb_max_entries rb" "0 < rb_ttl_seconds rb" "cookie_name_ok (rb_cookie_name rb)"
    and cf: "or_cf orc (lit ''Cookie'') \<noteq> or_cf orc (lit ''Authorization'')"
    and tm: "later < now + real (rb_ttl_seconds rb)"
  shows "presented_token (or_cf orc) rb [(lit ''Cookie'', rb_cookie_name rb @ 61 # si_token issue)] = Inr (si_token issue)"
    "fst (authenticate orc later [(lit ''Cookie'', rb_cookie_name rb @ 61 # si_token issue)] b rb')
    = Inr (si_subject issue)"
proof -
  let ?hs = "[(lit ''Cookie'', rb_cookie_name rb @ 61 # si_token issue)]"
  obtain old address ua where e: "token_ok (si_token issue)" "binding_parts b = Inr (address, ua)"
      "rb' = rb\<lparr>rb_sessions := store_session (rb_max_entries rb) now old (token_digest (or_mac orc) rb (si_token issue))
        (issued_record orc rb now (si_subject issue) address ua) (rb_sessions rb)\<rparr>"
    by (rule exchange_Inr [OF ex]) blast
  let ?r = "issued_record orc rb now (si_subject issue) address ua"
  have row: "map_of (rb_sessions rb') (token_digest (or_mac orc) rb (si_token issue)) = Some ?r"
    using e(3) store_session_newest [of now ?r] cfg by (simp add: issued_record_def)
  have sb: "same_broker rb rb'" using e(3) by simp
  have hd: "get_header (or_cf orc) ?hs (lit ''Authorization'') = []"
    "get_header (or_cf orc) ?hs (lit ''Cookie'') = rb_cookie_name rb @ 61 # si_token issue"
    using cf by (simp_all del: lit_Cons)
  show tok: "presented_token (or_cf orc) rb ?hs = Inr (si_token issue)"
    unfolding presented_token_def hd(2) parse_session_cookie [OF cfg(3) e(1)] by simp
  have "\<not> sr_expires_at ?r \<le> later" using tm by (simp add: issued_record_def)
  then show "fst (authenticate orc later ?hs b rb') = Inr (si_subject issue)"
    using hd(1) tok e(1,2) row
    by (simp add: authenticate_def same_broker_digest [OF sb] issued_record_def Let_def del: lit_Cons)
qed

subsection \<open>Properties\<close>

text \<open>
  C19: Only issued sessions authenticate. Whenever a request is accepted after any sequence of
  exchanges, authentications and revocations, an earlier exchange of that sequence succeeded and
  issued a session for exactly the subject that is returned, less than \<open>ttl_seconds\<close> before,
  under the digest of the presented token and bound to the keyed hashes of the presented address
  and user agent; and the table never exceeds \<open>max_entries\<close>.
\<close>

theorem session_authentic:
  assumes "rb_sessions rb0 = []" "fold (rs_step orc) ops rb0 = rb"
    and "fst (authenticate orc now hs b rb) = Inr s"
  shows "length (rb_sessions rb) \<le> rb_max_entries rb0
    \<and> (\<exists>n tok t address' ua' issue token address ua. issued_at orc rb0 ops n tok t address' ua' issue
        \<and> si_subject issue = s \<and> now < t + real (rb_ttl_seconds rb0)
        \<and> presented_token (or_cf orc) rb0 hs = Inr token \<and> binding_parts b = Inr (address, ua)
        \<and> token_digest (or_mac orc) rb0 token = token_digest (or_mac orc) rb0 tok
        \<and> keyed_mac (or_mac orc) rb0 (lit ''address'') address = keyed_mac (or_mac orc) rb0 (lit ''address'') address'
        \<and> keyed_mac (or_mac orc) rb0 (lit ''user-agent'') ua = keyed_mac (or_mac orc) rb0 (lit ''user-agent'') ua')"
proof -
  note sb = same_broker_digest [OF same_broker_run [of rb0 orc ops], unfolded assms(2)]
  obtain token address ua r where a: "presented_token (or_cf orc) rb0 hs = Inr token"
      "binding_parts b = Inr (address, ua)" "map_of (rb_sessions rb) (token_digest (or_mac orc) rb0 token) = Some r"
      "now < sr_expires_at r" "sr_address_binding r = keyed_mac (or_mac orc) rb0 (lit ''address'') address"
      "sr_user_agent_binding r = keyed_mac (or_mac orc) rb0 (lit ''user-agent'') ua" "s = sr_subject r"
    by (rule authenticate_Inr [OF assms(3)]) (simp add: sb del: lit_Cons)
  obtain n tok t address' ua' issue where i: "issued_at orc rb0 ops n tok t address' ua' issue"
      "token_digest (or_mac orc) rb0 token = token_digest (or_mac orc) rb0 tok"
      "r = issued_record orc rb0 t (si_subject issue) address' ua'"
    using session_origin [OF assms(1), of orc ops] a(3) assms(2) by blast
  have len: "length (rb_sessions rb) \<le> rb_max_entries rb0"
    using rs.run_bound [of rb0 orc ops] assms(1,2) by simp
  have r: "si_subject issue = s" "now < t + real (rb_ttl_seconds rb0)"
      "keyed_mac (or_mac orc) rb0 (lit ''address'') address = keyed_mac (or_mac orc) rb0 (lit ''address'') address'"
      "keyed_mac (or_mac orc) rb0 (lit ''user-agent'') ua = keyed_mac (or_mac orc) rb0 (lit ''user-agent'') ua'"
    using a(4-7) i(3) by (simp_all add: issued_record_def del: lit_Cons)
  show ?thesis using len i(1,2) r a(1,2) by blast
qed

text \<open>
  C33: Exchange-then-authenticate round trip. A browser that sends back the issued cookie, from the
  same address and user agent and before the session expires, is authenticated as the subject
  the exchange reported.
\<close>

theorem session_roundtrip:
  assumes ex: "exchange orc authority tok now hs b rb = (Inr issue, rb')"
    and cfg: "0 < rb_max_entries rb" "0 < rb_ttl_seconds rb" "cookie_name_ok (rb_cookie_name rb)"
    and cf: "or_cf orc (lit ''Cookie'') \<noteq> or_cf orc (lit ''Authorization'')"
    and tm: "later < now + real (rb_ttl_seconds rb)"
  shows "fst (authenticate orc later [(lit ''Cookie'', rb_cookie_name rb @ 61 # si_token issue)] b rb')
    = Inr (si_subject issue)"
  by (rule exchange_authenticate(2) [OF assms])

text \<open>
  C30: Revocation is final. After a successful revocation the token it presented is rejected by
  every later request, whatever else happens, unless an exchange mints a token with that digest
  again.
\<close>

theorem session_revocation_final:
  assumes "revoke orc now hs b rb = (Inr (), rb1)" "presented_token (or_cf orc) rb hs = Inr token" "token_ok token"
    and "distinct_keys (rb_sessions rb)"
    and "list_all (\<lambda>x. \<not> mints orc rb (token_digest (or_mac orc) rb token) x) ops"
    and "presented_token (or_cf orc) rb hs' = Inr token"
  shows "fst (authenticate orc later hs' b' (fold (rs_step orc) ops rb1)) = Inl BrokerRejected"
proof -
  let ?d = "token_digest (or_mac orc) rb token" and ?rb2 = "fold (rs_step orc) ops rb1"
  have rb1: "rb1 = rs_step orc (Revoke now hs b) rb" using assms(1) by simp
  have sb1: "same_broker rb rb1" unfolding rb1 by (rule same_broker_step)
  note s1 = same_broker_digest [OF sb1]
    and s2 = same_broker_digest [OF same_broker_trans [OF sb1 same_broker_run [of rb1 orc ops]]]
  have "mints orc rb1 ?d y = mints orc rb ?d y" for y
    using s1(1) by (cases "(orc, rb, ?d, y)" rule: mints.cases) auto
  then have "map_of (rb_sessions ?rb2) ?d = None"
    using absent_run [of rb1 ?d orc ops] revoke_absent [OF assms(1-4)] assms(5)
      rs.step_distinct [OF assms(4), of orc "Revoke now hs b"] rb1 by simp
  then show ?thesis
    using assms(3,6)
    by (auto simp: authenticate_def s2 Let_def binding_parts_def simp del: lit_Cons
        split: sum.splits prod.splits option.splits pyval.splits)
qed

text \<open>
  C34: A CWA identity names a user only on the authority's word. The identity an exchange with a
  CWA reader establishes is either the one the authority confirmed for the complete forwarded
  credentials, or it names a user that some forwarded cookie claims, and the authority accepted
  a probe that carried this one cookie as its only credential.
\<close>

theorem cwa_identity_proven:
  assumes "upstream_identity orc authority rb creds b = Inr identity" "rb_reader_type rb = Cwa"
  shows "probe (or_cf orc) (or_sha orc) (or_loads orc) authority rb creds b = Inr identity
    \<or> (\<exists>cookies name v u r.
         parse_cookie_header (case map_of creds (lit ''Cookie'') of None \<Rightarrow> [] | Some x \<Rightarrow> x) = Inr cookies
       \<and> (name, v) \<in> set cookies
       \<and> cwa_cookie_user (or_inflate orc) (loads_opt (or_loads orc)) name v = Some u
       \<and> identity = lit ''cwa-user:'' @ u
       \<and> probe (or_cf orc) (or_sha orc) (or_loads orc) authority rb [(lit ''Cookie'', cookie_text (name, v))] b = Inr r)"
proof -
  let ?pr = "\<lambda>c. probe (or_cf orc) (or_sha orc) (or_loads orc) authority rb c b"
  let ?user = "\<lambda>(n, v). cwa_cookie_user (or_inflate orc) (loads_opt (or_loads orc)) n v"
  have loop: "probe_users user pr cs tried = Inl (Inr i) \<Longrightarrow> \<exists>c\<in>set cs. \<exists>u. user c = Some u
      \<and> i = lit ''cwa-user:'' @ u \<and> (\<exists>r. pr [(lit ''Cookie'', cookie_text c)] = Inr r)" for user pr cs tried i
    by (induction user pr cs tried rule: probe_users.induct)
       (auto simp del: lit_Cons split: option.splits sum.splits broker_error.splits)
  have up: "probe_cwa ?user ?pr creds = Inr identity"
    using assms by (simp add: upstream_identity_def del: lit_Cons)
  obtain cookies where c: "parse_cookie_header (case map_of creds (lit ''Cookie'') of None \<Rightarrow> [] | Some x \<Rightarrow> x) = Inr cookies"
      "(case probe_users ?user ?pr cookies [] of Inl res \<Rightarrow> res
        | Inr tried \<Rightarrow> if set (map fst cookies) \<subseteq> set tried then Inl BrokerRejected else ?pr creds) = Inr identity"
    using up unfolding probe_cwa_def rbind_eq_Inr by blast
  show ?thesis
  proof (cases "probe_users ?user ?pr cookies []")
    case (Inl res)
    then obtain nv u where "nv \<in> set cookies" "?user nv = Some u" "identity = lit ''cwa-user:'' @ u"
        "\<exists>r. ?pr [(lit ''Cookie'', cookie_text nv)] = Inr r"
      using c(2) loop [of ?user ?pr cookies "[]" identity] by auto
    moreover obtain name v where "nv = (name, v)" by (cases nv)
    ultimately show ?thesis using c(1) by (simp del: lit_Cons) blast
  next
    case (Inr tried)
    then show ?thesis using c(2) by (simp del: lit_Cons split: if_splits)
  qed
qed

subsection \<open>A concrete broker\<close>

text \<open>A Kavita broker whose authority confirms user 5, and one exchange with a bearer token.\<close>

definition ex_rb :: "reader_type \<Rightarrow> (bytes, session_record) odict \<Rightarrow> broker" where
  "ex_rb rt ss = \<lparr>rb_reader_type = rt, rb_reader_version = [86], rb_authority = [97], rb_public_origin = [79],
     rb_secure_cookie = False, rb_cookie_name = [98, 116], rb_ttl_seconds = 300, rb_max_entries = 2,
     rb_timeout_seconds = 2, rb_max_response_bytes = 100, rb_secret = [1], rb_tenant_key = [2], rb_sessions = ss\<rparr>"

definition ex_orc :: "pyval \<Rightarrow> oracles" where
  "ex_orc v = \<lparr>or_cf = id, or_sha = id, or_mac = (\<lambda>k m. m), or_inflate = (\<lambda>_ _. None), or_loads = (\<lambda>_. JsonOk v)\<rparr>"

definition ex_user :: pyval where
  "ex_user = PDict [(lit ''id'', PInt 5), (lit ''kavitaVersion'', PStr [86])]"

definition ex_authority :: "out_headers \<Rightarrow> probe_io" where
  "ex_authority _ = (0, Some \<lparr>rp_received = 1, rp_status = 200, rp_content_type = lit ''application/json'',
     rp_content_length = [], rp_chunks = []\<rparr>)"

definition ex_token :: pystr where
  "ex_token = replicate 32 65"

definition ex_headers :: headers where
  "ex_headers = [(lit ''Origin'', [79]), (lit ''Authorization'', lit ''Bearer x'')]"

definition ex_binding :: binding where
  "ex_binding = (PStr (lit ''10.0.0.2''), PNone)"

lemma ex_parts: "binding_parts ex_binding = Inr (lit ''10.0.0.2'', [0])"
  by (simp add: binding_parts_def ex_binding_def strip_def lstrip_def rstrip_def is_space_def ip_address_def
      parse_ipv4_def parse_octet_def is_digit_def dec_value_def Let_def show_ipv4_def show_nat.simps)

lemma ex_token_ok: "token_ok ex_token"
  by (simp add: ex_token_def token_ok_def token_char_def is_alnum_def is_upper_def list_all_iff)

lemma ex_app_json: "strip (lit ''application/json'') = lit ''application/json''"
  by (intro strip_no_spaces) (auto simp: is_space_def)

lemma ex_probe:
  "probe id id (\<lambda>_. JsonOk v) ex_authority (ex_rb rt ss) creds ex_binding = probe_identity id (ex_rb rt ss) creds v"
proof -
  have sp: "split1 59 (lit ''application/json'') = (lit ''application/json'', None)" by (simp add: split1_def)
  have sd: "strip [] = []" by simp
  have "read_bounded_json id (\<lambda>_. JsonOk v) 100 2 \<lparr>rp_received = 1, rp_status = 200,
      rp_content_type = lit ''application/json'', rp_content_length = [], rp_chunks = []\<rparr> = Inr v"
    unfolding read_bounded_json_def reply.simps sp fst_conv ex_app_json sd by simp
  then show ?thesis
    unfolding probe_def ex_parts by (simp add: ex_authority_def ex_rb_def del: lit_Cons)
qed

lemma ex_kavita: "probe_identity id (ex_rb Kavita ss) creds ex_user = Inr (show_int 5)"
  by (simp add: probe_identity_def ex_user_def ex_rb_def)

lemma ex_exchange:
  "\<exists>issue rb. exchange (ex_orc ex_user) ex_authority (PStr ex_token) 10 ex_headers ex_binding (ex_rb Kavita [])
     = (Inr issue, rb)"
proof -
  let ?o = "ex_orc ex_user" and ?rb = "ex_rb Kavita []"
  have v: "validate_origin (or_cf ?o) ?rb ex_headers = Inr ()"
    by (simp add: validate_origin_def ex_orc_def ex_headers_def ex_rb_def)
  have c: "credentials (or_cf ?o) ?rb ex_headers = Inr ([(lit ''Authorization'', lit ''Bearer x'')], None)"
    by (simp add: credentials_def ex_orc_def ex_headers_def ex_rb_def parse_cookie_header_def bearer_of_def
        kavita_credentials_def)
  have u: "upstream_identity ?o ex_authority ?rb creds ex_binding = Inr (show_int 5)" for creds
    using ex_probe [of ex_user Kavita "[]" creds] ex_kavita [of "[]" creds]
    by (simp add: upstream_identity_def ex_orc_def del: lit_Cons) (simp add: ex_rb_def)
  show ?thesis
    unfolding exchange_def v c u ex_parts rbind_simps by (simp add: u ex_parts ex_token_ok Let_def)
qed

lemma ex_casefold: "or_cf (ex_orc v) (lit ''Cookie'') \<noteq> or_cf (ex_orc v) (lit ''Authorization'')"
  by (simp add: ex_orc_def)

lemma ex_config: "0 < rb_max_entries (ex_rb rt ss)" "0 < rb_ttl_seconds (ex_rb rt ss)"
    "cookie_name_ok (rb_cookie_name (ex_rb rt ss))" "rb_ttl_seconds (ex_rb rt ss) = 300"
  by (simp_all add: ex_rb_def cookie_name_ok_def cookie_name_char_def is_alnum_def is_lower_def)

theorem session_roundtrip_witness:
  "\<exists>issue rb. exchange (ex_orc ex_user) ex_authority (PStr ex_token) 10 ex_headers ex_binding (ex_rb Kavita [])
      = (Inr issue, rb)
    \<and> fst (authenticate (ex_orc ex_user) 20 [(lit ''Cookie'', rb_cookie_name (ex_rb Kavita []) @ 61 # si_token issue)]
        ex_binding rb) = Inr (si_subject issue)"
proof -
  obtain issue rb where e: "exchange (ex_orc ex_user) ex_authority (PStr ex_token) 10 ex_headers ex_binding (ex_rb Kavita [])
      = (Inr issue, rb)" using ex_exchange by blast
  have "(20 :: real) < 10 + real (rb_ttl_seconds (ex_rb Kavita []))" by (simp add: ex_config)
  from session_roundtrip [OF e ex_config(1-3) ex_casefold this] show ?thesis using e by blast
qed

lemma ex_authenticated:
  obtains issue rb hs s where
    "exchange (ex_orc ex_user) ex_authority (PStr ex_token) 10 ex_headers ex_binding (ex_rb Kavita []) = (Inr issue, rb)"
    "presented_token (or_cf (ex_orc ex_user)) (ex_rb Kavita []) hs = Inr ex_token"
    "fst (authenticate (ex_orc ex_user) 20 hs ex_binding rb) = Inr s"
proof -
  obtain issue rb where e: "exchange (ex_orc ex_user) ex_authority (PStr ex_token) 10 ex_headers ex_binding (ex_rb Kavita [])
      = (Inr issue, rb)" using ex_exchange by blast
  have tok: "si_token issue = ex_token" by (rule exchange_Inr [OF e]) simp
  have "(20 :: real) < 10 + real (rb_ttl_seconds (ex_rb Kavita []))" by (simp add: ex_config)
  note ea = exchange_authenticate [OF e ex_config(1-3) ex_casefold this]
  show thesis by (rule that [OF e ea(1) [unfolded tok] ea(2) [unfolded tok]])
qed

theorem session_authentic_witness:
  "\<exists>rb hs s n tok t a u issue. rb = fold (rs_step (ex_orc ex_user))
      [Exchange ex_authority (PStr ex_token) 10 ex_headers ex_binding] (ex_rb Kavita [])
    \<and> fst (authenticate (ex_orc ex_user) 20 hs ex_binding rb) = Inr s
    \<and> issued_at (ex_orc ex_user) (ex_rb Kavita []) [Exchange ex_authority (PStr ex_token) 10 ex_headers ex_binding]
        n tok t a u issue \<and> si_subject issue = s"
proof -
  let ?ops = "[Exchange ex_authority (PStr ex_token) 10 ex_headers ex_binding]"
  obtain issue rb hs s where x: "exchange (ex_orc ex_user) ex_authority (PStr ex_token) 10 ex_headers ex_binding (ex_rb Kavita []) = (Inr issue, rb)"
    "fst (authenticate (ex_orc ex_user) 20 hs ex_binding rb) = Inr s" by (rule ex_authenticated)
  have run: "fold (rs_step (ex_orc ex_user)) ?ops (ex_rb Kavita []) = rb" using x(1) by simp
  have "rb_sessions (ex_rb Kavita []) = []" by (simp add: ex_rb_def)
  from session_authentic [OF this run x(2)] show ?thesis using run x(2) by blast
qed

theorem session_revocation_final_witness:
  "\<exists>rb rb1 hs. revoke (ex_orc ex_user) 20 hs ex_binding rb = (Inr (), rb1)
    \<and> fst (authenticate (ex_orc ex_user) 21 hs ex_binding (fold (rs_step (ex_orc ex_user)) [] rb1)) = Inl BrokerRejected"
proof -
  obtain issue rb hs s where x: "exchange (ex_orc ex_user) ex_authority (PStr ex_token) 10 ex_headers ex_binding (ex_rb Kavita []) = (Inr issue, rb)"
    "presented_token (or_cf (ex_orc ex_user)) (ex_rb Kavita []) hs = Inr ex_token"
    "fst (authenticate (ex_orc ex_user) 20 hs ex_binding rb) = Inr s" by (rule ex_authenticated)
  have rb: "rb = rs_step (ex_orc ex_user) (Exchange ex_authority (PStr ex_token) 10 ex_headers ex_binding) (ex_rb Kavita [])"
    using x(1) by simp
  have p: "presented_token (or_cf (ex_orc ex_user)) rb hs = Inr ex_token"
    using x(2) same_broker_digest(4) [OF same_broker_step] rb by metis
  have dk: "distinct_keys (rb_sessions rb)" unfolding rb by (rule rs.step_distinct) (simp add: ex_rb_def)
  obtain rb0 where a: "authenticate (ex_orc ex_user) 20 hs ex_binding rb = (Inr s, rb0)"
    using x(3) by (metis prod.collapse)
  obtain cookies where c: "parse_cookie_header (get_header (or_cf (ex_orc ex_user)) hs (lit ''Cookie'')) = Inr cookies"
    using p unfolding presented_token_def rbind_eq_Inr by blast
  have ne: "cookies \<noteq> []" using p c by (auto simp: presented_token_def simp del: lit_Cons)
  have rv: "revoke (ex_orc ex_user) 20 hs ex_binding rb = (Inr (), remove_token (ex_orc ex_user) ex_token rb0)"
    using a c ne p ex_token_ok by (simp add: revoke_def del: lit_Cons)
  have "fst (authenticate (ex_orc ex_user) 21 hs ex_binding (fold (rs_step (ex_orc ex_user)) []
      (remove_token (ex_orc ex_user) ex_token rb0))) = Inl BrokerRejected"
    by (rule session_revocation_final [OF rv p ex_token_ok dk _ p]) simp
  then show ?thesis using rv by blast
qed

theorem cwa_identity_proven_witness:
  "\<exists>identity. upstream_identity (ex_orc (PList [])) ex_authority (ex_rb Cwa []) [(lit ''Cookie'', lit ''session=x'')] ex_binding
      = Inr identity
    \<and> (probe id id (\<lambda>_. JsonOk (PList [])) ex_authority (ex_rb Cwa []) [(lit ''Cookie'', lit ''session=x'')] ex_binding = Inr identity
       \<or> (\<exists>u. identity = lit ''cwa-user:'' @ u))"
proof -
  let ?creds = "[(lit ''Cookie'', lit ''session=x'')]"
  have pc: "parse_cookie_header (lit ''session=x'') = Inr [(lit ''session'', lit ''x'')]"
    by (simp add: parse_cookie_header_def is_ctrl_def strip_def lstrip_def rstrip_def is_space_def split1_def
        cookie_name_ok_def cookie_name_char_def is_alnum_def is_lower_def unquote_def Let_def)
  have r3: "replicate 3 61 = [61, 61, 61 :: nat]" by (simp add: numeral_3_eq_3)
  have u: "cwa_cookie_user (\<lambda>_ _. None) loads (lit ''session'') (lit ''x'') = None" for loads
    by (simp add: cwa_cookie_user_def signed_cookie_payload_def split1_def urlsafe_b64decode_def is_ascii_def
        b64_value_def is_upper_def is_lower_def Let_def r3)
  have "upstream_identity (ex_orc (PList [])) ex_authority (ex_rb Cwa []) ?creds ex_binding = Inr (lit ''session=x'')"
    using ex_probe [of "PList []" Cwa "[]" ?creds] pc u
    by (simp add: upstream_identity_def ex_orc_def probe_cwa_def probe_identity_def is_ascii_def ex_rb_def)
  from cwa_identity_proven [OF this] this show ?thesis
    by (auto simp: ex_rb_def ex_orc_def)
qed

end
