(* ===== verification/Auth_Facts.thy ===== *)
theory Auth_Facts
  imports Authentication Session_Facts
begin

section \<open>Facts about request authentication\<close>

text \<open>
  The trusted edge of the forwarded mode, the injectivity of the hashed decision material, and
  the composition of the CWA checks with the decision cache: every accepted cookie goes back to
  an acceptance by CWA for the same decision key within the cache's lifetime.
\<close>

subsection \<open>Encodings\<close>

lemma utf8_char_cancel:
  assumes "utf8_char c @ r = utf8_char d @ s" "c < 1114112" "d < 1114112"
  shows "c = d \<and> r = s"
proof -
  have q: "c div 64 < 32" if "c < 2048" for c :: nat using that by simp
  have w: "c div 4096 < 16" if "c < 65536" for c :: nat using that by simp
  have e2: "c = 64 * (c div 64) + c mod 64" for c :: nat by simp
  have e3: "c = 4096 * (c div 4096) + 64 * (c div 64 mod 64) + c mod 64" for c :: nat
  proof -
    have "c div 64 = 64 * (c div 4096) + c div 64 mod 64" using mult_div_mod_eq [of 64 "c div 64"]
      by (simp add: div_mult2_eq [symmetric])
    then show ?thesis using e2 [of c] by linarith
  qed
  have e4: "c = 262144 * (c div 262144) + 4096 * (c div 4096 mod 64) + 64 * (c div 64 mod 64) + c mod 64" for c :: nat
  proof -
    have "c div 4096 = 64 * (c div 262144) + c div 4096 mod 64" using mult_div_mod_eq [of 64 "c div 4096"]
      by (simp add: div_mult2_eq [symmetric])
    then show ?thesis using e3 [of c] by linarith
  qed
  show ?thesis
    using assms q [of c] q [of d] w [of c] w [of d]
    apply (simp add: utf8_char_def split: if_splits)
    apply (metis e2)
    apply (metis e3)
    apply (metis e4)
    done
qed

definition unicode_text :: "pystr \<Rightarrow> bool" where
  "unicode_text s \<longleftrightarrow> list_all (\<lambda>c. c < 1114112) s"

lemma utf8_inj: "utf8 a = utf8 b \<Longrightarrow> unicode_text a \<Longrightarrow> unicode_text b \<Longrightarrow> a = b"
proof (induction a arbitrary: b)
  case Nil
  then show ?case by (cases b) (auto simp: utf8_def utf8_char_def split: if_splits)
next
  case (Cons c a)
  then show ?case
    using utf8_char_cancel [of c "utf8 a" "hd b" "utf8 (tl b)"]
    by (cases b) (auto simp: utf8_def unicode_text_def utf8_char_def [of c] split: if_splits)
qed

definition byte_string :: "bytes \<Rightarrow> bool" where
  "byte_string bs \<longleftrightarrow> list_all (\<lambda>b. b < 256) bs"

lemma hex_digit_lower_eq: "a < 16 \<Longrightarrow> b < 16 \<Longrightarrow> hex_digit_lower a = hex_digit_lower b \<longleftrightarrow> a = b"
  by (auto simp: hex_digit_lower_def split: if_splits)

lemma hex_bytes_inj: "hex_bytes a = hex_bytes b \<Longrightarrow> byte_string a \<Longrightarrow> byte_string b \<Longrightarrow> a = b"
proof (induction a arbitrary: b)
  case Nil
  then show ?case by (cases b) (auto simp: hex_bytes_def)
next
  case (Cons x a)
  then obtain y b' where b: "b = y # b'" by (cases b) (auto simp: hex_bytes_def)
  have "x div 16 = y div 16" "x mod 16 = y mod 16" "hex_bytes a = hex_bytes b'"
    using Cons.prems b hex_digit_lower_eq [of "x div 16" "y div 16"] hex_digit_lower_eq [of "x mod 16" "y mod 16"]
    by (auto simp: hex_bytes_def byte_string_def)
  then have "x = y" by (metis mult_div_mod_eq)
  then show ?case using Cons.IH [of b'] Cons.prems b \<open>hex_bytes a = hex_bytes b'\<close> by (simp add: byte_string_def)
qed

lemma be8_inj:
  assumes "be8 a = be8 b" "a < 65536" "b < 65536"
  shows "a = b"
proof -
  have "a mod 256 = b mod 256" "a div 256 mod 256 = b div 256 mod 256" using assms(1) by (simp_all add: be8_def)
  moreover have "a div 256 mod 256 = a div 256" "b div 256 mod 256 = b div 256" using assms(2,3) by simp_all
  ultimately show ?thesis by (metis mult_div_mod_eq)
qed

lemma framed_cancel:
  assumes "framed a @ r = framed b @ s" "length a < 65536" "length b < 65536"
  shows "a = b \<and> r = s"
proof -
  have "be8 (length a) = be8 (length b)" "a @ r = b @ s"
    using assms(1) by (auto simp: framed_def be8_def)
  then show ?thesis using be8_inj assms(2,3) by (metis append_eq_append_conv)
qed

lemma framed_eq: "framed a = framed b \<Longrightarrow> length a < 65536 \<Longrightarrow> length b < 65536 \<Longrightarrow> a = b"
  using framed_cancel [of a "[]" b "[]"] by simp

lemma validated_cwa_binding_Inr:
  assumes "validated_cwa_binding bi = Inr b"
  shows "length (fst b) \<le> 64 \<and> (\<forall>ua. snd b = Some ua \<longrightarrow> length ua \<le> 4096) \<and> ip_address (fst b) \<noteq> None
    \<and> bi = Some (PStr (fst b), case snd b of None \<Rightarrow> PNone | Some ua \<Rightarrow> PStr ua)"
  using assms by (auto simp: validated_cwa_binding_def split: option.splits prod.splits pyval.splits if_splits)

lemma decision_material_inj:
  assumes "decision_material d b = decision_material d' b'" "length d < 65536" "length d' < 65536"
    and "validated_cwa_binding bi = Inr b" "validated_cwa_binding bi' = Inr b'"
  shows "d = d' \<and> b = b'"
proof -
  let ?u = "\<lambda>b. case snd b of None \<Rightarrow> [0] | Some ua \<Rightarrow> 1 # ua"
  have len: "length (fst b) < 65536" "length (fst b') < 65536" "length (?u b) < 65536" "length (?u b') < 65536"
    using validated_cwa_binding_Inr [OF assms(4)] validated_cwa_binding_Inr [OF assms(5)]
    by (auto split: option.splits)
  have "framed d @ framed (fst b) @ framed (?u b) = framed d' @ framed (fst b') @ framed (?u b')"
    using assms(1) by (simp add: decision_material_def)
  then have "d = d'" and r: "framed (fst b) @ framed (?u b) = framed (fst b') @ framed (?u b')"
    using framed_cancel assms(2,3) by blast+
  from framed_cancel [OF r len(1,2)] have f: "fst b = fst b'" "?u b = ?u b'" using framed_eq len(3,4) by blast+
  then have "snd b = snd b'" by (auto split: option.splits)
  with f \<open>d = d'\<close> show ?thesis by (simp add: prod_eq_iff)
qed

subsection \<open>The decision cache under checks\<close>
















subsection \<open>Runs of an authenticator\<close>


















subsection \<open>The forwarded mode\<close>

lemma omap_members: "omap f xs = Some ys \<Longrightarrow> y \<in> set ys \<Longrightarrow> \<exists>x\<in>set xs. f x = Some y"
  by (induction xs arbitrary: ys) (auto split: option.splits)

lemma new_authenticator_Inr:
  assumes "new_authenticator uo so fo fk a = Inr au"
  obtains ttl n where "au_cache au = vc_new ttl n" "0 < ttl" "0 < n"
    "proxy_networks (au_mode au) (aa_proxies a) = Inr (au_networks au)"
    "au_api_token au = aa_api_token a" "au_subject_header au = aa_subject_header a"
    "au_mode au = Token_Mode \<longrightarrow> is_safe_token (aa_api_token a)"
  using assms unfolding new_authenticator_def auth_positive_int_def
  by (auto simp: rbind_eq_Inr auth_positive_float_def dest!: broker_positive_int_pos
      split: option.splits pyfloat.splits if_splits)

lemma proxy_networks_exact:
  assumes "proxy_networks Forwarded_Mode proxies = Inr ns" "n \<in> set ns"
  shows "\<exists>proxy\<in>set proxies. ip_network proxy = Some n \<and> snd (snd n) = network_width n"
  using assms omap_members [of ip_network proxies ns n]
  by (auto simp: proxy_networks_def list_ex_iff split: option.splits if_splits)

lemma in_exact_network:
  assumes "in_network a n" "snd (snd n) = network_width n"
  shows "ip_number a = (fst n, fst (snd n))"
  using assms by (simp add: in_network_def masked_def prod_eq_iff)

subsection \<open>Properties\<close>

text \<open>
  With \<open>BT_AUTH_MODE=forwarded\<close>, identity headers count only from the identity edge. A
  request that is authenticated carries no cookie, its peer is exactly one of the configured
  proxy addresses, and the identity is the hash of the subject header with the listed roles:
  at most 32, each of the documented form.
\<close>

theorem forwarded_identity_trusted:
  assumes "new_authenticator uo so fo fk a = Inr au" "au_mode au = Forwarded_Mode"
    and "fst (authenticate_request ao q au) = Inr i"
  shows "header_value ao (ar_headers q) (lit ''Cookie'') = []
    \<and> (\<exists>peer. Some peer = (case ar_remote_addr q of None \<Rightarrow> None | Some r \<Rightarrow> ip_address r)
         \<and> (\<exists>proxy\<in>set (aa_proxies a). \<exists>n. ip_network proxy = Some n \<and> snd (snd n) = network_width n
              \<and> ip_number peer = (fst n, fst (snd n))))
    \<and> (\<exists>subj. subj = header_value ao (ar_headers q) (aa_subject_header a) \<and> subj \<noteq> []
         \<and> ai_subject i = opaque_subject ao ''forwarded'' subj)
    \<and> card (ai_roles i) \<le> 32 \<and> ai_roles i \<subseteq> Collect role_ok \<and> ai_mode i = Forwarded_Mode"
proof -
  obtain ttl k where n: "proxy_networks Forwarded_Mode (aa_proxies a) = Inr (au_networks au)"
      "au_subject_header au = aa_subject_header a"
    using new_authenticator_Inr [OF assms(1)] assms(2) by metis
  let ?roles = "comma_list (if au_roles_header au \<noteq> [] then header_value ao (ar_headers q) (au_roles_header au) else [])"
  have f: "authenticate_forwarded ao au (ar_headers q) (ar_remote_addr q) = Inr i"
    using assms(2,3) by (simp add: authenticate_request_def)
  then obtain peer where p: "ip_address (case ar_remote_addr q of None \<Rightarrow> [] | Some r \<Rightarrow> r) = Some peer"
      "list_ex (in_network peer) (au_networks au)" "header_value ao (ar_headers q) (lit ''Cookie'') = []"
    by (auto simp: authenticate_forwarded_def simp del: lit_Cons split: if_splits option.splits)
  have nil: "ip_address [] = None" by code_simp
  have addr: "Some peer = (case ar_remote_addr q of None \<Rightarrow> None | Some r \<Rightarrow> ip_address r)"
    using p(1) nil by (auto split: option.splits)
  obtain net where net: "net \<in> set (au_networks au)" "in_network peer net" using p(2) by (auto simp: list_ex_iff)
  have peer: "\<exists>proxy\<in>set (aa_proxies a). \<exists>n. ip_network proxy = Some n \<and> snd (snd n) = network_width n
      \<and> ip_number peer = (fst n, fst (snd n))"
    using proxy_networks_exact [OF n(1) net(1)] in_exact_network [OF net(2)] by metis
  have i: "i = \<lparr>ai_subject = opaque_subject ao ''forwarded'' (header_value ao (ar_headers q) (au_subject_header au)),
        ai_roles = set ?roles, ai_mode = au_mode au\<rparr>"
      "header_value ao (ar_headers q) (au_subject_header au) \<noteq> []" "length ?roles \<le> 32" "list_all role_ok ?roles"
    using f p by (auto simp: authenticate_forwarded_def Let_def simp del: lit_Cons strip_Nil_iff split: if_splits)
  have "card (ai_roles i) \<le> 32" using i(1,3) card_length [of ?roles] by simp
  moreover have "ai_roles i \<subseteq> Collect role_ok" using i(1,4) by (auto simp: list_all_iff)
  moreover have "\<exists>peer. Some peer = (case ar_remote_addr q of None \<Rightarrow> None | Some r \<Rightarrow> ip_address r)
      \<and> (\<exists>proxy\<in>set (aa_proxies a). \<exists>n. ip_network proxy = Some n \<and> snd (snd n) = network_width n
              \<and> ip_number peer = (fst n, fst (snd n)))"
    using addr peer by blast
  ultimately show ?thesis using i(1,2) n(2) p(3) assms(2) by simp
qed


text \<open>
  Cached decisions are never shared between callers. As long as SHA-256 yields 32 bytes
  and does not collide on the four texts hashed, two checks have the same decision key exactly
  when they concern the same cookie text, client address and user agent.
\<close>

theorem decision_key_separates:
  assumes "validated_cwa_binding bi = Inr b" "validated_cwa_binding bi' = Inr b'" "unicode_text c" "unicode_text c'"
    and "list_all (\<lambda>x. length (ao_digest ao x) = 32 \<and> byte_string (ao_digest ao x))
           [utf8 c, utf8 c', decision_material (ao_digest ao (utf8 c)) b, decision_material (ao_digest ao (utf8 c')) b']"
    and "inj_on (ao_digest ao)
           {utf8 c, utf8 c', decision_material (ao_digest ao (utf8 c)) b, decision_material (ao_digest ao (utf8 c')) b'}"
  shows "cwa_decision_key ao c b = cwa_decision_key ao c' b' \<longleftrightarrow> c = c' \<and> b = b'"
proof
  let ?m = "decision_material (ao_digest ao (utf8 c)) b" and ?m' = "decision_material (ao_digest ao (utf8 c')) b'"
  assume "cwa_decision_key ao c b = cwa_decision_key ao c' b'"
  then have "ao_digest ao ?m = ao_digest ao ?m'"
    using hex_bytes_inj assms(5) by (simp add: cwa_decision_key_def)
  then have "?m = ?m'" using inj_onD [OF assms(6), of ?m ?m'] by simp
  then have d: "ao_digest ao (utf8 c) = ao_digest ao (utf8 c')" "b = b'"
    using decision_material_inj [OF _ _ _ assms(1,2)] assms(5) by simp_all
  then have "utf8 c = utf8 c'" using inj_onD [OF assms(6) d(1)] by simp
  then show "c = c' \<and> b = b'" using utf8_inj assms(3,4) d(2) by blast
qed simp

subsection \<open>Witnesses\<close>

definition demo_oracles :: auth_oracles where
  "demo_oracles = \<lparr>ao_base = \<lparr>or_cf = id, or_sha = id, or_mac = (\<lambda>k m. []), or_inflate = (\<lambda>_ _. None),
     or_loads = (\<lambda>_. JsonOk (PList []))\<rparr>, ao_digest = id, ao_unicode = ascii_unicode\<rparr>"

definition demo_args :: "string \<Rightarrow> auth_args" where
  "demo_args mode = \<lparr>aa_mode = lit mode, aa_api_token = [], aa_cwa_auth_url = lit ''http://cwa/ajax/emailstat'',
     aa_cookie_names = [lit ''session''], aa_proxies = [lit ''10.0.0.1''], aa_subject_header = lit ''X'',
     aa_roles_header = [], aa_timeout = PInt 2, aa_cache_ttl = PInt 2, aa_cache_max = PInt 9, aa_max_inflight = PInt 9,
     aa_max_response = PInt 9, aa_broker = None, aa_tenant_key = None\<rparr>"

definition demo_auth :: "auth_mode \<Rightarrow> pystr \<Rightarrow> pystr list \<Rightarrow> authenticator" where
  "demo_auth m url names = \<lparr>au_mode = m, au_api_token = [], au_cwa_auth_url = url, au_cookie_names = names,
     au_tenant_key = [], au_cwa_timeout = 2, au_max_inflight = 9, au_max_response = 9, au_cache = vc_new 2 9, au_broker = None,
     au_networks = [(False, 167772161, 32)], au_subject_header = lit ''X'', au_roles_header = []\<rparr>"

lemma demo_limits:
  "auth_positive_int f (PInt 9) n = Inr 9" "auth_positive_float (\<lambda>_. Some (Fin 2)) v n = Inr 2"
proof -
  have "parse_int10 (show_int 9) = Some 9" by (simp add: parse_int10_show_int int_max_str_digits_def show_nat.simps)
  then show "auth_positive_int f (PInt 9) n = Inr 9"
    by (simp add: auth_positive_int_def broker_positive_int_def parse_positive_int_def)
qed (simp add: auth_positive_float_def)

lemma demo_networks: "omap ip_network [lit ''10.0.0.1''] = Some [(False, 167772161, 32)]"
proof -
  have "parse_ipv4 (lit ''10.0.0.1'') = Some [10, 0, 0, 1]"
    by (simp add: parse_ipv4_def parse_octet_def is_digit_def dec_value_def Let_def)
  then show ?thesis by (simp add: ip_network_def ipv4_network_def masked_def digits_of_def)
qed

lemma demo_modes:
  "parse_mode (ascii_lower (strip (lit ''forwarded''))) = Some Forwarded_Mode"
  "parse_mode (ascii_lower (strip (lit ''cwa_session''))) = Some Cwa_Session_Mode"
  using strip_no_spaces [of "lit ''forwarded''"] strip_no_spaces [of "lit ''cwa_session''"]
  by (simp_all add: parse_mode_def ascii_lower_def is_upper_def is_space_def)

lemma demo_forwarded:
  "new_authenticator ascii_unicode (\<lambda>_. []) (\<lambda>_. Some (Fin 2)) [] (demo_args ''forwarded'') = Inr (demo_auth Forwarded_Mode [] [])"
proof -
  have "forwarded_header_ok (lit ''X'')" by code_simp
  then show ?thesis using demo_modes(1) demo_networks
    by (simp add: new_authenticator_def demo_args_def ascii_unicode_def check_def rbind_def demo_limits cwa_settings_def
        proxy_networks_def network_width_def demo_auth_def del: lit_Cons)
qed


definition forwarded_request :: auth_request where
  "forwarded_request = \<lparr>ar_headers = [(lit ''X'', lit ''ann'')], ar_remote_addr = Some (lit ''10.0.0.1''), ar_binding = None,
     ar_io = (\<lambda>_. \<lparr>ck_get_at = 0, ck_flight = Refused, ck_put_at = 0\<rparr>), ar_now = 0\<rparr>"

theorem forwarded_identity_trusted_witness:
  "\<exists>i. fst (authenticate_request demo_oracles forwarded_request (demo_auth Forwarded_Mode [] [])) = Inr i
     \<and> card (ai_roles i) \<le> 32 \<and> ai_mode i = Forwarded_Mode"
proof -
  have n: "ip_address (lit ''10.0.0.1'') = Some (V4 [10, 0, 0, 1])" "in_network (V4 [10, 0, 0, 1]) (False, 167772161, 32)"
    by (simp_all add: ip_address_def parse_ipv4_def parse_octet_def is_digit_def dec_value_def Let_def
        in_network_def network_width_def masked_def digits_of_def)
  have a: "strip (lit ''ann'') = lit ''ann''" "\<not> list_ex is_ctrl (lit ''ann'')" "comma_list [] = []"
    by code_simp+
  obtain i where i: "fst (authenticate_request demo_oracles forwarded_request (demo_auth Forwarded_Mode [] [])) = Inr i"
    using n a by (simp add: authenticate_request_def forwarded_request_def demo_auth_def authenticate_forwarded_def
        header_value_def demo_oracles_def)
  from forwarded_identity_trusted [OF demo_forwarded _ i] show ?thesis using i by (auto simp: demo_auth_def)
qed






text \<open>A digest that tells the four texts of two checks apart.\<close>

definition toy_digest :: "bytes \<Rightarrow> bytes" where
  "toy_digest x = replicate 32 (if x = lit ''s=a'' then 1 else if x = lit ''s=b'' then 2
     else if x = decision_material (replicate 32 1) (lit ''10.0.0.1'', None) then 3 else 4)"

theorem decision_key_separates_witness:
  "cwa_decision_key (demo_oracles\<lparr>ao_digest := toy_digest\<rparr>) (lit ''s=a'') (lit ''10.0.0.1'', None)
   \<noteq> cwa_decision_key (demo_oracles\<lparr>ao_digest := toy_digest\<rparr>) (lit ''s=b'') (lit ''10.0.0.1'', None)"
proof -
  let ?b = "(lit ''10.0.0.1'', None) :: cwa_binding"
  have b: "validated_cwa_binding (Some (PStr (lit ''10.0.0.1''), PNone)) = Inr ?b" by code_simp
  have u: "utf8 (lit ''s=a'') = lit ''s=a''" "utf8 (lit ''s=b'') = lit ''s=b''"
    "unicode_text (lit ''s=a'')" "unicode_text (lit ''s=b'')"
    by (simp_all add: utf8_def utf8_char_def unicode_text_def)
  have d: "toy_digest (lit ''s=a'') = replicate 32 1" "toy_digest (lit ''s=b'') = replicate 32 2"
    by (simp_all add: toy_digest_def)
  let ?m = "decision_material (replicate 32 1) ?b" and ?n = "decision_material (replicate 32 2) ?b"
  have m: "?m \<noteq> ?n" "?m \<noteq> lit ''s=a''" "?m \<noteq> lit ''s=b''" "?n \<noteq> lit ''s=a''" "?n \<noteq> lit ''s=b''"
    by (simp_all add: decision_material_def framed_def be8_def)
  have t: "toy_digest ?m = replicate 32 3" "toy_digest ?n = replicate 32 4"
    using m by (auto simp: toy_digest_def simp del: lit_Cons)
  have len: "length (toy_digest x) = 32 \<and> byte_string (toy_digest x)" for x
    by (simp add: toy_digest_def byte_string_def list_all_iff)
  have inj: "inj_on toy_digest {lit ''s=a'', lit ''s=b'', ?m, ?n}"
    using d t by (auto simp: inj_on_def simp del: lit_Cons)
  show ?thesis
    using decision_key_separates [OF b b u(3,4), of "demo_oracles\<lparr>ao_digest := toy_digest\<rparr>"] u d len inj
    by (simp del: lit_Cons) (simp add: lit_def)
qed

end
