(* ===== verification/Provider_Facts.thy ===== *)
theory Provider_Facts
  imports Providers
begin

section \<open>What the provider configuration guarantees\<close>

text \<open>
  Custom endpoints only resolve to public addresses, every configured provider has the
  credentials its kind needs, and the cache identity of a provider determines its model when
  the two roles have different namespaces (and not otherwise).
\<close>

lemma in_set_first_occurrences: "set (rev (remdups (rev xs))) = set xs"
  by simp

lemma resolve_Inr:
  assumes "resolve_custom_endpoint net dns bo e = Inr (e', host, addrs)"
  shows "e' = e \<and> strip e = e \<and>
    (\<exists>u port ips. urlsplit (n_unicode net) e = Some u \<and> url_port u = Inr port
       \<and> endpoint_shape_ok (n_unicode net) [lit ''https''] u port
       \<and> url_hostname (n_unicode net) u = Some host
       \<and> endpoint_addresses dns bo host port = Inr ips \<and> ips \<noteq> [] \<and> (\<forall>a\<in>set ips. n_global net a)
       \<and> addrs = rev (remdups (rev (map show_ip ips))))"
  using assms unfolding resolve_custom_endpoint_def
  by (auto simp: rbind_eq_Inr list_ex_iff simp del: strip_Nil_iff split: if_splits option.splits sum.splits)

definition provider_wf :: "provider \<Rightarrow> bool" where
  "provider_wf p \<longleftrightarrow>
     p_model p \<noteq> [] \<and> strip (p_model p) = p_model p
     \<and> (p_api_key p = [] \<longleftrightarrow> locality (p_spec p) = Local)
     \<and> (locality (p_spec p) = Local \<longleftrightarrow> provider_id (p_spec p) = lit ''local'')"

lemma spec_for_wf:
  "spec_for env name c = Inr s \<Longrightarrow> provider_id s = name \<and> (locality s = Local \<longleftrightarrow> name = lit ''local'')"
  unfolding spec_for_def
  by (auto simp: rbind_eq_Inr custom_provider_id_def simp del: lit_Cons split: option.splits if_splits)
    (auto simp: custom_provider_id_def)

lemma provider_from_config_wf:
  assumes "provider_from_config env name model key c ck = Inr p"
  shows "provider_wf p"
proof (cases "name = custom_provider_id")
  case True
  have ne: "name \<noteq> lit ''local''" unfolding True custom_provider_id_def by simp
  from True assms obtain s where s: "spec_for env name c = Inr s" "strip model = model" "model \<noteq> []" "strip ck \<noteq> []"
    "p = \<lparr>p_spec = s, p_model = model, p_api_key = strip ck\<rparr>"
    unfolding provider_from_config_def by (auto simp: rbind_eq_Inr Let_def simp del: strip_Nil_iff split: if_splits)
  then show ?thesis using spec_for_wf [OF s(1)] ne by (simp add: provider_wf_def del: strip_Nil_iff lit_Cons)
next
  case False
  with assms obtain s where s: "spec_for env name [] = Inr s" "strip model = model" "model \<noteq> []"
    "strip key = [] \<longleftrightarrow> locality s = Local" "p = \<lparr>p_spec = s, p_model = model, p_api_key = strip key\<rparr>"
    unfolding provider_from_config_def by (auto simp: rbind_eq_Inr Let_def simp del: strip_Nil_iff split: if_splits)
  then show ?thesis using spec_for_wf [OF s(1)] by (simp add: provider_wf_def del: strip_Nil_iff lit_Cons)
qed

definition same_identity :: "provider \<Rightarrow> provider \<Rightarrow> bool" where
  "same_identity p f \<longleftrightarrow> cache_namespace (p_spec p) = cache_namespace (p_spec f) \<and> p_model p = p_model f"

lemma get_primary_wf:
  "get_primary env no_globals = (Inr p, g) \<Longrightarrow> provider_wf p \<and> g = \<lparr>pg_primary = Some p, pg_fallback = None\<rparr>"
  by (auto simp: get_primary_def no_globals_def split: sum.splits dest: provider_from_config_wf)

lemma get_fallback_wf:
  "get_fallback env \<lparr>pg_primary = Some p, pg_fallback = None\<rparr> = (Inr (Some f), g) \<Longrightarrow>
   provider_wf f \<and> \<not> same_identity p f"
  by (auto simp: get_fallback_def get_primary_def Let_def same_identity_def
      split: sum.splits if_splits dest: provider_from_config_wf)

subsection \<open>A concrete deployment\<close>

text \<open>OpenAI for both roles with two different models, which the configuration admits.\<close>

definition plain_net :: net where
  "plain_net = \<lparr>n_unicode = \<lparr>uo_lower = ascii_lower, uo_nfkc = id\<rparr>, n_global = (\<lambda>_. True), n_sha = id\<rparr>"

definition no_dns :: "pystr \<Rightarrow> nat \<Rightarrow> dns_io" where
  "no_dns host port = \<lparr>d_slot = False, d_completed = False, d_answer = None, d_t1 = 0, d_t2 = 0, d_t3 = 0, d_t4 = 0\<rparr>"

definition two_models :: llm_env where
  "two_models = \<lparr>e_net = plain_net, e_dns = no_dns, e_local_url = [],
     e_provider = lit ''openai'', e_model = lit ''a'', e_api_key = lit ''k'', e_custom_endpoint = [], e_custom_api_key = [],
     e_fb_provider = lit ''openai'', e_fb_model = lit ''b'', e_fb_api_key = lit ''k'', e_fb_custom_endpoint = [],
     e_fb_custom_api_key = []\<rparr>"

definition openai_with :: "pystr \<Rightarrow> provider" where
  "openai_with model = \<lparr>p_spec = \<lparr>provider_id = lit ''openai'', endpoint = lit ''https://api.openai.com/v1/chat/completions'',
     protocol = OpenAI, locality = Remote, cache_namespace = lit ''openai''\<rparr>, p_model = model, p_api_key = lit ''k''\<rparr>"

lemma strip_letter: "strip [c] = (if is_space c then [] else [c])"
  by (simp add: strip_def lstrip_def rstrip_def)

lemma openai_spec:
  "spec_for env (lit ''openai'') c = Inr (p_spec (openai_with m))"
  by (simp add: spec_for_def provider_endpoints_def openai_with_def)

lemma openai_from_config:
  "\<not> is_space x \<Longrightarrow> provider_from_config env (lit ''openai'') [x] (lit ''k'') [] [] = Inr (openai_with [x])"
proof -
  assume "\<not> is_space x"
  moreover have "strip (lit ''k'') = lit ''k''" "strip ([] :: pystr) = []" by (simp_all add: strip_letter is_space_def)
  moreover have "lit ''openai'' \<noteq> custom_provider_id" by (simp add: custom_provider_id_def)
  moreover have "locality (p_spec (openai_with m)) = Remote" for m by (simp add: openai_with_def)
  ultimately show ?thesis
    unfolding provider_from_config_def openai_spec [of env "[]" "[x]"]
    by (simp add: strip_letter Let_def openai_with_def del: lit_Cons strip_Nil_iff) (simp add: strip_letter)
qed

lemma two_models_providers:
  "both_providers two_models no_globals
     = (Inr (openai_with (lit ''a''), Some (openai_with (lit ''b''))),
        \<lparr>pg_primary = Some (openai_with (lit ''a'')), pg_fallback = Some (Some (openai_with (lit ''b'')))\<rparr>)"
proof -
  have p: "provider_from_config two_models (lit ''openai'') (lit ''a'') (lit ''k'') [] [] = Inr (openai_with (lit ''a''))"
    "provider_from_config two_models (lit ''openai'') (lit ''b'') (lit ''k'') [] [] = Inr (openai_with (lit ''b''))"
    using openai_from_config [of 97 two_models] openai_from_config [of 98 two_models] by (simp_all add: is_space_def)
  have f: "e_provider two_models = lit ''openai''" "e_model two_models = lit ''a''" "e_api_key two_models = lit ''k''"
    "e_custom_endpoint two_models = []" "e_custom_api_key two_models = []" "e_fb_provider two_models = lit ''openai''"
    "e_fb_model two_models = lit ''b''" "e_fb_api_key two_models = lit ''k''" "e_fb_custom_endpoint two_models = []"
    "e_fb_custom_api_key two_models = []" by (simp_all add: two_models_def)
  have k: "strip (lit ''k'') = lit ''k''" by (simp add: strip_letter is_space_def)
  have ne: "lit ''openai'' \<noteq> []" "lit ''b'' \<noteq> []" "p_model (openai_with (lit ''a'')) \<noteq> p_model (openai_with (lit ''b''))"
    by (simp_all add: openai_with_def)
  show ?thesis
    by (simp add: both_providers_def get_primary_def get_fallback_def no_globals_def f k p ne del: lit_Cons)
qed

subsection \<open>Properties\<close>

text \<open>
  C29: a custom endpoint that is accepted is one clean HTTPS URL with the exact completion path
  and without credentials, query or fragment, and every address that the connection may be
  pinned to is the text of a globally routable address; a host that resolves to any private
  address is refused.
\<close>

theorem custom_endpoint_public:
  assumes "resolve_custom_endpoint net dns bo e = Inr (e', host, addrs)"
  shows "e' = e \<and> addrs \<noteq> [] \<and> (\<forall>t\<in>set addrs. \<exists>a. t = show_ip a \<and> n_global net a)
    \<and> (\<exists>u. urlsplit (n_unicode net) e = Some u \<and> u_scheme u = lit ''https'' \<and> u_path u = lit ''/v1/chat/completions''
         \<and> url_username u = None \<and> url_password u = None \<and> u_query u = [] \<and> u_fragment u = [])"
proof -
  from resolve_Inr [OF assms] obtain u port ips where
    u: "e' = e" "urlsplit (n_unicode net) e = Some u" "endpoint_shape_ok (n_unicode net) [lit ''https''] u port"
      "ips \<noteq> []" "\<forall>a\<in>set ips. n_global net a" "addrs = rev (remdups (rev (map show_ip ips)))" by blast
  have "set addrs = show_ip ` set ips" using u(6) by simp
  moreover from this have "addrs \<noteq> []" using u(4) by (metis image_is_empty set_empty)
  moreover have "u_scheme u = lit ''https''" "u_path u = lit ''/v1/chat/completions''" "url_username u = None"
      "url_password u = None" "u_query u = []" "u_fragment u = []"
    using u(3) by (simp_all add: endpoint_shape_ok_def chat_path_def del: lit_Cons)
  ultimately show ?thesis using u by blast
qed

theorem custom_endpoint_public_witness:
  "\<exists>addrs. resolve_custom_endpoint plain_net no_dns None (lit ''https://8.8.8.8/v1/chat/completions'')
      = Inr (lit ''https://8.8.8.8/v1/chat/completions'', lit ''8.8.8.8'', addrs)
    \<and> (\<forall>t\<in>set addrs. \<exists>a. t = show_ip a \<and> n_global plain_net a)"
proof -
  let ?e = "lit ''https://8.8.8.8/v1/chat/completions''"
  have sp: "strip ?e = ?e" by (rule strip_no_spaces) (simp add: is_space_def)
  have u: "urlsplit (n_unicode plain_net) ?e = Some \<lparr>u_scheme = lit ''https'', u_netloc = lit ''8.8.8.8'',
      u_path = lit ''/v1/chat/completions'', u_query = [], u_fragment = []\<rparr>" (is "_ = Some ?u")
    by (simp add: urlsplit_def split_scheme_def split_netloc_def partition_at_def split1_def scheme_char_def is_alnum_def
        is_digit_def is_lower_def is_upper_def ascii_lower_def netloc_brackets_ok_def netloc_nfkc_ok_def is_ascii_def)
  have h: "hostinfo ?u = (lit ''8.8.8.8'', [])" "url_username ?u = None" "url_password ?u = None"
    by (simp_all add: hostinfo_def url_username_def url_password_def rpartition_at_def partition_at_def split1_def)
  have pt: "url_port ?u = Inr None" and hn: "url_hostname (n_unicode plain_net) ?u = Some (lit ''8.8.8.8'')"
    unfolding url_port_def url_hostname_def h
    by (simp_all add: partition_at_def split1_def plain_net_def ascii_lower_def is_upper_def)
  have ip: "ip_address (lit ''8.8.8.8'') = Some (V4 [8, 8, 8, 8])"
    by (simp add: ip_address_def parse_ipv4_def parse_octet_def is_digit_def dec_value_def Let_def)
  have sh: "endpoint_shape_ok (n_unicode plain_net) [lit ''https''] ?u None"
    using hn h by (simp add: endpoint_shape_ok_def chat_path_def)
  have r: "resolve_custom_endpoint plain_net no_dns None ?e = Inr (?e, lit ''8.8.8.8'', [show_ip (V4 [8, 8, 8, 8])])"
    using sp u pt hn ip sh
    by (simp add: resolve_custom_endpoint_def endpoint_addresses_def plain_net_def del: lit_Cons strip_Nil_iff)
  then show ?thesis using custom_endpoint_public [OF r] by blast
qed

text \<open>
  When both roles resolve, each provider has a clean model name, the local one has no API
  key, every remote one has a key, and the fallback differs from the primary provider in its
  cache namespace or in its model.
\<close>

theorem providers_well_formed:
  assumes "both_providers env no_globals = (Inr (p, fo), g)"
  shows "provider_wf p \<and> (\<forall>f. fo = Some f \<longrightarrow> provider_wf f \<and> \<not> same_identity p f)"
proof -
  obtain g1 where p: "get_primary env no_globals = (Inr p, g1)" "fst (get_fallback env g1) = Inr fo"
    using assms by (auto simp: both_providers_def split: prod.splits sum.splits)
  then show ?thesis using get_primary_wf [OF p(1)] get_fallback_wf [of env p] by (metis prod.collapse)
qed

theorem providers_well_formed_witness:
  "provider_wf (openai_with (lit ''a'')) \<and> provider_wf (openai_with (lit ''b''))"
  using providers_well_formed [OF two_models_providers] by blast

text \<open>
  With different cache namespaces for the two roles, the model that a translation is
  cached under is the model of the provider that produced it, for every provider that a
  request may use.
\<close>

theorem cached_model_attribution:
  assumes "case snd pf of None \<Rightarrow> True | Some f \<Rightarrow> cache_namespace (p_spec f) \<noteq> cache_namespace (p_spec (fst pf))"
    and "p \<in> set (eligible_providers pf allow)"
  shows "model_for_provider pf (cache_namespace (p_spec p)) = p_model p
    \<and> (cache_namespace (p_spec p), model_for_provider pf (cache_namespace (p_spec p)))
           \<in> set (cache_lookup_backends pf allow)"
  using assms
  by (auto simp: eligible_providers_def model_for_provider_def cache_lookup_backends_def
      split: option.splits if_splits)


theorem cached_model_attribution_witness:
  "model_for_provider (openai_with (lit ''a''), None) (lit ''openai'') = lit ''a''"
  using cached_model_attribution [of "(openai_with (lit ''a''), None)" "openai_with (lit ''a'')" False]
  by (simp add: eligible_providers_def openai_with_def)

text \<open>
  Without that condition the attribution fails. Two roles on the same provider with
  different models are accepted, they share their cache namespace, and a translation that the
  fallback produced is attributed to the model of the primary provider.
\<close>

theorem fallback_model_misattributed:
  "\<exists>env p f g. both_providers env no_globals = (Inr (p, Some f), g)
     \<and> f \<in> set (eligible_providers (p, Some f) True)
     \<and> model_for_provider (p, Some f) (cache_namespace (p_spec f)) = p_model p
     \<and> p_model p \<noteq> p_model f"
proof (intro exI conjI)
  show "both_providers two_models no_globals
     = (Inr (openai_with (lit ''a''), Some (openai_with (lit ''b''))),
        \<lparr>pg_primary = Some (openai_with (lit ''a'')), pg_fallback = Some (Some (openai_with (lit ''b'')))\<rparr>)"
    by (rule two_models_providers)
qed (simp_all add: eligible_providers_def model_for_provider_def openai_with_def)

text \<open>
  The distinctness check of the two roles holds only for the first call. The call that
  finds a fallback with the identity of the primary provider raises, but it has already stored
  the fallback, so that every later call returns it.
\<close>

theorem fallback_check_single_shot:
  assumes "pg_primary g = Some p" "pg_fallback g = None" "e_fb_provider env \<noteq> []"
    and "provider_from_config env (e_fb_provider env) (if e_fb_model env = [] then e_model env else e_fb_model env)
           (e_fb_api_key env) (e_fb_custom_endpoint env) (e_fb_custom_api_key env) = Inr f"
    and "same_identity p f"
  shows "fst (get_fallback env g) = Inl (XValue (lit ''primary and fallback providers must be distinct''))
    \<and> fst (get_fallback env (snd (get_fallback env g))) = Inr (Some f)"
  using assms by (simp_all add: get_fallback_def get_primary_def Let_def same_identity_def del: lit_Cons)

theorem fallback_check_single_shot_witness:
  "\<exists>env g f. fst (get_fallback env g) = Inl (XValue (lit ''primary and fallback providers must be distinct''))
     \<and> fst (get_fallback env (snd (get_fallback env g))) = Inr (Some f)"
proof -
  let ?env = "two_models\<lparr>e_fb_model := lit ''a''\<rparr>"
  let ?g = "\<lparr>pg_primary = Some (openai_with (lit ''a'')), pg_fallback = None\<rparr>"
  have p: "provider_from_config ?env (lit ''openai'') (lit ''a'') (lit ''k'') [] [] = Inr (openai_with (lit ''a''))"
    using openai_from_config [of 97 ?env] by (simp add: is_space_def)
  have f: "e_fb_provider ?env = lit ''openai''" "e_fb_model ?env = lit ''a''" "e_fb_api_key ?env = lit ''k''"
    "e_fb_custom_endpoint ?env = []" "e_fb_custom_api_key ?env = []" "lit ''openai'' \<noteq> []" "lit ''a'' \<noteq> []"
    by (simp_all add: two_models_def)
  note w = fallback_check_single_shot [of ?g "openai_with (lit ''a'')" ?env "openai_with (lit ''a'')"]
  show ?thesis using w p f by (auto simp: same_identity_def simp del: lit_Cons)
qed

end
