(* ===== verification/Prompt_Facts.thy ===== *)
theory Prompt_Facts
  imports Prompting
begin

section \<open>What glossaries and contracts guarantee\<close>

text \<open>
  The glossary of a prompt is in a normal form that does not depend on the order of the stored
  entries, and the hashed contracts separate everything the provider sees.
\<close>

subsection \<open>Sorting by a key that identifies\<close>

lemma sort_key_unique:
  fixes f :: "'a \<Rightarrow> 'k::linorder"
  assumes "mset xs = mset ys" "distinct (map f xs)"
  shows "sort_key f xs = sort_key f ys"
proof -
  have st: "set xs = set ys" using assms(1) by (rule mset_eq_setD)
  have "mset (map f xs) = mset (map f ys)" using assms(1) by simp
  then have dy: "distinct (map f ys)" using assms(2) mset_eq_imp_distinct_iff by blast
  have "map f (sort_key f xs) = map f (sort_key f ys)"
  proof (rule sorted_distinct_set_unique)
    show "distinct (map f (sort_key f xs))"
      using assms(2) mset_eq_imp_distinct_iff [of "map f (sort_key f xs)" "map f xs"] by simp
    show "distinct (map f (sort_key f ys))"
      using dy mset_eq_imp_distinct_iff [of "map f (sort_key f ys)" "map f ys"] by simp
  qed (simp_all add: st)
  moreover have "inj_on f (set xs)" using assms(2) by (simp add: distinct_map)
  ultimately show ?thesis using st by (intro map_inj_on [of f]) auto
qed

lemma distinct_map_take: "distinct (map f xs) \<Longrightarrow> distinct (map f (take n xs))"
  by (simp add: take_map [symmetric])

lemma sorted_map_take: "sorted (map f xs) \<Longrightarrow> sorted (map f (take n xs))"
  by (metis sorted_wrt_take take_map)

subsection \<open>The loop of the normalization\<close>

lemma keep_first_Cons:
  assumes "keep_first cf seen (v # vs) = Inr ps"
  obtains (skip) q where "pair_of_entry v = Inr q" "cf (fst q) \<in> set seen" "keep_first cf seen vs = Inr ps"
  | (keep) q qs where "pair_of_entry v = Inr q" "cf (fst q) \<notin> set seen"
      "keep_first cf (cf (fst q) # seen) vs = Inr qs" "ps = q # qs"
proof -
  obtain q where q: "pair_of_entry v = Inr q" using assms by (auto simp: rbind_eq_Inr)
  show thesis
  proof (cases "cf (fst q) \<in> set seen")
    case True
    then show thesis using assms q skip by simp
  next
    case False
    then obtain qs where "keep_first cf (cf (fst q) # seen) vs = Inr qs" "ps = q # qs"
      using assms q by (auto simp: rbind_eq_Inr)
    then show thesis using q False keep by blast
  qed
qed

lemma keep_first_keys:
  "keep_first cf seen vs = Inr ps \<Longrightarrow>
   distinct (map (cf \<circ> fst) ps) \<and> set (map (cf \<circ> fst) ps) \<inter> set seen = {}"
proof (induction vs arbitrary: seen ps)
  case (Cons v vs)
  from Cons.prems show ?case
  proof (cases rule: keep_first_Cons)
    case skip
    then show ?thesis using Cons.IH by blast
  next
    case (keep q qs)
    then show ?thesis using Cons.IH [OF keep(3)] by auto
  qed
qed simp

lemma keep_first_from: "keep_first cf seen vs = Inr ps \<Longrightarrow> p \<in> set ps \<Longrightarrow> \<exists>v\<in>set vs. pair_of_entry v = Inr p"
proof (induction vs arbitrary: seen ps)
  case (Cons v vs)
  from Cons.prems(1) show ?case
  proof (cases rule: keep_first_Cons)
    case skip
    then show ?thesis using Cons.IH Cons.prems(2) by auto
  next
    case (keep q qs)
    then show ?thesis using Cons.IH [OF keep(3)] Cons.prems(2) by auto
  qed
qed simp

lemma keep_first_all:
  "rmap pair_of_entry vs = Inr ps \<Longrightarrow> distinct (map (cf \<circ> fst) ps) \<Longrightarrow> set (map (cf \<circ> fst) ps) \<inter> set seen = {} \<Longrightarrow>
   keep_first cf seen vs = Inr ps"
proof (induction vs arbitrary: ps seen)
  case (Cons v vs)
  then obtain q qs where q: "pair_of_entry v = Inr q" "rmap pair_of_entry vs = Inr qs" "ps = q # qs"
    by (auto simp: rbind_eq_Inr)
  have "keep_first cf (cf (fst q) # seen) vs = Inr qs" using Cons.IH [OF q(2)] Cons.prems q(3) by auto
  then show ?case using Cons.prems q by auto
qed simp

lemma pair_of_entry_Inr:
  "pair_of_entry v = Inr p \<Longrightarrow>
   \<exists>a b. v = PList [PStr a, PStr b] \<and> strip a \<noteq> [] \<and> strip b \<noteq> [] \<and> p = (strip a, strip b)"
  by (simp add: pair_of_entry_def split: pyval.splits list.splits if_splits del: strip_Nil_iff)

lemma pair_of_entry_clean:
  "pair_of_entry v = Inr p \<Longrightarrow> fst p \<noteq> [] \<and> snd p \<noteq> [] \<and> strip (fst p) = fst p \<and> strip (snd p) = snd p"
  using pair_of_entry_Inr [of v p] by (auto simp del: strip_Nil_iff)

definition clean_pair :: "term_pair \<Rightarrow> bool" where
  "clean_pair p \<longleftrightarrow> fst p \<noteq> [] \<and> snd p \<noteq> [] \<and> strip (fst p) = fst p \<and> strip (snd p) = snd p"

lemma normalize_glossary_facts:
  assumes "normalize_glossary cf n g = Inr ps"
  shows "length ps \<le> max 1 n \<and> sorted (map (cf \<circ> fst) ps) \<and> distinct (map (cf \<circ> fst) ps) \<and> list_all clean_pair ps"
proof (cases g)
  case (Some vs)
  then obtain qs where qs: "keep_first cf [] vs = Inr qs" and ps: "ps = take (max 1 n) (sort_key (cf \<circ> fst) qs)"
    using assms by (auto simp: normalize_glossary_def rbind_eq_Inr comp_def)
  have "distinct (map (cf \<circ> fst) (sort_key (cf \<circ> fst) qs))"
    using keep_first_keys [OF qs] mset_eq_imp_distinct_iff [of "map (cf \<circ> fst) (sort_key (cf \<circ> fst) qs)" "map (cf \<circ> fst) qs"]
    by simp
  then have "distinct (map (cf \<circ> fst) ps)" unfolding ps by (rule distinct_map_take)
  moreover have "sorted (map (cf \<circ> fst) ps)" unfolding ps by (rule sorted_map_take) (rule sorted_sort_key)
  moreover have "p \<in> set ps \<Longrightarrow> clean_pair p" for p
    using keep_first_from [OF qs] pair_of_entry_clean unfolding ps clean_pair_def by (metis in_set_takeD set_sort)
  ultimately show ?thesis by (simp add: list_all_iff ps)
qed (use assms in \<open>auto simp: normalize_glossary_def\<close>)

lemma mset_rmap:
  "mset vs = mset vs' \<Longrightarrow> rmap f vs = Inr ys \<Longrightarrow> \<exists>ys'. rmap f vs' = Inr ys' \<and> mset ys' = mset ys"
proof -
  assume m: "mset vs = mset vs'" and r: "rmap f vs = Inr ys"
  have ok: "rmap f xs = Inr (map (projr \<circ> f) xs)" if "\<forall>x\<in>set xs. isl (f x) = False" for xs
    using that by (induction xs) (auto simp: rbind_def split: sum.splits)
  have "\<forall>x\<in>set vs. isl (f x) = False"
    using rmap_Inr_nth [OF r] by (metis in_set_conv_nth sum.disc(2))
  then have "rmap f vs = Inr (map (projr \<circ> f) vs)" "rmap f vs' = Inr (map (projr \<circ> f) vs')"
    using ok m mset_eq_setD by blast+
  then show ?thesis using r m by (metis Inr_inject mset_map)
qed

lemma normalize_glossary_perm:
  assumes "mset vs = mset vs'" "rmap pair_of_entry vs = Inr ps" "distinct (map (cf \<circ> fst) ps)"
  shows "normalize_glossary cf n (Some vs) = normalize_glossary cf n (Some vs')"
proof -
  obtain ps' where ps': "rmap pair_of_entry vs' = Inr ps'" "mset ps' = mset ps"
    using mset_rmap [OF assms(1,2)] by blast
  then have "mset (map (cf \<circ> fst) ps') = mset (map (cf \<circ> fst) ps)" by simp
  then have "distinct (map (cf \<circ> fst) ps')" using assms(3) mset_eq_imp_distinct_iff by blast
  then have "keep_first cf [] vs = Inr ps" "keep_first cf [] vs' = Inr ps'"
    using keep_first_all assms(2,3) ps'(1) by auto
  moreover have "sort_key (cf \<circ> fst) ps = sort_key (cf \<circ> fst) ps'"
    using ps'(2) assms(3) by (intro sort_key_unique) simp_all
  ultimately show ?thesis by (simp add: normalize_glossary_def comp_def)
qed

subsection \<open>Contracts separate their inputs\<close>

lemma contract_hash_inj:
  assumes "contract_hash sha v = Inr h" "contract_hash sha v' = Inr h" "inj_on sha {dumps v, dumps v'}"
  shows "v = v'"
  using assms dumps_inj [of v v'] by (auto simp: contract_hash_def inj_on_def split: if_splits)

lemma single_contract_Inr:
  "single_cache_contract pe sl tg g = Inr c \<Longrightarrow>
   \<exists>prompt. single_prompt pe sl tg g = Inr prompt
     \<and> contract_hash (pe_sha pe) (prompt_json ''single'' prompt) = Inr (prompt_hash c)
     \<and> contract_hash (pe_sha pe) no_context_json = Inr (context_hash c)
     \<and> protocol_version c = single_protocol"
  by (auto simp: single_cache_contract_def rbind_eq_Inr)

lemma batch_contract_Inr:
  assumes "batch_cache_contract pe texts idxs sl tg g = Inr c" "protocol_version c = segment_protocol"
  shows "\<exists>prompt. batch_prompt pe sl tg g = Inr prompt
     \<and> contract_hash (pe_sha pe) (prompt_json ''batch'' prompt) = Inr (prompt_hash c)
     \<and> contract_hash (pe_sha pe) (context_json (pe_cfg pe) texts (map nat idxs)) = Inr (context_hash c)"
proof (cases "length idxs = 1 \<and> tc_context_window (pe_cfg pe) = 0")
  case True
  then have "single_cache_contract pe sl tg g = Inr c" using assms(1) by (simp add: batch_cache_contract_def)
  then have "protocol_version c = single_protocol" using single_contract_Inr by blast
  then show ?thesis using assms(2) by (simp add: single_protocol_def segment_protocol_def)
next
  case False
  then show ?thesis using assms by (auto simp: batch_cache_contract_def rbind_eq_Inr split: if_splits)
qed

lemma prompt_json_inj: "prompt_json k p = prompt_json k p' \<Longrightarrow> p = p'"
  by (simp add: prompt_json_def)

lemma context_json_inj:
  "context_json cfg ts is = context_json cfg ts' is' \<Longrightarrow>
   map (\<lambda>i. strip (ts ! i)) is = map (\<lambda>i. strip (ts' ! i)) is'
   \<and> (case build_context_block cfg ts is of None \<Rightarrow> [] | Some b \<Rightarrow> b)
     = (case build_context_block cfg ts' is' of None \<Rightarrow> [] | Some b \<Rightarrow> b)"
proof -
  assume "context_json cfg ts is = context_json cfg ts' is'"
  then have m: "map (\<lambda>i. JStr (strip (ts ! i))) is = map (\<lambda>i. JStr (strip (ts' ! i))) is'"
    and b: "(case build_context_block cfg ts is of None \<Rightarrow> [] | Some b \<Rightarrow> b)
     = (case build_context_block cfg ts' is' of None \<Rightarrow> [] | Some b \<Rightarrow> b)"
    by (simp_all add: context_json_def del: lit_Cons)
  have j: "map JStr (map (\<lambda>i. strip (ts ! i)) is) = map JStr (map (\<lambda>i. strip (ts' ! i)) is')"
    using m by (simp add: comp_def)
  have "inj JStr" by (simp add: inj_def)
  then show ?thesis using b inj_map_eq_map [THEN iffD1, OF _ j] by blast
qed

subsection \<open>Texts that can be encoded\<close>

text \<open>Code points below the surrogates: such texts always encode.\<close>

definition encodable :: "pystr \<Rightarrow> bool" where
  "encodable s \<longleftrightarrow> (\<forall>c\<in>set s. c < 55296)"

lemma encodable_simps [simp]:
  "encodable []" "encodable (c # s) \<longleftrightarrow> c < 55296 \<and> encodable s" "encodable (s @ t) \<longleftrightarrow> encodable s \<and> encodable t"
  by (auto simp: encodable_def)

lemma encodable_lit: "encodable (lit s)"
proof -
  have "of_char c < (55296 :: nat)" for c :: char by (rule less_trans [OF nat_of_char_less_256]) simp
  then show ?thesis by (auto simp: encodable_def lit_def)
qed

lemma utf8_len_encodable: "encodable s \<Longrightarrow> utf8_len s \<noteq> None"
  by (auto simp: encodable_def utf8_len_def list_ex_iff is_surrogate_def)

lemma encodable_json_str: "encodable s \<Longrightarrow> encodable (json_str s)"
proof -
  have "encodable (esc_char c)" if "c < 55296" for c
  proof -
    have hex: "hex_digit n < 55296" if "n < 32" for n using that by (simp add: hex_digit_def)
    have "c mod 16 < 32" by (rule less_trans [of _ 16]) simp_all
    then have "hex_digit (c mod 16) < 55296" by (rule hex)
    moreover have "hex_digit (c div 16) < 55296" if "c < 32" using that by (intro hex) simp
    ultimately show ?thesis using \<open>c < 55296\<close> by (simp add: esc_char_def)
  qed
  then show "encodable s \<Longrightarrow> encodable (json_str s)" by (induction s) (auto simp: json_str_def)
qed

subsection \<open>Properties\<close>

text \<open>
  The glossary of a prompt is a normal form: at most the configured number of terms, sorted
  by their folded source without two equal folded sources, every term stripped and non-empty.
  When the entries have different folded sources, the order in which they are stored changes
  neither the prompt block nor the fingerprint.
\<close>

theorem glossary_prompt_normal_form:
  assumes "rmap pair_of_entry vs = Inr ps" "distinct (map (cf \<circ> fst) ps)" "mset vs = mset vs'"
  shows "(\<exists>qs. normalize_glossary cf n (Some vs) = Inr qs \<and> length qs \<le> max 1 n \<and> sorted (map (cf \<circ> fst) qs)
      \<and> distinct (map (cf \<circ> fst) qs) \<and> list_all clean_pair qs)
    \<and> format_glossary_block cf n (Some vs) = format_glossary_block cf n (Some vs')
    \<and> glossary_fingerprint sha cf n (Some vs) = glossary_fingerprint sha cf n (Some vs')"
proof -
  have "keep_first cf [] vs = Inr ps" using keep_first_all [OF assms(1,2)] by simp
  then obtain qs where "normalize_glossary cf n (Some vs) = Inr qs" by (simp add: normalize_glossary_def)
  then show ?thesis
    using normalize_glossary_facts [of cf n "Some vs" qs] normalize_glossary_perm [OF assms(3,1,2), of n]
    by (simp add: format_glossary_block_def glossary_fingerprint_def)
qed

theorem glossary_prompt_normal_form_witness:
  "format_glossary_block ascii_lower 5 (Some [PList [PStr (lit ''B''), PStr (lit ''x'')], PList [PStr (lit ''a''), PStr (lit ''y'')]])
     = format_glossary_block ascii_lower 5 (Some [PList [PStr (lit ''a''), PStr (lit ''y'')], PList [PStr (lit ''B''), PStr (lit ''x'')]])"
proof -
  let ?vs = "[PList [PStr (lit ''B''), PStr (lit ''x'')], PList [PStr (lit ''a''), PStr (lit ''y'')]]"
  let ?vs' = "[PList [PStr (lit ''a''), PStr (lit ''y'')], PList [PStr (lit ''B''), PStr (lit ''x'')]]"
  have "rmap pair_of_entry ?vs = Inr [(lit ''B'', lit ''x''), (lit ''a'', lit ''y'')]"
    by (simp add: pair_of_entry_def strip_def lstrip_def rstrip_def is_space_def)
  moreover have "distinct (map (ascii_lower \<circ> fst) [(lit ''B'', lit ''x''), (lit ''a'', lit ''y'')])"
    by (simp add: ascii_lower_def is_upper_def)
  moreover have "mset ?vs = mset ?vs'" by simp
  ultimately show ?thesis using glossary_prompt_normal_form by blast
qed

text \<open>
  Batches share a cache contract only when the provider would see the same request: two
  groups with equal contracts in the segment protocol have the same system prompt with its
  glossary, the same stripped segments in the same order and the same context block, unless
  SHA-256 collides on the texts that are hashed for the two contracts.
\<close>

theorem batch_contract_separates:
  assumes "batch_cache_contract pe ts idxs sl tg g = Inr c" "batch_cache_contract pe ts' idxs' sl' tg' g' = Inr c"
    and "protocol_version c = segment_protocol"
    and "batch_prompt pe sl tg g = Inr prompt" "batch_prompt pe sl' tg' g' = Inr prompt'"
    and "inj_on (pe_sha pe) {dumps (prompt_json ''batch'' prompt), dumps (prompt_json ''batch'' prompt')}"
    and "inj_on (pe_sha pe) {dumps (context_json (pe_cfg pe) ts (map nat idxs)),
                              dumps (context_json (pe_cfg pe) ts' (map nat idxs'))}"
  shows "prompt = prompt'
    \<and> map (\<lambda>i. strip (ts ! nat i)) idxs = map (\<lambda>i. strip (ts' ! nat i)) idxs'
    \<and> (case build_context_block (pe_cfg pe) ts (map nat idxs) of None \<Rightarrow> [] | Some b \<Rightarrow> b)
      = (case build_context_block (pe_cfg pe) ts' (map nat idxs') of None \<Rightarrow> [] | Some b \<Rightarrow> b)"
proof -
  note c1 = batch_contract_Inr [OF assms(1,3)] and c2 = batch_contract_Inr [OF assms(2,3)]
  have h: "contract_hash (pe_sha pe) (prompt_json ''batch'' prompt) = Inr (prompt_hash c)"
      "contract_hash (pe_sha pe) (prompt_json ''batch'' prompt') = Inr (prompt_hash c)"
      "contract_hash (pe_sha pe) (context_json (pe_cfg pe) ts (map nat idxs)) = Inr (context_hash c)"
      "contract_hash (pe_sha pe) (context_json (pe_cfg pe) ts' (map nat idxs')) = Inr (context_hash c)"
    using c1 c2 assms(4,5) by auto
  have "prompt = prompt'" using contract_hash_inj [OF h(1,2) assms(6)] by (rule prompt_json_inj)
  then show ?thesis using context_json_inj [OF contract_hash_inj [OF h(3,4) assms(7)]] by (simp add: comp_def)
qed

theorem batch_contract_separates_witness:
  "\<exists>c. batch_cache_contract \<lparr>pe_cfg = default_tconfig, pe_sha = id, pe_fold = id\<rparr> [lit ''a'', lit ''b''] [0, 1]
      (lit ''English'') (lit ''Spanish'') None = Inr c
    \<and> (\<forall>ts idxs. batch_cache_contract \<lparr>pe_cfg = default_tconfig, pe_sha = id, pe_fold = id\<rparr> ts idxs
          (lit ''English'') (lit ''Spanish'') None = Inr c \<longrightarrow>
        map (\<lambda>i. strip (ts ! nat i)) idxs = [lit ''a'', lit ''b''])"
proof -
  let ?pe = "\<lparr>pe_cfg = default_tconfig, pe_sha = id, pe_fold = id\<rparr>"
  let ?prompt = "batch_system_prompt (lit ''English'') (lit ''Spanish'')"
  have p: "batch_prompt ?pe (lit ''English'') (lit ''Spanish'') None = Inr ?prompt"
    by (simp add: batch_prompt_def with_glossary_def format_glossary_block_def normalize_glossary_def)
  have e1: "utf8_len (dumps (prompt_json ''batch'' ?prompt)) \<noteq> None"
    by (intro utf8_len_encodable)
      (simp add: prompt_json_def contract_version_def batch_system_prompt_def encodable_json_str encodable_lit del: lit_Cons)
  have st: "strip (lit ''a'') = lit ''a''" "strip (lit ''b'') = lit ''b''"
    by (simp_all add: strip_def lstrip_def rstrip_def is_space_def)
  have e2: "utf8_len (dumps (context_json default_tconfig [lit ''a'', lit ''b''] [0, 1])) \<noteq> None"
    by (intro utf8_len_encodable)
      (simp add: context_json_def contract_version_def build_context_block_def default_tconfig_def encodable_json_str
        encodable_lit st show_int_def show_nat.simps del: lit_Cons)
  let ?c = "\<lparr>prompt_hash = dumps (prompt_json ''batch'' ?prompt), protocol_version = segment_protocol,
      context_hash = dumps (context_json default_tconfig [lit ''a'', lit ''b''] [0, 1])\<rparr>"
  have c: "batch_cache_contract ?pe [lit ''a'', lit ''b''] [0, 1] (lit ''English'') (lit ''Spanish'') None = Inr ?c"
    using p e1 e2 by (simp add: batch_cache_contract_def contract_hash_def del: lit_Cons)
  have "map (\<lambda>i. strip (ts ! nat i)) idxs = [lit ''a'', lit ''b'']"
    if "batch_cache_contract ?pe ts idxs (lit ''English'') (lit ''Spanish'') None = Inr ?c" for ts idxs
    using batch_contract_separates [OF that c _ p p] st by simp
  then show ?thesis using c by blast
qed

end
