(* ===== verification/Call_Facts.thy ===== *)
theory Call_Facts
  imports Provider_Calls
begin

section \<open>Accounting of provider calls\<close>

text \<open>
  Every provider call is reserved in the budget, counted once as an attempt and once as a
  success or a failure, and gives its upstream slot back; the number of calls is bounded by the
  retries and the eligible providers.
\<close>

subsection \<open>Counters\<close>

lemma note_call_simps [simp]:
  "ks_metrics (note_call ''attempt'' st) = (ks_metrics st)\<lparr>cm_attempts := cm_attempts (ks_metrics st) + 1\<rparr>"
  "ks_metrics (note_call ''success'' st) = (ks_metrics st)\<lparr>cm_successes := cm_successes (ks_metrics st) + 1\<rparr>"
  "ks_metrics (note_call ''rate_limited'' st) = (ks_metrics st)\<lparr>cm_rate_limited := cm_rate_limited (ks_metrics st) + 1\<rparr>"
  "ks_metrics (note_call ''failure'' st) = (ks_metrics st)\<lparr>cm_failures := cm_failures (ks_metrics st) + 1\<rparr>"
  by (simp_all add: note_call_def record_provider_call_def)

lemma note_call_frame [simp]:
  "ks_budget (note_call x st) = ks_budget st" "ks_inflight (note_call x st) = ks_inflight st"
  "ks_sent (note_call x st) = ks_sent st"
  by (simp_all add: note_call_def split: sum.splits)

lemma log_sent_frame [simp]:
  "ks_budget (log_sent p b qs st) = ks_budget st" "ks_inflight (log_sent p b qs st) = ks_inflight st"
  "ks_metrics (log_sent p b qs st) = ks_metrics st"
  "ks_sent (log_sent p b qs st) = ks_sent st @ map (\<lambda>q. (p, q, attempts b)) qs"
  by (simp_all add: log_sent_def)

text \<open>The exceptions that can only occur before an attempt is recorded.\<close>

fun before_attempt :: "call_exn \<Rightarrow> bool" where
  "before_attempt (XConfig t) = True"
| "before_attempt (XDns t) = True"
| "before_attempt x = False"

lemma lift_budget_Inl: "lift_budget r = Inl x \<Longrightarrow> \<not> before_attempt x"
proof -
  have "\<not> before_attempt (budget_exn e)" for e by (cases e) auto
  then show "lift_budget r = Inl x \<Longrightarrow> \<not> before_attempt x" by (auto simp: lift_budget_def split: sum.splits)
qed

lemma transport_error_late: "\<not> before_attempt (transport_error e)"
  by (cases e) auto

lemma response_check_late: "response_check r b k = Inl x \<Longrightarrow> \<not> before_attempt x"
  by (auto simp: response_check_def dest: lift_budget_Inl split: if_splits)

lemma read_body_late: "read_body cap r b k pl cs = Inl x \<Longrightarrow> \<not> before_attempt x"
  by (induction cap r b k pl cs rule: read_body.induct)
    (auto simp: rbind_eq_Inl transport_error_late dest: response_check_late split: if_splits)

lemma read_json_body_late: "read_json_body cap loads r b = Inl x \<Longrightarrow> \<not> before_attempt x"
  unfolding read_json_body_def
  by (auto simp: rbind_eq_Inl dest: lift_budget_Inl response_check_late read_body_late split: if_splits option.splits)

lemma text_blocks_late: "text_blocks bs = Inl x \<Longrightarrow> \<not> before_attempt x"
  by (induction bs rule: text_blocks.induct) (auto simp: rbind_eq_Inl split: if_splits option.splits pyval.splits)

lemma dict_get_late: "dict_get v k d = Inl x \<Longrightarrow> \<not> before_attempt x"
  by (auto simp: dict_get_def split: pyval.splits)

lemma first_item_late: "first_item v = Inl x \<Longrightarrow> \<not> before_attempt x"
  by (auto simp: first_item_def split: pyval.splits list.splits)

lemma provider_text_late: "provider_text cap proto u body = Inl x \<Longrightarrow> \<not> before_attempt x"
proof -
  have t: "\<not> before_attempt (text_exn e)" for e by (cases e) auto
  have o: "openai_content body = Inl x \<Longrightarrow> \<not> before_attempt x" for body x
    by (auto simp: openai_content_def rbind_eq_Inl dest: dict_get_late first_item_late)
  have c: "(case c of PList bs \<Rightarrow> rbind (text_blocks bs) (\<lambda>t. Inr (PStr t)) | PDict _ \<Rightarrow> Inr (PStr [])
      | PStr _ \<Rightarrow> Inr (PStr []) | _ \<Rightarrow> Inl XType) = Inl x \<Longrightarrow> \<not> before_attempt x" for c x
    by (cases c) (auto simp: rbind_eq_Inl dest: text_blocks_late)
  have a: "anthropic_content body = Inl x \<Longrightarrow> \<not> before_attempt x" for body x
    unfolding anthropic_content_def rbind_eq_Inl using c dict_get_late by blast
  have v: "(case validate_provider_text cap v u of Inl e \<Rightarrow> Inl (text_exn e) | Inr w \<Rightarrow> Inr w) = Inl x
      \<Longrightarrow> \<not> before_attempt x" for v x
    using t by (cases "validate_provider_text cap v u") auto
  show "provider_text cap proto u body = Inl x \<Longrightarrow> \<not> before_attempt x"
    unfolding provider_text_def rbind_eq_Inl using v o a by (cases proto) auto
qed

lemma post_late: "deadline_provider_post io q b = (Inl x, sent) \<Longrightarrow> \<not> before_attempt x"
  by (auto simp: deadline_provider_post_def rbind_eq_Inl dest: lift_budget_Inl
      split: sum.splits transport_exn.splits)

lemma post_sent: "snd (deadline_provider_post io q b) \<in> {[], [q]}"
  by (simp add: deadline_provider_post_def split: sum.splits)

lemma read_capped_json_late: "read_capped_json cap loads r b = Inl x \<Longrightarrow> \<not> before_attempt x"
  by (cases "read_json_body cap loads r b")
    (auto simp: read_capped_json_def dest: read_json_body_late split: if_splits)

lemma exchange_text_late: "exchange_text env p u q io b = (Inl x, sent) \<Longrightarrow> \<not> before_attempt x"
  using post_late read_capped_json_late provider_text_late
  by (auto simp: exchange_text_def rbind_eq_Inl split: prod.splits)

lemma exchange_sent: "exchange_text env p u q io b = (r, sent) \<Longrightarrow> sent \<in> {[], [q]}"
  using post_sent [of io q b] by (auto simp: exchange_text_def split: prod.splits)

subsection \<open>One attempt\<close>

lemma reserve_grants:
  "reserve_attempt now t k b = (Inr (), b') \<Longrightarrow> attempts b' = attempts b + 1"
  "reserve_attempt now t k b = (Inl e, b') \<Longrightarrow> b' = b"
  by (auto simp: reserve_attempt_def reserve_locked_def split: pyval.splits if_splits option.splits)

text \<open>
  \<open>spent st st' a s f\<close>: from \<open>st\<close> to \<open>st'\<close> there were \<open>a\<close> attempts, \<open>s\<close> successes and \<open>f\<close>
  failures, each attempt was reserved, and no slot is left behind.
\<close>

definition spent :: "call_state \<Rightarrow> call_state \<Rightarrow> nat \<Rightarrow> nat \<Rightarrow> nat \<Rightarrow> bool" where
  "spent st st' a s f \<longleftrightarrow>
     cm_attempts (ks_metrics st') = cm_attempts (ks_metrics st) + a
     \<and> cm_successes (ks_metrics st') = cm_successes (ks_metrics st) + s
     \<and> cm_failures (ks_metrics st') = cm_failures (ks_metrics st) + f
     \<and> cm_rate_limited (ks_metrics st) \<le> cm_rate_limited (ks_metrics st')
     \<and> cm_rate_limited (ks_metrics st') \<le> cm_rate_limited (ks_metrics st) + f
     \<and> attempts (ks_budget st) + int a \<le> attempts (ks_budget st')
     \<and> ks_inflight st' = ks_inflight st"

lemma spent_refl: "spent st st 0 0 0"
  by (simp add: spent_def)

lemma spent_trans: "spent st st1 a s f \<Longrightarrow> spent st1 st2 a' s' f' \<Longrightarrow> spent st st2 (a + a') (s + s') (f + f')"
  by (auto simp: spent_def)

text \<open>
  \<open>sent_within P st st' calls\<close>: from \<open>st\<close> to \<open>st'\<close> exactly the given calls were sent, all as \<open>P\<close>
  says, at most one for each recorded attempt, and each after a reservation of its own.
\<close>

definition sent_within :: "(provider \<Rightarrow> http_request \<Rightarrow> bool) \<Rightarrow> call_state \<Rightarrow> call_state \<Rightarrow> sent_call list \<Rightarrow> bool" where
  "sent_within P st st' calls \<longleftrightarrow>
     ks_sent st' = ks_sent st @ calls
     \<and> cm_attempts (ks_metrics st) + length calls \<le> cm_attempts (ks_metrics st')
     \<and> sorted_wrt (<) (attempts (ks_budget st) # map (snd \<circ> snd) calls)
     \<and> (\<forall>(p, q, n)\<in>set calls. P p q \<and> n \<le> attempts (ks_budget st'))
     \<and> attempts (ks_budget st) \<le> attempts (ks_budget st')"

lemma sent_none:
  "ks_sent st' = ks_sent st \<Longrightarrow> cm_attempts (ks_metrics st) \<le> cm_attempts (ks_metrics st') \<Longrightarrow>
   attempts (ks_budget st) \<le> attempts (ks_budget st') \<Longrightarrow> sent_within P st st' []"
  by (simp add: sent_within_def)

lemma sent_trans:
  assumes "sent_within P st st1 xs" "sent_within P st1 st2 ys"
  shows "sent_within P st st2 (xs @ ys)"
  using assms by (fastforce simp: sent_within_def sorted_wrt_append)

lemma sent_mono: "sent_within P st st' xs \<Longrightarrow> (\<And>p q. P p q \<Longrightarrow> Q p q) \<Longrightarrow> sent_within Q st st' xs"
  by (auto simp: sent_within_def)

text \<open>The request of a provider for the given texts.\<close>

definition call_for :: "call_env \<Rightarrow> pystr \<Rightarrow> pystr \<Rightarrow> int \<Rightarrow> provider \<Rightarrow> http_request \<Rightarrow> bool" where
  "call_for env u s mt p q \<longleftrightarrow> (\<exists>t. 0 < t \<and> t \<le> ce_timeout env \<and> q = provider_request p u s t mt)"

definition call_to :: "call_env \<Rightarrow> pystr \<Rightarrow> pystr \<Rightarrow> int \<Rightarrow> provider \<Rightarrow> provider \<Rightarrow> http_request \<Rightarrow> bool" where
  "call_to env u s mt p0 p q \<longleftrightarrow> p = p0 \<and> call_for env u s mt p q"

text \<open>The three ways through the body of an attempt.\<close>

lemma attempt_in_slot_cases:
  assumes "attempt_in_slot env p u s mt io st = (res, recorded, st1)"
  obtains (unreserved) e where "res = Inl e" "\<not> recorded" "st1 = st"
  | (unsent) e b where "res = Inl e" "\<not> recorded" "st1 = st\<lparr>ks_budget := b\<rparr>" "attempts b = attempts (ks_budget st) + 1"
  | (sent) b q sent where "recorded" "exchange_text env p u q io b = (res, sent)" "call_for env u s mt p q"
    "attempts b = attempts (ks_budget st) + 1"
    "st1 = (let st2 = log_sent p b sent (note_call ''attempt'' (st\<lparr>ks_budget := b\<rparr>)) in if isl res then st2 else note_call ''success'' st2)"
proof -
  obtain rv b where rv: "reserve_attempt (a_reserve_t io) (PStr (u @ s)) (PInt mt) (ks_budget st) = (rv, b)" by fastforce
  show thesis
  proof (cases rv)
    case (Inl e)
    then have "b = ks_budget st" using reserve_grants(2) rv by simp
    then show thesis using assms rv Inl unreserved by (auto simp: attempt_in_slot_def)
  next
    case (Inr v)
    then have b: "attempts b = attempts (ks_budget st) + 1" using reserve_grants(1) rv by simp
    define t where "t = min (ce_timeout env) (remaining_seconds (a_call_t io) b)"
    let ?chk = "if provider_id (p_spec p) = custom_provider_id
        then rbind (resolve_custom_endpoint (ce_net env) (a_dns io) (Some b) (endpoint (p_spec p))) (\<lambda>_. Inr ()) else Inr ()"
    show thesis
    proof (cases ?chk)
      case (Inl e)
      then have "res = Inl e" "\<not> recorded" "st1 = st\<lparr>ks_budget := b\<rparr>"
        using assms rv Inr by (simp_all add: attempt_in_slot_def Let_def del: if_splits)
      then show thesis using unsent b by blast
    next
      case (Inr w)
      obtain r sent where ex: "exchange_text env p u (provider_request p u s t mt) io b = (r, sent)" by fastforce
      have eq: "attempt_in_slot env p u s mt io st =
          (if t \<le> 0 then (Inl (XBudget (lit ''deadline'')), False, st\<lparr>ks_budget := b\<rparr>)
           else case r of
                  Inl e \<Rightarrow> (Inl e, True, log_sent p b sent (note_call ''attempt'' (st\<lparr>ks_budget := b\<rparr>)))
                | Inr t \<Rightarrow> (Inr t, True, note_call ''success'' (log_sent p b sent (note_call ''attempt'' (st\<lparr>ks_budget := b\<rparr>)))))"
        using rv \<open>rv = Inr v\<close> ex Inr
        by (simp add: attempt_in_slot_def Let_def t_def [symmetric] del: if_splits split: sum.split)
      show thesis
      proof (cases "t \<le> 0")
        case True
        then show thesis using unsent assms eq b by auto
      next
        case False
        have "call_for env u s mt p (provider_request p u s t mt)"
          unfolding call_for_def using False by (intro exI [of _ t]) (auto simp: t_def)
        then show thesis using sent [OF _ _ _ b] assms eq ex False by (cases r) auto
      qed
    qed
  qed
qed

lemma attempt_in_slot_spent:
  assumes "attempt_in_slot env p u s mt io st = (res, recorded, st1)"
  shows "spent st st1 (if recorded then 1 else 0) (if isl res then 0 else 1) 0"
    "\<not> recorded \<Longrightarrow> isl res" "recorded \<Longrightarrow> res = Inl x \<Longrightarrow> \<not> before_attempt x"
  using assms exchange_text_late by (cases rule: attempt_in_slot_cases; fastforce simp: spent_def Let_def)+

lemma attempt_in_slot_sent:
  assumes "attempt_in_slot env p u s mt io st = (res, recorded, st1)"
  shows "\<exists>calls. sent_within (call_to env u s mt p) st st1 calls \<and> length calls \<le> 1"
  using assms
proof (cases rule: attempt_in_slot_cases)
  case (sent b q qs)
  then have "qs \<in> {[], [q]}" using exchange_sent by blast
  then show ?thesis using sent
    by (intro exI [of _ "map (\<lambda>q. (p, q, attempts b)) qs"]) (auto simp: sent_within_def call_to_def Let_def)
qed (auto intro!: exI [of _ "[]"] sent_none)

lemma attempt_once_spent:
  assumes "attempt_once env p u s mt io st = (res, recorded, st1)"
  shows "spent st st1 (if recorded then 1 else 0) (if isl res then 0 else 1) 0"
    "\<not> recorded \<Longrightarrow> isl res" "recorded \<Longrightarrow> res = Inl x \<Longrightarrow> \<not> before_attempt x"
proof -
  consider (no_slot) e where "res = Inl e" "\<not> recorded" "st1 = st"
    | (slot) st2 where "attempt_in_slot env p u s mt io (st\<lparr>ks_inflight := ks_inflight st + 1\<rparr>) = (res, recorded, st2)"
      "st1 = st2\<lparr>ks_inflight := ks_inflight st2 - 1\<rparr>"
    using assms unfolding attempt_once_def by (auto split: sum.splits prod.splits)
  then have "spent st st1 (if recorded then 1 else 0) (if isl res then 0 else 1) 0
      \<and> (\<not> recorded \<longrightarrow> isl res) \<and> (recorded \<longrightarrow> res = Inl x \<longrightarrow> \<not> before_attempt x)"
  proof cases
    case no_slot
    then show ?thesis by (simp add: spent_refl)
  next
    case slot
    then show ?thesis using attempt_in_slot_spent [OF slot(1)] by (auto simp: spent_def)
  qed
  then show "spent st st1 (if recorded then 1 else 0) (if isl res then 0 else 1) 0"
    "\<not> recorded \<Longrightarrow> isl res" "recorded \<Longrightarrow> res = Inl x \<Longrightarrow> \<not> before_attempt x" by blast+
qed

lemma attempt_once_sent:
  assumes "attempt_once env p u s mt io st = (res, recorded, st1)"
  shows "\<exists>calls. sent_within (call_to env u s mt p) st st1 calls \<and> length calls \<le> 1"
proof -
  consider "st1 = st"
    | st2 where "attempt_in_slot env p u s mt io (st\<lparr>ks_inflight := ks_inflight st + 1\<rparr>) = (res, recorded, st2)"
      "st1 = st2\<lparr>ks_inflight := ks_inflight st2 - 1\<rparr>"
    using assms unfolding attempt_once_def by (auto split: sum.splits prod.splits)
  then show ?thesis
  proof cases
    case 1
    then show ?thesis by (intro exI [of _ "[]"]) (simp add: sent_none)
  next
    case 2
    then show ?thesis using attempt_in_slot_sent [OF 2(1)] by (simp add: sent_within_def)
  qed
qed

lemma note_failure_spent:
  "\<not> recorded \<or> \<not> before_attempt x \<Longrightarrow> spent st (note_failure x recorded st) 0 0 (if recorded then 1 else 0)"
  by (cases "(x, recorded, st)" rule: note_failure.cases) (auto simp: spent_def)

lemma failed_attempt_spent:
  assumes "attempt_once env p u s mt io st = (Inl x, recorded, st1)"
  shows "spent st (note_failure x recorded st1) (if recorded then 1 else 0) 0 (if recorded then 1 else 0)"
proof -
  have "\<not> recorded \<or> \<not> before_attempt x" using attempt_once_spent(3) [OF assms] by blast
  from spent_trans [OF attempt_once_spent(1) [OF assms] note_failure_spent [OF this]] show ?thesis by simp
qed

lemma note_failure_sent: "sent_within P st (note_failure x recorded st) []"
  by (cases "(x, recorded, st)" rule: note_failure.cases) (auto intro!: sent_none)

subsection \<open>The loops\<close>

lemma call_loop_spent:
  assumes "call_loop env p u s mt ios m left last_error st = (res, st')"
  shows "\<exists>a f. a = (if isl res then 0 else 1) + f \<and> a \<le> left \<and> spent st st' a (if isl res then 0 else 1) f"
  using assms
proof (induction left arbitrary: last_error st)
  case 0
  then show ?case using spent_refl by auto
next
  case (Suc left)
  let ?io = "ios (m - Suc left)"
  obtain r recorded st1 where at: "attempt_once env p u s mt ?io st = (r, recorded, st1)" by (metis prod_cases3)
  show ?case
  proof (cases r)
    case (Inr t)
    then have "res = Inr t" "st' = st1" "recorded"
      using Suc.prems at attempt_once_spent(2) [OF at] by (auto simp: Let_def)
    then show ?thesis using attempt_once_spent(1) [OF at] Inr by (intro exI [of _ 1] exI [of _ 0]) auto
  next
    case (Inl x)
    define st2 where "st2 = note_failure x recorded st1"
    define k where "k = (if recorded then 1 else 0 :: nat)"
    have sp: "spent st st2 k 0 k" "k \<le> 1" using failed_attempt_spent at Inl unfolding st2_def k_def by auto
    have stop: ?thesis if "isl res" "st' = st2"
      using sp that by (intro exI [of _ k] exI [of _ k]) auto
    have again: ?thesis if "call_loop env p u s mt ios m left le st2 = (res, st')" for le
    proof -
      from Suc.IH [OF that] obtain a f where "a = (if isl res then 0 else 1) + f" "a \<le> left"
        "spent st2 st' a (if isl res then 0 else 1) f" by blast
      then show ?thesis using spent_trans [OF sp(1)] sp(2)
        by (intro exI [of _ "k + a"] exI [of _ "k + f"]) fastforce
    qed
    show ?thesis
      using Suc.prems at Inl stop again unfolding st2_def [symmetric]
      by (auto simp: Let_def st2_def [symmetric] split: handled.splits if_splits sum.splits call_exn.splits)
  qed
qed

lemma complete_loop_spent:
  assumes "complete_loop env u s m mt ios ps last_error st = (res, st')"
  shows "\<exists>a f. a = (if isl res then 0 else 1) + f \<and> a \<le> m * length ps \<and> spent st st' a (if isl res then 0 else 1) f"
  using assms
proof (induction ps arbitrary: last_error st)
  case Nil
  then show ?case using spent_refl by auto
next
  case (Cons p ps)
  obtain r st1 where cp: "call_provider env p u s m mt (ios p) st = (r, st1)" by fastforce
  from call_loop_spent [OF cp [unfolded call_provider_def]]
  obtain a f where a: "a = (if isl r then 0 else 1) + f" "a \<le> m" "spent st st1 a (if isl r then 0 else 1) f" by blast
  have stop: ?case if "isl res = isl r" "st' = st1"
    using a that by (intro exI [of _ a] exI [of _ f]) auto
  have again: ?case if "isl r" "complete_loop env u s m mt ios ps le st1 = (res, st')" for le
  proof -
    from Cons.IH [OF that(2)] obtain a' f' where "a' = (if isl res then 0 else 1) + f'" "a' \<le> m * length ps"
      "spent st1 st' a' (if isl res then 0 else 1) f'" by blast
    then show ?thesis using spent_trans [OF a(3)] a(1,2) that(1)
      by (intro exI [of _ "a + a'"] exI [of _ "f + f'"]) fastforce
  qed
  show ?case
    using Cons.prems cp stop again
    by (auto split: sum.splits call_failure.splits if_splits)
qed

text \<open>The calls of one provider, and those of a completion: at most \<open>m\<close> to each eligible provider.\<close>

lemma call_loop_sent:
  assumes "call_loop env p u s mt ios m left last_error st = (res, st')"
  shows "\<exists>calls. sent_within (call_to env u s mt p) st st' calls \<and> length calls \<le> left"
  using assms
proof (induction left arbitrary: last_error st)
  case 0
  then show ?case by (intro exI [of _ "[]"]) (simp add: sent_none)
next
  case (Suc left)
  let ?P = "call_to env u s mt p"
  obtain r recorded st1 where at: "attempt_once env p u s mt (ios (m - Suc left)) st = (r, recorded, st1)" by (metis prod_cases3)
  obtain c1 where c1: "sent_within ?P st st1 c1" "length c1 \<le> 1" using attempt_once_sent [OF at] by blast
  show ?case
  proof (cases r)
    case (Inr t)
    then have "st' = st1" using Suc.prems at by (simp add: Let_def)
    then show ?thesis using c1 by (intro exI [of _ c1]) simp
  next
    case (Inl x)
    define st2 where "st2 = note_failure x recorded st1"
    have sp: "sent_within ?P st st2 c1" using sent_trans [OF c1(1) note_failure_sent [of ?P st1 x recorded]] st2_def by simp
    have stop: ?thesis if "st' = st2" using sp that c1(2) by (intro exI [of _ c1]) simp
    have again: ?thesis if "call_loop env p u s mt ios m left le st2 = (res, st')" for le
    proof -
      from Suc.IH [OF that] obtain c2 where "sent_within ?P st2 st' c2" "length c2 \<le> left" by blast
      then show ?thesis using sent_trans [OF sp] c1(2) by (intro exI [of _ "c1 @ c2"]) simp
    qed
    show ?thesis
      using Suc.prems at Inl stop again unfolding st2_def [symmetric]
      by (auto simp: Let_def st2_def [symmetric] split: handled.splits if_splits sum.splits call_exn.splits)
  qed
qed

definition calls_of :: "provider \<Rightarrow> sent_call list \<Rightarrow> sent_call list" where
  "calls_of p calls = filter (\<lambda>c. fst c = p) calls"

lemma calls_of_append [simp]: "calls_of p (xs @ ys) = calls_of p xs @ calls_of p ys"
  by (simp add: calls_of_def)

lemma complete_loop_sent:
  assumes "complete_loop env u s m mt ios ps last_error st = (res, st')"
  shows "\<exists>calls. sent_within (call_for env u s mt) st st' calls
    \<and> (\<forall>p. length (calls_of p calls) \<le> m * count_list ps p)"
  using assms
proof (induction ps arbitrary: last_error st)
  case Nil
  then show ?case by (intro exI [of _ "[]"]) (simp add: sent_none calls_of_def)
next
  case (Cons p ps)
  let ?P = "call_for env u s mt"
  obtain r st1 where cp: "call_provider env p u s m mt (ios p) st = (r, st1)" by fastforce
  obtain c1 where c: "sent_within (call_to env u s mt p) st st1 c1" "length c1 \<le> m"
    using call_loop_sent [OF cp [unfolded call_provider_def]] by blast
  have own: "calls_of q c1 = (if q = p then c1 else [])" for q
    using c(1) by (auto simp: sent_within_def call_to_def calls_of_def filter_empty_conv filter_id_conv)
  have sp: "sent_within ?P st st1 c1" using sent_mono [OF c(1)] by (auto simp: call_to_def)
  have stop: ?case if "st' = st1"
    using sp that own c(2) by (intro exI [of _ c1]) auto
  have again: ?case if "complete_loop env u s m mt ios ps le st1 = (res, st')" for le
  proof -
    from Cons.IH [OF that] obtain c2 where "sent_within ?P st1 st' c2" "\<forall>p. length (calls_of p c2) \<le> m * count_list ps p"
      by blast
    then show ?thesis using sent_trans [OF sp] own c(2)
      by (intro exI [of _ "c1 @ c2"]) (auto intro: add_mono trans_le_add2)
  qed
  from Cons.prems cp have "st' = st1 \<or> (\<exists>le. complete_loop env u s m mt ios ps le st1 = (res, st'))"
    by (auto split: sum.splits call_failure.splits if_splits)
  then show ?case using stop again by blast
qed

subsection \<open>Accepted texts\<close>

definition accepted_text :: "nat \<Rightarrow> pystr \<Rightarrow> bool" where
  "accepted_text cap t \<longleftrightarrow> t \<noteq> [] \<and> strip t = t \<and> (\<exists>n\<le>cap. utf8_len t = Some n)"

lemma validate_accepts: "validate_provider_text cap v u = Inr t \<Longrightarrow> accepted_text cap t"
  by (auto simp: validate_provider_text_def accepted_text_def rbind_eq_Inr Let_def not_less simp del: strip_Nil_iff
      split: pyval.splits if_splits option.splits)

lemma exchange_accepts:
  assumes "exchange_text env p u q io b = (Inr t, sent)"
  shows "accepted_text (ce_cap env) t"
proof -
  from assms obtain v where "(case validate_provider_text (ce_cap env) v u of Inl e \<Rightarrow> Inl (text_exn e) | Inr w \<Rightarrow> Inr w) = Inr t"
    by (auto simp: exchange_text_def provider_text_def rbind_eq_Inr split: prod.splits)
  then show ?thesis using validate_accepts by (cases "validate_provider_text (ce_cap env) v u") auto
qed

lemma attempt_in_slot_accepts: "attempt_in_slot env p u s mt io st = (Inr t, rec, st1) \<Longrightarrow> accepted_text (ce_cap env) t"
  by (erule attempt_in_slot_cases) (auto dest: exchange_accepts)

lemma attempt_once_accepts: "attempt_once env p u s mt io st = (Inr t, rec, st1) \<Longrightarrow> accepted_text (ce_cap env) t"
  by (auto simp: attempt_once_def split: sum.splits prod.splits dest: attempt_in_slot_accepts)

lemma call_loop_accepts:
  "call_loop env p u s mt ios m left le st = (Inr t, st') \<Longrightarrow> accepted_text (ce_cap env) t"
proof (induction left arbitrary: le st)
  case (Suc left)
  obtain r recorded st1 where at: "attempt_once env p u s mt (ios (m - Suc left)) st = (r, recorded, st1)" by (metis prod_cases3)
  show ?case
  proof (cases r)
    case (Inr w)
    then show ?thesis using Suc.prems at attempt_once_accepts by (auto simp: Let_def)
  next
    case (Inl x)
    then show ?thesis
      using Suc.prems at Suc.IH by (auto simp: Let_def split: handled.splits if_splits sum.splits call_exn.splits)
  qed
qed simp

lemma complete_loop_accepts:
  "complete_loop env u s m mt ios ps le st = (Inr (t, ns), st') \<Longrightarrow>
   accepted_text (ce_cap env) t \<and> (\<exists>p\<in>set ps. ns = cache_namespace (p_spec p))"
proof (induction ps arbitrary: le st)
  case (Cons p ps)
  obtain r st1 where cp: "call_provider env p u s m mt (ios p) st = (r, st1)" by fastforce
  show ?case
  proof (cases r)
    case (Inr w)
    then show ?thesis using Cons.prems cp call_loop_accepts by (auto simp: call_provider_def)
  next
    case (Inl x)
    then show ?thesis using Cons.prems cp Cons.IH by (auto split: call_failure.splits if_splits)
  qed
qed simp

lemma retry_after_bounds: "retry_after_seconds h = Some n \<Longrightarrow> 1 \<le> n \<and> n \<le> 30"
  by (auto simp: retry_after_seconds_def Let_def split: option.splits if_splits)

subsection \<open>A concrete exchange\<close>

text \<open>A local provider whose first answer has a given status and the body \<open>hi\<close>.\<close>

definition demo_env :: call_env where
  "demo_env = \<lparr>ce_net = \<lparr>n_unicode = \<lparr>uo_lower = id, uo_nfkc = id\<rparr>, n_global = (\<lambda>_. True), n_sha = id\<rparr>, ce_cap = 100,
     ce_loads = (\<lambda>_. Some (PDict [(lit ''choices'', PList [PDict [(lit ''message'', PDict [(lit ''content'', PStr (lit ''hi''))])]])])),
     ce_timeout = 60\<rparr>"

definition demo_provider :: "locality \<Rightarrow> provider" where
  "demo_provider l = \<lparr>p_spec = \<lparr>provider_id = [], endpoint = [], protocol = OpenAI, locality = l, cache_namespace = lit ''local''\<rparr>,
     p_model = lit ''m'', p_api_key = []\<rparr>"

definition demo_io :: "nat \<Rightarrow> attempt_io" where
  "demo_io status = \<lparr>a_slot_t1 = 0, a_slot_t2 = 0, a_slot_t3 = 0, a_slot = True, a_reserve_t = 0,
     a_dns = (\<lambda>_ _. \<lparr>d_slot = False, d_completed = False, d_answer = None, d_t1 = 0, d_t2 = 0, d_t3 = 0, d_t4 = 0\<rparr>),
     a_call_t = 0, a_post_t1 = 0, a_post_t2 = 0,
     a_post = (\<lambda>_. Inr \<lparr>r_status = status, r_content_length = None, r_retry_after = Some (lit ''7''), r_chunks = [],
       r_checks = (\<lambda>_. (False, 0)), r_fired = False\<rparr>),
     a_sleep_t1 = 0, a_sleep_t2 = 0, a_sleep_t3 = 0\<rparr>"

definition demo_state :: "nat \<Rightarrow> call_state" where
  "demo_state n = \<lparr>ks_budget = \<lparr>max_attempts = 9, max_input_bytes = 100, max_output_tokens = 100, deadline = 60,
       attempts = int n, input_bytes = int n, output_tokens = int n, cancel_reason = None\<rparr>,
     ks_metrics = \<lparr>cm_attempts = n, cm_successes = 0, cm_rate_limited = 0, cm_failures = 0\<rparr>, ks_inflight = 0, ks_sent = []\<rparr>"

text \<open>The request that the demonstration sends first.\<close>

definition demo_sent :: "locality \<Rightarrow> sent_call" where
  "demo_sent l = (demo_provider l, openai_request (demo_provider l) (lit ''x'') [] 60 1, 1)"

lemmas demo_simps = log_sent_def demo_sent_def provider_request_def
  attempt_once_def attempt_in_slot_def acquire_upstream_slot_def lift_budget_def ensure_active_def
  remaining_seconds_def reserve_attempt_def reserve_locked_def utf8_len_def utf8_size_def is_surrogate_def
  exchange_text_def deadline_provider_post_def read_capped_json_def read_json_body_def response_check_def
  declared_size_def demo_env_def demo_provider_def demo_io_def demo_state_def custom_provider_id_def Let_def

lemma demo_rate_limited:
  "attempt_once demo_env (demo_provider Local) (lit ''x'') [] 1 (demo_io 429) (demo_state 0)
     = (Inl (XRequest 429 False (Some (lit ''7''))), True, (demo_state 1)\<lparr>ks_sent := [demo_sent Local]\<rparr>)"
  by (simp add: demo_simps note_call_def record_provider_call_def)

lemma demo_success:
  "attempt_once demo_env (demo_provider l) (lit ''x'') [] 1 (demo_io 200) (demo_state 0)
     = (Inr (lit ''hi''), True, note_call ''success'' ((demo_state 1)\<lparr>ks_sent := [demo_sent l]\<rparr>))"
  by (simp add: demo_simps note_call_def record_provider_call_def provider_text_def openai_content_def dict_get_def
      first_item_def validate_provider_text_def think_open_def contains_def strip_leading_reasoning_def
      strip_def lstrip_def rstrip_def is_space_def)

subsection \<open>Properties\<close>

text \<open>
  C22: a completion makes at most \<open>max_retries\<close> calls to each of at most two providers, and every
  call has been reserved in the request's budget before it was sent. The requests that leave the
  process are exactly the calls listed: each is the request of its provider for the given texts;
  no more of them go to a provider than the retries allow; and the budget had granted each of
  them an attempt of its own when it was sent, after the grants of all earlier ones. An
  attempt is counted once as such and once as a success or as a failure, and only a failure can
  count as rate limited besides; there is one success exactly when a translation is returned; and
  every upstream slot has been given back.
\<close>

theorem provider_calls_accounted:
  "\<exists>a f calls. a = (if isl (fst (complete_request env pf allow u s m mt ios st)) then 0 else 1) + f
     \<and> a \<le> m * length (eligible_providers pf allow) \<and> length (eligible_providers pf allow) \<le> 2
     \<and> spent st (snd (complete_request env pf allow u s m mt ios st)) a
         (if isl (fst (complete_request env pf allow u s m mt ios st)) then 0 else 1) f
     \<and> sent_within (call_for env u s mt) st (snd (complete_request env pf allow u s m mt ios st)) calls
     \<and> (\<forall>p. length (calls_of p calls) \<le> m * count_list (eligible_providers pf allow) p)"
proof -
  obtain res st' where r: "complete_request env pf allow u s m mt ios st = (res, st')" by fastforce
  have "length (eligible_providers pf allow) \<le> 2" by (simp add: eligible_providers_def split: option.splits)
  then show ?thesis
    using complete_loop_spent [OF r [unfolded complete_request_def]] complete_loop_sent [OF r [unfolded complete_request_def]]
    unfolding r by auto
qed

text \<open>
  C17: a remote fallback is never used without the consent of the request. The completion then
  behaves exactly as if no fallback were configured, whatever the fallback would answer, and
  a translation it returns comes from the primary provider; every returned translation is a
  stripped non-empty text within the response cap.
\<close>

theorem cloud_fallback_needs_consent:
  assumes "locality (p_spec f) = Remote" "ios p = ios' p"
  shows "complete_request env (p, Some f) False u s m mt ios st = complete_request env (p, None) allow u s m mt ios' st
    \<and> (\<forall>t ns. fst (complete_request env (p, Some f) False u s m mt ios st) = Inr (t, ns) \<longrightarrow>
         ns = cache_namespace (p_spec p) \<and> accepted_text (ce_cap env) t)"
proof -
  have l: "complete_request env (p, Some f) False u s m mt ios st = complete_loop env u s m mt ios [p] None st"
    using assms(1) by (simp add: complete_request_def eligible_providers_def)
  have "complete_loop env u s m mt ios [p] None st = complete_loop env u s m mt ios' [p] None st"
    using assms(2) by (simp split: prod.split sum.split call_failure.split)
  then have eq: "complete_request env (p, Some f) False u s m mt ios st = complete_request env (p, None) allow u s m mt ios' st"
    unfolding l by (simp add: complete_request_def eligible_providers_def)
  have "ns = cache_namespace (p_spec p) \<and> accepted_text (ce_cap env) t"
    if "fst (complete_request env (p, Some f) False u s m mt ios st) = Inr (t, ns)" for t ns
    using that complete_loop_accepts [of env u s m mt ios "[p]" None st t ns] unfolding l
    by (metis empty_iff empty_set prod.collapse set_ConsD)
  then show ?thesis using eq by blast
qed

theorem cloud_fallback_needs_consent_witness:
  "fst (complete_request demo_env (demo_provider Local, Some (demo_provider Remote)) False (lit ''x'') [] 1 1
      (\<lambda>_ _. demo_io 200) (demo_state 0)) = Inr (lit ''hi'', lit ''local'')
   \<and> accepted_text 100 (lit ''hi'')"
proof -
  have "fst (complete_request demo_env (demo_provider Local, Some (demo_provider Remote)) False (lit ''x'') [] 1 1
      (\<lambda>_ _. demo_io 200) (demo_state 0)) = Inr (lit ''hi'', lit ''local'')"
    using demo_success
    by (simp add: complete_request_def eligible_providers_def demo_provider_def call_provider_def del: lit_Cons)
  moreover have "locality (p_spec (demo_provider Remote)) = Remote" "ce_cap demo_env = 100"
    by (simp_all add: demo_provider_def demo_env_def)
  ultimately show ?thesis
    using cloud_fallback_needs_consent [of "demo_provider Remote" "\<lambda>_ _. demo_io 200" "demo_provider Local" "\<lambda>_ _. demo_io 200"]
    by metis
qed

text \<open>
  A provider answer 429 is never replayed. When the first call of a completion is answered
  so, no other call is made, neither to the same provider nor to a fallback: the request fails
  as rate limited, with a sanitized delay of 1 to 30 seconds if the provider sent one.
\<close>

theorem rate_limit_not_replayed:
  assumes "attempt_once env (fst pf) u s mt (ios (fst pf) 0) st = (Inl (XRequest 429 tr ra), True, st1)" "0 < m"
  shows "complete_request env pf allow u s m mt ios st
      = (Inl (CUnavailable (lit ''provider_rate_limited'') (retry_after_seconds ra)),
         note_call ''failure'' (note_call ''rate_limited'' st1))
    \<and> (\<forall>n. retry_after_seconds ra = Some n \<longrightarrow> 1 \<le> n \<and> n \<le> 30)"
proof -
  obtain k where m: "m = Suc k" using assms(2) by (cases m) auto
  let ?e = "call_error (fst pf) 429 False False (retry_after_seconds ra)"
  have e: "request_error (fst pf) 429 tr ra = ?e" "pe_retryable ?e = False" "pe_fallback ?e = False"
      "pe_status ?e = 429" "pe_retry_after ?e = retry_after_seconds ra"
    by (simp_all add: request_error_def transient_status_def call_error_def)
  have c: "call_provider env (fst pf) u s m mt (ios (fst pf)) st
      = (Inl (FCall ?e), note_call ''failure'' (note_call ''rate_limited'' st1))"
    using assms(1) e unfolding m by (simp add: call_provider_def give_up_def)
  have "\<exists>ps. eligible_providers pf allow = fst pf # ps"
    by (simp add: eligible_providers_def split: option.split)
  then obtain ps where ps: "eligible_providers pf allow = fst pf # ps" by blast
  show ?thesis
    unfolding complete_request_def ps
    using retry_after_bounds c e by (simp add: unavailable_def del: lit_Cons)
qed

theorem rate_limit_not_replayed_witness:
  "\<exists>st1. complete_request demo_env (demo_provider Local, Some (demo_provider Remote)) True (lit ''x'') [] 3 1
      (\<lambda>_ _. demo_io 429) (demo_state 0) = (Inl (CUnavailable (lit ''provider_rate_limited'') (Some 7)), st1)
    \<and> cm_attempts (ks_metrics st1) = 1"
proof -
  let ?pf = "(demo_provider Local, Some (demo_provider Remote))"
  have "retry_after_seconds (Some (lit ''7'')) = Some 7"
    by (simp add: retry_after_seconds_def strip_def lstrip_def rstrip_def is_space_def is_digit_def dec_value_def Let_def)
  then show ?thesis
    using rate_limit_not_replayed [of demo_env ?pf "lit ''x''" "[]" 1 "\<lambda>_ _. demo_io 429" "demo_state 0" False
        "Some (lit ''7'')" "(demo_state 1)\<lparr>ks_sent := [demo_sent Local]\<rparr>" 3 True] demo_rate_limited
    by (simp add: demo_state_def del: lit_Cons)
qed

end
