(* ===== verification/Batch_Facts.thy ===== *)
theory Batch_Facts
  imports Batch_Translation Call_Facts
begin

section \<open>What a batch returns\<close>

text \<open>
  Every slot of a group is filled: with a clean translation whose cacheability follows from the
  path that produced it, or with an error marker. The collecting loop puts each item where it
  belongs whatever the completion order.
\<close>

subsection \<open>Drawing identifiers\<close>

lemma draw_ids_length:
  "draw_ids tokens k used n ids = Some (ids', k', used') \<Longrightarrow> length ids \<le> n \<Longrightarrow> length ids' = n"
proof (induction tokens k used n ids "(ids', k', used')" rule: draw_ids.raw_induct [rotated 1, consumes 1])
  case (1 draw tokens k used n ids)
  then show ?case by (auto split: if_splits)
qed

lemma draw_ids_fresh:
  assumes "inj_on tokens {lo..<k + (n - length ids)}" "set used \<subseteq> tokens ` {lo..<k}" "lo \<le> k" "length ids \<le> n"
  shows "\<exists>used'. draw_ids tokens k used n ids = Some (ids @ map tokens [k..<k + (n - length ids)], k + (n - length ids), used')
     \<and> set used' \<subseteq> tokens ` {lo..<k + (n - length ids)}"
  using assms
proof (induction "n - length ids" arbitrary: k used ids)
  case 0
  then show ?case by (subst draw_ids.simps) (simp add: exI [of _ used])
next
  case (Suc d)
  have "tokens k \<notin> set used"
  proof
    assume "tokens k \<in> set used"
    then obtain j where j: "tokens k = tokens j" "lo \<le> j" "j < k" using Suc.prems(2) by auto
    moreover have "k \<in> {lo..<k + (n - length ids)}" "j \<in> {lo..<k + (n - length ids)}" using Suc(2) Suc.prems(3) j by auto
    ultimately show False using Suc.prems(1) by (metis inj_onD less_irrefl)
  qed
  moreover have "\<not> n \<le> length ids" using Suc(2) by simp
  ultimately have st: "draw_ids tokens k used n ids = draw_ids tokens (k + 1) (tokens k # used) n (ids @ [tokens k])"
    by (subst draw_ids.simps) simp
  have eq: "k + 1 + (n - length (ids @ [tokens k])) = k + (n - length ids)" "d = n - length (ids @ [tokens k])"
    using Suc(2) by auto
  have "\<exists>used'. draw_ids tokens (k + 1) (tokens k # used) n (ids @ [tokens k])
      = Some ((ids @ [tokens k]) @ map tokens [k + 1..<k + 1 + (n - length (ids @ [tokens k]))],
          k + 1 + (n - length (ids @ [tokens k])), used')
      \<and> set used' \<subseteq> tokens ` {lo..<k + 1 + (n - length (ids @ [tokens k]))}"
  proof (rule Suc.hyps(1) [OF eq(2)])
    show "inj_on tokens {lo..<k + 1 + (n - length (ids @ [tokens k]))}" using Suc.prems(1) unfolding eq(1) .
    show "set (tokens k # used) \<subseteq> tokens ` {lo..<k + 1}" using Suc.prems(2,3) by auto
  qed (use Suc.prems Suc(2) in auto)
  moreover have "[k..<k + (n - length ids)] = k # [k + 1..<k + (n - length ids)]"
    using Suc(2) by (simp add: upt_conv_Cons)
  ultimately show ?case unfolding st eq(1) by simp
qed

subsection \<open>Items of a group\<close>

definition clean_text :: "pystr \<Rightarrow> bool" where
  "clean_text t \<longleftrightarrow> t \<noteq> [] \<and> strip t = t"

text \<open>What an item says, by the path that produced it.\<close>

definition item_ok :: "batch_item \<Rightarrow> bool" where
  "item_ok it =
     (case it_path it of
        Direct \<Rightarrow> it_cacheable it \<and> it_error it = None \<and> clean_text (it_text it)
      | EnvelopeRetry \<Rightarrow> it_cacheable it \<and> it_error it = None \<and> clean_text (it_text it)
      | ParagraphFallback \<Rightarrow> \<not> it_cacheable it \<and> it_error it = None \<and> clean_text (it_text it)
      | ParagraphFallbackFailed \<Rightarrow> \<not> it_cacheable it \<and> it_provider it = [] \<and> it_error it \<noteq> None
      | Failed \<Rightarrow> \<not> it_cacheable it \<and> it_provider it = [] \<and> it_error it \<noteq> None
      | EmptySlot \<Rightarrow> False)"

lemma item_ok_simps [simp]:
  "item_ok (item t p True Direct) = clean_text t"
  "item_ok (item t p True EnvelopeRetry) = clean_text t"
  "item_ok (item t p False ParagraphFallback) = clean_text t"
  "item_ok (error_item ParagraphFallbackFailed c ra)"
  "item_ok (error_item Failed c ra)"
  by (simp_all add: item_ok_def item_def error_item_def)

lemma run_complete_clean: "run_complete ge u prompt m mt st = (Inr (t, p), st') \<Longrightarrow> clean_text t"
  by (auto simp: run_complete_def complete_request_def clean_text_def accepted_text_def
      dest: complete_loop_accepts split: prod.splits sum.splits)

lemma translate_text_clean: "translate_text_operation ge body m st = (Inr (t, p), st') \<Longrightarrow> clean_text t"
  by (auto simp: translate_text_operation_def Let_def dest: run_complete_clean split: sum.splits)

lemma envelope_texts_clean:
  assumes "parse_segment_envelope cap loads out ids = Some segs"
  shows "length segs = length ids" "t \<in> set segs \<Longrightarrow> clean_text t"
proof -
  obtain vs where l: "length vs = length ids" and p: "parse_items cap 0 ids vs = Some segs"
    using assms unfolding parse_segment_envelope_def
    by (auto simp del: lit_Cons no_duplicate_keys.simps split: option.splits if_splits pyval.splits)
  from p l show "length segs = length ids" using parse_items_spec [of ids vs 0 cap segs] by simp
  have "\<forall>j<length ids. entry_for (ids ! j) (vs ! j) (segs ! j)" using p l parse_items_spec [of ids vs 0 cap segs] by simp
  then show "t \<in> set segs \<Longrightarrow> clean_text t"
    using \<open>length segs = length ids\<close> by (auto simp: in_set_conv_nth entry_for_def clean_text_def)
qed

lemma envelope_attempts_ok:
  "envelope_attempts ge texts idxs prompt a left used st = (Inr (Some its), st') \<Longrightarrow>
   length its = length idxs \<and> list_all item_ok its"
proof (induction left arbitrary: a used st)
  case (Suc left)
  obtain ids k used' where d: "draw_ids (ge_tokens ge) (gs_tok st) used (length idxs) [] = Some (ids, k, used')"
    using Suc.prems by (auto split: option.splits)
  have len: "length ids = length idxs" using draw_ids_length [OF d] by simp
  let ?cfg = "pe_cfg (ge_prompt ge)"
  let ?comb = "dumps (envelope_json (build_context_block ?cfg texts idxs) (zip ids (map (\<lambda>i. texts ! i) idxs)))"
  obtain r st1 where rc: "run_complete ge ?comb prompt 1 (int (output_cap ?cfg ?comb (tc_batch_max_tokens ?cfg))) (st\<lparr>gs_tok := k\<rparr>) = (r, st1)"
    by fastforce
  obtain out pr where r: "r = Inr (out, pr)" using Suc.prems d rc by (cases r) (auto simp: Let_def)
  show ?case
  proof (cases "parse_segment_envelope (tc_max_response ?cfg) (ge_parse ge) out ids")
    case None
    then show ?thesis using Suc.prems d rc r Suc.IH by (simp add: Let_def split: if_splits)
  next
    case (Some segs)
    then have "its = map (\<lambda>seg. item seg pr True (if a = 0 then Direct else EnvelopeRetry)) segs"
      using Suc.prems d rc r by (simp add: Let_def)
    then show ?thesis using envelope_texts_clean [OF Some] len by (auto simp: list_all_iff)
  qed
qed simp

lemma recover_paragraphs_ok:
  "recover_paragraphs ge bs st = (Inr its, st') \<Longrightarrow> length its = length bs \<and> list_all item_ok its"
proof (induction bs arbitrary: st its)
  case (Cons b bs)
  obtain r st1 where tt: "translate_text_operation ge b 1 st = (r, st1)" by fastforce
  obtain it rest st2 where it: "its = it # rest" "recover_paragraphs ge bs st2 = (Inr rest, st')" "item_ok it"
    using Cons.prems tt translate_text_clean [of ge b 1 st]
    by (auto simp: Let_def split: sum.splits prod.splits group_error.splits)
  then show ?case using Cons.IH [OF it(2)] by simp
qed simp

lemma translate_group_ok:
  assumes "translate_group ge texts idxs st = (Inr its, st')"
  shows "length its = length idxs \<and> list_all item_ok its"
proof (cases "length idxs = 1 \<and> tc_context_window (pe_cfg (ge_prompt ge)) = 0")
  case True
  then show ?thesis
    using assms by (auto simp: translate_group_def single_item_def dest: translate_text_clean split: prod.splits sum.splits)
next
  case False
  then have "translate_group_operation ge texts idxs st = (Inr its, st')"
    using assms by (auto simp: translate_group_def split: sum.splits if_splits)
  then show ?thesis
    using False unfolding translate_group_operation_def
    by (fastforce split: sum.splits prod.splits option.splits dest: envelope_attempts_ok recover_paragraphs_ok)
qed

lemma failed_group_ok: "length (failed_group e idxs) = length idxs \<and> list_all item_ok (failed_group e idxs)"
  by (simp add: failed_group_def list_all_iff split: group_error.splits)

lemma do_group_ok:
  assumes "fst (do_group ge texts idxs st) = Inr its"
  shows "length its = length idxs \<and> list_all item_ok its"
proof -
  obtain r st1 where r: "(case ensure_active (ge_clock ge (gs_next st)) (ks_budget (gs_call st)) of
      Inl e \<Rightarrow> (Inl (budget_group_exn e), st) | Inr _ \<Rightarrow> translate_group ge texts idxs st) = (r, st1)" by fastforce
  then have g: "r = Inr its' \<Longrightarrow> length its' = length idxs \<and> list_all item_ok its'" for its'
    by (auto split: sum.splits dest: translate_group_ok)
  show ?thesis
    using assms g failed_group_ok unfolding do_group_def r by (auto split: sum.splits group_error.splits)
qed

subsection \<open>The identifier loops end\<close>

lemma run_complete_returns: "fst (run_complete ge u prompt m mt st) \<noteq> Inl GNoReturn"
proof -
  have "group_exn e \<noteq> GNoReturn" for e by (cases e) auto
  then show ?thesis by (auto simp: run_complete_def split: prod.splits sum.splits)
qed

lemma run_complete_tok: "run_complete ge u prompt m mt st = (r, st') \<Longrightarrow> gs_tok st' = gs_tok st"
  by (auto simp: run_complete_def split: prod.splits sum.splits)

lemma translate_text_returns: "fst (translate_text_operation ge body m st) \<noteq> Inl GNoReturn"
  using run_complete_returns
  by (auto simp: translate_text_operation_def Let_def budget_group_exn_def split: sum.splits budget_error.splits)

lemma envelope_attempts_returns:
  assumes "inj_on (ge_tokens ge) {lo..<gs_tok st + left * length idxs}" "set used \<subseteq> ge_tokens ge ` {lo..<gs_tok st}" "lo \<le> gs_tok st"
  shows "fst (envelope_attempts ge texts idxs prompt a left used st) \<noteq> Inl GNoReturn"
  using assms
proof (induction left arbitrary: a used st)
  case (Suc left)
  let ?n = "length idxs"
  have "inj_on (ge_tokens ge) {lo..<gs_tok st + (?n - length [])}"
    using Suc.prems(1) by (rule inj_on_subset) auto
  from draw_ids_fresh [OF this Suc.prems(2,3)] obtain ids used' where
    d: "draw_ids (ge_tokens ge) (gs_tok st) used ?n [] = Some (ids, gs_tok st + ?n, used')"
      "set used' \<subseteq> ge_tokens ge ` {lo..<gs_tok st + ?n}" by auto
  let ?cfg = "pe_cfg (ge_prompt ge)"
  let ?comb = "dumps (envelope_json (build_context_block ?cfg texts idxs) (zip ids (map (\<lambda>i. texts ! i) idxs)))"
  obtain r st1 where rc: "run_complete ge ?comb prompt 1 (int (output_cap ?cfg ?comb (tc_batch_max_tokens ?cfg)))
      (st\<lparr>gs_tok := gs_tok st + ?n\<rparr>) = (r, st1)" by fastforce
  have tok: "gs_tok st1 = gs_tok st + ?n" using run_complete_tok [OF rc] by simp
  show ?case
  proof (cases r)
    case (Inl e)
    then have "e \<noteq> GNoReturn" using run_complete_returns rc by (metis fst_conv)
    then show ?thesis using Inl rc d(1) by (simp add: Let_def)
  next
    case (Inr op)
    obtain out pr where op: "op = (out, pr)" by fastforce
    have "fst (envelope_attempts ge texts idxs prompt a' left used' st2) \<noteq> Inl GNoReturn"
      if "gs_tok st2 = gs_tok st1" for a' st2
      using Suc.prems(1,3) d(2) that tok by (intro Suc.IH) (auto simp: algebra_simps)
    then show ?thesis using Inr op rc d(1) by (simp add: Let_def split: option.split)
  qed
qed simp

lemma recover_paragraphs_returns: "fst (recover_paragraphs ge bs st) \<noteq> Inl GNoReturn"
proof (induction bs arbitrary: st)
  case (Cons b bs)
  obtain r st1 where tt: "translate_text_operation ge b 1 st = (r, st1)" by fastforce
  have tail: "recover_paragraphs ge bs st2 = (Inl f, st3) \<Longrightarrow> f \<noteq> GNoReturn" for st2 f st3
    using Cons.IH [of st2] by (metis fst_conv)
  show ?case
    using tt tail
    by (auto simp: Let_def split: sum.splits prod.splits group_error.splits)
qed simp

lemma do_group_returns:
  assumes "inj_on (ge_tokens ge) {gs_tok st..<gs_tok st + 2 * length idxs}"
  shows "fst (do_group ge texts idxs st) \<noteq> Inl GNoReturn"
proof -
  have b: "budget_group_exn e \<noteq> GNoReturn" for e by (simp add: budget_group_exn_def split: budget_error.splits)
  have s: "fst (single_item (translate_text_operation ge t 1 st)) \<noteq> Inl GNoReturn" for t
    using translate_text_returns [of ge t 1 st] by (auto simp: single_item_def split: prod.splits sum.splits)
  have e: "fst (envelope_attempts ge texts idxs prompt 0 2 [] st) \<noteq> Inl GNoReturn" for prompt
    using assms by (intro envelope_attempts_returns) auto
  have o: "fst (translate_group_operation ge texts idxs st) \<noteq> Inl GNoReturn"
    using s e recover_paragraphs_returns
    by (auto simp: translate_group_operation_def split: sum.splits prod.splits option.splits) (metis fst_conv)+
  have t: "fst (translate_group ge texts idxs st) \<noteq> Inl GNoReturn"
    using s o b by (auto simp: translate_group_def split: sum.splits)
  show ?thesis
    using t b by (auto simp: do_group_def split: sum.splits prod.splits group_error.splits)
qed

subsection \<open>Placement\<close>

lemma place_length [simp]: "length (place idxs its rs) = length rs"
  by (induction idxs its rs rule: place.induct) auto

lemma place_other: "i \<notin> set idxs \<Longrightarrow> place idxs its rs ! i = rs ! i"
  by (induction idxs its rs rule: place.induct) auto

lemma place_nth:
  "distinct idxs \<Longrightarrow> length its = length idxs \<Longrightarrow> \<forall>i\<in>set idxs. i < length rs \<Longrightarrow> j < length idxs \<Longrightarrow>
   place idxs its rs ! (idxs ! j) = its ! j"
proof (induction idxs its rs arbitrary: j rule: place.induct)
  case (3 i idxs it its rs)
  show ?case
  proof (cases j)
    case 0
    then show ?thesis using 3 by (simp add: place_other)
  next
    case (Suc k)
    then show ?thesis using 3 by simp
  qed
qed auto

lemma collect_facts:
  assumes "list_all (\<lambda>(g, its). length its = length g) gs" "distinct (concat (map fst gs))"
    "\<forall>i\<in>set (concat (map fst gs)). i < length rs"
  shows "\<exists>out. collect rs (map (\<lambda>(g, its). (g, Inr its)) gs) = Inr out \<and> length out = length rs
    \<and> (\<forall>(g, its)\<in>set gs. \<forall>j<length g. out ! (g ! j) = its ! j)
    \<and> (\<forall>i. i \<notin> set (concat (map fst gs)) \<longrightarrow> out ! i = rs ! i)"
  using assms
proof (induction gs arbitrary: rs)
  case (Cons p gs)
  obtain g its where p: "p = (g, its)" by fastforce
  let ?rs = "place g its rs"
  have "\<exists>out. collect ?rs (map (\<lambda>(g, its). (g, Inr its)) gs) = Inr out \<and> length out = length ?rs
    \<and> (\<forall>(g, its)\<in>set gs. \<forall>j<length g. out ! (g ! j) = its ! j)
    \<and> (\<forall>i. i \<notin> set (concat (map fst gs)) \<longrightarrow> out ! i = ?rs ! i)"
    using Cons.prems p by (intro Cons.IH) auto
  then obtain out where out: "collect ?rs (map (\<lambda>(g, its). (g, Inr its)) gs) = Inr out" "length out = length ?rs"
    "\<forall>(g, its)\<in>set gs. \<forall>j<length g. out ! (g ! j) = its ! j"
    "\<forall>i. i \<notin> set (concat (map fst gs)) \<longrightarrow> out ! i = ?rs ! i" by blast
  have "out ! (g ! j) = its ! j" if "j < length g" for j
  proof -
    have "set g \<inter> set (concat (map fst gs)) = {}" using Cons.prems(2) p by simp
    then have "g ! j \<notin> set (concat (map fst gs))" using nth_mem [OF that] by blast
    then show ?thesis using out(4) place_nth [of g its rs j] Cons.prems p that by auto
  qed
  then show ?case using out p by (intro exI [of _ out]) (auto simp: place_other)
qed simp

lemma batch_results_pointwise:
  assumes "distinct (concat groups)" "\<forall>i\<in>set (concat groups). i < length texts"
    and "\<forall>g\<in>set groups. length (out g) = length g" "mset finished = mset groups"
  shows "\<exists>rs. batch_results texts (map (\<lambda>g. (g, Inr (out g))) finished) = Inr rs \<and> length rs = length texts
    \<and> (\<forall>g\<in>set groups. \<forall>j<length g. rs ! (g ! j) = out g ! j)
    \<and> (\<forall>i<length texts. i \<notin> set (concat groups) \<longrightarrow> rs ! i = empty_item)"
proof -
  have st: "set finished = set groups" using assms(4) by (rule mset_eq_setD)
  have "mset (concat gs) = sum_mset (image_mset mset (mset gs))" for gs :: "nat list list" by (induction gs) auto
  then have "mset (concat finished) = mset (concat groups)" using assms(4) by simp
  then have d: "distinct (concat finished)" using assms(1) mset_eq_imp_distinct_iff by blast
  let ?gs = "map (\<lambda>g. (g, out g)) finished"
  have f: "map fst ?gs = finished" by (simp add: comp_def)
  have "list_all (\<lambda>(g, its). length its = length g) ?gs" using assms(3) st by (simp add: list_all_iff)
  moreover have "\<forall>i\<in>set (concat (map fst ?gs)). i < length (map (\<lambda>_. empty_item) texts)" using assms(2) st by (simp add: f)
  moreover have "distinct (concat (map fst ?gs))" using d unfolding f .
  ultimately obtain rs where rs: "collect (map (\<lambda>_. empty_item) texts) (map (\<lambda>(g, its). (g, Inr its)) ?gs) = Inr rs"
    "length rs = length texts" "\<forall>(g, its)\<in>set ?gs. \<forall>j<length g. rs ! (g ! j) = its ! j"
    "\<forall>i. i \<notin> set (concat finished) \<longrightarrow> rs ! i = map (\<lambda>_. empty_item) texts ! i"
    using collect_facts [of ?gs "map (\<lambda>_. empty_item) texts"] unfolding f length_map by blast
  then have "batch_results texts (map (\<lambda>g. (g, Inr (out g))) finished) = Inr rs"
    by (simp add: batch_results_def comp_def)
  then show ?thesis using rs st by (intro exI [of _ rs]) auto
qed

lemma do_group_budget:
  assumes "fst (do_group ge texts idxs st) = Inl e"
  shows "e = GNoReturn \<or> (\<exists>r. e = GBudget r
     \<and> (r = [] \<or> cancel_reason (ks_budget (gs_call (snd (do_group ge texts idxs st)))) \<noteq> None))"
proof -
  obtain r st1 where r: "(case ensure_active (ge_clock ge (gs_next st)) (ks_budget (gs_call st)) of
      Inl e \<Rightarrow> (Inl (budget_group_exn e), st) | Inr _ \<Rightarrow> translate_group ge texts idxs st) = (r, st1)" by fastforce
  show ?thesis
    using assms unfolding do_group_def r
    by (auto simp: cancel_group_def cancel_def split: sum.splits group_error.splits)
qed

subsection \<open>Properties\<close>

text \<open>
  C24: a worker always finishes its group, provided the random identifiers it draws do not
  repeat. It either returns one item for each paragraph of the group (a clean translation that
  may be cached only when it came from the batch or single contract and not from the paragraph
  fallback, or an error marker without a provider), or it ran out of budget and has cancelled the
  budget of the whole request.
\<close>

theorem group_always_settles:
  assumes "inj_on (ge_tokens ge) {gs_tok st..<gs_tok st + 2 * length idxs}"
  shows "case fst (do_group ge texts idxs st) of
      Inr its \<Rightarrow> length its = length idxs \<and> list_all item_ok its
    | Inl e \<Rightarrow> \<exists>r. e = GBudget r \<and> (r = [] \<or> cancel_reason (ks_budget (gs_call (snd (do_group ge texts idxs st)))) \<noteq> None)"
proof (cases "fst (do_group ge texts idxs st)")
  case (Inl e)
  then show ?thesis using do_group_budget [OF Inl] do_group_returns [OF assms, of texts] by simp
next
  case (Inr its)
  then show ?thesis using do_group_ok [OF Inr] by simp
qed

text \<open>A malformed glossary entry fails the group: one marker for each of its paragraphs.\<close>

theorem group_always_settles_witness:
  "\<exists>ge st. fst (do_group ge [lit ''x'', lit ''y''] [0, 1] st)
      = Inr (replicate 2 (error_item Failed (lit ''translation_failed'') None))
    \<and> list_all item_ok (replicate 2 (error_item Failed (lit ''translation_failed'') None))"
proof -
  define ge where "ge = \<lparr>ge_call = demo_env, ge_prompt = \<lparr>pe_cfg = default_tconfig, pe_sha = id, pe_fold = id\<rparr>,
    ge_pf = (demo_provider Local, None), ge_allow = False, ge_sl = lit ''English'', ge_tg = lit ''Spanish'',
    ge_glossary = Some [PNone], ge_tokens = (\<lambda>k. show_nat k), ge_parse = (\<lambda>_. None), ge_ios = (\<lambda>_ _ _. demo_io 200),
    ge_clock = (\<lambda>_. 0)\<rparr>"
  define st where "st = \<lparr>gs_call = demo_state 0, gs_next = 0, gs_tok = 0, gs_tracker = None\<rparr>"
  have inj: "inj_on (ge_tokens ge) {gs_tok st..<gs_tok st + 2 * length [0, 1 :: nat]}"
    unfolding ge_def by (auto intro!: inj_onI dest: show_nat_inj)
  have r: "fst (do_group ge [lit ''x'', lit ''y''] [0, 1] st) = Inr (replicate 2 (error_item Failed (lit ''translation_failed'') None))"
    by (simp add: do_group_def translate_group_def translate_group_operation_def ge_def st_def demo_state_def
        ensure_active_def batch_prompt_def with_glossary_def format_glossary_block_def normalize_glossary_def
        pair_of_entry_def failed_group_def numeral_2_eq_2 del: lit_Cons)
  have "list_all item_ok (replicate 2 (error_item Failed (lit ''translation_failed'') None))"
    using group_always_settles [OF inj, of "[lit ''x'', lit ''y'']"] unfolding r by simp
  then show ?thesis using r by blast
qed

text \<open>
  C25: the results of a batch do not depend on the order in which the groups complete. When every
  group returned one item per paragraph, each item stands at the index of its paragraph, and the
  slots of blank paragraphs stay empty.
\<close>

theorem batch_results_placed:
  assumes "distinct (concat groups)" "\<forall>i\<in>set (concat groups). i < length texts"
    and "\<forall>g\<in>set groups. length (out g) = length g" "mset finished = mset groups"
  shows "\<exists>rs. batch_results texts (map (\<lambda>g. (g, Inr (out g))) finished) = Inr rs \<and> length rs = length texts
    \<and> (\<forall>g\<in>set groups. \<forall>j<length g. rs ! (g ! j) = out g ! j)
    \<and> (\<forall>i<length texts. i \<notin> set (concat groups) \<longrightarrow> rs ! i = empty_item)"
  using assms by (rule batch_results_pointwise)

theorem batch_results_placed_witness:
  "\<exists>rs. batch_results [lit ''a'', [], lit ''b''] [([2], Inr [item (lit ''B'') [] True Direct]), ([0], Inr [item (lit ''A'') [] True Direct])]
      = Inr rs \<and> length rs = 3 \<and> rs ! 1 = empty_item"
  using batch_results_placed [of "[[0], [2]]" "[lit ''a'', [], lit ''b'']"
      "\<lambda>g. if g = [0] then [item (lit ''A'') [] True Direct] else [item (lit ''B'') [] True Direct]" "[[2], [0]]"]
  by auto

end
