(* ===== verification/Batch_Schedule.thy ===== *)
theory Batch_Schedule
  imports Batch_Facts
begin

section \<open>The schedule of a batch\<close>

text \<open>
  Models the body of \<open>translate_batch_detailed\<close> of \<open>translator.py\<close>: a bounded window of workers,
  the wait for the first of them, and the collection of what is done. The workers run
  concurrently, so the loop is a step relation: any nonempty set of running groups may be done
  at a wait. \<open>settle\<close> is what the worker of a group ends with, \<open>Inl GNoReturn\<close> when it never ends.
\<close>

subsection \<open>Model\<close>

record schedule =
  sd_pending :: "nat list list"
  sd_running :: "nat list list"
  sd_done :: "nat list list"
  sd_results :: "batch_item list"
  sd_raised :: "group_error option"

definition schedule_start :: "pystr list \<Rightarrow> nat list list \<Rightarrow> schedule" where
  "schedule_start texts groups =
     \<lparr>sd_pending = groups, sd_running = [], sd_done = [], sd_results = map (\<lambda>_. empty_item) texts, sd_raised = None\<rparr>"

type_synonym settlement = "nat list \<Rightarrow> (group_error, batch_item list) result"

inductive sched_step :: "nat \<Rightarrow> settlement \<Rightarrow> schedule \<Rightarrow> schedule \<Rightarrow> bool" for workers settle where
  submit: "sched_step workers settle s (s\<lparr>sd_pending := rest, sd_running := sd_running s @ [g]\<rparr>)"
    if "sd_raised s = None" "sd_done s = []" "sd_pending s = g # rest" "length (sd_running s) < workers"
| await: "sched_step workers settle s (s\<lparr>sd_done := ds\<rparr>)"
    if "sd_raised s = None" "sd_done s = []" "sd_pending s = [] \<or> workers \<le> length (sd_running s)"
      "ds \<noteq> []" "distinct ds" "set ds \<subseteq> set (sd_running s)" "Inl GNoReturn \<notin> settle ` set ds"
| gather: "sched_step workers settle s
      (s\<lparr>sd_done := ds, sd_running := remove1 g (sd_running s), sd_results := place g its (sd_results s)\<rparr>)"
    if "sd_raised s = None" "sd_done s = g # ds" "settle g = Inr its"
| give_up: "sched_step workers settle s (s\<lparr>sd_raised := Some e\<rparr>)"
    if "sd_raised s = None" "sd_done s = g # ds" "settle g = Inl e"

inductive_cases sched_stepE: "sched_step workers settle s t"

definition schedule_over :: "schedule \<Rightarrow> bool" where
  "schedule_over s \<longleftrightarrow> sd_raised s \<noteq> None \<or> (sd_pending s = [] \<and> sd_running s = [])"

text \<open>The workers: a group's outcome is that of its worker in the environment and state it meets.\<close>

definition settled_by :: "pystr list \<Rightarrow> (nat list \<Rightarrow> group_env \<times> group_state) \<Rightarrow> settlement" where
  "settled_by texts worker g = (case worker g of (ge, st) \<Rightarrow> fst (do_group ge texts g st))"

subsection \<open>Invariant\<close>

text \<open>
  What the loop keeps: the groups are split into pending, running and gathered ones, what is done
  is still listed as running, and the results are those of the gathered groups.
\<close>

definition sched_inv :: "nat \<Rightarrow> settlement \<Rightarrow> pystr list \<Rightarrow> nat list list \<Rightarrow> nat list list \<Rightarrow> schedule \<Rightarrow> bool" where
  "sched_inv workers settle texts groups gathered s \<longleftrightarrow>
     mset groups = mset gathered + mset (sd_running s) + mset (sd_pending s)
     \<and> distinct (sd_done s) \<and> set (sd_done s) \<subseteq> set (sd_running s)
     \<and> length (sd_running s) \<le> workers
     \<and> batch_results texts (map (\<lambda>g. (g, settle g)) gathered) = Inr (sd_results s)
     \<and> (\<forall>e. sd_raised s = Some e \<longrightarrow> (\<exists>g\<in>set groups. settle g = Inl e))
     \<and> Inl GNoReturn \<notin> settle ` set (sd_done s)"

lemma sched_inv_groups:
  "sched_inv workers settle texts groups ga s \<Longrightarrow> set groups = set ga \<union> set (sd_running s) \<union> set (sd_pending s)"
  unfolding sched_inv_def by (metis set_mset_mset set_mset_union)

lemma collect_snoc:
  "collect rs xs = Inr out \<Longrightarrow> collect rs (xs @ [(g, Inr its)]) = Inr (place g its out)"
  by (induction rs xs rule: collect.induct) auto

lemma distinct_groups: "distinct (concat gs) \<Longrightarrow> \<forall>g\<in>set gs. g \<noteq> [] \<Longrightarrow> distinct gs"
proof (induction gs)
  case (Cons g gs)
  have "g \<notin> set gs" using Cons.prems by (cases g) auto
  then show ?case using Cons by simp
qed simp

lemma collect_Inr:
  "collect rs (map (\<lambda>g. (g, settle g)) gs) = Inr out \<Longrightarrow> \<forall>g\<in>set gs. \<exists>its. settle g = Inr its"
proof (induction gs arbitrary: rs)
  case (Cons g gs)
  then show ?case by (cases "settle g") auto
qed simp

lemma sched_inv_start: "sched_inv workers settle texts groups [] (schedule_start texts groups)"
  by (simp add: sched_inv_def schedule_start_def batch_results_def)

lemma sched_inv_step:
  assumes "sched_step workers settle s t" "sched_inv workers settle texts groups gathered s" "distinct groups"
  shows "\<exists>gathered'. sched_inv workers settle texts groups gathered' t"
  using assms(1)
proof cases
  case (submit g rest)
  then show ?thesis using assms(2) by (intro exI [of _ gathered]) (auto simp: sched_inv_def)
next
  case (await ds)
  then show ?thesis using assms(2) by (intro exI [of _ gathered]) (auto simp: sched_inv_def)
next
  case (gather g ds its)
  have g: "g \<in> set (sd_running s)" "g \<notin> set ds" "set ds \<subseteq> set (sd_running s)"
    using gather assms(2) by (auto simp: sched_inv_def)
  have "distinct (sd_running s)"
    using assms(2,3) by (metis sched_inv_def mset_append mset_eq_imp_distinct_iff distinct_append)
  then have "set ds \<subseteq> set (remove1 g (sd_running s))" using g by auto
  moreover have "mset (sd_running s) = {#g#} + mset (remove1 g (sd_running s))" using g by simp
  moreover have "length (remove1 g (sd_running s)) \<le> length (sd_running s)" by (simp add: length_remove1)
  ultimately show ?thesis using gather assms(2) collect_snoc
    by (intro exI [of _ "gathered @ [g]"]) (auto simp: sched_inv_def batch_results_def)
next
  case (give_up g ds e)
  then have "g \<in> set groups" using sched_inv_groups [OF assms(2)] assms(2) by (auto simp: sched_inv_def)
  then show ?thesis using give_up assms(2) by (intro exI [of _ gathered]) (auto simp: sched_inv_def)
qed

lemma sched_inv_run:
  assumes "(sched_step workers settle ^^ n) (schedule_start texts groups) s" "distinct groups"
  shows "\<exists>gathered. sched_inv workers settle texts groups gathered s"
  using assms(1)
proof (induction n arbitrary: s)
  case 0
  then show ?case using sched_inv_start [of workers settle texts groups] by auto
next
  case (Suc n)
  then obtain r where r: "(sched_step workers settle ^^ n) (schedule_start texts groups) r" "sched_step workers settle r s"
    by auto
  with Suc.IH [OF r(1)] obtain gathered where "sched_step workers settle r s" "sched_inv workers settle texts groups gathered r"
    by blast
  then show ?case using sched_inv_step [OF _ _ assms(2)] by blast
qed

subsection \<open>Termination\<close>

text \<open>What is left to do: every step takes one away.\<close>

definition sched_work :: "schedule \<Rightarrow> nat" where
  "sched_work s = 3 * length (sd_pending s) + 2 * length (sd_running s)
     + (if sd_raised s = None then 1 else 0) - (if sd_done s = [] then 0 else 1)"

lemma sched_work_step:
  assumes "sched_step workers settle s t" "sched_inv workers settle texts groups gathered s"
  shows "sched_work t < sched_work s"
  using assms(1)
proof cases
  case (gather g ds its)
  have "g \<in> set (sd_running s)" using gather assms(2) by (auto simp: sched_inv_def)
  then have "length (sd_running s) = Suc (length (remove1 g (sd_running s)))"
    using length_pos_if_in_set [of g "sd_running s"] by (simp add: length_remove1)
  then show ?thesis using gather by (simp add: sched_work_def)
next
  case (give_up g ds e)
  have "sd_running s \<noteq> []" using give_up assms(2) by (auto simp: sched_inv_def)
  then show ?thesis using give_up by (cases "sd_running s") (simp_all add: sched_work_def)
next
  case (await ds)
  then have "sd_running s \<noteq> []" by auto
  then show ?thesis using await by (cases "sd_running s") (simp_all add: sched_work_def)
qed (simp add: sched_work_def)

lemma sched_progress:
  assumes "sched_inv workers settle texts groups gathered s" "\<not> schedule_over s" "0 < workers"
    "\<forall>g\<in>set groups. settle g \<noteq> Inl GNoReturn"
  shows "\<exists>t. sched_step workers settle s t"
proof (cases "sd_done s")
  case (Cons g ds)
  then show ?thesis using assms(2) by (cases "settle g") (auto simp: schedule_over_def intro: gather give_up)
next
  case Nil
  consider g rest where "sd_pending s = g # rest" "length (sd_running s) < workers"
    | g rest where "sd_running s = g # rest" "sd_pending s = [] \<or> workers \<le> length (sd_running s)"
    using assms(2,3) by (cases "sd_pending s"; cases "sd_running s") (auto simp: schedule_over_def not_less [symmetric])
  then show ?thesis
  proof cases
    case 1
    then show ?thesis using Nil assms(2) by (auto simp: schedule_over_def intro!: exI submit)
  next
    case 2
    have "set (sd_running s) \<subseteq> set groups" using sched_inv_groups [OF assms(1)] by blast
    then have "settle g \<noteq> Inl GNoReturn" using 2(1) assms(4) by auto
    then show ?thesis using Nil 2 assms(2) await [of s workers "[g]" settle] by (auto simp: schedule_over_def)
  qed
qed

subsection \<open>Properties\<close>

text \<open>A run on two groups with a window of one: each group is submitted, awaited and gathered.\<close>

definition demo_settle :: settlement where
  "demo_settle g = Inr (map (\<lambda>_. item (lit ''A'') (lit ''p'') True Direct) g)"

lemma demo_run:
  "\<exists>s. (sched_step 1 demo_settle ^^ 6) (schedule_start [lit ''a'', lit ''b''] [[0], [1]]) s \<and> schedule_over s \<and> sd_raised s = None"
proof -
  let ?S = "schedule_start [lit ''a'', lit ''b''] [[0], [1]]"
  let ?it = "item (lit ''A'') (lit ''p'') True Direct"
  let ?step = "sched_step 1 demo_settle"
  define s1 where "s1 = ?S\<lparr>sd_pending := [[1]], sd_running := [[0]]\<rparr>"
  define s2 where "s2 = s1\<lparr>sd_done := [[0]]\<rparr>"
  define s3 where "s3 = s2\<lparr>sd_done := [], sd_running := [], sd_results := [?it, empty_item]\<rparr>"
  define s4 where "s4 = s3\<lparr>sd_pending := [], sd_running := [[1]]\<rparr>"
  define s5 where "s5 = s4\<lparr>sd_done := [[1]]\<rparr>"
  define s6 where "s6 = s5\<lparr>sd_done := [], sd_running := [], sd_results := [?it, ?it]\<rparr>"
  note d = s1_def s2_def s3_def s4_def s5_def s6_def schedule_start_def demo_settle_def
  have "?step ?S s1" using submit [of ?S "[0]" "[[1]]" 1 demo_settle] by (simp add: d)
  moreover have "?step s1 s2" using await [of s1 1 "[[0]]" demo_settle] by (simp add: d)
  moreover have "?step s2 s3" using gather [of s2 "[0]" "[]" demo_settle "[?it]" 1] by (simp add: d)
  moreover have "?step s3 s4" using submit [of s3 "[1]" "[]" 1 demo_settle] by (simp add: d)
  moreover have "?step s4 s5" using await [of s4 1 "[[1]]" demo_settle] by (simp add: d)
  moreover have "?step s5 s6" using gather [of s5 "[1]" "[]" demo_settle "[?it]" 1] by (simp add: d)
  ultimately have "(?step ^^ Suc (Suc (Suc (Suc (Suc (Suc 0)))))) ?S s6" by (auto intro!: relcomppI)
  then have "(?step ^^ 6) ?S s6" by (simp add: numeral_eq_Suc)
  moreover have "schedule_over s6" "sd_raised s6 = None" by (simp_all add: d schedule_over_def)
  ultimately show ?thesis by blast
qed

text \<open>
  C11: the collecting loop of a batch terminates. It makes at most three steps for each group and
  one more, and it cannot get stuck: while workers return, either it can go on, or every group
  has been gathered, or a failure has been raised.
\<close>

theorem schedule_terminates:
  assumes "(sched_step workers settle ^^ n) (schedule_start texts groups) s" "distinct groups" "0 < workers"
    and "\<forall>g\<in>set groups. settle g \<noteq> Inl GNoReturn"
  shows "n \<le> 3 * length groups + 1 \<and> (schedule_over s \<or> (\<exists>t. sched_step workers settle s t))"
proof -
  have "n + sched_work s \<le> 3 * length groups + 1"
    using assms(1)
  proof (induction n arbitrary: s)
    case 0
    then show ?case by (auto simp: sched_work_def schedule_start_def)
  next
    case (Suc n)
    then obtain r where r: "(sched_step workers settle ^^ n) (schedule_start texts groups) r" "sched_step workers settle r s"
      by auto
    then obtain gathered where "sched_inv workers settle texts groups gathered r" using sched_inv_run assms(2) by blast
    then show ?case using sched_work_step [OF r(2)] Suc.IH [OF r(1)] by fastforce
  qed
  moreover obtain gathered where "sched_inv workers settle texts groups gathered s" using sched_inv_run assms(1,2) by blast
  ultimately show ?thesis using sched_progress assms(3,4) by fastforce
qed

theorem schedule_terminates_witness:
  "\<exists>s. (sched_step 1 demo_settle ^^ 6) (schedule_start [lit ''a'', lit ''b''] [[0], [1]]) s \<and> (6 :: nat) \<le> 3 * 2 + 1"
proof -
  obtain s where r: "(sched_step 1 demo_settle ^^ 6) (schedule_start [lit ''a'', lit ''b''] [[0], [1]]) s"
    using demo_run by blast
  have "(6 :: nat) \<le> 3 * length [[0 :: nat], [1]] + 1"
    using schedule_terminates [OF r] by (simp add: demo_settle_def)
  then show ?thesis using r by auto
qed

text \<open>
  C8: the concurrent loop refines the sequential one. At any time at most \<open>workers\<close> groups are in
  flight; when the loop ends without a failure its results are those of translating the groups
  one after the other in the order of the text, and a failure it raises is that of a group.
\<close>

theorem schedule_refines_sequential:
  assumes "(sched_step workers settle ^^ n) (schedule_start texts groups) s"
    and "distinct (concat groups)" "\<forall>g\<in>set groups. g \<noteq> []" "\<forall>i\<in>set (concat groups). i < length texts"
    and "\<forall>g\<in>set groups. \<forall>its. settle g = Inr its \<longrightarrow> length its = length g"
  shows "length (sd_running s) \<le> workers
    \<and> (case sd_raised s of
         Some e \<Rightarrow> \<exists>g\<in>set groups. settle g = Inl e
       | None \<Rightarrow> schedule_over s \<longrightarrow> batch_results texts (map (\<lambda>g. (g, settle g)) groups) = Inr (sd_results s))"
proof -
  have dg: "distinct groups" using assms(2,3) by (rule distinct_groups)
  obtain ga where inv: "sched_inv workers settle texts groups ga s" using sched_inv_run [OF assms(1) dg] by blast
  have "batch_results texts (map (\<lambda>g. (g, settle g)) groups) = Inr (sd_results s)"
    if o: "sd_raised s = None" "schedule_over s"
  proof -
    have m: "mset ga = mset groups" "batch_results texts (map (\<lambda>g. (g, settle g)) ga) = Inr (sd_results s)"
      using inv o by (auto simp: sched_inv_def schedule_over_def)
    then have inr: "settle g = Inr (projr (settle g))" if "g \<in> set groups" for g
      using collect_Inr [OF m(2) [unfolded batch_results_def]] that mset_eq_setD [OF m(1)] by fastforce
    let ?out = "\<lambda>g. projr (settle g)"
    have eq: "map (\<lambda>g. (g, settle g)) gs = map (\<lambda>g. (g, Inr (?out g))) gs" if "set gs \<subseteq> set groups" for gs
      using inr that by auto
    have len: "\<forall>g\<in>set groups. length (?out g) = length g" using inr assms(5) by metis
    note pw = batch_results_pointwise [OF assms(2,4) len]
    obtain r1 where r1: "batch_results texts (map (\<lambda>g. (g, settle g)) groups) = Inr r1" "length r1 = length texts"
      "\<forall>g\<in>set groups. \<forall>j<length g. r1 ! (g ! j) = ?out g ! j"
      "\<forall>i<length texts. i \<notin> set (concat groups) \<longrightarrow> r1 ! i = empty_item"
      using pw [of groups] eq [of groups] by auto
    obtain r2 where r2: "batch_results texts (map (\<lambda>g. (g, settle g)) ga) = Inr r2" "length r2 = length texts"
      "\<forall>g\<in>set groups. \<forall>j<length g. r2 ! (g ! j) = ?out g ! j"
      "\<forall>i<length texts. i \<notin> set (concat groups) \<longrightarrow> r2 ! i = empty_item"
      using pw [of ga] eq [of ga] m(1) mset_eq_setD [OF m(1)] by auto
    have "r1 ! i = r2 ! i" if "i < length texts" for i
      using r1(3,4) r2(3,4) that by (cases "i \<in> set (concat groups)") (auto simp: in_set_conv_nth)
    then have "r1 = r2" using r1(2) r2(2) by (intro nth_equalityI) auto
    then show ?thesis using r1(1) r2(1) m(2) by simp
  qed
  then show ?thesis using inv by (auto simp: sched_inv_def split: option.splits)
qed

theorem schedule_refines_sequential_witness:
  "\<exists>s. (sched_step 1 demo_settle ^^ 6) (schedule_start [lit ''a'', lit ''b''] [[0], [1]]) s
     \<and> sd_results s = replicate 2 (item (lit ''A'') (lit ''p'') True Direct)"
proof -
  obtain s where r: "(sched_step 1 demo_settle ^^ 6) (schedule_start [lit ''a'', lit ''b''] [[0], [1]]) s"
    "schedule_over s" "sd_raised s = None" using demo_run by blast
  have "batch_results [lit ''a'', lit ''b''] (map (\<lambda>g. (g, demo_settle g)) [[0], [1]]) = Inr (sd_results s)"
    using schedule_refines_sequential [OF r(1)] r(2,3) by (simp add: demo_settle_def)
  then show ?thesis using r(1) by (auto simp: batch_results_def demo_settle_def numeral_2_eq_2)
qed

end
