(* ===== verification/Service.thy ===== *)
theory Service
  imports Server_Gate Cache_History Batch_Schedule Prompting Glossary
begin

section \<open>The translation service\<close>

text \<open>
  Models what the translation routes of \<open>server.py\<close> share: the state they change (cache, glossary,
  metrics, the held snapshot of \<open>/stats\<close>), the scope of a cache entry, the glossary of a request
  and \<open>_cache_lookup\<close>, the probe of a single text. A step of a route is an \<open>action\<close>: it takes the
  state and returns a value or an exception with the state it leaves. Clock readings are arguments.
\<close>

subsection \<open>Actions\<close>

datatype service_exn = OutOfBudget pystr | Raised py_error | NeverReturns

type_synonym ('s, 'a) action = "'s \<Rightarrow> (service_exn, 'a) result \<times> 's"

definition areturn :: "'a \<Rightarrow> ('s, 'a) action" where
  "areturn x s = (Inr x, s)"

definition alift :: "(py_error, 'a) result \<Rightarrow> ('s, 'a) action" where
  "alift r s = (case r of Inl e \<Rightarrow> (Inl (Raised e), s) | Inr x \<Rightarrow> (Inr x, s))"

definition abind :: "('s, 'a) action \<Rightarrow> ('a \<Rightarrow> ('s, 'b) action) \<Rightarrow> ('s, 'b) action" where
  "abind m f s = (case m s of (Inl e, t) \<Rightarrow> (Inl e, t) | (Inr x, t) \<Rightarrow> f x t)"

fun aeach :: "('a \<Rightarrow> ('s, unit) action) \<Rightarrow> 'a list \<Rightarrow> ('s, unit) action" where
  "aeach f [] = areturn ()"
| "aeach f (x # xs) = abind (f x) (\<lambda>_. aeach f xs)"

lemma action_Inr:
  "areturn x s = (Inr y, t) \<longleftrightarrow> y = x \<and> t = s"
  "alift r s = (Inr y, t) \<longleftrightarrow> r = Inr y \<and> t = s"
  "abind m f s = (Inr z, t) \<longleftrightarrow> (\<exists>x u. m s = (Inr x, u) \<and> f x u = (Inr z, t))"
  by (auto simp: areturn_def alift_def abind_def split: sum.splits prod.splits)

lemma aeach_invariant:
  assumes "aeach f xs s = (Inr u, t)" "P [] s"
    and "\<And>prior x xs' s t u. P prior s \<Longrightarrow> xs = prior @ x # xs' \<Longrightarrow> f x s = (Inr u, t) \<Longrightarrow> P (prior @ [x]) t"
  shows "P xs t"
proof -
  have "P (prior @ rest) t" if "aeach f rest s = (Inr u, t)" "P prior s" "xs = prior @ rest" for rest prior s
    using that
  proof (induction rest arbitrary: prior s)
    case Nil
    then show ?case by (simp add: action_Inr)
  next
    case (Cons x rest)
    obtain v s1 where v: "f x s = (Inr v, s1)" "aeach f rest s1 = (Inr u, t)" using Cons.prems(1) by (auto simp: action_Inr)
    have "P (prior @ [x]) s1" using assms(3) [OF Cons.prems(2,3) v(1)] .
    then show ?case using Cons.IH [OF v(2), of "prior @ [x]"] Cons.prems(3) by simp
  qed
  from this [of xs s "[]"] show ?thesis using assms(1,2) by simp
qed

subsection \<open>State\<close>

record service =
  se_cache :: cache_store
  se_glossary :: glossary_table
  se_metrics :: metrics
  se_stats :: "(nat \<times> int) option"
  se_stats_at :: real

record service_env =
  sn_config :: server_config
  sn_prompt :: prompt_env
  sn_pf :: "provider \<times> provider option"

type_synonym namespace = "pystr \<times> pystr \<times> pystr"

definition invalidate_stats_cache :: "service \<Rightarrow> service" where
  "invalidate_stats_cache se = se\<lparr>se_stats := None\<rparr>"

text \<open>\<open>/stats\<close> with its snapshot of five seconds; \<open>now\<close> and \<open>later\<close> are its two clock readings.\<close>

definition stats_route :: "real \<Rightarrow> real \<Rightarrow> datetime \<Rightarrow> datetime \<Rightarrow> (service, nat \<times> int) action" where
  "stats_route now later flush_now stats_now se =
     (case se_stats se of
        Some payload \<Rightarrow>
          if now - se_stats_at se < 5 then (Inr payload, se)
          else (case cache_stats flush_now stats_now (se_cache se) of
                  (Inl e, c) \<Rightarrow> (Inl (Raised e), se\<lparr>se_cache := c\<rparr>)
                | (Inr fresh, c) \<Rightarrow> (Inr fresh, se\<lparr>se_cache := c, se_stats := Some fresh, se_stats_at := later\<rparr>))
      | None \<Rightarrow>
          (case cache_stats flush_now stats_now (se_cache se) of
             (Inl e, c) \<Rightarrow> (Inl (Raised e), se\<lparr>se_cache := c\<rparr>)
           | (Inr fresh, c) \<Rightarrow> (Inr fresh, se\<lparr>se_cache := c, se_stats := Some fresh, se_stats_at := later\<rparr>)))"

definition contract_scope :: "namespace \<Rightarrow> contract \<Rightarrow> pystr \<Rightarrow> pystr \<Rightarrow> (py_error, cache_scope) result" where
  "contract_scope ns c provider model =
     (case ns of (tenant, book_id, chapter_id) \<Rightarrow>
        new_scope (PStr tenant) (PStr book_id) (PStr chapter_id) (PStr (context_hash c)) (PStr provider) (PStr model)
          (PStr (prompt_hash c)) (PStr (protocol_version c)))"

definition request_glossary :: "(pystr \<Rightarrow> pystr) \<Rightarrow> namespace \<Rightarrow> service \<Rightarrow> pyval list" where
  "request_glossary sha ns se =
     (case list_entries sha (fst ns) (fst (snd ns)) (se_glossary se) of
        Inl _ \<Rightarrow> []
      | Inr es \<Rightarrow> map (\<lambda>(a, b). PList [PStr a, PStr b]) es)"

subsection \<open>The probe of a single text\<close>

text \<open>The exchanges with the cache, in order: a probe that raises is skipped, a bad scope is not.\<close>

fun probe_contracts ::
  "(pystr \<Rightarrow> pystr) \<Rightarrow> (nat \<Rightarrow> datetime \<times> datetime) \<Rightarrow> namespace \<Rightarrow> pystr \<Rightarrow> pystr \<Rightarrow> pystr \<Rightarrow> nat
   \<Rightarrow> (pystr \<times> pystr \<times> contract) list \<Rightarrow> (service, pystr option) action" where
  "probe_contracts sha clock ns body sl tg k [] se = (Inr None, se)"
| "probe_contracts sha clock ns body sl tg k ((provider, model, c) # rest) se =
     (case contract_scope ns c provider model of
        Inl e \<Rightarrow> (Inl (Raised e), se)
      | Inr scope \<Rightarrow>
         (case cs_get sha (fst (clock k)) (snd (clock k)) (PStr body) (PStr sl) (PStr tg) (Scope scope) True (se_cache se) of
            (Inr (Some hit), st) \<Rightarrow> (Inr (Some hit), se\<lparr>se_cache := st\<rparr>)
          | (_, st) \<Rightarrow> probe_contracts sha clock ns body sl tg (k + 1) rest (se\<lparr>se_cache := st\<rparr>)))"

definition lookup_contracts :: "prompt_env \<Rightarrow> pystr \<Rightarrow> pystr \<Rightarrow> pystr \<Rightarrow> pyval list \<Rightarrow> (py_error, contract list) result" where
  "lookup_contracts pe body sl tg gl =
     rbind (single_cache_contract pe sl tg (Some gl)) (\<lambda>c.
       Inr (case batch_cache_contract pe [body] [0] sl tg (Some gl) of
              Inl _ \<Rightarrow> [c]
            | Inr b \<Rightarrow> if b = c then [c] else [c, b]))"

definition cache_lookup ::
  "service_env \<Rightarrow> (nat \<Rightarrow> datetime \<times> datetime) \<Rightarrow> namespace \<Rightarrow> bool \<Rightarrow> pyval list \<Rightarrow> pystr \<Rightarrow> pystr \<Rightarrow> pystr
   \<Rightarrow> (service, pystr option) action" where
  "cache_lookup env clock ns allow gl body sl tg =
     abind (alift (lookup_contracts (sn_prompt env) body sl tg gl)) (\<lambda>cs.
       probe_contracts (pe_sha (sn_prompt env)) clock ns body sl tg 0
         (concat (map (\<lambda>(p, m). map (\<lambda>c. (p, m, c)) cs) (cache_lookup_backends (sn_pf env) allow))))"

subsection \<open>Facts\<close>

text \<open>
  What a store \<open>st\<close> has in common with an earlier one: rows only disappear or count hits. This is
  how a request that reads leaves the cache.
\<close>

definition rows_from :: "cache_store \<Rightarrow> cache_store \<Rightarrow> bool" where
  "rows_from st0 st \<longleftrightarrow> cs_ttl_days st = cs_ttl_days st0
     \<and> (distinct_keys (cs_rows st0) \<longrightarrow> distinct_keys (cs_rows st)
          \<and> (\<forall>k r. map_of (cs_rows st) k = Some r \<longrightarrow>
               (\<exists>r0. map_of (cs_rows st0) k = Some r0 \<and> cr_translated_text r = cr_translated_text r0
                  \<and> cr_created_at r = cr_created_at r0)))"

lemma rows_from_refl [simp]: "rows_from st st"
  by (simp add: rows_from_def)

lemma rows_from_trans: "rows_from a b \<Longrightarrow> rows_from b c \<Longrightarrow> rows_from a c"
  unfolding rows_from_def by metis

lemma map_of_bumped:
  "map_of (fold (bump_hit a) ps d) k = Some r \<Longrightarrow>
   \<exists>r0. map_of d k = Some r0 \<and> cr_translated_text r = cr_translated_text r0 \<and> cr_created_at r = cr_created_at r0"
proof (induction ps arbitrary: d)
  case (Cons p ps)
  then obtain r1 where r1: "map_of (bump_hit a p d) k = Some r1" "cr_translated_text r = cr_translated_text r1"
    "cr_created_at r = cr_created_at r1" by fastforce
  then show ?case by (auto simp: bump_hit_def map_of_map_entry split: if_splits option.splits)
qed simp

lemma rows_from_flush: "rows_from st (snd (flush_hits n st))"
  by (auto simp: rows_from_def flush_hits_def dest: map_of_bumped)

lemma rows_from_queue: "rows_from st (queue_hit n k st)"
proof -
  let ?s = "st\<lparr>cs_pending_hits := AList.update k (Suc (case map_of (cs_pending_hits st) k of None \<Rightarrow> 0 | Some n \<Rightarrow> n)) (cs_pending_hits st),
      cs_pending_hits_total := Suc (cs_pending_hits_total st)\<rparr>"
  have "rows_from st ?s" by (simp add: rows_from_def)
  then show ?thesis using rows_from_trans rows_from_flush [of ?s n] by (auto simp: queue_hit_def Let_def)
qed

lemma rows_from_queue_fold: "rows_from st (fold (queue_hit n) ks st)"
proof (induction ks arbitrary: st)
  case (Cons k ks)
  then show ?case using rows_from_trans [OF rows_from_queue Cons.IH] by simp
qed simp

lemma rows_from_filter: "rows_from st (st\<lparr>cs_rows := filter P (cs_rows st)\<rparr>)"
  by (auto simp: rows_from_def dest: map_of_filter_SomeD)

lemma rows_from_get: "rows_from st (snd (cs_get sha now fl t s g sc rec st))"
  using rows_from_queue rows_from_filter
  by (auto simp: cs_get_def delete_key_filter split: sum.splits option.splits)

lemma rows_from_get_many: "rows_from st (snd (cs_get_many sha now fl qs rec st))"
proof -
  have "rows_from st (if rec then fold (queue_hit fl) ks (st\<lparr>cs_rows := filter P (cs_rows st)\<rparr>)
      else st\<lparr>cs_rows := filter P (cs_rows st)\<rparr>)" for ks P
    using rows_from_trans [OF rows_from_filter rows_from_queue_fold] rows_from_filter by auto
  then show ?thesis by (auto simp: cs_get_many_def collect_hits_eq Let_def split: sum.splits)
qed

lemma rows_from_record_hit: "rows_from st (snd (record_hit sha now t s g sc st))"
  using rows_from_queue by (auto simp: record_hit_def split: sum.splits)

end
