(* ===== verification/Batch_Service.thy ===== *)
theory Batch_Service
  imports Service
begin

section \<open>Serving a batch\<close>

text \<open>
  Models \<open>_translate_paragraphs\<close> of \<open>server.py\<close>: groups are served from the cache as a whole or
  translated as a whole, hits are probed once per request, and fresh translations are written
  back. The five parallel result lists of the code are one list of slots. The workers of the
  missing groups meet the environment and the state \<open>bi_worker\<close> gives them and complete in the
  order \<open>bi_order\<close>; theory \<open>Batch_Schedule\<close> shows that the concurrent loop ends with the same
  results. Recovery counters of workers that outlive a failed request reach the metrics later
  and are left out.
\<close>

subsection \<open>Model\<close>

record slot =
  sl_text :: pystr
  sl_backend :: pystr
  sl_cached :: bool
  sl_error :: "pystr option"
  sl_retry :: "nat option"

definition blank_slot :: slot where
  "blank_slot = \<lparr>sl_text = [], sl_backend = [], sl_cached = False, sl_error = None, sl_retry = None\<rparr>"

type_synonym memo_key = "pystr \<times> pystr \<times> pystr \<times> pystr \<times> pystr \<times> pystr"
type_synonym probe_item = "nat \<times> pystr \<times> cache_scope \<times> memo_key"

record worker_io =
  wk_call :: call_env
  wk_tokens :: "nat \<Rightarrow> pystr"
  wk_parse :: "pystr \<Rightarrow> pyval option"
  wk_ios :: "nat \<Rightarrow> provider \<Rightarrow> nat \<Rightarrow> attempt_io"
  wk_clock :: "nat \<Rightarrow> seconds"
  wk_state :: group_state

record batch_io =
  bi_probe :: "nat \<Rightarrow> datetime \<times> datetime"
  bi_hit :: "nat \<Rightarrow> datetime"
  bi_write :: "datetime \<times> datetime"
  bi_worker :: "nat list \<Rightarrow> worker_io"
  bi_order :: "nat list list \<Rightarrow> nat list list"
  bi_elapsed :: nat

text \<open>What the request asks for.\<close>

record batch_job =
  bj_texts :: "pystr list"
  bj_source :: pystr
  bj_target :: pystr
  bj_namespace :: namespace
  bj_allow :: bool
  bj_glossary :: "pyval list"

record batch_run =
  bs_service :: service
  bs_memo :: "(memo_key \<times> (pystr option \<times> cache_scope)) list"
  bs_probes :: nat
  bs_slots :: "slot list"
  bs_missing :: "(nat list \<times> contract) list"
  bs_cached :: nat

definition probe_item :: "batch_job \<Rightarrow> contract \<Rightarrow> pystr \<Rightarrow> pystr \<Rightarrow> nat \<Rightarrow> (py_error, probe_item) result" where
  "probe_item job c provider model i =
     rbind (contract_scope (bj_namespace job) c provider model) (\<lambda>scope.
       Inr (i, bj_texts job ! i, scope,
            (bj_texts job ! i, provider, model, context_hash c, prompt_hash c, protocol_version c)))"

definition item_key :: "probe_item \<Rightarrow> memo_key" where
  "item_key it = snd (snd (snd it))"

definition item_query :: "batch_job \<Rightarrow> probe_item \<Rightarrow> cache_query" where
  "item_query job it =
     (PStr (fst (snd it)), PStr (bj_source job), PStr (bj_target job), Scope (fst (snd (snd it))))"

text \<open>\<open>_probe_many\<close>: the answers by index; what the memo does not hold is fetched in one query.\<close>

definition probe_many :: "service_env \<Rightarrow> batch_io \<Rightarrow> batch_job \<Rightarrow> probe_item list \<Rightarrow> (batch_run, (nat \<times> pystr option) list) action" where
  "probe_many env io job items bs =
     (let memo = map_of (bs_memo bs);
          known = filter (\<lambda>it. memo (item_key it) \<noteq> None) items;
          missing = filter (\<lambda>it. memo (item_key it) = None) items;
          old = map (\<lambda>it. (fst it, fst (the (memo (item_key it))))) known
      in if missing = [] then (Inr old, bs)
         else (case cs_get_many (pe_sha (sn_prompt env)) (fst (bi_probe io (bs_probes bs))) (snd (bi_probe io (bs_probes bs)))
                      (map (item_query job) missing) False (se_cache (bs_service bs)) of
                 (Inl e, c) \<Rightarrow> (Inl (Raised e), bs\<lparr>bs_service := (bs_service bs)\<lparr>se_cache := c\<rparr>\<rparr>)
               | (Inr hits, c) \<Rightarrow>
                   (Inr (old @ zip (map fst missing) hits),
                    bs\<lparr>bs_service := (bs_service bs)\<lparr>se_cache := c\<rparr>, bs_probes := bs_probes bs + 1,
                       bs_memo := fold (\<lambda>(it, hit). AList.update (item_key it) (hit, fst (snd (snd it)))) (zip missing hits) (bs_memo bs)\<rparr>)))"

fun candidate :: "(nat \<times> pystr option) list \<Rightarrow> probe_item list \<Rightarrow> (nat \<times> pystr \<times> cache_scope) list option" where
  "candidate probed [] = Some []"
| "candidate probed ((i, body, scope, k) # rest) =
     (case map_of probed i of
        Some (Some hit) \<Rightarrow> map_option (Cons (i, hit, scope)) (candidate probed rest)
      | _ \<Rightarrow> None)"

definition accept :: "service_env \<Rightarrow> batch_io \<Rightarrow> batch_job \<Rightarrow> probe_item list \<Rightarrow> (batch_run, (nat \<times> pystr \<times> cache_scope) list option) action" where
  "accept env io job items =
     abind (probe_many env io job items) (\<lambda>probed.
       areturn (case candidate probed items of Some [] \<Rightarrow> None | r \<Rightarrow> r))"

fun try_backends ::
  "service_env \<Rightarrow> batch_io \<Rightarrow> batch_job \<Rightarrow> nat list \<Rightarrow> contract \<Rightarrow> (pystr \<times> pystr) list
   \<Rightarrow> (batch_run, (nat \<times> pystr \<times> cache_scope) list option) action" where
  "try_backends env io job g c [] = areturn None"
| "try_backends env io job g c ((provider, model) # rest) =
     abind (alift (rmap (probe_item job c provider model) g)) (\<lambda>items.
     abind (accept env io job items) (\<lambda>r.
       case r of Some a \<Rightarrow> areturn (Some a) | None \<Rightarrow> try_backends env io job g c rest))"

text \<open>The batch contract under every backend, then the contract of single texts.\<close>

definition lookup_group ::
  "service_env \<Rightarrow> batch_io \<Rightarrow> batch_job \<Rightarrow> nat list \<Rightarrow> contract \<Rightarrow> (batch_run, (nat \<times> pystr \<times> cache_scope) list option) action" where
  "lookup_group env io job g c =
     (let backends = cache_lookup_backends (sn_pf env) (bj_allow job) in
      abind (try_backends env io job g c backends) (\<lambda>r.
        case r of
          Some a \<Rightarrow> areturn (Some a)
        | None \<Rightarrow>
            abind (alift (single_cache_contract (sn_prompt env) (bj_source job) (bj_target job) (Some (bj_glossary job)))) (\<lambda>single.
              try_backends env io job g single backends)))"

definition hit_slot :: "pystr \<Rightarrow> slot" where
  "hit_slot hit = \<lparr>sl_text = hit, sl_backend = lit ''cache'', sl_cached = True, sl_error = None, sl_retry = None\<rparr>"

definition serve_hit :: "service_env \<Rightarrow> batch_io \<Rightarrow> batch_job \<Rightarrow> nat \<times> pystr \<times> cache_scope \<Rightarrow> (batch_run, unit) action" where
  "serve_hit env io job a bs =
     (case a of (i, hit, scope) \<Rightarrow>
        (case record_hit (pe_sha (sn_prompt env)) (bi_hit io i) (PStr (bj_texts job ! i)) (PStr (bj_source job)) (PStr (bj_target job))
                (Scope scope) (se_cache (bs_service bs)) of
           (r, c) \<Rightarrow>
             alift r (bs\<lparr>bs_service := (bs_service bs)\<lparr>se_cache := c\<rparr>, bs_cached := bs_cached bs + 1,
                        bs_slots := (bs_slots bs)[i := hit_slot hit]\<rparr>)))"

definition serve_group :: "service_env \<Rightarrow> batch_io \<Rightarrow> batch_job \<Rightarrow> nat list \<times> contract \<Rightarrow> (batch_run, unit) action" where
  "serve_group env io job gc =
     abind (lookup_group env io job (fst gc) (snd gc)) (\<lambda>r.
       case r of
         None \<Rightarrow> (\<lambda>bs. (Inr (), bs\<lparr>bs_missing := bs_missing bs @ [gc]\<rparr>))
       | Some accepted \<Rightarrow> aeach (serve_hit env io job) accepted)"

subsubsection \<open>Fresh translations\<close>

definition group_env_of :: "service_env \<Rightarrow> batch_job \<Rightarrow> worker_io \<Rightarrow> group_env" where
  "group_env_of env job wk =
     \<lparr>ge_call = wk_call wk, ge_prompt = sn_prompt env, ge_pf = sn_pf env, ge_allow = bj_allow job,
      ge_sl = bj_source job, ge_tg = bj_target job, ge_glossary = Some (bj_glossary job), ge_tokens = wk_tokens wk,
      ge_parse = wk_parse wk, ge_ios = wk_ios wk, ge_clock = wk_clock wk\<rparr>"

definition worker_of :: "service_env \<Rightarrow> batch_io \<Rightarrow> batch_job \<Rightarrow> nat list \<Rightarrow> group_env \<times> group_state" where
  "worker_of env io job g = (group_env_of env job (bi_worker io g), wk_state (bi_worker io g))"

definition group_recovery :: "service_env \<Rightarrow> batch_io \<Rightarrow> batch_job \<Rightarrow> nat list \<Rightarrow> counters" where
  "group_recovery env io job g =
     (case worker_of env io job g of (ge, st) \<Rightarrow>
        (case gs_tracker (snd (do_group ge (bj_texts job) g st)) of None \<Rightarrow> [] | Some t \<Rightarrow> rt_counts t))"

definition recovery_counts :: "counters list \<Rightarrow> counters" where
  "recovery_counts cs =
     map (\<lambda>n. (n, sum_list (map (\<lambda>c. case map_of c n of None \<Rightarrow> 0 | Some k \<Rightarrow> k) cs))) recovery_metric_names"

text \<open>A worker ends with nothing else than these two (theory \<open>Batch_Facts\<close>).\<close>

definition group_exn_of :: "group_error \<Rightarrow> service_exn" where
  "group_exn_of e = (case e of GBudget r \<Rightarrow> OutOfBudget r | GNoReturn \<Rightarrow> NeverReturns | _ \<Rightarrow> Raised (RuntimeError []))"

text \<open>\<open>translate_batch_detailed\<close> for the missing groups, and the flush of its recovery counters.\<close>

definition run_batch :: "service_env \<Rightarrow> batch_io \<Rightarrow> batch_job \<Rightarrow> nat list list \<Rightarrow> (batch_run, batch_item list) action" where
  "run_batch env io job groups bs =
     (if \<not> selected_ok (pe_cfg (sn_prompt env)) (bj_texts job) (map (map int) groups)
      then (Inl (Raised (ValueError (lit ''selected_groups must contain unique ordered non-empty indices''))), bs)
      else let order = bi_order io groups;
               se = bs_service bs;
               bs1 = bs\<lparr>bs_service := se\<lparr>se_metrics :=
                        record_segment_recovery_safely (recovery_counts (map (group_recovery env io job) order)) (se_metrics se)\<rparr>\<rparr>
           in (case batch_results (bj_texts job) (map (\<lambda>g. (g, settled_by (bj_texts job) (worker_of env io job) g)) order) of
                 Inl e \<Rightarrow> (Inl (group_exn_of e), bs1)
               | Inr items \<Rightarrow> (Inr items, bs1)))"

definition settled_slot :: "batch_item \<Rightarrow> slot" where
  "settled_slot it =
     \<lparr>sl_text = it_text it, sl_backend = (if it_provider it = [] then lit ''unknown'' else it_provider it), sl_cached = False,
      sl_error = it_error it, sl_retry = it_retry_after it\<rparr>"

definition is_error_text :: "pystr \<Rightarrow> bool" where
  "is_error_text t \<longleftrightarrow> prefix (lit ''[TRANSLATION ERROR:'') t"

definition cache_write :: "service_env \<Rightarrow> batch_job \<Rightarrow> batch_item list \<Rightarrow> nat \<times> contract \<Rightarrow> (py_error, cache_entry) result" where
  "cache_write env job items ic =
     (case ic of (i, c) \<Rightarrow>
        rbind (contract_scope (bj_namespace job) c (it_provider (items ! i)) (model_for_provider (sn_pf env) (it_provider (items ! i))))
          (\<lambda>scope. Inr (PStr (bj_texts job ! i), PStr (bj_source job), PStr (bj_target job), PStr (it_text (items ! i)), Scope scope)))"

definition indexed :: "(nat list \<times> contract) list \<Rightarrow> (nat \<times> contract) list" where
  "indexed gcs = concat (map (\<lambda>(g, c). map (\<lambda>i. (i, c)) g) gcs)"

definition write_back :: "service_env \<Rightarrow> batch_io \<Rightarrow> cache_entry list \<Rightarrow> service \<Rightarrow> service" where
  "write_back env io writes se =
     (if writes = [] then se
      else case put_many (pe_sha (sn_prompt env)) (fst (bi_write io)) (snd (bi_write io)) writes (se_cache se) of
             (Inl _, c) \<Rightarrow> se\<lparr>se_cache := c\<rparr>
           | (Inr _, c) \<Rightarrow> invalidate_stats_cache (se\<lparr>se_cache := c\<rparr>))"

definition place_slots :: "batch_item list \<Rightarrow> (nat \<times> contract) list \<Rightarrow> slot list \<Rightarrow> slot list" where
  "place_slots items ics row = fold (\<lambda>(i, _) ss. ss[i := settled_slot (items ! i)]) ics row"

text \<open>The indices whose text is no error marker count as fresh; the cacheable ones are written back.\<close>

definition fresh_indices :: "batch_item list \<Rightarrow> (nat list \<times> contract) list \<Rightarrow> (nat \<times> contract) list" where
  "fresh_indices items missing = filter (\<lambda>(i, _). \<not> is_error_text (it_text (items ! i))) (indexed missing)"

definition finish_missing :: "service_env \<Rightarrow> batch_io \<Rightarrow> batch_job \<Rightarrow> (nat list \<times> contract) list \<Rightarrow> batch_item list \<Rightarrow> (batch_run, nat) action" where
  "finish_missing env io job missing items bs =
     (let fresh = fresh_indices items missing in
      abind (alift (rmap (cache_write env job items) (filter (\<lambda>(i, _). it_cacheable (items ! i)) fresh)))
        (\<lambda>writes bs1. (Inr (length fresh), bs1\<lparr>bs_service := write_back env io writes (bs_service bs1)\<rparr>))
        (bs\<lparr>bs_slots := place_slots items (indexed missing) (bs_slots bs)\<rparr>))"

definition translate_missing :: "service_env \<Rightarrow> batch_io \<Rightarrow> batch_job \<Rightarrow> (batch_run, nat) action" where
  "translate_missing env io job bs =
     (if bs_missing bs = [] then (Inr 0, bs)
      else abind (run_batch env io job (map fst (bs_missing bs))) (finish_missing env io job (bs_missing bs)) bs)"

subsubsection \<open>The whole batch\<close>

record batch_reply =
  br_slots :: "slot list"
  br_cached :: nat
  br_fresh :: nat
  br_elapsed :: nat

definition group_contracts :: "service_env \<Rightarrow> batch_job \<Rightarrow> nat list list \<Rightarrow> (py_error, (nat list \<times> contract) list) result" where
  "group_contracts env job groups =
     rmap (\<lambda>g. rbind (batch_cache_contract (sn_prompt env) (bj_texts job) (map int g) (bj_source job) (bj_target job)
                        (Some (bj_glossary job))) (\<lambda>c. Inr (g, c))) groups"

definition record_plan :: "batch_job \<Rightarrow> nat list list \<Rightarrow> (service, unit) action" where
  "record_plan job groups se =
     (case record_batch_plan (bj_texts job) groups (se_metrics se) of
        Inl e \<Rightarrow> (Inl (Raised e), se)
      | Inr m \<Rightarrow> (Inr (), se\<lparr>se_metrics := m\<rparr>))"

definition start_run :: "batch_job \<Rightarrow> service \<Rightarrow> batch_run" where
  "start_run job se =
     \<lparr>bs_service = se, bs_memo = [], bs_probes = 0, bs_slots = map (\<lambda>_. blank_slot) (bj_texts job), bs_missing = [], bs_cached = 0\<rparr>"

definition run_groups :: "service_env \<Rightarrow> batch_io \<Rightarrow> batch_job \<Rightarrow> (nat list \<times> contract) list \<Rightarrow> (batch_run, nat) action" where
  "run_groups env io job gcs = abind (aeach (serve_group env io job) gcs) (\<lambda>_. translate_missing env io job)"

text \<open>The service keeps what a run did to it also when the run raises.\<close>

definition run_plan :: "service_env \<Rightarrow> batch_io \<Rightarrow> batch_job \<Rightarrow> (nat list \<times> contract) list \<Rightarrow> (service, nat \<times> batch_run) action" where
  "run_plan env io job gcs se =
     (case run_groups env io job gcs (start_run job se) of
        (Inl e, bs) \<Rightarrow> (Inl e, bs_service bs)
      | (Inr fresh, bs) \<Rightarrow> (Inr (fresh, bs), bs_service bs))"

definition finish_batch :: "batch_io \<Rightarrow> nat \<times> batch_run \<Rightarrow> (service, batch_reply) action" where
  "finish_batch io r se =
     (case r of (fresh, bs) \<Rightarrow>
        (Inr \<lparr>br_slots = bs_slots bs, br_cached = bs_cached bs, br_fresh = fresh, br_elapsed = bi_elapsed io\<rparr>,
         if bs_cached bs = 0 then se else invalidate_stats_cache se))"

definition translate_paragraphs :: "service_env \<Rightarrow> batch_io \<Rightarrow> batch_job \<Rightarrow> (service, batch_reply) action" where
  "translate_paragraphs env io job =
     abind (alift (translation_groups (pe_cfg (sn_prompt env)) (bj_texts job) PNone PNone)) (\<lambda>groups.
     abind (record_plan job groups) (\<lambda>_.
     abind (alift (group_contracts env job groups)) (\<lambda>gcs.
     abind (run_plan env io job gcs) (finish_batch io))))"

end
