(* ===== verification/Batch_Service_Facts.thy ===== *)
theory Batch_Service_Facts
  imports Batch_Service Prompt_Facts
begin

section \<open>Facts about serving a batch\<close>

text \<open>
  What a reply of \<open>translate_paragraphs\<close> consists of: groups served as a whole from rows that the
  cache held under one backend and one contract of the request's own scope, and groups whose
  slots are the items of their worker; and what the request writes to the cache.
\<close>

subsection \<open>Answers of the cache\<close>

text \<open>The text \<open>hit\<close> stands in a row of \<open>st\<close>, not expired at a probe, under the scope of the key.\<close>

fun row_served :: "service_env \<Rightarrow> batch_io \<Rightarrow> batch_job \<Rightarrow> cache_store \<Rightarrow> memo_key \<Rightarrow> pystr \<Rightarrow> bool" where
  "row_served env io job st (body, provider, model, ch, ph, pv) hit =
     (\<exists>scope k r n limit.
        contract_scope (bj_namespace job) \<lparr>prompt_hash = ph, protocol_version = pv, context_hash = ch\<rparr> provider model = Inr scope
        \<and> compute_key (pe_sha (sn_prompt env)) (PStr body) (PStr (bj_source job)) (PStr (bj_target job)) (Scope scope) = Inr k
        \<and> map_of (cs_rows st) k = Some r \<and> hit = cr_translated_text r
        \<and> cutoff (fst (bi_probe io n)) (cs_ttl_days st) = Inr limit \<and> \<not> cr_created_at r < limit)"

declare row_served.simps [simp del]

definition probe_item_ok :: "batch_job \<Rightarrow> probe_item \<Rightarrow> bool" where
  "probe_item_ok job it \<longleftrightarrow>
     (case it of (i, body, scope, (body', provider, model, ch, ph, pv)) \<Rightarrow>
        body' = body
        \<and> contract_scope (bj_namespace job) \<lparr>prompt_hash = ph, protocol_version = pv, context_hash = ch\<rparr> provider model = Inr scope)"

definition memo_ok :: "service_env \<Rightarrow> batch_io \<Rightarrow> batch_job \<Rightarrow> cache_store \<Rightarrow> batch_run \<Rightarrow> bool" where
  "memo_ok env io job st bs \<longleftrightarrow> rows_from st (se_cache (bs_service bs))
     \<and> (\<forall>key hit scope. map_of (bs_memo bs) key = Some (Some hit, scope) \<longrightarrow> row_served env io job st key hit)"

text \<open>What probing leaves alone.\<close>

definition same_outcome :: "batch_run \<Rightarrow> batch_run \<Rightarrow> bool" where
  "same_outcome a b \<longleftrightarrow> bs_slots a = bs_slots b \<and> bs_missing a = bs_missing b \<and> bs_cached a = bs_cached b"

lemma same_outcome_refl [simp]: "same_outcome a a"
  by (simp add: same_outcome_def)

lemma same_outcome_trans: "same_outcome a b \<Longrightarrow> same_outcome b c \<Longrightarrow> same_outcome a c"
  by (simp add: same_outcome_def)

lemma get_many_length:
  "cs_get_many sha now fl qs rec st = (Inr out, st') \<Longrightarrow> length out = length qs"
  by (auto simp: cs_get_many_def collect_hits_eq Let_def dest!: rmap_Inr_length split: sum.splits if_splits)

lemma get_many_served:
  assumes "cs_get_many (pe_sha (sn_prompt env)) (fst (bi_probe io n)) fl (map (item_query job) items) False c = (Inr hits, c')"
    and "rows_from st c" "distinct_keys (cs_rows st)" "list_all (probe_item_ok job) items"
    and "(it, Some hit) \<in> set (zip items hits)"
  shows "row_served env io job st (item_key it) hit"
proof -
  obtain j where j: "j < length items" "items ! j = it" "hits ! j = Some hit"
    using assms(5) by (auto simp: in_set_zip)
  obtain i body scope provider model ch ph pv where it: "it = (i, body, scope, (body, provider, model, ch, ph, pv))"
    "contract_scope (bj_namespace job) \<lparr>prompt_hash = ph, protocol_version = pv, context_hash = ch\<rparr> provider model = Inr scope"
    using assms(4) j by (cases it) (auto simp: probe_item_ok_def list_all_length)
  have q: "map (item_query job) items ! j = (PStr body, PStr (bj_source job), PStr (bj_target job), Scope scope)"
    using j it(1) by (simp add: item_query_def)
  obtain k limit r where k: "compute_key (pe_sha (sn_prompt env)) (PStr body) (PStr (bj_source job)) (PStr (bj_target job)) (Scope scope) = Inr k"
    "cutoff (fst (bi_probe io n)) (cs_ttl_days c) = Inr limit" "map_of (cs_rows c) k = Some r" "\<not> cr_created_at r < limit"
    "hit = cr_translated_text r"
    using cs_get_many_Inr [OF _ _ j(3) q, of "pe_sha (sn_prompt env)" "fst (bi_probe io n)" fl False c] assms(1) j(1) by auto
  then obtain r0 where "map_of (cs_rows st) k = Some r0" "cr_translated_text r = cr_translated_text r0"
    "cr_created_at r = cr_created_at r0" "cs_ttl_days c = cs_ttl_days st"
    using assms(2,3) unfolding rows_from_def by blast
  then show ?thesis using k it by (auto simp: item_key_def row_served.simps)
qed

lemma map_of_memo:
  "map_of (fold (\<lambda>(it, hit). AList.update (item_key it) (hit, fst (snd (snd it)))) zs m) key = Some v \<Longrightarrow>
   map_of m key = Some v \<or> (\<exists>(it, hit)\<in>set zs. item_key it = key \<and> v = (hit, fst (snd (snd it))))"
proof (induction zs arbitrary: m)
  case (Cons z zs)
  then show ?case by (cases z) (fastforce split: if_splits)
qed simp

lemma probe_many_facts:
  assumes "probe_many env io job items bs = (Inr probed, bs')" "memo_ok env io job st bs" "distinct_keys (cs_rows st)"
    and "list_all (probe_item_ok job) items"
  shows "memo_ok env io job st bs' \<and> same_outcome bs' bs
    \<and> (\<forall>i hit. (i, Some hit) \<in> set probed \<longrightarrow> (\<exists>it\<in>set items. fst it = i \<and> row_served env io job st (item_key it) hit))"
proof -
  let ?memo = "map_of (bs_memo bs)"
  let ?missing = "filter (\<lambda>it. ?memo (item_key it) = None) items"
  let ?old = "map (\<lambda>it. (fst it, fst (the (?memo (item_key it))))) (filter (\<lambda>it. ?memo (item_key it) \<noteq> None) items)"
  have old: "\<exists>it\<in>set items. fst it = i \<and> row_served env io job st (item_key it) hit" if "(i, Some hit) \<in> set ?old" for i hit
  proof -
    from that obtain it v where it: "it \<in> set items" "?memo (item_key it) = Some v" "fst it = i" "fst v = Some hit" by auto
    then obtain scope where "?memo (item_key it) = Some (Some hit, scope)" by (cases v) auto
    then have "row_served env io job st (item_key it) hit" using assms(2) unfolding memo_ok_def by blast
    then show ?thesis using it by blast
  qed
  show ?thesis
  proof (cases "?missing = []")
    case True
    then show ?thesis using assms(1,2) old by (auto simp: probe_many_def Let_def)
  next
    case False
    then obtain hits c where g: "cs_get_many (pe_sha (sn_prompt env)) (fst (bi_probe io (bs_probes bs))) (snd (bi_probe io (bs_probes bs)))
          (map (item_query job) ?missing) False (se_cache (bs_service bs)) = (Inr hits, c)"
      "probed = ?old @ zip (map fst ?missing) hits" "se_cache (bs_service bs') = c" "same_outcome bs' bs"
      "bs_memo bs' = fold (\<lambda>(it, hit). AList.update (item_key it) (hit, fst (snd (snd it)))) (zip ?missing hits) (bs_memo bs)"
      using assms(1) by (auto simp: probe_many_def Let_def same_outcome_def split: prod.splits sum.splits if_splits)
    have ok: "list_all (probe_item_ok job) ?missing" using assms(4) by (auto simp: list_all_iff)
    have served: "row_served env io job st (item_key it) hit" if "(it, Some hit) \<in> set (zip ?missing hits)" for it hit
      using get_many_served [OF g(1) _ assms(3) ok that] assms(2) by (simp add: memo_ok_def)
    have c: "rows_from st c"
      using rows_from_trans [OF _ rows_from_get_many] assms(2) g(1) unfolding memo_ok_def by (metis snd_conv)
    have m: "row_served env io job st key hit" if "map_of (bs_memo bs') key = Some (Some hit, scope)" for key hit scope
      using map_of_memo [OF that [unfolded g(5)]]
    proof
      assume "map_of (bs_memo bs) key = Some (Some hit, scope)"
      then show ?thesis using assms(2) unfolding memo_ok_def by blast
    qed (use served in auto)
    have new: "\<exists>it\<in>set items. fst it = i \<and> row_served env io job st (item_key it) hit"
      if "(i, Some hit) \<in> set (zip (map fst ?missing) hits)" for i hit
    proof -
      from that obtain it where z: "(it, Some hit) \<in> set (zip ?missing hits)" "fst it = i" unfolding zip_map1 by auto
      then have "it \<in> set items" using set_zip_leftD [OF z(1)] by simp
      then show ?thesis using served [OF z(1)] z(2) by blast
    qed
    have "\<exists>it\<in>set items. fst it = i \<and> row_served env io job st (item_key it) hit" if i: "(i, Some hit) \<in> set probed" for i hit
    proof -
      from i have "(i, Some hit) \<in> set ?old \<union> set (zip (map fst ?missing) hits)" unfolding g(2) by (simp only: set_append)
      then show ?thesis by (elim UnE) (erule old, erule new)
    qed
    with c m g(3,4) show ?thesis unfolding memo_ok_def by blast
  qed
qed

subsection \<open>Groups\<close>

lemma candidate_facts:
  "candidate probed items = Some a \<Longrightarrow> map fst a = map fst items
   \<and> (\<forall>i hit scope. (i, hit, scope) \<in> set a \<longrightarrow> (i, Some hit) \<in> set probed)"
proof (induction probed items arbitrary: a rule: candidate.induct)
  case (2 probed i body scope k rest)
  then obtain hit b where h: "map_of probed i = Some (Some hit)" "candidate probed rest = Some b" "a = (i, hit, scope) # b"
    by (auto split: option.splits)
  from "2.IH" [OF h(1) refl h(2)] map_of_SomeD [OF h(1)] show ?case using h(3) by auto
qed simp

lemma probe_item_Inr:
  "probe_item job c provider model i = Inr it \<Longrightarrow> fst it = i \<and> probe_item_ok job it
   \<and> item_key it = (bj_texts job ! fst it, provider, model, context_hash c, prompt_hash c, protocol_version c)"
  by (cases c) (auto simp: probe_item_def py_simps probe_item_ok_def item_key_def)

lemma probe_items_facts:
  assumes "rmap (probe_item job c provider model) g = Inr items"
  shows "map fst items = g" "list_all (probe_item_ok job) items"
    "\<forall>it\<in>set items. item_key it = (bj_texts job ! fst it, provider, model, context_hash c, prompt_hash c, protocol_version c)"
  using assms by (induction g arbitrary: items) (auto simp: rbind_eq_Inr dest!: probe_item_Inr)

text \<open>A group served as a whole under one backend and one contract.\<close>

definition group_served :: "service_env \<Rightarrow> batch_io \<Rightarrow> batch_job \<Rightarrow> cache_store \<Rightarrow> contract \<Rightarrow> (nat \<Rightarrow> pystr \<Rightarrow> bool) \<Rightarrow> nat list \<Rightarrow> bool" where
  "group_served env io job st c shown g \<longleftrightarrow>
     (\<exists>(provider, model)\<in>set (cache_lookup_backends (sn_pf env) (bj_allow job)).
        \<forall>i\<in>set g. \<exists>hit. shown i hit
          \<and> row_served env io job st (bj_texts job ! i, provider, model, context_hash c, prompt_hash c, protocol_version c) hit)"

definition accepted_ok :: "service_env \<Rightarrow> batch_io \<Rightarrow> batch_job \<Rightarrow> cache_store \<Rightarrow> contract \<Rightarrow> nat list \<Rightarrow> (nat \<times> pystr \<times> cache_scope) list \<Rightarrow> bool" where
  "accepted_ok env io job st c g a \<longleftrightarrow> map fst a = g \<and> group_served env io job st c (\<lambda>i hit. hit \<in> fst ` snd ` {x \<in> set a. fst x = i}) g"

lemma accept_facts:
  assumes "accept env io job items bs = (Inr r, bs')" "memo_ok env io job st bs" "distinct_keys (cs_rows st)"
    and "rmap (probe_item job c provider model) g = Inr items" "distinct g"
    and "(provider, model) \<in> set (cache_lookup_backends (sn_pf env) (bj_allow job))"
  shows "memo_ok env io job st bs' \<and> same_outcome bs' bs \<and> (\<forall>a. r = Some a \<longrightarrow> accepted_ok env io job st c g a)"
proof -
  obtain probed where p: "probe_many env io job items bs = (Inr probed, bs')"
    "r = (case candidate probed items of Some [] \<Rightarrow> None | r \<Rightarrow> r)"
    using assms(1) by (auto simp: accept_def action_Inr)
  note items = probe_items_facts [OF assms(4)]
  note f = probe_many_facts [OF p(1) assms(2,3) items(2)]
  have "accepted_ok env io job st c g a" if r: "r = Some a" for a
  proof -
    have "candidate probed items = Some a" using p(2) r by (auto split: option.splits list.splits)
    note ca = candidate_facts [OF this]
    have "\<exists>hit. hit \<in> fst ` snd ` {x \<in> set a. fst x = i}
        \<and> row_served env io job st (bj_texts job ! i, provider, model, context_hash c, prompt_hash c, protocol_version c) hit"
      if "i \<in> set g" for i
    proof -
      have "i \<in> fst ` set a" using that ca items(1) by (metis list.set_map)
      then obtain hit scope where x: "(i, hit, scope) \<in> set a" by force
      then obtain it where it: "it \<in> set items" "fst it = i" "row_served env io job st (item_key it) hit" using ca f by blast
      then have "row_served env io job st (bj_texts job ! i, provider, model, context_hash c, prompt_hash c, protocol_version c) hit"
        using items(3) by auto
      moreover have "hit \<in> fst ` snd ` {x \<in> set a. fst x = i}" using x by force
      ultimately show ?thesis by blast
    qed
    then show ?thesis using ca items(1) assms(6) by (auto simp: accepted_ok_def group_served_def intro!: bexI [of _ "(provider, model)"])
  qed
  then show ?thesis using f by blast
qed

lemma try_backends_facts:
  assumes "try_backends env io job g c backends bs = (Inr r, bs')" "memo_ok env io job st bs" "distinct_keys (cs_rows st)" "distinct g"
    and "set backends \<subseteq> set (cache_lookup_backends (sn_pf env) (bj_allow job))"
  shows "memo_ok env io job st bs' \<and> same_outcome bs' bs \<and> (\<forall>a. r = Some a \<longrightarrow> accepted_ok env io job st c g a)"
  using assms(1,2,4,5)
proof (induction env io job g c backends arbitrary: bs rule: try_backends.induct)
  case (1 env io job g c)
  then show ?case by (simp add: action_Inr)
next
  case (2 env io job g c provider model rest)
  obtain items r1 bs1 where a: "rmap (probe_item job c provider model) g = Inr items"
    "accept env io job items bs = (Inr r1, bs1)"
    "(case r1 of Some a \<Rightarrow> areturn (Some a) | None \<Rightarrow> try_backends env io job g c rest) bs1 = (Inr r, bs')"
    using "2.prems"(1) by (auto simp: action_Inr)
  have p: "distinct g" "(provider, model) \<in> set (cache_lookup_backends (sn_pf env) (bj_allow job))"
    "set rest \<subseteq> set (cache_lookup_backends (sn_pf env) (bj_allow job))" using "2.prems"(3,4) by auto
  note f = accept_facts [OF a(2) "2.prems"(2) assms(3) a(1) p(1,2)]
  show ?case
  proof (cases r1)
    case None
    then have "try_backends env io job g c rest bs1 = (Inr r, bs')" using a(3) by simp
    with f show ?thesis using "2.IH" [of bs1] p same_outcome_trans by blast
  next
    case (Some x)
    then show ?thesis using a(3) f by (auto simp: action_Inr)
  qed
qed

lemma lookup_group_facts:
  assumes "lookup_group env io job g c bs = (Inr r, bs')" "memo_ok env io job st bs" "distinct_keys (cs_rows st)" "distinct g"
  shows "memo_ok env io job st bs' \<and> same_outcome bs' bs
    \<and> (\<forall>a. r = Some a \<longrightarrow> (\<exists>cc. (cc = c \<or> single_cache_contract (sn_prompt env) (bj_source job) (bj_target job) (Some (bj_glossary job)) = Inr cc)
          \<and> accepted_ok env io job st cc g a))"
proof -
  let ?b = "cache_lookup_backends (sn_pf env) (bj_allow job)"
  obtain r1 bs1 where t: "try_backends env io job g c ?b bs = (Inr r1, bs1)"
    using assms(1) by (auto simp: lookup_group_def Let_def action_Inr)
  note f = try_backends_facts [OF t assms(2-4) subset_refl]
  show ?thesis
  proof (cases r1)
    case (Some a)
    then show ?thesis using assms(1) t f by (auto simp: lookup_group_def Let_def action_Inr)
  next
    case None
    then obtain s where s: "single_cache_contract (sn_prompt env) (bj_source job) (bj_target job) (Some (bj_glossary job)) = Inr s"
      "try_backends env io job g s ?b bs1 = (Inr r, bs')"
      using assms(1) t by (auto simp: lookup_group_def Let_def action_Inr)
    have "memo_ok env io job st bs1" "same_outcome bs1 bs" using f by auto
    then show ?thesis using try_backends_facts [OF s(2) _ assms(3,4) subset_refl] s(1) same_outcome_trans by blast
  qed
qed

lemma rows_from_record_hitD: "record_hit sha now t s g sc st = (r, c) \<Longrightarrow> rows_from st c"
  by (metis rows_from_record_hit snd_conv)

lemma serve_hits_facts:
  "aeach (serve_hit env io job) a bs = (Inr u, bs') \<Longrightarrow> distinct (map fst a) \<Longrightarrow> memo_ok env io job st bs \<Longrightarrow>
   \<forall>i\<in>set (map fst a). i < length (bs_slots bs) \<Longrightarrow>
   memo_ok env io job st bs' \<and> bs_missing bs' = bs_missing bs \<and> bs_cached bs' = bs_cached bs + length a
   \<and> length (bs_slots bs') = length (bs_slots bs)
   \<and> (\<forall>i hit scope. (i, hit, scope) \<in> set a \<longrightarrow> bs_slots bs' ! i = hit_slot hit)
   \<and> (\<forall>i. i \<notin> set (map fst a) \<longrightarrow> bs_slots bs' ! i = bs_slots bs ! i)"
proof (induction a arbitrary: bs)
  case (Cons x a)
  obtain i hit scope where x: "x = (i, hit, scope)" by (cases x)
  obtain v bs1 where s: "serve_hit env io job x bs = (Inr v, bs1)" "aeach (serve_hit env io job) a bs1 = (Inr u, bs')"
    using Cons.prems(1) by (auto simp: action_Inr)
  have bs1: "bs_slots bs1 = (bs_slots bs)[i := hit_slot hit]" "bs_missing bs1 = bs_missing bs" "bs_memo bs1 = bs_memo bs"
    "bs_cached bs1 = bs_cached bs + 1" "rows_from (se_cache (bs_service bs)) (se_cache (bs_service bs1))"
    using s(1) x by (auto simp: serve_hit_def action_Inr split: prod.splits dest: rows_from_record_hitD)
  then have m: "memo_ok env io job st bs1" using Cons.prems(3) rows_from_trans unfolding memo_ok_def by metis
  have b: "\<forall>j\<in>set (map fst a). j < length (bs_slots bs1)" using Cons.prems(4) bs1(1) by simp
  have d: "distinct (map fst a)" "i \<notin> set (map fst a)" "i < length (bs_slots bs)" using Cons.prems(2,4) x by auto
  from Cons.IH [OF s(2) d(1) m b] show ?case using bs1 x d(2,3) by auto
qed (simp add: action_Inr)

definition run_ok :: "service_env \<Rightarrow> batch_io \<Rightarrow> batch_job \<Rightarrow> cache_store \<Rightarrow> (nat list \<times> contract) list \<Rightarrow> batch_run \<Rightarrow> bool" where
  "run_ok env io job st prior bs \<longleftrightarrow>
     memo_ok env io job st bs \<and> length (bs_slots bs) = length (bj_texts job)
     \<and> bs_missing bs = filter (\<lambda>gc. \<not> sl_cached (bs_slots bs ! hd (fst gc))) prior
     \<and> (\<forall>i<length (bj_texts job). i \<notin> set (concat (map fst prior)) \<longrightarrow> bs_slots bs ! i = blank_slot)
     \<and> (\<forall>(g, c)\<in>set prior. (\<forall>i\<in>set g. bs_slots bs ! i = blank_slot)
          \<or> (\<exists>cc. (cc = c \<or> single_cache_contract (sn_prompt env) (bj_source job) (bj_target job) (Some (bj_glossary job)) = Inr cc)
               \<and> group_served env io job st cc (\<lambda>i hit. bs_slots bs ! i = hit_slot hit) g))
     \<and> bs_cached bs = card {i. i < length (bj_texts job) \<and> sl_cached (bs_slots bs ! i)}"

definition plan_ok :: "batch_job \<Rightarrow> (nat list \<times> contract) list \<Rightarrow> bool" where
  "plan_ok job gcs \<longleftrightarrow> distinct (concat (map fst gcs)) \<and> (\<forall>gc\<in>set gcs. fst gc \<noteq> [])
     \<and> set (concat (map fst gcs)) = {i. i < length (bj_texts job) \<and> strip (bj_texts job ! i) \<noteq> []}"

lemma slot_flags [simp]: "\<not> sl_cached blank_slot" "sl_cached (hit_slot h)"
  by (simp_all add: blank_slot_def hit_slot_def)

lemma group_served_cong:
  "(\<And>i hit. i \<in> set g \<Longrightarrow> shown i hit \<Longrightarrow> shown' i hit) \<Longrightarrow> group_served env io job st c shown g \<Longrightarrow> group_served env io job st c shown' g"
  unfolding group_served_def by fast

lemma plan_ok_group:
  assumes "plan_ok job gcs" "gcs = prior @ (g, c) # rest"
  shows "distinct g" "g \<noteq> []" "\<forall>i\<in>set g. i < length (bj_texts job) \<and> i \<notin> set (concat (map fst prior))"
    "\<forall>gc\<in>set prior. fst gc \<noteq> [] \<and> set (fst gc) \<subseteq> set (concat (map fst prior))"
proof -
  show "distinct g" "g \<noteq> []" using assms by (auto simp: plan_ok_def)
  have "set g \<subseteq> {i. i < length (bj_texts job) \<and> strip (bj_texts job ! i) \<noteq> []}"
    using assms by (auto simp: plan_ok_def simp del: strip_Nil_iff)
  then show "\<forall>i\<in>set g. i < length (bj_texts job) \<and> i \<notin> set (concat (map fst prior))"
    using assms by (auto simp: plan_ok_def)
  show "\<forall>gc\<in>set prior. fst gc \<noteq> [] \<and> set (fst gc) \<subseteq> set (concat (map fst prior))"
    using assms by (auto simp: plan_ok_def)
qed

lemma run_ok_group:
  assumes "serve_group env io job gc bs = (Inr u, bs')" "run_ok env io job st prior bs" "distinct_keys (cs_rows st)"
    and "plan_ok job gcs" "gcs = prior @ gc # rest"
  shows "run_ok env io job st (prior @ [gc]) bs'"
proof -
  obtain g c where gc: "gc = (g, c)" by fastforce
  note pl = plan_ok_group [OF assms(4) assms(5) [unfolded gc]]
  let ?n = "length (bj_texts job)"
  obtain r bs1 where l: "lookup_group env io job g c bs = (Inr r, bs1)"
    "(case r of None \<Rightarrow> (\<lambda>bs. (Inr (), bs\<lparr>bs_missing := bs_missing bs @ [gc]\<rparr>))
      | Some accepted \<Rightarrow> aeach (serve_hit env io job) accepted) bs1 = (Inr u, bs')"
    using assms(1) gc by (auto simp: serve_group_def action_Inr)
  have m: "memo_ok env io job st bs" using assms(2) by (simp add: run_ok_def)
  note f = lookup_group_facts [OF l(1) m assms(3) pl(1)]
  have so: "bs_slots bs1 = bs_slots bs" "bs_missing bs1 = bs_missing bs" "bs_cached bs1 = bs_cached bs"
    using f by (auto simp: same_outcome_def)
  have blank: "bs_slots bs ! i = blank_slot" if "i \<in> set g" for i using pl(3) that assms(2) by (simp add: run_ok_def)
  show ?thesis
  proof (cases r)
    case None
    then have b: "bs' = bs1\<lparr>bs_missing := bs_missing bs @ [gc]\<rparr>" using l(2) so by simp
    have "\<not> sl_cached (bs_slots bs ! hd g)" using blank pl(2) by simp
    then show ?thesis using assms(2) f so b blank gc by (auto simp: run_ok_def memo_ok_def)
  next
    case (Some a)
    then obtain cc where cc: "cc = c \<or> single_cache_contract (sn_prompt env) (bj_source job) (bj_target job) (Some (bj_glossary job)) = Inr cc"
      "accepted_ok env io job st cc g a" using f by blast
    have a: "map fst a = g" using cc(2) by (simp add: accepted_ok_def)
    have "aeach (serve_hit env io job) a bs1 = (Inr u, bs')" using l(2) Some by simp
    moreover have pre: "memo_ok env io job st bs1" "\<forall>i\<in>set g. i < length (bs_slots bs1)" "length (bs_slots bs1) = ?n"
      using f so pl(3) assms(2) by (simp_all add: run_ok_def)
    ultimately have H: "memo_ok env io job st bs' \<and> bs_missing bs' = bs_missing bs1 \<and> bs_cached bs' = bs_cached bs1 + length a
       \<and> length (bs_slots bs') = length (bs_slots bs1)
       \<and> (\<forall>i hit scope. (i, hit, scope) \<in> set a \<longrightarrow> bs_slots bs' ! i = hit_slot hit)
       \<and> (\<forall>i. i \<notin> set g \<longrightarrow> bs_slots bs' ! i = bs_slots bs1 ! i)"
      using serve_hits_facts [of env io job a bs1 u bs' st] a pl(1) by blast
    have h: "memo_ok env io job st bs'" "bs_missing bs' = bs_missing bs"
      "bs_cached bs' = bs_cached bs + length a" "length (bs_slots bs') = ?n"
      "\<And>i hit scope. (i, hit, scope) \<in> set a \<Longrightarrow> bs_slots bs' ! i = hit_slot hit"
      "\<And>i. i \<notin> set g \<Longrightarrow> bs_slots bs' ! i = bs_slots bs ! i"
      using H pre(3) unfolding so by simp_all blast
    have served: "group_served env io job st cc (\<lambda>i hit. bs_slots bs' ! i = hit_slot hit) g"
      using cc(2) h(5) by (auto simp: accepted_ok_def elim!: group_served_cong [rotated])
    then have hits: "sl_cached (bs_slots bs' ! i)" if "i \<in> set g" for i
      using that by (auto simp: group_served_def)
    have other: "bs_slots bs' ! i = bs_slots bs ! i" if "gc' \<in> set prior" "i \<in> set (fst gc')" for gc' i
      using h(6) pl(3,4) that by blast
    have "bs_missing bs' = filter (\<lambda>gc. \<not> sl_cached (bs_slots bs' ! hd (fst gc))) (prior @ [gc])"
    proof -
      have "filter (\<lambda>gc. \<not> sl_cached (bs_slots bs' ! hd (fst gc))) prior = filter (\<lambda>gc. \<not> sl_cached (bs_slots bs ! hd (fst gc))) prior"
        using other pl(4) by (intro filter_cong) auto
      then show ?thesis using h(2) assms(2) hits [of "hd g"] pl(2) gc by (simp add: run_ok_def)
    qed
    moreover have "bs_cached bs' = card {i. i < ?n \<and> sl_cached (bs_slots bs' ! i)}"
    proof -
      have "{i. i < ?n \<and> sl_cached (bs_slots bs' ! i)} = {i. i < ?n \<and> sl_cached (bs_slots bs ! i)} \<union> set g"
        using hits h(6) pl(3) blank by (auto simp: Un_def) metis
      moreover have "{i. i < ?n \<and> sl_cached (bs_slots bs ! i)} \<inter> set g = {}" using blank by auto
      moreover have "card (set g) = length a" using distinct_card [OF pl(1)] a by (metis length_map)
      ultimately show ?thesis using h(3) assms(2) by (simp add: card_Un_disjoint run_ok_def)
    qed
    moreover have "(\<forall>i\<in>set g'. bs_slots bs' ! i = blank_slot)
          \<or> (\<exists>cc. (cc = c' \<or> single_cache_contract (sn_prompt env) (bj_source job) (bj_target job) (Some (bj_glossary job)) = Inr cc)
               \<and> group_served env io job st cc (\<lambda>i hit. bs_slots bs' ! i = hit_slot hit) g')" if "(g', c') \<in> set prior" for g' c'
    proof -
      have same: "\<And>i. i \<in> set g' \<Longrightarrow> bs_slots bs' ! i = bs_slots bs ! i" using other [OF that] by simp
      from assms(2) that consider "\<forall>i\<in>set g'. bs_slots bs ! i = blank_slot"
        | cc' where "cc' = c' \<or> single_cache_contract (sn_prompt env) (bj_source job) (bj_target job) (Some (bj_glossary job)) = Inr cc'"
          "group_served env io job st cc' (\<lambda>i hit. bs_slots bs ! i = hit_slot hit) g'"
        unfolding run_ok_def by blast
      then show ?thesis
      proof cases
        case 2
        then have "group_served env io job st cc' (\<lambda>i hit. bs_slots bs' ! i = hit_slot hit) g'"
          using same by (auto elim!: group_served_cong [rotated])
        then show ?thesis using 2(1) by blast
      qed (use same in auto)
    qed
    moreover have "\<forall>i<?n. i \<notin> set (concat (map fst (prior @ [gc]))) \<longrightarrow> bs_slots bs' ! i = blank_slot"
      using h(6) assms(2) gc by (auto simp: run_ok_def)
    ultimately show ?thesis using h(1,4) served cc(1) gc unfolding run_ok_def by auto
  qed
qed

subsection \<open>The whole batch\<close>

lemma run_ok_start: "run_ok env io job (se_cache se) [] (start_run job se)"
  by (auto simp: run_ok_def start_run_def memo_ok_def)

lemma run_ok_groups:
  assumes "aeach (serve_group env io job) gcs (start_run job se) = (Inr u, bs)" "distinct_keys (cs_rows (se_cache se))" "plan_ok job gcs"
  shows "run_ok env io job (se_cache se) gcs bs"
proof (rule aeach_invariant [where P = "run_ok env io job (se_cache se)", OF assms(1) run_ok_start])
  fix prior gc rest s t v
  assume "run_ok env io job (se_cache se) prior s" "gcs = prior @ gc # rest" "serve_group env io job gc s = (Inr v, t)"
  then show "run_ok env io job (se_cache se) (prior @ [gc]) t" using run_ok_group assms(2,3) by blast
qed

lemma group_contracts_Inr:
  "group_contracts env job groups = Inr gcs \<Longrightarrow> map fst gcs = groups
   \<and> (\<forall>(g, c)\<in>set gcs. batch_cache_contract (sn_prompt env) (bj_texts job) (map int g) (bj_source job) (bj_target job)
          (Some (bj_glossary job)) = Inr c)"
  unfolding group_contracts_def by (induction groups arbitrary: gcs) (auto simp: rbind_eq_Inr)

lemma plan_ok_groups:
  assumes "translation_groups cfg (bj_texts job) PNone PNone = Inr groups" "0 < tc_batch_size cfg" "map fst gcs = groups"
  shows "plan_ok job gcs"
proof -
  note f = translation_groups_facts [OF assms(2) assms(1) [unfolded translation_groups_default]]
  have "\<forall>g\<in>set groups. g \<noteq> []" using f(2) by (auto simp: list_all_iff group_ok_def)
  then have "\<forall>gc\<in>set gcs. fst gc \<noteq> []" using assms(3) by (metis image_eqI list.set_map)
  moreover have "set (work_of (bj_texts job)) = {i. i < length (bj_texts job) \<and> strip (bj_texts job ! i) \<noteq> []}"
    using work_of_facts(3) by blast
  ultimately show ?thesis using f(1) work_of_facts(2) assms(3) unfolding plan_ok_def by simp
qed

lemma fst_indexed: "map fst (indexed gcs) = concat (map fst gcs)"
  unfolding indexed_def by (induction gcs) (auto simp: comp_def)

lemma place_slots_nth:
  "distinct (map fst ics) \<Longrightarrow> i < length row \<Longrightarrow>
   place_slots items ics row ! i = (if i \<in> set (map fst ics) then settled_slot (items ! i) else row ! i)"
proof (induction ics arbitrary: row)
  case (Cons ic ics)
  obtain j c where ic: "ic = (j, c)" by (cases ic)
  have "place_slots items (ic # ics) row = place_slots items ics (row[j := settled_slot (items ! j)])"
    by (simp add: place_slots_def ic)
  then show ?case using Cons.IH [of "row[j := settled_slot (items ! j)]"] Cons.prems ic by (auto simp: nth_list_update)
qed (simp add: place_slots_def)

lemma place_slots_length [simp]: "length (place_slots items ics row) = length row"
  unfolding place_slots_def by (induction ics arbitrary: row) auto

text \<open>The outcome of the missing groups: their items, and what is written.\<close>

definition missing_outcome ::
  "service_env \<Rightarrow> batch_io \<Rightarrow> batch_job \<Rightarrow> batch_run \<Rightarrow> batch_item list \<Rightarrow> cache_entry list \<Rightarrow> bool" where
  "missing_outcome env io job bs items writes \<longleftrightarrow>
     batch_results (bj_texts job)
       (map (\<lambda>g. (g, settled_by (bj_texts job) (worker_of env io job) g)) (bi_order io (map fst (bs_missing bs)))) = Inr items
     \<and> rmap (cache_write env job items) (filter (\<lambda>(i, _). it_cacheable (items ! i)) (fresh_indices items (bs_missing bs))) = Inr writes"

lemma translate_missing_facts:
  assumes "translate_missing env io job bs = (Inr n, bs')" "bs_missing bs \<noteq> []"
  shows "\<exists>items writes se1. missing_outcome env io job bs items writes
    \<and> bs_slots bs' = place_slots items (indexed (bs_missing bs)) (bs_slots bs) \<and> bs_cached bs' = bs_cached bs
    \<and> n = length (fresh_indices items (bs_missing bs))
    \<and> se_cache se1 = se_cache (bs_service bs) \<and> bs_service bs' = write_back env io writes se1"
proof -
  obtain items bs1 where r: "run_batch env io job (map fst (bs_missing bs)) bs = (Inr items, bs1)"
    "finish_missing env io job (bs_missing bs) items bs1 = (Inr n, bs')"
    using assms by (auto simp: translate_missing_def action_Inr)
  have b: "batch_results (bj_texts job)
       (map (\<lambda>g. (g, settled_by (bj_texts job) (worker_of env io job) g)) (bi_order io (map fst (bs_missing bs)))) = Inr items"
    "bs_slots bs1 = bs_slots bs" "bs_cached bs1 = bs_cached bs" "se_cache (bs_service bs1) = se_cache (bs_service bs)"
    using r(1) by (auto simp: run_batch_def Let_def split: if_splits sum.splits)
  from r(2) obtain writes where
    "rmap (cache_write env job items) (filter (\<lambda>(i, _). it_cacheable (items ! i)) (fresh_indices items (bs_missing bs))) = Inr writes"
    "n = length (fresh_indices items (bs_missing bs))"
    "bs' = bs1\<lparr>bs_slots := place_slots items (indexed (bs_missing bs)) (bs_slots bs1), bs_service := write_back env io writes (bs_service bs1)\<rparr>"
    by (auto simp: finish_missing_def Let_def action_Inr)
  then show ?thesis using b unfolding missing_outcome_def by (intro exI [of _ items] exI [of _ writes] exI [of _ "bs_service bs1"]) simp
qed

lemma record_plan_Inr: "record_plan job groups se = (Inr u, se1) \<Longrightarrow> se_cache se1 = se_cache se"
  by (auto simp: record_plan_def split: sum.splits)

lemma run_plan_Inr:
  "run_plan env io job gcs se = (Inr r, se1) \<Longrightarrow>
   run_groups env io job gcs (start_run job se) = (Inr (fst r), snd r) \<and> se1 = bs_service (snd r)"
  by (auto simp: run_plan_def split: prod.splits sum.splits)

lemma finish_batch_Inr:
  "finish_batch io r se = (Inr reply, se1) \<Longrightarrow> se_cache se1 = se_cache se \<and> br_slots reply = bs_slots (snd r)
   \<and> br_cached reply = bs_cached (snd r) \<and> br_fresh reply = fst r"
  by (cases r) (auto simp: finish_batch_def invalidate_stats_cache_def)

lemma translate_paragraphs_facts:
  assumes "translate_paragraphs env io job se = (Inr reply, se')" "0 < tc_batch_size (pe_cfg (sn_prompt env))"
    and "distinct_keys (cs_rows (se_cache se))"
  shows "\<exists>gcs bs bs'. translation_groups (pe_cfg (sn_prompt env)) (bj_texts job) PNone PNone = Inr (map fst gcs)
    \<and> plan_ok job gcs \<and> run_ok env io job (se_cache se) gcs bs
    \<and> (\<forall>(g, c)\<in>set gcs. batch_cache_contract (sn_prompt env) (bj_texts job) (map int g) (bj_source job) (bj_target job)
          (Some (bj_glossary job)) = Inr c)
    \<and> translate_missing env io job bs = (Inr (br_fresh reply), bs') \<and> br_slots reply = bs_slots bs' \<and> br_cached reply = bs_cached bs'
    \<and> se_cache se' = se_cache (bs_service bs')"
proof -
  obtain groups u1 se1 gcs r se2 where t: "translation_groups (pe_cfg (sn_prompt env)) (bj_texts job) PNone PNone = Inr groups"
    "record_plan job groups se = (Inr u1, se1)" "group_contracts env job groups = Inr gcs"
    "run_plan env io job gcs se1 = (Inr r, se2)" "finish_batch io r se2 = (Inr reply, se')"
    using assms(1) unfolding translate_paragraphs_def action_Inr by blast
  note rp = run_plan_Inr [OF t(4)] and fb = finish_batch_Inr [OF t(5)]
  note g = group_contracts_Inr [OF t(3)]
  have p: "plan_ok job gcs" using plan_ok_groups [OF t(1) assms(2)] g by blast
  obtain u bs where b: "aeach (serve_group env io job) gcs (start_run job se1) = (Inr u, bs)"
    "translate_missing env io job bs = (Inr (fst r), snd r)" using rp by (auto simp: run_groups_def action_Inr)
  have "run_ok env io job (se_cache se) gcs bs" using run_ok_groups [OF b(1) _ p] record_plan_Inr [OF t(2)] assms(3) by simp
  then show ?thesis using p g t(1) b(2) rp fb by (intro exI [of _ gcs] exI [of _ bs] exI [of _ "snd r"]) auto
qed

text \<open>Every group is shown whole: from the cache, or not at all.\<close>

lemma run_ok_group_cases:
  assumes "run_ok env io job st gcs bs" "plan_ok job gcs" "(g, c) \<in> set gcs"
  shows "(\<forall>i\<in>set g. bs_slots bs ! i = blank_slot) \<and> (g, c) \<in> set (bs_missing bs)
    \<or> (\<forall>i\<in>set g. sl_cached (bs_slots bs ! i)) \<and> (g, c) \<notin> set (bs_missing bs)
      \<and> (\<exists>cc. (cc = c \<or> single_cache_contract (sn_prompt env) (bj_source job) (bj_target job) (Some (bj_glossary job)) = Inr cc)
               \<and> group_served env io job st cc (\<lambda>i hit. bs_slots bs ! i = hit_slot hit) g)"
proof -
  have ne: "hd g \<in> set g" using assms(2,3) by (cases g) (auto simp: plan_ok_def)
  have missing: "(g, c) \<in> set (bs_missing bs) \<longleftrightarrow> \<not> sl_cached (bs_slots bs ! hd g)"
    using assms(1,3) by (simp add: run_ok_def)
  from assms(1,3) consider "\<forall>i\<in>set g. bs_slots bs ! i = blank_slot"
    | cc where "cc = c \<or> single_cache_contract (sn_prompt env) (bj_source job) (bj_target job) (Some (bj_glossary job)) = Inr cc"
      "group_served env io job st cc (\<lambda>i hit. bs_slots bs ! i = hit_slot hit) g"
    unfolding run_ok_def by blast
  then show ?thesis
  proof cases
    case 1
    then show ?thesis using missing ne by simp
  next
    case 2
    then have c: "\<forall>i\<in>set g. sl_cached (bs_slots bs ! i)" by (auto simp: group_served_def)
    then show ?thesis using 2 missing ne by blast
  qed
qed

lemma distinct_concat_filter: "distinct (concat (map f xs)) \<Longrightarrow> distinct (concat (map f (filter P xs)))"
  by (induction xs) auto

lemma run_ok_split:
  assumes "run_ok env io job st gcs bs" "plan_ok job gcs"
  shows "distinct (map fst (indexed (bs_missing bs)))"
    "set (map fst (indexed (bs_missing bs)))
       = {i. i < length (bj_texts job) \<and> strip (bj_texts job ! i) \<noteq> [] \<and> \<not> sl_cached (bs_slots bs ! i)}" (is "?M = ?N")
    "\<forall>i<length (bj_texts job). strip (bj_texts job ! i) = [] \<longrightarrow> bs_slots bs ! i = blank_slot"
proof -
  have sub: "set (bs_missing bs) \<subseteq> set gcs" using assms(1) by (auto simp: run_ok_def)
  have "distinct (concat (map fst (filter P gcs)))" for P
    using assms(2) distinct_concat_filter unfolding plan_ok_def by blast
  then show "distinct (map fst (indexed (bs_missing bs)))" using assms(1) unfolding fst_indexed run_ok_def by metis
  have all: "{i. i < length (bj_texts job) \<and> strip (bj_texts job ! i) \<noteq> []} = set (concat (map fst gcs))"
    using assms(2) by (simp add: plan_ok_def)
  show "?M = ?N"
  proof
    show "?M \<subseteq> ?N"
    proof
      fix i assume "i \<in> ?M"
      then obtain g c where g: "(g, c) \<in> set (bs_missing bs)" "i \<in> set g" unfolding fst_indexed by auto
      then have "i \<in> set (concat (map fst gcs))" using sub by force
      moreover have "bs_slots bs ! i = blank_slot" using run_ok_group_cases [OF assms, of g c] g sub by blast
      ultimately show "i \<in> ?N" using all by auto
    qed
    show "?N \<subseteq> ?M"
    proof
      fix i assume i: "i \<in> ?N"
      then have "i \<in> set (concat (map fst gcs))" using all by blast
      then obtain g c where g: "(g, c) \<in> set gcs" "i \<in> set g" by auto
      then have "(g, c) \<in> set (bs_missing bs)" using run_ok_group_cases [OF assms g(1)] i by blast
      then show "i \<in> ?M" unfolding fst_indexed using g(2) by force
    qed
  qed
  show "\<forall>i<length (bj_texts job). strip (bj_texts job ! i) = [] \<longrightarrow> bs_slots bs ! i = blank_slot"
    using assms(1) all unfolding run_ok_def by blast
qed

text \<open>The slots of a reply, index by index.\<close>

lemma reply_slots:
  assumes "translate_missing env io job bs = (Inr n, bs')" "run_ok env io job st gcs bs" "plan_ok job gcs"
  shows "\<exists>items writes. (bs_missing bs \<noteq> [] \<longrightarrow> missing_outcome env io job bs items writes)
    \<and> n = length (fresh_indices items (bs_missing bs)) \<and> bs_cached bs' = bs_cached bs
    \<and> length (bs_slots bs') = length (bj_texts job)
    \<and> (\<forall>i<length (bj_texts job). bs_slots bs' ! i =
          (if strip (bj_texts job ! i) \<noteq> [] \<and> \<not> sl_cached (bs_slots bs ! i) then settled_slot (items ! i) else bs_slots bs ! i))"
proof (cases "bs_missing bs = []")
  case True
  then have "bs' = bs" "n = 0" using assms(1) by (auto simp: translate_missing_def)
  moreover have "\<forall>i<length (bj_texts job). strip (bj_texts job ! i) \<noteq> [] \<longrightarrow> sl_cached (bs_slots bs ! i)"
    using run_ok_split(2) [OF assms(2,3)] True by (auto simp: indexed_def simp del: strip_Nil_iff)
  ultimately show ?thesis using assms(2) True
    by (intro exI [of _ "[]"]) (auto simp: run_ok_def fresh_indices_def indexed_def simp del: strip_Nil_iff)
next
  case False
  from translate_missing_facts [OF assms(1) False] obtain items writes where t: "missing_outcome env io job bs items writes"
    "bs_slots bs' = place_slots items (indexed (bs_missing bs)) (bs_slots bs)" "bs_cached bs' = bs_cached bs"
    "n = length (fresh_indices items (bs_missing bs))" by blast
  have len: "length (bs_slots bs) = length (bj_texts job)" using assms(2) by (simp add: run_ok_def)
  have "bs_slots bs' ! i = (if strip (bj_texts job ! i) \<noteq> [] \<and> \<not> sl_cached (bs_slots bs ! i) then settled_slot (items ! i) else bs_slots bs ! i)"
    if "i < length (bj_texts job)" for i
    unfolding t(2) using place_slots_nth [OF run_ok_split(1) [OF assms(2,3)], of i "bs_slots bs" items] that len
      run_ok_split(2) [OF assms(2,3)] by simp
  then show ?thesis using t len by (intro exI [of _ items] exI [of _ writes]) simp
qed

subsection \<open>A concrete request\<close>

text \<open>One paragraph, which the cache holds; every hash is the same text, so there is one key.\<close>

definition demo_senv :: service_env where
  "demo_senv = \<lparr>sn_config = demo_config 5, sn_prompt = \<lparr>pe_cfg = default_tconfig, pe_sha = (\<lambda>_. [7]), pe_fold = id\<rparr>,
     sn_pf = (demo_provider Local, None)\<rparr>"

definition demo_job :: batch_job where
  "demo_job = \<lparr>bj_texts = [[65]], bj_source = lit ''English'', bj_target = lit ''Spanish'', bj_namespace = ([116], [98], [99]),
     bj_allow = False, bj_glossary = []\<rparr>"

definition demo_worker :: worker_io where
  "demo_worker = \<lparr>wk_call = demo_env, wk_tokens = show_nat, wk_parse = (\<lambda>_. None), wk_ios = (\<lambda>_ _ _. demo_io 200), wk_clock = (\<lambda>_. 0),
     wk_state = \<lparr>gs_call = demo_state 0, gs_next = 0, gs_tok = 0, gs_tracker = None\<rparr>\<rparr>"

definition demo_batch_io :: batch_io where
  "demo_batch_io = \<lparr>bi_probe = (\<lambda>_. (ex_now 4, ex_now 4)), bi_hit = (\<lambda>_. ex_now 4), bi_write = (ex_now 4, ex_now 4),
     bi_worker = (\<lambda>_. demo_worker), bi_order = id, bi_elapsed = 1\<rparr>"

definition demo_row :: cache_row where
  "demo_row = \<lparr>cr_tenant_hash = [7], cr_book_hash = [7], cr_chapter_hash = [7], cr_context_hash = [7], cr_source_lang = [69],
     cr_target_lang = [83], cr_translated_text = [66], cr_provider = [112], cr_model = [109], cr_prompt_hash = [7],
     cr_protocol_version = [118], cr_created_at = isoformat (ex_now 3), cr_last_accessed_at = isoformat (ex_now 3), cr_hit_count = 0\<rparr>"

definition demo_service :: service where
  "demo_service = \<lparr>se_cache = ex_store\<lparr>cs_rows := [([7], demo_row)]\<rparr>, se_glossary = [], se_metrics = empty_metrics,
     se_stats = None, se_stats_at = 0\<rparr>"

definition demo_contract :: contract where
  "demo_contract = \<lparr>prompt_hash = [7], protocol_version = single_protocol, context_hash = [7]\<rparr>"

definition demo_scope :: cache_scope where
  "demo_scope = \<lparr>sc_tenant = [116], sc_book_id = [98], sc_chapter_id = [99], sc_context_hash = [7], sc_provider = lit ''local'',
     sc_model = lit ''m'', sc_prompt_hash = [7], sc_protocol_version = single_protocol\<rparr>"

lemma demo_single_contract:
  "single_cache_contract \<lparr>pe_cfg = default_tconfig, pe_sha = (\<lambda>_. [7]), pe_fold = id\<rparr> (lit ''English'') (lit ''Spanish'') (Some []) = Inr demo_contract"
proof -
  let ?pe = "\<lparr>pe_cfg = default_tconfig, pe_sha = (\<lambda>_. [7]), pe_fold = id\<rparr> :: prompt_env"
  have p: "single_prompt ?pe (lit ''English'') (lit ''Spanish'') (Some []) = Inr (system_prompt (lit ''English'') (lit ''Spanish''))"
    by (simp add: single_prompt_def with_glossary_def format_glossary_block_def normalize_glossary_def)
  have e: "utf8_len (dumps (prompt_json ''single'' (system_prompt (lit ''English'') (lit ''Spanish'')))) \<noteq> None"
    "utf8_len (dumps no_context_json) \<noteq> None"
    by (intro utf8_len_encodable;
        simp add: prompt_json_def no_context_json_def contract_version_def system_prompt_def encodable_json_str encodable_lit del: lit_Cons)+
  show ?thesis using p e by (simp add: single_cache_contract_def contract_hash_def demo_contract_def del: lit_Cons)
qed

lemma demo_scope_of: "contract_scope ([116], [98], [99]) demo_contract (lit ''local'') (lit ''m'') = Inr demo_scope"
  by (simp add: contract_scope_def new_scope_def scope_field_def demo_contract_def demo_scope_def single_protocol_def
      strip_def lstrip_def rstrip_def is_space_def)

lemma demo_key_of: "compute_key (\<lambda>_. [7]) (PStr [65]) (PStr (lit ''English'')) (PStr (lit ''Spanish'')) (Scope demo_scope) = Inr [7]"
proof -
  have st: "strip (lit ''English'') = lit ''English''" "strip (lit ''Spanish'') = lit ''Spanish''" "strip [65] = [65]"
    by (simp_all add: strip_def lstrip_def rstrip_def is_space_def)
  have "utf8_len (dumps (key_payload demo_scope (lit ''English'') (lit ''Spanish'') [65])) \<noteq> None"
    by (intro utf8_len_encodable)
      (simp add: key_payload_def st cache_key_version_def demo_scope_def single_protocol_def encodable_json_str encodable_lit del: lit_Cons)
  then show ?thesis unfolding compute_key_Inr using st by (simp add: is_space_def)
qed

lemma demo_lookup:
  "cs_get_many (\<lambda>_. [7]) (ex_now 4) (ex_now 4) [(PStr [65], PStr (lit ''English''), PStr (lit ''Spanish''), Scope demo_scope)] False
     (se_cache demo_service) = (Inr [Some [66]], se_cache demo_service)"
proof -
  have "\<not> prefix (lit ''<think>'') [66]" by simp
  then show ?thesis
    by (simp add: cs_get_many_def demo_key_of cutoff_def demo_service_def ex_store_def ex_minus [simplified] demo_row_def
        cached_reasoning_def lstrip_def is_space_def Let_def del: lit_Cons)
qed

lemma demo_served:
  "\<exists>se'. translate_paragraphs demo_senv demo_batch_io demo_job demo_service
     = (Inr \<lparr>br_slots = [hit_slot [66]], br_cached = 1, br_fresh = 0, br_elapsed = 1\<rparr>, se')"
proof -
  let ?io = demo_batch_io and ?job = demo_job and ?env = demo_senv
  let ?item = "(0, [65], demo_scope, ([65], lit ''local'', lit ''m'', [7], [7], single_protocol)) :: probe_item"
  have st: "strip [65] = [65]" by (simp add: strip_def lstrip_def rstrip_def is_space_def)
  have w: "work_of [[65]] = [0]" by (simp add: work_of_def is_space_def)
  have g: "translation_groups default_tconfig [[65]] PNone PNone = Inr [[0]]"
    by (simp add: translation_groups_def default_tconfig_def w chunks.simps)
  obtain m where m: "record_plan ?job [[0]] demo_service = (Inr (), demo_service\<lparr>se_metrics := m\<rparr>)"
    by (simp add: record_plan_def record_batch_plan_def)
  let ?bs = "start_run ?job (demo_service\<lparr>se_metrics := m\<rparr>)"
  have c: "group_contracts ?env ?job [[0]] = Inr [([0], demo_contract)]"
    using demo_single_contract
    by (simp add: group_contracts_def batch_cache_contract_def demo_senv_def demo_job_def default_tconfig_def del: lit_Cons)
  have b: "cache_lookup_backends (sn_pf ?env) (bj_allow ?job) = [(lit ''local'', lit ''m'')]"
    by (simp add: cache_lookup_backends_def eligible_providers_def demo_senv_def demo_provider_def)
  have it: "rmap (probe_item ?job demo_contract (lit ''local'') (lit ''m'')) [0] = Inr [?item]"
    using demo_scope_of by (simp add: probe_item_def demo_job_def demo_contract_def del: lit_Cons)
  obtain bs1 where p: "probe_many ?env ?io ?job [?item] ?bs = (Inr [(0, Some [66])], bs1)"
    "same_outcome bs1 ?bs" "se_cache (bs_service bs1) = se_cache demo_service"
    using demo_lookup
    by (simp add: probe_many_def start_run_def item_query_def demo_senv_def demo_batch_io_def demo_job_def demo_service_def
        same_outcome_def del: lit_Cons)
  have a: "accept ?env ?io ?job [?item] ?bs = (Inr (Some [(0, [66], demo_scope)]), bs1)"
    by (simp add: accept_def abind_def p(1) areturn_def del: lit_Cons)
  have l: "lookup_group ?env ?io ?job [0] demo_contract ?bs = (Inr (Some [(0, [66], demo_scope)]), bs1)"
    unfolding lookup_group_def Let_def b by (simp add: abind_def alift_def it a areturn_def del: rmap.simps lit_Cons)
  obtain bs2 where h: "serve_hit ?env ?io ?job (0, [66], demo_scope) bs1 = (Inr (), bs2)" "bs_slots bs2 = [hit_slot [66]]"
    "bs_missing bs2 = []" "bs_cached bs2 = 1"
    using p(2,3) demo_key_of
    by (simp add: serve_hit_def record_hit_def demo_senv_def demo_job_def alift_def same_outcome_def start_run_def del: lit_Cons)
  have r: "run_groups ?env ?io ?job [([0], demo_contract)] ?bs = (Inr 0, bs2)"
    by (simp add: run_groups_def abind_def serve_group_def l h translate_missing_def areturn_def)
  have e: "translation_groups (pe_cfg (sn_prompt ?env)) (bj_texts ?job) PNone PNone = Inr [[0]]"
    using g by (simp add: demo_senv_def demo_job_def)
  have el: "bi_elapsed ?io = 1" by (simp add: demo_batch_io_def)
  show ?thesis
    by (simp add: translate_paragraphs_def abind_def alift_def e m c run_plan_def r finish_batch_def h(2-4) el)
qed

subsection \<open>Properties\<close>

text \<open>
  C39: the reply to a batch accounts for every paragraph. There is one slot for each; blank
  paragraphs have a blank slot; \<open>cached_count\<close> is the number of slots served from the cache, and
  the cached, the fresh and the failed slots are together the paragraphs with text.
\<close>

theorem batch_reply_accounts:
  assumes "translate_paragraphs env io job se = (Inr reply, se')" "0 < tc_batch_size (pe_cfg (sn_prompt env))"
    and "distinct_keys (cs_rows (se_cache se))"
  defines "n \<equiv> length (bj_texts job)" and "slot \<equiv> \<lambda>i. br_slots reply ! i"
  shows "length (br_slots reply) = n
    \<and> (\<forall>i<n. strip (bj_texts job ! i) = [] \<longrightarrow> slot i = blank_slot)
    \<and> br_cached reply = card {i. i < n \<and> sl_cached (slot i)}
    \<and> br_cached reply + br_fresh reply + card {i. i < n \<and> \<not> sl_cached (slot i) \<and> is_error_text (sl_text (slot i))}
        = card {i. i < n \<and> strip (bj_texts job ! i) \<noteq> []}"
proof -
  obtain gcs bs bs' where t: "plan_ok job gcs" "run_ok env io job (se_cache se) gcs bs"
    "translate_missing env io job bs = (Inr (br_fresh reply), bs')" "br_slots reply = bs_slots bs'" "br_cached reply = bs_cached bs'"
    using translate_paragraphs_facts [OF assms(1-3)] by blast
  obtain items where r: "br_fresh reply = length (fresh_indices items (bs_missing bs))" "bs_cached bs' = bs_cached bs"
    "length (bs_slots bs') = n"
    "\<And>i. i < n \<Longrightarrow> slot i = (if strip (bj_texts job ! i) \<noteq> [] \<and> \<not> sl_cached (bs_slots bs ! i) then settled_slot (items ! i) else bs_slots bs ! i)"
    using reply_slots [OF t(3,2,1)] t(4) unfolding n_def slot_def by metis
  note sp = run_ok_split [OF t(2,1)]
  let ?C = "{i. i < n \<and> sl_cached (slot i)}"
  let ?M = "{i. i < n \<and> strip (bj_texts job ! i) \<noteq> [] \<and> \<not> sl_cached (bs_slots bs ! i)}"
  let ?E = "{i. i < n \<and> \<not> sl_cached (slot i) \<and> is_error_text (sl_text (slot i))}"
  let ?F = "{i \<in> ?M. \<not> is_error_text (it_text (items ! i))}"
  have blank: "slot i = blank_slot" if "i < n" "strip (bj_texts job ! i) = []" for i
    using r(4) sp(3) that unfolding n_def by simp
  have cached: "sl_cached (slot i) \<longleftrightarrow> sl_cached (bs_slots bs ! i)" if "i < n" for i
    using r(4) [OF that] by (simp add: settled_slot_def)
  have "?C = {i. i < n \<and> sl_cached (bs_slots bs ! i)}" using cached by auto
  then have C: "bs_cached bs = card ?C" using t(2) unfolding run_ok_def n_def by simp
  have "map fst (fresh_indices items (bs_missing bs)) = filter (\<lambda>i. \<not> is_error_text (it_text (items ! i))) (map fst (indexed (bs_missing bs)))"
    unfolding fresh_indices_def filter_map comp_def by (simp add: case_prod_unfold)
  then have "length (fresh_indices items (bs_missing bs)) = card ?F"
    using distinct_card [OF distinct_filter [OF sp(1), of "\<lambda>i. \<not> is_error_text (it_text (items ! i))"]]
    unfolding n_def set_filter sp(2) by (metis length_map)
  moreover have "\<not> sl_cached (slot i) \<and> is_error_text (sl_text (slot i))
      \<longleftrightarrow> strip (bj_texts job ! i) \<noteq> [] \<and> \<not> sl_cached (bs_slots bs ! i) \<and> is_error_text (it_text (items ! i))" if "i < n" for i
  proof (cases "strip (bj_texts job ! i) = []")
    case True
    then show ?thesis using blank [OF that] by (simp add: is_error_text_def blank_slot_def)
  next
    case False
    then show ?thesis using r(4) [OF that] cached [OF that] by (simp add: settled_slot_def del: strip_Nil_iff split: if_splits)
  qed
  then have "?E = {i \<in> ?M. is_error_text (it_text (items ! i))}" by blast
  moreover have "card ?M = card ?F + card {i \<in> ?M. is_error_text (it_text (items ! i))}"
    by (subst card_Un_disjoint [symmetric]) (auto intro!: arg_cong [where f = card])
  moreover have "{i. i < n \<and> strip (bj_texts job ! i) \<noteq> []} = ?C \<union> ?M"
    using cached blank by (auto simp del: strip_Nil_iff)
  moreover have "card (?C \<union> ?M) = card ?C + card ?M" using cached by (intro card_Un_disjoint) auto
  ultimately show ?thesis using r(1-3) t(4,5) C blank by (simp add: slot_def)
qed

theorem batch_reply_accounts_witness:
  "\<exists>reply. fst (translate_paragraphs demo_senv demo_batch_io demo_job demo_service) = Inr reply
     \<and> br_cached reply + br_fresh reply = 1 \<and> card {i. i < 1 \<and> sl_cached (br_slots reply ! i)} = 1"
proof -
  obtain se' where r: "translate_paragraphs demo_senv demo_batch_io demo_job demo_service
      = (Inr \<lparr>br_slots = [hit_slot [66]], br_cached = 1, br_fresh = 0, br_elapsed = 1\<rparr>, se')" using demo_served by blast
  have b: "0 < tc_batch_size (pe_cfg (sn_prompt demo_senv))" "distinct_keys (cs_rows (se_cache demo_service))"
    by (simp_all add: demo_senv_def default_tconfig_def demo_service_def distinct_keys_def)
  have len: "length (bj_texts demo_job) = 1" by (simp add: demo_job_def)
  have "card {i. i < 1 \<and> sl_cached ([hit_slot [66]] ! i)} = 1"
    using batch_reply_accounts [OF r b, THEN conjunct2, THEN conjunct2, THEN conjunct1] unfolding len by (metis batch_reply.select_convs(1,2))
  then show ?thesis by (intro exI [of _ "\<lparr>br_slots = [hit_slot [66]], br_cached = 1, br_fresh = 0, br_elapsed = 1\<rparr>"]) (simp add: r)
qed

text \<open>
  C2: what a batch serves from the cache is the caller's own and whole. When a slot is marked as
  cached, so is every slot of its group in the plan that \<open>translation_groups\<close> makes for the texts
  of the request, and all of them stand in unexpired rows which the cache held before the
  request, under one backend that the consent of the request admits and one contract (that of
  the group, or that of single texts), in the namespace of the request. A group is never served
  in part.
\<close>

theorem batch_hits_scoped:
  assumes "translate_paragraphs env io job se = (Inr reply, se')" "0 < tc_batch_size (pe_cfg (sn_prompt env))"
    and "distinct_keys (cs_rows (se_cache se))" "i < length (bj_texts job)" "sl_cached (br_slots reply ! i)"
  shows "\<exists>groups g c p. translation_groups (pe_cfg (sn_prompt env)) (bj_texts job) PNone PNone = Inr groups
    \<and> g \<in> set groups \<and> i \<in> set g \<and> p \<in> set (eligible_providers (sn_pf env) (bj_allow job))
    \<and> (batch_cache_contract (sn_prompt env) (bj_texts job) (map int g) (bj_source job) (bj_target job) (Some (bj_glossary job)) = Inr c
       \<or> single_cache_contract (sn_prompt env) (bj_source job) (bj_target job) (Some (bj_glossary job)) = Inr c)
    \<and> (\<forall>j\<in>set g. sl_cached (br_slots reply ! j)
         \<and> row_served env io job (se_cache se)
             (bj_texts job ! j, cache_namespace (p_spec p), p_model p, context_hash c, prompt_hash c, protocol_version c)
             (sl_text (br_slots reply ! j)))"
proof -
  obtain gcs bs bs' where t: "plan_ok job gcs" "run_ok env io job (se_cache se) gcs bs"
    "\<forall>(g, c)\<in>set gcs. batch_cache_contract (sn_prompt env) (bj_texts job) (map int g) (bj_source job) (bj_target job)
          (Some (bj_glossary job)) = Inr c"
    "translate_missing env io job bs = (Inr (br_fresh reply), bs')" "br_slots reply = bs_slots bs'"
    and plan: "translation_groups (pe_cfg (sn_prompt env)) (bj_texts job) PNone PNone = Inr (map fst gcs)"
    using translate_paragraphs_facts [OF assms(1-3)] by blast
  obtain items where r: "\<And>i. i < length (bj_texts job) \<Longrightarrow> bs_slots bs' ! i =
      (if strip (bj_texts job ! i) \<noteq> [] \<and> \<not> sl_cached (bs_slots bs ! i) then settled_slot (items ! i) else bs_slots bs ! i)"
    using reply_slots [OF t(4,2,1)] by metis
  have c: "sl_cached (bs_slots bs ! i)" "strip (bj_texts job ! i) \<noteq> []"
    using r [OF assms(4)] assms(5) t(5) run_ok_split(3) [OF t(2,1)] assms(4)
    by (auto simp: settled_slot_def simp del: strip_Nil_iff split: if_splits)
  have "i \<in> set (concat (map fst gcs))" using t(1) c(2) assms(4) unfolding plan_ok_def by blast
  then obtain g c where g: "(g, c) \<in> set gcs" "i \<in> set g" by auto
  then obtain cc where cc: "cc = c \<or> single_cache_contract (sn_prompt env) (bj_source job) (bj_target job) (Some (bj_glossary job)) = Inr cc"
    "group_served env io job (se_cache se) cc (\<lambda>i hit. bs_slots bs ! i = hit_slot hit) g"
    using run_ok_group_cases [OF t(2,1) g(1)] c(1) by fastforce
  then obtain p where p: "p \<in> set (eligible_providers (sn_pf env) (bj_allow job))"
    "\<And>j. j \<in> set g \<Longrightarrow> \<exists>hit. bs_slots bs ! j = hit_slot hit \<and> row_served env io job (se_cache se)
       (bj_texts job ! j, cache_namespace (p_spec p), p_model p, context_hash cc, prompt_hash cc, protocol_version cc) hit"
    unfolding group_served_def cache_lookup_backends_def by auto
  have "sl_cached (br_slots reply ! j) \<and> row_served env io job (se_cache se)
       (bj_texts job ! j, cache_namespace (p_spec p), p_model p, context_hash cc, prompt_hash cc, protocol_version cc) (sl_text (br_slots reply ! j))"
    if "j \<in> set g" for j
  proof -
    have "j < length (bj_texts job)" using g(1) that t(1) unfolding plan_ok_def by force
    then have "br_slots reply ! j = bs_slots bs ! j" using r p(2) [OF that] t(5) by auto
    then show ?thesis using p(2) [OF that] by (auto simp: hit_slot_def)
  qed
  moreover have "g \<in> set (map fst gcs)" using g(1) by force
  ultimately show ?thesis using plan g t(3) cc(1) p(1)
    by (intro exI [of _ "map fst gcs"] exI [of _ g] exI [of _ cc] exI [of _ p]) fastforce
qed

theorem batch_hits_scoped_witness:
  "\<exists>reply groups g p hit. fst (translate_paragraphs demo_senv demo_batch_io demo_job demo_service) = Inr reply
     \<and> translation_groups default_tconfig (bj_texts demo_job) PNone PNone = Inr groups \<and> g \<in> set groups \<and> 0 \<in> set g
     \<and> p \<in> set (eligible_providers (sn_pf demo_senv) False) \<and> br_slots reply = [hit_slot hit]"
proof -
  obtain se' where r: "translate_paragraphs demo_senv demo_batch_io demo_job demo_service
      = (Inr \<lparr>br_slots = [hit_slot [66]], br_cached = 1, br_fresh = 0, br_elapsed = 1\<rparr>, se')" using demo_served by blast
  have b: "0 < tc_batch_size (pe_cfg (sn_prompt demo_senv))" "distinct_keys (cs_rows (se_cache demo_service))"
    by (simp_all add: demo_senv_def default_tconfig_def demo_service_def distinct_keys_def)
  have j: "0 < length (bj_texts demo_job)" "bj_allow demo_job = False" "pe_cfg (sn_prompt demo_senv) = default_tconfig"
    by (simp_all add: demo_job_def demo_senv_def)
  have "\<exists>groups g p. translation_groups default_tconfig (bj_texts demo_job) PNone PNone = Inr groups \<and> g \<in> set groups \<and> 0 \<in> set g
      \<and> p \<in> set (eligible_providers (sn_pf demo_senv) False)"
    using batch_hits_scoped [OF r b j(1)] j(2,3) by auto
  then show ?thesis by (auto simp: r)
qed

end
