(* ===== verification/Batch_Writes.thy ===== *)
theory Batch_Writes
  imports Batch_Service_Facts
begin

section \<open>What a batch writes\<close>

text \<open>
  The rows that a batch adds to the cache or overwrites: only translations that the reply shows,
  that a worker returned under the contract of its group, and that are filed in the namespace of
  the request under the backend that produced them.
\<close>

lemma upserts_origin:
  "map_of (fold upsert_row new d) k = Some r \<Longrightarrow>
   (\<exists>r0. map_of d k = Some r0 \<and> cr_translated_text r = cr_translated_text r0)
   \<or> (\<exists>r1. (k, r1) \<in> set new \<and> cr_translated_text r = cr_translated_text r1)"
proof (induction new arbitrary: d)
  case (Cons kr new)
  obtain k1 r1 where kr: "kr = (k1, r1)" by (cases kr)
  from Cons.IH [of "upsert_row kr d"] Cons.prems consider
      r0 where "map_of (upsert_row kr d) k = Some r0" "cr_translated_text r = cr_translated_text r0"
    | r2 where "(k, r2) \<in> set new" "cr_translated_text r = cr_translated_text r2" by auto
  then show ?case
  proof cases
    case 1
    then show ?thesis using kr by (cases "k = k1") (auto simp: map_of_upsert split: option.splits)
  qed auto
qed simp

lemma put_many_origin:
  assumes "put_many sha now pr entries st = (r, st')" "distinct_keys (cs_rows st)" "map_of (cs_rows st') k = Some row"
  shows "(\<exists>r0. map_of (cs_rows st) k = Some r0 \<and> cr_translated_text row = cr_translated_text r0)
    \<or> (\<exists>e\<in>set entries. \<exists>r1. make_row sha (isoformat now) e = Inr (k, r1) \<and> cr_translated_text row = cr_translated_text r1)"
proof (cases "cs_rows st' = cs_rows st")
  case True
  then show ?thesis using assms(3) by auto
next
  case False
  then obtain new where new: "rmap (make_row sha (isoformat now)) entries = Inr new" "put_rows pr new st = (r, st')"
    using assms(1) by (auto simp: put_many_def split: if_splits sum.splits)
  have d: "distinct_keys (fold upsert_row new (cs_rows st))"
    using assms(2) fold_upsert_shape by metis
  have "map_of (fold upsert_row new (cs_rows st)) k = Some row"
    using new(2) False assms(3) d
    by (auto simp: put_rows_def Let_def enforce_cap_def delete_expired_def dest!: map_of_filter_SomeD split: if_splits sum.splits)
  from upserts_origin [OF this] show ?thesis using rmap_Inr_set [OF new(1)] by fastforce
qed

lemma write_back_origin:
  assumes "map_of (cs_rows (se_cache (write_back env io writes se))) k = Some row" "distinct_keys (cs_rows (se_cache se))"
  shows "(\<exists>r0. map_of (cs_rows (se_cache se)) k = Some r0 \<and> cr_translated_text row = cr_translated_text r0)
    \<or> (\<exists>e\<in>set writes. \<exists>now r1. make_row (pe_sha (sn_prompt env)) now e = Inr (k, r1) \<and> cr_translated_text row = cr_translated_text r1)"
proof (cases "writes = []")
  case True
  then show ?thesis using assms(1) by (simp add: write_back_def)
next
  case False
  obtain r c where p: "put_many (pe_sha (sn_prompt env)) (fst (bi_write io)) (snd (bi_write io)) writes (se_cache se) = (r, c)" by fastforce
  then have "map_of (cs_rows c) k = Some row"
    using assms(1) False by (auto simp: write_back_def invalidate_stats_cache_def split: sum.splits)
  from put_many_origin [OF p assms(2) this] show ?thesis by blast
qed

text \<open>A written entry, traced back to the index it is for.\<close>

lemma written_entry:
  assumes "rmap (cache_write env job items) (filter (\<lambda>(i, _). it_cacheable (items ! i)) (fresh_indices items missing)) = Inr writes"
    and "e \<in> set writes" "make_row sha now e = Inr (k, r)"
  shows "\<exists>i c scope. (i, c) \<in> set (indexed missing) \<and> it_cacheable (items ! i) \<and> \<not> is_error_text (it_text (items ! i))
    \<and> contract_scope (bj_namespace job) c (it_provider (items ! i)) (model_for_provider (sn_pf env) (it_provider (items ! i))) = Inr scope
    \<and> compute_key sha (PStr (bj_texts job ! i)) (PStr (bj_source job)) (PStr (bj_target job)) (Scope scope) = Inr k
    \<and> cr_translated_text r = it_text (items ! i)"
proof -
  obtain i c where ic: "(i, c) \<in> set (fresh_indices items missing)" "it_cacheable (items ! i)" "cache_write env job items (i, c) = Inr e"
    using rmap_Inr_set [OF assms(1,2)] by auto
  then obtain scope where sc: "contract_scope (bj_namespace job) c (it_provider (items ! i))
        (model_for_provider (sn_pf env) (it_provider (items ! i))) = Inr scope"
    "e = (PStr (bj_texts job ! i), PStr (bj_source job), PStr (bj_target job), PStr (it_text (items ! i)), Scope scope)"
    by (auto simp: cache_write_def rbind_eq_Inr)
  note mr = make_row_Inr [OF assms(3) [unfolded sc(2)]]
  from ic sc mr show ?thesis by (intro exI [of _ i] exI [of _ c] exI [of _ scope]) (auto simp: fresh_indices_def)
qed

text \<open>The item at an index is the one its worker returned there.\<close>

lemma settled_item:
  assumes "missing_outcome env io job bs items writes" "run_ok env io job st gcs bs" "plan_ok job gcs"
    and "\<forall>gs. mset (bi_order io gs) = mset gs" "(g, c) \<in> set (bs_missing bs)" "i \<in> set g"
  shows "\<exists>its j. settled_by (bj_texts job) (worker_of env io job) g = Inr its \<and> j < length g \<and> g ! j = i \<and> items ! i = its ! j \<and> item_ok (its ! j)"
proof -
  let ?settle = "settled_by (bj_texts job) (worker_of env io job)"
  let ?groups = "map fst (bs_missing bs)"
  have order: "mset (bi_order io ?groups) = mset ?groups" using assms(4) by blast
  have res: "batch_results (bj_texts job) (map (\<lambda>g. (g, ?settle g)) (bi_order io ?groups)) = Inr items"
    using assms(1) by (simp add: missing_outcome_def)
  have inr: "?settle h = Inr (projr (?settle h))" if "h \<in> set ?groups" for h
    using collect_Inr [OF res [unfolded batch_results_def]] that mset_eq_setD [OF order] by fastforce
  have ok: "length (projr (?settle h)) = length h \<and> list_all item_ok (projr (?settle h))" if "h \<in> set ?groups" for h
    using do_group_ok inr [OF that] unfolding settled_by_def by (metis (no_types, lifting) case_prod_unfold)
  have d: "distinct (concat ?groups)" "\<forall>i\<in>set (concat ?groups). i < length (bj_texts job)"
    using run_ok_split(1,2) [OF assms(2,3)] unfolding fst_indexed by auto
  obtain rs where rs: "batch_results (bj_texts job) (map (\<lambda>g. (g, Inr (projr (?settle g)))) (bi_order io ?groups)) = Inr rs"
    "\<forall>g\<in>set ?groups. \<forall>j<length g. rs ! (g ! j) = projr (?settle g) ! j"
    using batch_results_pointwise [OF d _ order, of "\<lambda>g. projr (?settle g)"] ok by blast
  have same: "map (\<lambda>g. (g, Inr (projr (?settle g)))) (bi_order io ?groups) = map (\<lambda>g. (g, ?settle g)) (bi_order io ?groups)"
    using inr mset_eq_setD [OF order] by auto
  have "rs = items" using rs(1) res unfolding same by simp
  moreover have g: "g \<in> set ?groups" using assms(5) by force
  moreover obtain j where "j < length g" "g ! j = i" using assms(6) by (auto simp: in_set_conv_nth)
  ultimately show ?thesis using rs(2) inr [OF g] ok [OF g]
    by (intro exI [of _ "projr (?settle g)"] exI [of _ j]) (auto simp: list_all_length)
qed

subsection \<open>Properties\<close>

text \<open>
  C10: a batch writes to the cache what it shows, under the request's own scope. A row of the cache
  after the request holds the text of a row that was there before, or the text of a slot of the
  reply that is neither a hit nor an error marker: a worker returned it directly or from a
  repeated envelope, never from the paragraph fallback, and it is filed under the namespace of
  the request, the contract of its group and the backend that produced it.
\<close>

theorem batch_writes_scoped:
  assumes "translate_paragraphs env io job se = (Inr reply, se')" "0 < tc_batch_size (pe_cfg (sn_prompt env))"
    and "distinct_keys (cs_rows (se_cache se))" "\<forall>gs. mset (bi_order io gs) = mset gs"
    and "map_of (cs_rows (se_cache se')) k = Some row"
  shows "(\<exists>r0. map_of (cs_rows (se_cache se)) k = Some r0 \<and> cr_translated_text row = cr_translated_text r0)
    \<or> (\<exists>i g c scope its j. i < length (bj_texts job) \<and> j < length g \<and> g ! j = i
         \<and> batch_cache_contract (sn_prompt env) (bj_texts job) (map int g) (bj_source job) (bj_target job) (Some (bj_glossary job)) = Inr c
         \<and> settled_by (bj_texts job) (worker_of env io job) g = Inr its \<and> it_path (its ! j) \<in> {Direct, EnvelopeRetry}
         \<and> cr_translated_text row = it_text (its ! j) \<and> br_slots reply ! i = settled_slot (its ! j) \<and> \<not> is_error_text (it_text (its ! j))
         \<and> contract_scope (bj_namespace job) c (it_provider (its ! j)) (model_for_provider (sn_pf env) (it_provider (its ! j))) = Inr scope
         \<and> compute_key (pe_sha (sn_prompt env)) (PStr (bj_texts job ! i)) (PStr (bj_source job)) (PStr (bj_target job)) (Scope scope) = Inr k)"
proof -
  obtain gcs bs bs' where t: "plan_ok job gcs" "run_ok env io job (se_cache se) gcs bs"
    "\<forall>(g, c)\<in>set gcs. batch_cache_contract (sn_prompt env) (bj_texts job) (map int g) (bj_source job) (bj_target job)
          (Some (bj_glossary job)) = Inr c"
    "translate_missing env io job bs = (Inr (br_fresh reply), bs')" "br_slots reply = bs_slots bs'" "se_cache se' = se_cache (bs_service bs')"
    using translate_paragraphs_facts [OF assms(1-3)] by blast
  have rf: "rows_from (se_cache se) (se_cache (bs_service bs))" using t(2) by (simp add: run_ok_def memo_ok_def)
  have old: "\<exists>r0. map_of (cs_rows (se_cache se)) k = Some r0 \<and> cr_translated_text r = cr_translated_text r0"
    if "map_of (cs_rows (se_cache (bs_service bs))) k = Some r" for r
    using rf that assms(3) unfolding rows_from_def by metis
  show ?thesis
  proof (cases "bs_missing bs = []")
    case True
    then have "bs' = bs" using t(4) by (simp add: translate_missing_def)
    then show ?thesis using old assms(5) t(6) by auto
  next
    case False
    from translate_missing_facts [OF t(4) False] obtain items writes se1 where m: "missing_outcome env io job bs items writes"
      "bs_slots bs' = place_slots items (indexed (bs_missing bs)) (bs_slots bs)"
      "se_cache se1 = se_cache (bs_service bs)" "bs_service bs' = write_back env io writes se1" by blast
    have d: "distinct_keys (cs_rows (se_cache se1))" using rf assms(3) m(3) by (simp add: rows_from_def)
    from write_back_origin [OF _ d, of env io writes k row] consider
        r0 where "map_of (cs_rows (se_cache (bs_service bs))) k = Some r0" "cr_translated_text row = cr_translated_text r0"
      | e now r1 where "e \<in> set writes" "make_row (pe_sha (sn_prompt env)) now e = Inr (k, r1)" "cr_translated_text row = cr_translated_text r1"
      using assms(5) t(6) m(3,4) by auto
    then show ?thesis
    proof cases
      case 1
      then show ?thesis using old by metis
    next
      case 2
      obtain i c scope where w: "(i, c) \<in> set (indexed (bs_missing bs))" "it_cacheable (items ! i)" "\<not> is_error_text (it_text (items ! i))"
        "contract_scope (bj_namespace job) c (it_provider (items ! i)) (model_for_provider (sn_pf env) (it_provider (items ! i))) = Inr scope"
        "compute_key (pe_sha (sn_prompt env)) (PStr (bj_texts job ! i)) (PStr (bj_source job)) (PStr (bj_target job)) (Scope scope) = Inr k"
        "cr_translated_text r1 = it_text (items ! i)"
        using written_entry [OF m(1) [unfolded missing_outcome_def, THEN conjunct2] 2(1,2)] by blast
      then obtain g where g: "(g, c) \<in> set (bs_missing bs)" "i \<in> set g" by (auto simp: indexed_def)
      obtain its j where s: "settled_by (bj_texts job) (worker_of env io job) g = Inr its" "j < length g" "g ! j = i"
        "items ! i = its ! j" "item_ok (its ! j)"
        using settled_item [OF m(1) t(2,1) assms(4) g] by blast
      have "i \<in> set (map fst (indexed (bs_missing bs)))" using w(1) by (metis fst_conv image_eqI list.set_map)
      then have i: "i < length (bj_texts job)" "i \<in> set (map fst (indexed (bs_missing bs)))"
        using run_ok_split(2) [OF t(2,1)] by blast+
      have slot: "br_slots reply ! i = settled_slot (its ! j)"
        using place_slots_nth [OF run_ok_split(1) [OF t(2,1)], of i "bs_slots bs" items] i m(2) t(2,5) s(4) by (simp add: run_ok_def)
      have path: "it_path (its ! j) \<in> {Direct, EnvelopeRetry}"
        using s(4,5) w(2) by (auto simp: item_ok_def split: recovery_path.splits)
      have c: "batch_cache_contract (sn_prompt env) (bj_texts job) (map int g) (bj_source job) (bj_target job) (Some (bj_glossary job)) = Inr c"
        using t(2,3) g(1) by (auto simp: run_ok_def)
      show ?thesis using w s i(1) slot path c 2(3)
        by (intro disjI2 exI [of _ i] exI [of _ g] exI [of _ c] exI [of _ scope] exI [of _ its] exI [of _ j]) simp
    qed
  qed
qed

text \<open>A request that the cache serves writes nothing new.\<close>

theorem batch_writes_scoped_witness:
  "\<exists>reply se'. translate_paragraphs demo_senv demo_batch_io demo_job demo_service = (Inr reply, se')
     \<and> (\<forall>row. map_of (cs_rows (se_cache se')) [7] = Some row \<longrightarrow> cr_translated_text row = [66])"
proof -
  obtain se' where r: "translate_paragraphs demo_senv demo_batch_io demo_job demo_service
      = (Inr \<lparr>br_slots = [hit_slot [66]], br_cached = 1, br_fresh = 0, br_elapsed = 1\<rparr>, se')" using demo_served by blast
  have b: "0 < tc_batch_size (pe_cfg (sn_prompt demo_senv))" "distinct_keys (cs_rows (se_cache demo_service))"
    "\<forall>gs. mset (bi_order demo_batch_io gs) = mset gs"
    by (simp_all add: demo_senv_def default_tconfig_def demo_service_def distinct_keys_def demo_batch_io_def)
  have len: "length (bj_texts demo_job) = 1" by (simp add: demo_job_def)
  have "cr_translated_text row = [66]" if "map_of (cs_rows (se_cache se')) [7] = Some row" for row
    using batch_writes_scoped [OF r b that] unfolding len
  proof (elim disjE exE conjE)
    fix r0 assume "map_of (cs_rows (se_cache demo_service)) [7] = Some r0" "cr_translated_text row = cr_translated_text r0"
    then show ?thesis by (auto simp: demo_service_def demo_row_def)
  qed (simp add: settled_slot_def hit_slot_def)
  then show ?thesis using r by blast
qed

end
