(* ===== verification/Streaming.thy ===== *)
theory Streaming
  imports Call_Facts
begin

section \<open>Streaming translations\<close>

text \<open>
  Models the streaming side of \<open>translator.py\<close>: the bounded splitting of a response into lines
  (\<open>_iter_sse_lines\<close>), the deltas of one provider (\<open>_call_provider_stream\<close>), the classification
  of a failure (\<open>_stream_provider_error\<close>) and the provider loop (\<open>translate_text_stream\<close>).

  A generator is what it yields when it is consumed to its end, and the exception it ends with,
  if any. A consumer that stops early sees a prefix of it.
\<close>

subsection \<open>Lines\<close>

definition rstrip_cr :: "bytes \<Rightarrow> bytes" where
  "rstrip_cr line = rev (dropWhile (\<lambda>c. c = 13) (rev line))"

text \<open>
  The inner \<open>while\<close>: every complete line of the pending bytes, with a budget check before each.
  \<open>t k\<close> is the reading of the \<open>k\<close>-th check of the stream.
\<close>

function drain :: "nat \<Rightarrow> budget \<Rightarrow> (nat \<Rightarrow> seconds) \<Rightarrow> nat \<Rightarrow> bytes \<Rightarrow> bytes list \<times> nat \<times> bytes \<times> call_exn option" where
  "drain cap b t k pending =
     (if 10 \<notin> set pending then ([], k, pending, None)
      else let line = takeWhile (\<lambda>c. c \<noteq> 10) pending; rest = drop (length line + 1) pending in
           if cap < length line then ([], k, pending, Some XTooLarge)
           else case lift_budget (ensure_active (t k) b) of
                  Inl e \<Rightarrow> ([], k + 1, rest, Some e)
                | Inr _ \<Rightarrow> (case drain cap b t (k + 1) rest of
                     (ls, k', p, e) \<Rightarrow> (rstrip_cr line # ls, k', p, e)))"
  by pat_completeness auto
termination
  by (relation "measure (\<lambda>(cap, b, t, k, pending). length pending)") (auto intro!: diff_less length_pos_if_in_set)

declare drain.simps [simp del]

fun sse_lines ::
  "nat \<Rightarrow> budget \<Rightarrow> (nat \<Rightarrow> seconds) \<Rightarrow> nat \<Rightarrow> bytes \<Rightarrow> (transport_exn + bytes) list \<Rightarrow> bytes list \<times> call_exn option" where
  "sse_lines cap b t k pending [] =
     (let last_check = lift_budget (ensure_active (t (if pending = [] then k else k + 1)) b) in
      if pending = [] then ([], case last_check of Inl e \<Rightarrow> Some e | Inr _ \<Rightarrow> None)
      else case lift_budget (ensure_active (t k) b) of
             Inl e \<Rightarrow> ([], Some e)
           | Inr _ \<Rightarrow> ([rstrip_cr pending], case last_check of Inl e \<Rightarrow> Some e | Inr _ \<Rightarrow> None))"
| "sse_lines cap b t k pending (Inl x # cs) = ([], Some (transport_error x))"
| "sse_lines cap b t k pending (Inr chunk # cs) =
     (case lift_budget (ensure_active (t k) b) of
        Inl e \<Rightarrow> ([], Some e)
      | Inr _ \<Rightarrow>
          if chunk = [] then sse_lines cap b t (k + 1) pending cs
          else (case drain cap b t (k + 1) (pending @ chunk) of
                  (ls, k', p, Some e) \<Rightarrow> (ls, Some e)
                | (ls, k', p, None) \<Rightarrow>
                    if cap < length p then (ls, Some XTooLarge)
                    else (case sse_lines cap b t k' p cs of (later, e) \<Rightarrow> (ls @ later, e))))"

subsection \<open>Deltas\<close>

definition ascii_space :: "nat \<Rightarrow> bool" where
  "ascii_space c \<longleftrightarrow> c = 32 \<or> 9 \<le> c \<and> c \<le> 13"

definition strip_bytes :: "bytes \<Rightarrow> bytes" where
  "strip_bytes s = rev (dropWhile ascii_space (rev (dropWhile ascii_space s)))"

definition delta_content :: "pyval \<Rightarrow> (call_exn, pyval) result" where
  "delta_content body =
     rbind (dict_get body ''choices'' (PList [PDict []])) (\<lambda>choices.
     rbind (first_item choices) (\<lambda>choice.
     rbind (dict_get choice ''delta'' (PDict [])) (\<lambda>d.
       dict_get d ''content'' (PStr []))))"

text \<open>
  A line: nothing, the end marker, a delta, or an exception. A malformed line is skipped, but a
  \<open>KeyError\<close> (an object in place of the list of choices) is not among the skipped exceptions.
\<close>

datatype line_event = LSkip | LDone | LDelta pystr | LRaise call_exn

definition line_event :: "(bytes \<Rightarrow> pyval option) \<Rightarrow> bytes \<Rightarrow> line_event" where
  "line_event loads line =
     (if \<not> prefix (lit ''data: '') line then LSkip
      else let data = strip_bytes (drop 6 line) in
           if data = lit ''[DONE]'' then LDone
           else case loads data of
                  None \<Rightarrow> LSkip
                | Some body \<Rightarrow>
                   (case delta_content body of
                      Inl XKey \<Rightarrow> LRaise XKey
                    | Inl _ \<Rightarrow> LSkip
                    | Inr (PStr d) \<Rightarrow> if d = [] then LSkip else LDelta d
                    | Inr _ \<Rightarrow> LSkip))"

fun deltas_of :: "(bytes \<Rightarrow> pyval option) \<Rightarrow> bytes list \<times> call_exn option \<Rightarrow> pystr list \<times> call_exn option" where
  "deltas_of loads ([], e) = ([], e)"
| "deltas_of loads (line # ls, e) =
     (case line_event loads line of
        LSkip \<Rightarrow> deltas_of loads (ls, e)
      | LDone \<Rightarrow> ([], None)
      | LRaise x \<Rightarrow> ([], Some x)
      | LDelta d \<Rightarrow> (case deltas_of loads (ls, e) of (ds, e') \<Rightarrow> (d # ds, e')))"

definition stream_request :: "provider \<Rightarrow> pystr \<Rightarrow> pystr \<Rightarrow> seconds \<Rightarrow> int \<Rightarrow> http_request" where
  "stream_request p user_content prompt timeout max_tokens =
     \<lparr>q_url = endpoint (p_spec p),
      q_headers = [(lit ''Content-Type'', lit ''application/json'')]
        @ (if p_api_key p \<noteq> [] then [(lit ''Authorization'', lit ''Bearer '' @ p_api_key p)] else []),
      q_payload = PDict ([(lit ''model'', PStr (p_model p)), (lit ''max_tokens'', PInt max_tokens),
          (lit ''stream'', PBool True),
          (lit ''messages'', PList [message ''system'' prompt, message ''user'' user_content])]
        @ (if provider_id (p_spec p) \<noteq> lit ''gemini'' then temperature else [])),
      q_timeout = timeout\<rparr>"

definition call_provider_stream ::
  "call_env \<Rightarrow> provider \<Rightarrow> http_request \<Rightarrow> attempt_io \<Rightarrow> budget \<Rightarrow> (pystr list \<times> call_exn option) \<times> http_request list" where
  "call_provider_stream env p req io b =
     (case (if provider_id (p_spec p) = custom_provider_id
            then rbind (resolve_custom_endpoint (ce_net env) (a_dns io) (Some b) (endpoint (p_spec p))) (\<lambda>_. Inr ())
            else Inr ()) of
        Inl e \<Rightarrow> (([], Some e), [])
      | Inr _ \<Rightarrow>
         (case deadline_provider_post io req b of
            (Inl e, sent) \<Rightarrow> (([], Some e), sent)
          | (Inr r, sent) \<Rightarrow>
              (if 400 \<le> r_status r \<and> r_status r < 600
               then ([], Some (XRequest (r_status r) False (r_retry_after r)))
               else deltas_of (ce_loads env) (sse_lines (ce_cap env) b (\<lambda>k. snd (r_checks r k)) 0 [] (r_chunks r)), sent)))"

subsection \<open>The reasoning filter on a stream that may fail\<close>

text \<open>What the filter has yielded when its source raises after the given deltas.\<close>

fun skip_interrupted :: "nat \<Rightarrow> phase \<Rightarrow> pystr \<Rightarrow> nat \<Rightarrow> pystr list \<Rightarrow> pystr list \<times> text_error option" where
  "skip_interrupted cap ph held n [] = ([], None)"
| "skip_interrupted cap ph held n (delta # deltas) =
     (if ph = PText
      then (let (out, e) = skip_interrupted cap ph held n deltas in (delta # out, e))
      else case utf8_len delta of
             None \<Rightarrow> ([], Some TextEncodeError)
           | Some m \<Rightarrow>
               if cap < n + m then ([], Some TextTooLarge)
               else (let (ph', held', ys) = step_phase ph (held @ delta);
                         (out, e) = skip_interrupted cap ph' held' (n + m) deltas
                     in (ys @ out, e)))"

definition visible_deltas :: "nat \<Rightarrow> pystr \<Rightarrow> pystr list \<times> call_exn option \<Rightarrow> pystr list \<times> call_exn option" where
  "visible_deltas cap user_content s =
     (if contains think_open user_content then s
      else case s of
        (ds, None) \<Rightarrow> (case skip_leading_reasoning cap ds of (out, e) \<Rightarrow> (out, map_option text_exn e))
      | (ds, Some x) \<Rightarrow>
         (case skip_interrupted cap PStart [] 0 ds of
            (out, None) \<Rightarrow> (out, Some x) | (out, Some e) \<Rightarrow> (out, Some (text_exn e))))"

subsection \<open>The provider loop\<close>

definition stream_provider_error :: "provider \<Rightarrow> call_exn \<Rightarrow> provider_error" where
  "stream_provider_error p x =
     (case x of
        XSsl \<Rightarrow> call_error p 0 False False None
      | XConfig _ \<Rightarrow> call_error p 0 False False None
      | XRequest status tr ra \<Rightarrow> request_error p status tr ra
      | _ \<Rightarrow> call_error p 0 False True None)"

datatype stream_error = SBudget pystr | SUnavailable pystr "nat option"

definition stream_unavailable :: "provider_error option \<Rightarrow> stream_error" where
  "stream_unavailable last_error =
     (case unavailable last_error of CBudget r \<Rightarrow> SBudget r | CUnavailable code ra \<Rightarrow> SUnavailable code ra)"

text \<open>
  One streaming attempt: what it yields, how it ends (\<open>None\<close> is a clean end), whether the
  attempt was recorded, and the state. The upstream slot is held while the consumer reads.
\<close>

definition stream_attempt ::
  "call_env \<Rightarrow> provider \<Rightarrow> pystr \<Rightarrow> pystr \<Rightarrow> int \<Rightarrow> attempt_io \<Rightarrow> call_state
   \<Rightarrow> pystr list \<times> call_exn option \<times> bool \<times> call_state" where
  "stream_attempt env p u prompt mt io st =
     (case acquire_upstream_slot io (ks_budget st) of
        Inl e \<Rightarrow> ([], Some e, False, st)
      | Inr _ \<Rightarrow>
          let st0 = st\<lparr>ks_inflight := ks_inflight st + 1\<rparr>;
              release = (\<lambda>s. s\<lparr>ks_inflight := ks_inflight s - 1\<rparr>) in
          (case reserve_attempt (a_reserve_t io) (PStr (u @ prompt)) (PInt mt) (ks_budget st0) of
             (Inl e, b) \<Rightarrow> ([], Some (budget_exn e), False, release (st0\<lparr>ks_budget := b\<rparr>))
           | (Inr _, b) \<Rightarrow>
               let st1 = note_call ''attempt'' (st0\<lparr>ks_budget := b\<rparr>) in
               (case call_provider_stream env p (stream_request p u prompt (ce_timeout env) mt) io b of
                  (deltas, sent) \<Rightarrow>
                    (case visible_deltas (ce_cap env) u deltas of
                       (out, e) \<Rightarrow> (out, e, True, release (log_sent p b sent st1))))))"

definition note_if :: "bool \<Rightarrow> string \<Rightarrow> call_state \<Rightarrow> call_state" where
  "note_if c name st = (if c then note_call name st else st)"

fun is_429 :: "call_exn \<Rightarrow> bool" where
  "is_429 (XRequest status tr ra) = (status = 429)"
| "is_429 _ = False"

text \<open>
  The handlers of a failed stream: the generator ends, or the next provider may be tried. \<open>now\<close>
  is the clock of the budget check, which turns a deadline into the error of the request.
\<close>

datatype stream_next = EndStream stream_error | NextProvider provider_error

definition after_failure ::
  "provider \<Rightarrow> provider_error option \<Rightarrow> bool \<Rightarrow> bool \<Rightarrow> seconds \<Rightarrow> call_exn \<Rightarrow> call_state \<Rightarrow> stream_next \<times> call_state" where
  "after_failure p last_error yielded recorded now x st =
     (let st1 = note_if recorded ''failure'' st in
      case x of
        XBudget r \<Rightarrow> (EndStream (SBudget r), st1)
      | _ \<Rightarrow>
         (case ensure_active now (ks_budget st1) of
            Inl (WorkBudgetExceeded r) \<Rightarrow> (EndStream (SBudget r), st1)
          | Inl _ \<Rightarrow> (EndStream (stream_unavailable last_error), st1)
          | Inr _ \<Rightarrow>
              if yielded then (EndStream (SUnavailable (lit ''provider_stream_interrupted'') None), st1)
              else (NextProvider (stream_provider_error p x), note_if (is_429 x) ''rate_limited'' st1)))"

text \<open>
  The loop over the eligible providers: the yielded pairs of delta and namespace, and the
  exception the generator ends with.
\<close>

fun stream_loop ::
  "call_env \<Rightarrow> pystr \<Rightarrow> pystr \<Rightarrow> int \<Rightarrow> (provider \<Rightarrow> nat \<Rightarrow> attempt_io) \<Rightarrow> provider list \<Rightarrow> provider_error option
   \<Rightarrow> call_state \<Rightarrow> (pystr \<times> pystr) list \<times> stream_error option \<times> call_state" where
  "stream_loop env u prompt mt ios [] last_error st = ([], Some (stream_unavailable last_error), st)"
| "stream_loop env u prompt mt ios (p # ps) last_error st =
     (if protocol (p_spec p) \<noteq> OpenAI
      then (case call_provider env p u prompt 1 mt (ios p) st of
              (Inr t, st1) \<Rightarrow> ([(t, cache_namespace (p_spec p))], None, st1)
            | (Inl (FBudget r), st1) \<Rightarrow> ([], Some (SBudget r), st1)
            | (Inl (FCall e), st1) \<Rightarrow>
                if pe_fallback e then stream_loop env u prompt mt ios ps (Some e) st1
                else ([], Some (stream_unavailable (Some e)), st1)
            | (Inl FOther, st1) \<Rightarrow> ([], Some (stream_unavailable last_error), st1))
      else (case stream_attempt env p u prompt mt (ios p 0) st of
              (out, ending, recorded, st1) \<Rightarrow>
                let ys = map (\<lambda>d. (d, cache_namespace (p_spec p))) out in
                (case ending of
                   None \<Rightarrow>
                     if out \<noteq> [] then (ys, None, note_call ''success'' st1)
                     else stream_loop env u prompt mt ios ps last_error st1
                 | Some x \<Rightarrow>
                    (case after_failure p last_error (out \<noteq> []) recorded (a_sleep_t1 (ios p 0)) x st1 of
                       (EndStream err, st2) \<Rightarrow> (ys, Some err, st2)
                     | (NextProvider e, st2) \<Rightarrow>
                         if pe_fallback e then stream_loop env u prompt mt ios ps (Some e) st2
                         else ([], Some (stream_unavailable (Some e)), st2)))))"

definition translate_text_stream ::
  "call_env \<Rightarrow> provider \<times> provider option \<Rightarrow> bool \<Rightarrow> pystr \<Rightarrow> pystr \<Rightarrow> int \<Rightarrow> (provider \<Rightarrow> nat \<Rightarrow> attempt_io) \<Rightarrow> seconds
   \<Rightarrow> call_state \<Rightarrow> (pystr \<times> pystr) list \<times> stream_error option \<times> call_state" where
  "translate_text_stream env pf allow u prompt mt ios now st =
     (case ensure_active now (ks_budget st) of
        Inl (WorkBudgetExceeded r) \<Rightarrow> ([], Some (SBudget r), st)
      | Inl _ \<Rightarrow> ([], Some (stream_unavailable None), st)
      | Inr _ \<Rightarrow> stream_loop env u prompt mt ios (eligible_providers pf allow) None st)"

end
