(* ===== verification/Stream_Facts.thy ===== *)
theory Stream_Facts
  imports Streaming
begin

section \<open>What a stream delivers\<close>

text \<open>
  The lines of a stream do not depend on how the network cuts it into chunks, and the deltas of
  one request never come from two providers.
\<close>

subsection \<open>Lines and chunks\<close>

lemma split_on_cut:
  "split_on d (s @ r) = butlast (split_on d s) @ split_on d (last (split_on d s) @ r)"
proof (induction s)
  case (Cons c s)
  obtain y ys where y: "split_on d s = y # ys" using split_on_not_Nil [of d s] by (cases "split_on d s") auto
  show ?case using Cons y by (cases ys) (auto split: list.splits)
qed simp

lemma split_on_first:
  assumes "d \<in> set s"
  defines "line \<equiv> takeWhile (\<lambda>c. c \<noteq> d) s"
  shows "s = line @ d # drop (length line + 1) s" "d \<notin> set line"
proof -
  have "dropWhile (\<lambda>c. c \<noteq> d) s \<noteq> []" using assms(1) by auto
  then obtain c r where cr: "dropWhile (\<lambda>c. c \<noteq> d) s = c # r" by (cases "dropWhile (\<lambda>c. c \<noteq> d) s") auto
  then have "c = d" using hd_dropWhile [of "\<lambda>c. c \<noteq> d" s] by simp
  then have s: "s = line @ d # r" using takeWhile_dropWhile_id [of "\<lambda>c. c \<noteq> d" s] cr unfolding line_def by simp
  then have "drop (length line + 1) s = r" by (metis append.assoc append_Cons append_Nil append_eq_conv_conj length_append_singleton Suc_eq_plus1)
  then show "s = line @ d # drop (length line + 1) s" using s by simp
  show "d \<notin> set line" unfolding line_def by (auto dest: set_takeWhileD)
qed

lemma split_on_first_line:
  "d \<in> set s \<Longrightarrow> split_on d s = takeWhile (\<lambda>c. c \<noteq> d) s # split_on d (drop (length (takeWhile (\<lambda>c. c \<noteq> d) s) + 1) s)"
  using split_on_first [of d s] split_on_append [of d "takeWhile (\<lambda>c. c \<noteq> d) s"] by metis

lemma last_split_on_no_sep: "d \<notin> set (last (split_on d s))"
  using split_on_no_sep split_on_not_Nil last_in_set by metis

text \<open>A budget that stays active at every check.\<close>

definition always_active :: "budget \<Rightarrow> (nat \<Rightarrow> seconds) \<Rightarrow> bool" where
  "always_active b t \<longleftrightarrow> (\<forall>k. ensure_active (t k) b = Inr ())"

lemma drain_lines:
  assumes "always_active b t" "\<forall>l\<in>set (split_on 10 pending). length l \<le> cap"
  shows "\<exists>k'. drain cap b t k pending = (map rstrip_cr (butlast (split_on 10 pending)), k', last (split_on 10 pending), None)"
  using assms(2)
proof (induction "length pending" arbitrary: pending k rule: less_induct)
  case less
  show ?case
  proof (cases "10 \<in> set pending")
    case False
    then show ?thesis by (simp add: drain.simps [of cap b t k pending] split_on_single)
  next
    case True
    let ?line = "takeWhile (\<lambda>c. c \<noteq> 10) pending"
    let ?rest = "drop (length ?line + 1) pending"
    have sp: "split_on 10 pending = ?line # split_on 10 ?rest" by (rule split_on_first_line [OF True])
    then have le: "\<not> cap < length ?line" "\<forall>l\<in>set (split_on 10 ?rest). length l \<le> cap" using less.prems by auto
    have act: "lift_budget (ensure_active (t k) b) = Inr ()" using assms(1) by (simp add: always_active_def lift_budget_def)
    have "length ?rest < length pending" using True by (auto intro!: diff_less length_pos_if_in_set)
    from less.hyps [OF this le(2)] obtain k' where
      "drain cap b t (k + 1) ?rest = (map rstrip_cr (butlast (split_on 10 ?rest)), k', last (split_on 10 ?rest), None)" by blast
    then have "drain cap b t k pending
        = (rstrip_cr ?line # map rstrip_cr (butlast (split_on 10 ?rest)), k', last (split_on 10 ?rest), None)"
      using True le(1) act by (simp add: drain.simps [of cap b t k pending] Let_def)
    then show ?thesis unfolding sp by simp
  qed
qed

text \<open>The lines of a complete text: a last line without a newline counts unless it is empty.\<close>

definition text_lines :: "bytes \<Rightarrow> bytes list" where
  "text_lines s = (let ls = split_on 10 s in map rstrip_cr (if last ls = [] then butlast ls else ls))"

lemma first_line_prefix:
  fixes p r :: bytes
  assumes p: "10 \<notin> set p"
  shows "\<exists>l\<in>set (split_on 10 (p @ r)). length p \<le> length l"
proof -
  obtain y ys where y: "split_on 10 r = y # ys" using split_on_not_Nil [of "10::nat" r] by (cases "split_on 10 r") auto
  have "split_on 10 (p @ r) = (p @ y) # ys" using p y by (induction p) auto
  then show ?thesis by auto
qed

lemma sse_lines_text:
  assumes "always_active b t"
  shows "10 \<notin> set pending \<Longrightarrow> \<forall>l\<in>set (split_on 10 (pending @ concat cs)). length l \<le> cap \<Longrightarrow>
    sse_lines cap b t k pending (map Inr cs) = (text_lines (pending @ concat cs), None)"
proof (induction cs arbitrary: pending k)
  case Nil
  have act: "lift_budget (ensure_active (t j) b) = Inr ()" for j using assms by (simp add: always_active_def lift_budget_def)
  show ?case using Nil act by (simp add: text_lines_def split_on_single Let_def)
next
  case (Cons c cs)
  have act: "lift_budget (ensure_active (t j) b) = Inr ()" for j using assms by (simp add: always_active_def lift_budget_def)
  show ?case
  proof (cases "c = []")
    case True
    then show ?thesis using Cons act by simp
  next
    case False
    let ?s = "pending @ c" and ?p = "last (split_on 10 (pending @ c))"
    have cut: "split_on 10 (?s @ concat cs) = butlast (split_on 10 ?s) @ split_on 10 (?p @ concat cs)" by (rule split_on_cut)
    have le: "\<forall>l\<in>set (split_on 10 (?p @ concat cs)). length l \<le> cap" "\<forall>l\<in>set (butlast (split_on 10 ?s)). length l \<le> cap"
      using Cons.prems(2) cut by auto
    have np: "10 \<notin> set ?p" by (rule last_split_on_no_sep)
    then have lp: "length ?p \<le> cap" using first_line_prefix [OF np, of "concat cs"] le(1) by fastforce
    have "\<forall>l\<in>set (split_on 10 ?s). length l \<le> cap"
      using le(2) lp by (metis append_butlast_last_id in_set_conv_decomp split_on_not_Nil rotate1.simps(2) set_ConsD set_rotate1)
    from drain_lines [OF assms this] obtain k' where
      d: "drain cap b t (k + 1) ?s = (map rstrip_cr (butlast (split_on 10 ?s)), k', ?p, None)" by blast
    have ih: "sse_lines cap b t k' ?p (map Inr cs) = (text_lines (?p @ concat cs), None)" by (rule Cons.IH [OF np le(1)])
    have "text_lines (?s @ concat cs) = map rstrip_cr (butlast (split_on 10 ?s)) @ text_lines (?p @ concat cs)"
      unfolding text_lines_def Let_def cut by (simp add: butlast_append)
    then show ?thesis using False act d ih lp by simp
  qed
qed

subsection \<open>One provider per stream\<close>

lemma ensure_active_error: "ensure_active now b = Inl e \<Longrightarrow> \<exists>r. e = WorkBudgetExceeded r"
  by (auto simp: ensure_active_def split: option.splits if_splits)

definition ends_after_output :: "stream_error option \<Rightarrow> bool" where
  "ends_after_output e \<longleftrightarrow>
     e = None \<or> (\<exists>r. e = Some (SBudget r)) \<or> e = Some (SUnavailable (lit ''provider_stream_interrupted'') None)"

lemma after_failure_yielded:
  "\<exists>err st'. after_failure p le True recorded now x st = (EndStream err, st') \<and> ends_after_output (Some err)"
proof (cases "ensure_active now (ks_budget (note_if recorded ''failure'' st))")
  case (Inl e)
  then obtain r where "e = WorkBudgetExceeded r" using ensure_active_error by blast
  then show ?thesis using Inl by (cases x) (simp_all add: after_failure_def ends_after_output_def Let_def)
next
  case (Inr u)
  then show ?thesis by (cases x) (simp_all add: after_failure_def ends_after_output_def Let_def)
qed

lemma stream_loop_one_provider:
  "stream_loop env u prompt mt ios ps last_error st = (ys, e, st') \<Longrightarrow> ys \<noteq> [] \<Longrightarrow>
   (\<exists>p\<in>set ps. \<forall>y\<in>set ys. snd y = cache_namespace (p_spec p))
   \<and> ends_after_output e"
proof (induction ps arbitrary: last_error st)
  case (Cons p ps)
  show ?case
  proof (cases "protocol (p_spec p) = OpenAI")
    case True
    obtain out ending recorded st1 where sa: "stream_attempt env p u prompt mt (ios p 0) st = (out, ending, recorded, st1)"
      by (metis prod_cases4)
    show ?thesis
    proof (cases ending)
      case None
      then show ?thesis
        using Cons.prems True sa Cons.IH by (auto simp: Let_def ends_after_output_def split: if_splits)
    next
      case (Some x)
      show ?thesis
      proof (cases "out = []")
        case True
        then show ?thesis
          using Cons.prems \<open>protocol (p_spec p) = OpenAI\<close> sa Some Cons.IH
          by (auto simp: Let_def split: prod.splits stream_next.splits if_splits)
      next
        case False
        then obtain err st2 where "after_failure p last_error (out \<noteq> []) recorded (a_sleep_t1 (ios p 0)) x st1 = (EndStream err, st2)"
          "ends_after_output (Some err)" using after_failure_yielded [of p last_error recorded _ x st1] by fastforce
        then show ?thesis using Cons.prems True sa Some by (auto simp: Let_def)
      qed
    qed
  next
    case False
    obtain r st1 where cp: "call_provider env p u prompt 1 mt (ios p) st = (r, st1)" by fastforce
    then show ?thesis
      using Cons.prems False Cons.IH by (auto simp: ends_after_output_def split: sum.splits call_failure.splits if_splits)
  qed
qed simp

lemma translate_text_stream_one_provider:
  "translate_text_stream env pf allow u prompt mt ios now st = (ys, e, st') \<Longrightarrow> ys \<noteq> [] \<Longrightarrow>
   (\<exists>p\<in>set (eligible_providers pf allow). \<forall>y\<in>set ys. snd y = cache_namespace (p_spec p)) \<and> ends_after_output e"
  unfolding translate_text_stream_def
  by (auto split: sum.splits budget_error.splits dest: stream_loop_one_provider)

subsection \<open>Properties\<close>

text \<open>
  The lines of an event stream do not depend on how the network cuts it into chunks: as long
  as the budget stays active and every line is within the cap, they are the lines of the
  complete text without their carriage returns, a last line without a newline included.
\<close>

theorem sse_lines_chunking:
  assumes "always_active b t" "\<forall>l\<in>set (split_on 10 (concat cs)). length l \<le> cap"
  shows "sse_lines cap b t k [] (map Inr cs) = (text_lines (concat cs), None)"
  using sse_lines_text [OF assms(1), of "[]" cs cap k] assms(2) by simp

theorem sse_lines_chunking_witness:
  "sse_lines 9 (ks_budget (demo_state 0)) (\<lambda>_. 0) 0 [] (map Inr [lit ''da'', [13, 10] @ lit ''t'', lit ''a''])
     = ([lit ''da'', lit ''ta''], None)"
proof -
  have a: "always_active (ks_budget (demo_state 0)) (\<lambda>_. 0)"
    by (simp add: always_active_def ensure_active_def demo_state_def)
  have l: "\<forall>l\<in>set (split_on 10 (concat [lit ''da'', [13, 10] @ lit ''t'', lit ''a''])). length l \<le> 9" by simp
  have "text_lines (concat [lit ''da'', [13, 10] @ lit ''t'', lit ''a'']) = [lit ''da'', lit ''ta'']"
    by (simp add: text_lines_def rstrip_cr_def)
  then show ?thesis using sse_lines_chunking [OF a l, of 0] by simp
qed

text \<open>
  C35: a stream never mixes two providers. Whatever it yields comes from one provider that the
  request may use; and once something was yielded, it ends cleanly, with the exhausted budget, or
  as interrupted, but never by starting over with another provider.
\<close>

theorem stream_never_mixes_providers:
  "case translate_text_stream env pf allow u prompt mt ios now st of (ys, e, _) \<Rightarrow>
     ys = [] \<or>
     (\<exists>p. p \<in> set (eligible_providers pf allow) \<and> set (map snd ys) = {cache_namespace (p_spec p)} \<and> ends_after_output e)"
proof -
  obtain ys e st' where r: "translate_text_stream env pf allow u prompt mt ios now st = (ys, e, st')" by (metis prod_cases3)
  show ?thesis
  proof (cases "ys = []")
    case False
    from translate_text_stream_one_provider [OF r False] obtain p where
      p: "p \<in> set (eligible_providers pf allow)" "\<forall>y\<in>set ys. snd y = cache_namespace (p_spec p)" "ends_after_output e" by blast
    then have "set (map snd ys) = {cache_namespace (p_spec p)}" using False by (cases ys) auto
    then show ?thesis using r p by auto
  qed (use r in simp)
qed

text \<open>
  An exception outside the named ones ends a complete call without a fallback, and lets a
  stream go on with the fallback.
\<close>

lemma stream_policy_differs:
  "handle_exn p XOther = GiveUp FOther \<and> pe_fallback (stream_provider_error p XOther)"
  by (simp add: stream_provider_error_def call_error_def)

end
