(* ===== verification/Proxy_Values.thy ===== *)
theory Proxy_Values
  imports Edge_Trust Url Config Json
begin

section \<open>Values that enter the edge proxy's configuration\<close>

text \<open>
  Models the validators of \<open>proxy/render_config.py\<close>: each reads one variable of the environment
  and returns the text that is put into the nginx configuration, or raises. \<open>OtherValueError\<close> is
  a \<open>ValueError\<close> that is not a \<open>ProxyConfigError\<close>,
  an \<open>io_exn\<close> a failed file operation (\<open>NotFoundFailure\<close> is \<open>FileNotFoundError\<close>). Case folding of Unicode text is the argument
  \<open>cf\<close>.
\<close>

datatype io_exn = OsFailure | NotFoundFailure | DecodeFailure

datatype proxy_exn =
    ProxyConfigError pystr
  | OtherValueError
  | IoFailure io_exn

definition env_or :: "environ \<Rightarrow> pystr \<Rightarrow> pystr \<Rightarrow> pystr" where
  "env_or env name d = (case env name of None \<Rightarrow> d | Some v \<Rightarrow> v)"

definition clean_char :: "codepoint \<Rightarrow> bool" where
  "clean_char c \<longleftrightarrow> 33 \<le> c \<and> c < 127"

definition required :: "environ \<Rightarrow> pystr \<Rightarrow> (proxy_exn, pystr) result" where
  "required env name =
     (let v = env_or env name [] in
      if v = [] \<or> v \<noteq> strip v \<or> \<not> is_ascii v \<or> list_ex (\<lambda>c. c < 33 \<or> c = 127) v
      then Inl (ProxyConfigError (name @ lit '' must be a clean non-empty ASCII value''))
      else Inr v)"

subsection \<open>Patterns\<close>

definition token_char :: "codepoint \<Rightarrow> bool" where
  "token_char c \<longleftrightarrow> is_alnum c \<or> c = 46 \<or> c = 95 \<or> c = 45"

definition hostname_ok :: "pystr \<Rightarrow> bool" where
  "hostname_ok s \<longleftrightarrow>
     s \<noteq> [] \<and> is_alnum (hd s) \<and> is_alnum (last s) \<and> list_all token_char s \<and> length s \<le> 253"

definition size_ok :: "pystr \<Rightarrow> bool" where
  "size_ok s \<longleftrightarrow>
     (case s of [] \<Rightarrow> False
      | c # cs \<Rightarrow>
          is_digit c \<and> c \<noteq> 48 \<and> length (takeWhile is_digit cs) \<le> 9
          \<and> (case dropWhile is_digit cs of
               [] \<Rightarrow> True | u # us \<Rightarrow> us = [] \<and> u \<in> set (lit ''kKmMgG'')))"

definition version_ok :: "pystr \<Rightarrow> bool" where
  "version_ok s \<longleftrightarrow>
     (case s of [] \<Rightarrow> False
      | c # cs \<Rightarrow> is_alnum c \<and> list_all token_char cs \<and> length cs \<le> 63)"

definition cookie_name_char :: "codepoint \<Rightarrow> bool" where
  "cookie_name_char c \<longleftrightarrow> is_alnum c \<or> c = 39 \<or> c \<in> set (lit ''!#$%&*+.^_`|~-'')"

definition cookie_name_ok :: "pystr \<Rightarrow> bool" where
  "cookie_name_ok s \<longleftrightarrow> s \<noteq> [] \<and> length s \<le> 128 \<and> list_all cookie_name_char s"

definition namespace_ok :: "pystr \<Rightarrow> bool" where
  "namespace_ok s \<longleftrightarrow>
     (case s of [] \<Rightarrow> False
      | c # cs \<Rightarrow>
          is_lower c \<and> list_all (\<lambda>d. is_lower d \<or> is_digit d \<or> d = 95) cs \<and> length cs \<le> 31)"

definition config_path_stem :: pystr where
  "config_path_stem = lit ''/tmp/nginx/browser-config''"

definition config_path_ok :: "pystr \<Rightarrow> bool" where
  "config_path_ok s \<longleftrightarrow>
     prefix config_path_stem s
     \<and> (let rest = drop (length config_path_stem) s;
            mid = takeWhile (\<lambda>c. c \<noteq> 46) rest
        in dropWhile (\<lambda>c. c \<noteq> 46) rest = lit ''.json''
           \<and> (case mid of [] \<Rightarrow> True | [_] \<Rightarrow> False
              | h # c # cs \<Rightarrow>
                  h = 45 \<and> is_lower c \<and> length cs \<le> 31
                  \<and> list_all (\<lambda>d. is_lower d \<or> is_digit d \<or> d = 95 \<or> d = 45) cs))"

text \<open>\<open>str.isdecimal\<close>: a non-empty text of decimal digits of any script.\<close>

definition is_decimal :: "pystr \<Rightarrow> bool" where
  "is_decimal s \<longleftrightarrow> s \<noteq> [] \<and> list_all (\<lambda>c. digit_value c \<noteq> None) s"

subsection \<open>Origins\<close>

definition origin_error :: "pystr \<Rightarrow> proxy_exn" where
  "origin_error name = ProxyConfigError (name @ lit '' must be an exact http(s) origin'')"

definition host_text :: "pystr \<Rightarrow> (unit, bool) result" where
  "host_text hostname =
     (case ip_address hostname of
        Some _ \<Rightarrow> Inr (58 \<in> set hostname)
      | None \<Rightarrow> if hostname_ok hostname then Inr False else Inl ())"

definition normalized_host :: "bool \<Rightarrow> pystr \<Rightarrow> nat option \<Rightarrow> pystr" where
  "normalized_host v6 hostname port =
     (if v6 then 91 # hostname @ [93] else hostname)
     @ (case port of None \<Rightarrow> [] | Some p \<Rightarrow> 58 # show_nat p)"

definition authority_checks ::
  "(pystr \<Rightarrow> pystr) \<Rightarrow> pystr \<Rightarrow> url_parts \<Rightarrow> pystr \<Rightarrow> pystr \<Rightarrow> nat option
   \<Rightarrow> (proxy_exn, pystr \<times> pystr \<times> pystr) result" where
  "authority_checks cf name u scheme hostname port =
     (case host_text hostname of
        Inl _ \<Rightarrow> Inl (ProxyConfigError (name @ lit '' contains an invalid hostname''))
      | Inr v6 \<Rightarrow>
          if (case port of None \<Rightarrow> False | Some p \<Rightarrow> p < 1 \<or> 65535 < p)
          then Inl (ProxyConfigError (name @ lit '' contains an invalid port''))
          else let host = normalized_host v6 hostname port in
            if cf (u_netloc u) \<noteq> cf host
            then Inl (ProxyConfigError (name @ lit '' must contain only a host and optional port''))
            else Inr (scheme @ lit ''://'' @ host, scheme, host))"

definition origin_checks ::
  "unicode_ops \<Rightarrow> (pystr \<Rightarrow> pystr) \<Rightarrow> pystr \<Rightarrow> url_parts \<Rightarrow> nat option
   \<Rightarrow> (proxy_exn, pystr \<times> pystr \<times> pystr) result" where
  "origin_checks uo cf name u port =
     (let hostname = (case url_hostname uo u of None \<Rightarrow> [] | Some h \<Rightarrow> h);
          scheme = ascii_lower (u_scheme u)
      in if scheme \<notin> {lit ''http'', lit ''https''} \<or> hostname = []
            \<or> url_username u \<noteq> None \<or> url_password u \<noteq> None
            \<or> u_query u \<noteq> [] \<or> u_fragment u \<noteq> [] \<or> u_path u \<notin> {[], [47]}
         then Inl (origin_error name)
         else authority_checks cf name u scheme hostname port)"

definition validated_base_url ::
  "unicode_ops \<Rightarrow> (pystr \<Rightarrow> pystr) \<Rightarrow> environ \<Rightarrow> pystr \<Rightarrow> (proxy_exn, pystr \<times> pystr \<times> pystr) result" where
  "validated_base_url uo cf env name =
     rbind (required env name) (\<lambda>v.
       case urlsplit uo v of
         None \<Rightarrow> Inl (origin_error name)
       | Some u \<Rightarrow>
         (case url_port u of
            Inl _ \<Rightarrow> Inl (origin_error name)
          | Inr port \<Rightarrow> origin_checks uo cf name u port))"

subsection \<open>Numbers, sizes, versions and names\<close>

definition port_error :: "pystr \<Rightarrow> proxy_exn" where
  "port_error name = ProxyConfigError (name @ lit '' must be an integer from 1 to 65535'')"

definition validated_port :: "environ \<Rightarrow> pystr \<Rightarrow> (proxy_exn, pystr) result" where
  "validated_port env name =
     rbind (required env name) (\<lambda>v.
       if \<not> is_decimal v then Inl (port_error name)
       else case parse_int10 v of
         None \<Rightarrow> Inl OtherValueError
       | Some port \<Rightarrow>
           if port < 1 \<or> 65535 < port then Inl (port_error name) else Inr (show_int port))"

definition validated_size :: "environ \<Rightarrow> pystr \<Rightarrow> (proxy_exn, pystr) result" where
  "validated_size env name =
     rbind (required env name) (\<lambda>v.
       if \<not> size_ok v
       then Inl (ProxyConfigError (name @ lit '' must be a finite positive nginx size''))
       else Inr (ascii_lower v))"

definition validated_version :: "environ \<Rightarrow> pystr \<Rightarrow> (proxy_exn, pystr) result" where
  "validated_version env name =
     rbind (required env name) (\<lambda>v.
       if \<not> version_ok v
       then Inl (ProxyConfigError (name @ lit '' must be a bounded version token''))
       else Inr v)"

definition validated_header_name :: "environ \<Rightarrow> pystr \<Rightarrow> (proxy_exn, pystr) result" where
  "validated_header_name env name =
     rbind (required env name) (\<lambda>v.
       case validate_reader_identity_header (PStr v) of
         Inr h \<Rightarrow> Inr h
       | Inl (ValueError m) \<Rightarrow> Inl (ProxyConfigError m)
       | Inl _ \<Rightarrow> Inl OtherValueError)"

definition validated_session_cookie_name :: "environ \<Rightarrow> bool \<Rightarrow> (proxy_exn, pystr) result" where
  "validated_session_cookie_name env secure =
     (let dflt = (if secure then lit ''__Host-bt-session'' else lit ''bt-session'');
          raw = env_or env (lit ''BT_SESSION_COOKIE_NAME'') [];
          v = (if raw = [] then dflt else raw)
      in if v \<noteq> strip v \<or> \<not> is_ascii v \<or> \<not> cookie_name_ok v
            \<or> secure \<noteq> prefix (lit ''__Host-'') v
         then Inl (ProxyConfigError
                (lit ''BT_SESSION_COOKIE_NAME must match the public origin security boundary''))
         else Inr v)"

definition validated_proxy_namespace :: "environ \<Rightarrow> (proxy_exn, pystr) result" where
  "validated_proxy_namespace env =
     (let v = env_or env (lit ''BT_PROXY_NAMESPACE'') [] in
      if v = [] then Inr []
      else if \<not> namespace_ok v
      then Inl (ProxyConfigError (lit ''BT_PROXY_NAMESPACE must be a bounded lowercase token''))
      else Inr (95 # v))"

definition validated_browser_config_path :: "environ \<Rightarrow> (proxy_exn, pystr) result" where
  "validated_browser_config_path env =
     (let v = env_or env (lit ''BT_BROWSER_CONFIG_PATH'') (lit ''/tmp/nginx/browser-config.json'') in
      if \<not> config_path_ok v
      then Inl (ProxyConfigError (lit ''BT_BROWSER_CONFIG_PATH is outside the runtime directory''))
      else Inr v)"

definition bounded_error :: "pystr \<Rightarrow> int \<Rightarrow> int \<Rightarrow> proxy_exn" where
  "bounded_error name minimum maximum =
     ProxyConfigError (name @ lit '' must be an integer from '' @ show_int minimum
       @ lit '' to '' @ show_int maximum)"

definition validated_bounded_integer ::
  "environ \<Rightarrow> pystr \<Rightarrow> int \<Rightarrow> int \<Rightarrow> int \<Rightarrow> (proxy_exn, int) result" where
  "validated_bounded_integer env name dflt minimum maximum =
     (let raw = env_or env name (show_int dflt) in
      if \<not> is_decimal raw then Inl (bounded_error name minimum maximum)
      else case parse_int10 raw of
        None \<Rightarrow> Inl OtherValueError
      | Some v \<Rightarrow>
          if v < minimum \<or> maximum < v then Inl (bounded_error name minimum maximum) else Inr v)"

subsection \<open>The contract with the browser\<close>

record reader_contract =
  rc_type :: pystr
  rc_version :: pystr
  rc_contract :: pystr

record browser_config =
  bc_auth :: pystr
  bc_credentials :: pystr
  bc_batch :: int
  bc_gap :: int
  bc_reader :: "reader_contract option"

definition supported_modes :: "(pystr \<times> pystr) list" where
  "supported_modes =
     [(lit ''cwa_session'', lit ''same-origin''), (lit ''reader_session'', lit ''same-origin''),
      (lit ''forwarded'', lit ''include'')]"

definition reader_contracts :: "(pystr \<times> pystr option) list" where
  "reader_contracts = [(lit ''cwa'', Some (lit ''cwa-epub-v1'')), (lit ''kavita'', None)]"

definition kavita_certified :: "(pystr \<times> pystr) list" where
  "kavita_certified =
     [(lit ''0.9.0.2'', lit ''kavita-0.9.0.2-epub-v1''),
      (lit ''0.9.1.4'', lit ''kavita-0.9.1.4-epub-v1'')]"

definition cwa_version_ok :: "pystr \<Rightarrow> bool" where
  "cwa_version_ok s \<longleftrightarrow>
     (case split_on 46 s of
        [a, b, c] \<Rightarrow> a = [52] \<and> b \<noteq> [] \<and> list_all is_digit b \<and> c \<noteq> [] \<and> list_all is_digit c
      | _ \<Rightarrow> False)
     \<or> s = lit ''3.1.4''"

definition contract_unsupported :: proxy_exn where
  "contract_unsupported = ProxyConfigError (lit ''BT_READER_CONTRACT_VERSION is unsupported'')"

definition check_contract :: "pystr \<Rightarrow> pystr \<Rightarrow> pystr \<Rightarrow> (proxy_exn, unit) result" where
  "check_contract reader_type reader_version contract =
     (if reader_type = lit ''kavita''
      then (case map_of kavita_certified reader_version of
              None \<Rightarrow> Inl (ProxyConfigError (lit ''BT_READER_VERSION is not certified for Kavita''))
            | Some expected \<Rightarrow> if contract \<noteq> expected then Inl contract_unsupported else Inr ())
      else if map_of reader_contracts reader_type \<noteq> Some (Some contract)
      then Inl contract_unsupported else Inr ())"

definition validated_reader_contract :: "environ \<Rightarrow> (proxy_exn, reader_contract) result" where
  "validated_reader_contract env =
     rbind (required env (lit ''BT_READER_TYPE'')) (\<lambda>reader_type.
       if map_of reader_contracts reader_type = None
       then Inl (ProxyConfigError (lit ''BT_READER_TYPE is unsupported''))
       else rbind (validated_version env (lit ''BT_READER_VERSION'')) (\<lambda>reader_version.
         rbind (required env (lit ''BT_READER_CONTRACT_VERSION'')) (\<lambda>contract.
         rbind (check_contract reader_type reader_version contract) (\<lambda>_.
           if reader_type = lit ''cwa'' \<and> \<not> cwa_version_ok reader_version
           then Inl (ProxyConfigError (lit ''BT_READER_VERSION is unsupported for CWA''))
           else Inr \<lparr>rc_type = reader_type, rc_version = reader_version, rc_contract = contract\<rparr>))))"

definition validated_browser_config :: "environ \<Rightarrow> (proxy_exn, browser_config) result" where
  "validated_browser_config env =
     rbind (required env (lit ''BT_BROWSER_AUTH_MODE'')) (\<lambda>auth_mode.
     rbind (required env (lit ''BT_BROWSER_CREDENTIALS'')) (\<lambda>credentials.
       if map_of supported_modes auth_mode \<noteq> Some credentials
       then Inl (ProxyConfigError
              (lit ''BT_BROWSER_AUTH_MODE and BT_BROWSER_CREDENTIALS are not a supported pair''))
       else rbind (validated_bounded_integer env (lit ''BT_BATCH_SIZE'') 5 1 50) (\<lambda>batch.
         rbind (validated_bounded_integer env (lit ''BT_CLIENT_PREFETCH_GAP_MS'') 0 0 10000) (\<lambda>gap.
         rbind (if auth_mode = lit ''reader_session''
                then rbind (validated_reader_contract env) (\<lambda>rc. Inr (Some rc)) else Inr None) (\<lambda>reader.
           Inr \<lparr>bc_auth = auth_mode, bc_credentials = credentials, bc_batch = batch,
                bc_gap = gap, bc_reader = reader\<rparr>)))))"

text \<open>The dictionary in the order of its insertions, and its JSON text with sorted keys.\<close>

definition config_items :: "browser_config \<Rightarrow> (pystr \<times> json) list" where
  "config_items bc =
     [(lit ''apiUrl'', JStr (lit ''/bt-api'')), (lit ''authMode'', JStr (bc_auth bc)),
      (lit ''credentials'', JStr (bc_credentials bc)), (lit ''batchSize'', JInt (bc_batch bc)),
      (lit ''prefetchGapMs'', JInt (bc_gap bc))]
     @ (case bc_reader bc of None \<Rightarrow> []
        | Some rc \<Rightarrow>
            [(lit ''readerType'', JStr (rc_type rc)), (lit ''readerVersion'', JStr (rc_version rc)),
             (lit ''readerContractVersion'', JStr (rc_contract rc))])"

definition browser_config_text :: "browser_config \<Rightarrow> pystr" where
  "browser_config_text bc = dumps (JDict (sort_key fst (config_items bc))) @ [10]"

subsection \<open>The reader's address\<close>

definition env_truthy :: "environ \<Rightarrow> pystr \<Rightarrow> pystr \<Rightarrow> pystr" where
  "env_truthy env name d = (case env name of None \<Rightarrow> d | Some v \<Rightarrow> if v = [] then d else v)"

definition validated_reader_upstream ::
  "unicode_ops \<Rightarrow> (pystr \<Rightarrow> pystr) \<Rightarrow> environ \<Rightarrow> (proxy_exn, pystr) result" where
  "validated_reader_upstream uo cf env =
     (let reader_type = env_or env (lit ''BT_READER_TYPE'') (lit ''cwa'') in
      if map_of reader_contracts reader_type = None
      then Inl (ProxyConfigError (lit ''BT_READER_TYPE is unsupported''))
      else let generic0 = env_or env (lit ''BT_READER_UPSTREAM'') [];
               legacy = env_or env (lit ''CWA_UPSTREAM'') [];
               kavita = env_truthy env (lit ''KAVITA_URL'') (env_truthy env (lit ''KAVITA_UPSTREAM'') []);
               cwa = env_truthy env (lit ''CWA_URL'')
                       (env_truthy env (lit ''CALIBRE_WEB_URL'') (env_truthy env (lit ''CALIBRE_URL'') []));
               alias =
                 (if generic0 = [] \<and> reader_type = lit ''kavita'' \<and> kavita \<noteq> [] then Some kavita
                  else if generic0 = [] \<and> legacy = [] \<and> reader_type = lit ''cwa'' \<and> cwa \<noteq> [] then Some cwa
                  else None);
               generic = (case alias of None \<Rightarrow> generic0 | Some v \<Rightarrow> v);
               env' = (case alias of None \<Rightarrow> env | Some v \<Rightarrow> env(lit ''BT_READER_UPSTREAM'' \<mapsto> v))
           in if reader_type = lit ''kavita'' \<and> legacy \<noteq> []
              then Inl (ProxyConfigError (lit ''CWA_UPSTREAM is forbidden for Kavita''))
              else if generic \<noteq> [] \<and> legacy \<noteq> [] \<and> generic \<noteq> legacy
              then Inl (ProxyConfigError (lit ''BT_READER_UPSTREAM conflicts with CWA_UPSTREAM''))
              else rbind (validated_base_url uo cf env'
                     (if generic \<noteq> [] then lit ''BT_READER_UPSTREAM'' else lit ''CWA_UPSTREAM''))
                     (\<lambda>(upstream, _, _). Inr upstream))"

end
