(* ===== verification/Proxy_Render.thy ===== *)
theory Proxy_Render
  imports Proxy_Values
begin

section \<open>Rendering the edge proxy's configuration\<close>

text \<open>
  Models the rest of \<open>proxy/render_config.py\<close>: routing to the reader through the resolvers of the
  container, the warning about the default gateway, the substitution of the placeholders of the
  nginx template, the atomic write of both files and the command's exit codes. Files are read into
  arguments (\<open>None\<close> is an \<open>OSError\<close>), the file system is a map from paths to content and mode,
  and the failures of system calls are an argument of the operations that make them.
\<close>

subsection \<open>Lines and words\<close>

definition line_break :: "codepoint \<Rightarrow> bool" where
  "line_break c \<longleftrightarrow> c \<in> {10, 11, 12, 13, 28, 29, 30, 133, 8232, 8233}"

function splitlines :: "pystr \<Rightarrow> pystr list" where
  "splitlines s =
     (if s = [] then []
      else case dropWhile (\<lambda>c. \<not> line_break c) s of
        [] \<Rightarrow> [s]
      | c # r \<Rightarrow>
          takeWhile (\<lambda>c. \<not> line_break c) s
          # splitlines (if c = 13 \<and> prefix [10] r then drop 1 r else r))"
  by pat_completeness auto
termination
proof (relation "measure length")
  fix s :: pystr and c r
  assume "dropWhile (\<lambda>c. \<not> line_break c) s = c # r"
  then have "length (c # r) \<le> length s" by (metis length_dropWhile_le)
  then show "(if c = 13 \<and> prefix [10] r then drop 1 r else r, s) \<in> measure length" by auto
qed simp

function py_words :: "pystr \<Rightarrow> pystr list" where
  "py_words s =
     (let t = dropWhile is_space s in
      if t = [] then []
      else takeWhile (\<lambda>c. \<not> is_space c) t # py_words (dropWhile (\<lambda>c. \<not> is_space c) t))"
  by pat_completeness auto
termination
proof (relation "measure length")
  fix s t :: pystr
  assume t: "t = dropWhile is_space s" "t \<noteq> []"
  then obtain c r where cr: "t = c # r" "\<not> is_space c" by (metis hd_dropWhile list.exhaust_sel)
  have "length (dropWhile (\<lambda>c. \<not> is_space c) t) \<le> length r" using cr by (simp add: length_dropWhile_le)
  also have "\<dots> < length t" using cr by simp
  also have "\<dots> \<le> length s" using t(1) by (simp add: length_dropWhile_le)
  finally show "(dropWhile (\<lambda>c. \<not> is_space c) t, s) \<in> measure length" by simp
qed simp

declare splitlines.simps [simp del] py_words.simps [simp del]

definition config_lines :: "pystr option \<Rightarrow> pystr list list" where
  "config_lines file =
     (case file of None \<Rightarrow> []
      | Some text \<Rightarrow> map (\<lambda>line. py_words (takeWhile (\<lambda>c. c \<noteq> 35 \<and> c \<noteq> 59) line)) (splitlines text))"

subsection \<open>Resolvers and routing\<close>

definition resolver_address :: "pystr list \<Rightarrow> pystr option" where
  "resolver_address ws =
     (case ws of
        key # text # _ \<Rightarrow>
          if key \<noteq> lit ''nameserver'' then None
          else (case ip_address text of
                  None \<Rightarrow> None
                | Some (V6 gs scope) \<Rightarrow>
                    if scope \<noteq> None then None else Some (91 # show_ip (V6 gs scope) @ [93])
                | Some (V4 os) \<Rightarrow> Some (show_ip (V4 os)))
      | _ \<Rightarrow> None)"

definition resolver_addresses :: "pystr option \<Rightarrow> pystr list" where
  "resolver_addresses file = List.map_filter resolver_address (config_lines file)"

definition static_host :: "(pystr \<Rightarrow> pystr) \<Rightarrow> pystr option \<Rightarrow> pystr \<Rightarrow> bool" where
  "static_host cf hosts host \<longleftrightarrow>
     ip_address host \<noteq> None \<or> list_ex (\<lambda>ws. host \<in> set (map cf (drop 1 ws))) (config_lines hosts)"

definition reader_upstream_routing ::
  "unicode_ops \<Rightarrow> (pystr \<Rightarrow> pystr) \<Rightarrow> pystr option \<Rightarrow> pystr option \<Rightarrow> pystr \<Rightarrow> pystr
   \<Rightarrow> (proxy_exn, pystr) result" where
  "reader_upstream_routing uo cf resolv hosts upstream ns =
     (case urlsplit uo upstream of
        None \<Rightarrow> Inl OtherValueError
      | Some u \<Rightarrow>
          let host = cf (case url_hostname uo u of None \<Rightarrow> [] | Some h \<Rightarrow> h);
              resolvers = (if static_host cf hosts host then [] else resolver_addresses resolv)
          in if resolvers = [] then Inr (lit ''proxy_pass '' @ upstream @ lit '';'')
             else let variable = lit ''$bt'' @ ns @ lit ''_reader_upstream'' in
               Inr (lit ''resolver '' @ join [32] resolvers @ lit '' valid=10s ipv6=off;'' @ [10]
                    @ lit ''        set '' @ variable @ [32] @ upstream @ lit '';'' @ [10]
                    @ lit ''        proxy_pass '' @ variable @ lit '';''))"

subsection \<open>The default gateway\<close>

text \<open>\<open>int(text, 16)\<close> on ASCII text without white space.\<close>

fun hex_digits_value :: "nat \<Rightarrow> pystr \<Rightarrow> nat option" where
  "hex_digits_value acc [] = None"
| "hex_digits_value acc [c] = (case hex_value c of None \<Rightarrow> None | Some v \<Rightarrow> Some (16 * acc + v))"
| "hex_digits_value acc (c # d # cs) =
     (case hex_value c of None \<Rightarrow> None
      | Some v \<Rightarrow> hex_digits_value (16 * acc + v) (if d = 95 then cs else d # cs))"

definition parse_nat16 :: "pystr \<Rightarrow> nat option" where
  "parse_nat16 s =
     (if prefix (lit ''0x'') s \<or> prefix (lit ''0X'') s
      then hex_digits_value 0 (if prefix [95] (drop 2 s) then drop 3 s else drop 2 s)
      else hex_digits_value 0 s)"

definition parse_int16 :: "pystr \<Rightarrow> int option" where
  "parse_int16 s =
     (case s of [] \<Rightarrow> None
      | c # cs \<Rightarrow>
          if c = 45 then map_option (\<lambda>n. - int n) (parse_nat16 cs)
          else if c = 43 then map_option int (parse_nat16 cs)
          else map_option int (parse_nat16 s))"

definition little_endian_octets :: "nat \<Rightarrow> nat list" where
  "little_endian_octets n = [n mod 256, n div 256 mod 256, n div 65536 mod 256, n div 16777216 mod 256]"

definition gateway_of :: "pystr list \<Rightarrow> pystr option" where
  "gateway_of ws =
     (case ws of
        _ # destination # gateway # _ \<Rightarrow>
          if destination \<noteq> lit ''00000000'' then None
          else (case parse_int16 gateway of
                  None \<Rightarrow> None
                | Some raw \<Rightarrow>
                    if raw < 0 \<or> 2 ^ 32 \<le> raw then None
                    else Some (show_ipv4 (little_endian_octets (nat raw))))
      | _ \<Rightarrow> None)"

text \<open>The route file is ASCII text; \<open>None\<close> is a failed read or a byte that is not ASCII.\<close>

definition default_gateways :: "pystr option \<Rightarrow> pystr list" where
  "default_gateways file =
     (case file of None \<Rightarrow> []
      | Some text \<Rightarrow> List.map_filter (\<lambda>line. gateway_of (py_words line)) (drop 1 (splitlines text)))"

definition edge_gateway_warning :: "pystr list \<Rightarrow> pystr option \<Rightarrow> bool" where
  "edge_gateway_warning peers route \<longleftrightarrow> list_ex (\<lambda>g. g \<in> set peers) (default_gateways route)"

subsection \<open>Substitution of placeholders\<close>

text \<open>\<open>text.replace(p, v)\<close> for a non-empty \<open>p\<close>.\<close>

function replace_all :: "pystr \<Rightarrow> pystr \<Rightarrow> pystr \<Rightarrow> pystr" where
  "replace_all p v s =
     (case s of [] \<Rightarrow> []
      | c # cs \<Rightarrow>
          if prefix p s \<and> p \<noteq> [] then v @ replace_all p v (drop (length p) s)
          else c # replace_all p v cs)"
  by pat_completeness auto
termination by (relation "measure (\<lambda>(p, v, s). length s)") auto

declare replace_all.simps [simp del]

text \<open>The search of \<open>_PLACEHOLDER_RE\<close>.\<close>

definition placeholder_char :: "codepoint \<Rightarrow> bool" where
  "placeholder_char c \<longleftrightarrow> is_upper c \<or> is_digit c \<or> c = 95"

definition placeholder_at :: "pystr \<Rightarrow> bool" where
  "placeholder_at s \<longleftrightarrow>
     (let body = (if prefix (lit ''${BT_'') s then Some (drop 5 s)
                  else if prefix (lit ''${CWA_'') s then Some (drop 6 s) else None)
      in case body of None \<Rightarrow> False | Some b \<Rightarrow> prefix [125] (dropWhile placeholder_char b))"

fun has_placeholder :: "pystr \<Rightarrow> bool" where
  "has_placeholder [] = False"
| "has_placeholder (c # cs) = (placeholder_at (c # cs) \<or> has_placeholder cs)"

definition hole :: "pystr \<Rightarrow> pystr" where
  "hole name = lit ''${'' @ name @ lit ''}''"

fun substitute :: "(pystr \<times> pystr) list \<Rightarrow> pystr \<Rightarrow> (proxy_exn, pystr) result" where
  "substitute [] rendered = Inr rendered"
| "substitute ((p, v) # rest) rendered =
     (if \<not> contains p rendered
      then Inl (ProxyConfigError (lit ''proxy template is missing '' @ p))
      else substitute rest (replace_all p v rendered))"

subsection \<open>The values of one rendering\<close>

record host_files =
  hf_resolv :: "pystr option"
  hf_hosts :: "pystr option"
  hf_route :: "pystr option"

definition edge_peers_of :: "environ \<Rightarrow> (proxy_exn, pystr list) result" where
  "edge_peers_of env =
     (case parse_edge_trusted_proxies (PStr (env_or env (lit ''BT_EDGE_TRUSTED_PROXIES'') [])) of
        Inr peers \<Rightarrow> Inr peers
      | Inl (ValueError m) \<Rightarrow> Inl (ProxyConfigError m)
      | Inl _ \<Rightarrow> Inl OtherValueError)"

definition edge_directives :: "pystr list \<Rightarrow> pystr" where
  "edge_directives peers =
     (if peers = [] then []
      else join (10 # lit ''    '')
             (map (\<lambda>p. lit ''set_real_ip_from '' @ p @ lit '';'') peers
              @ [lit ''real_ip_header X-Forwarded-For;'', lit ''real_ip_recursive off;'']))"

definition cookie_source :: "pystr \<Rightarrow> pystr \<Rightarrow> pystr" where
  "cookie_source auth ns =
     (if auth = lit ''cwa_session'' then lit ''$http_cookie''
      else if auth = lit ''reader_session'' then lit ''$bt'' @ ns @ lit ''_session_cookie''
      else [34, 34])"

definition replacements ::
  "unicode_ops \<Rightarrow> (pystr \<Rightarrow> pystr) \<Rightarrow> host_files \<Rightarrow> environ \<Rightarrow> (proxy_exn, (pystr \<times> pystr) list) result" where
  "replacements uo cf hf env =
     rbind (edge_peers_of env) (\<lambda>peers.
     rbind (validated_browser_config env) (\<lambda>bc.
     rbind (validated_reader_upstream uo cf env) (\<lambda>reader_upstream.
     rbind (validated_base_url uo cf env (lit ''BT_API_UPSTREAM'')) (\<lambda>(api_upstream, _, _).
     rbind (validated_base_url uo cf env (lit ''BT_PUBLIC_ORIGIN'')) (\<lambda>(_, public_scheme, public_host).
     rbind (validated_session_cookie_name env (public_scheme = lit ''https'')) (\<lambda>cookie_name.
     rbind (validated_proxy_namespace env) (\<lambda>ns.
     rbind (validated_browser_config_path env) (\<lambda>config_path.
     rbind (reader_upstream_routing uo cf (hf_resolv hf) (hf_hosts hf) reader_upstream ns) (\<lambda>routing.
     rbind (validated_port env (lit ''BT_PROXY_PORT'')) (\<lambda>port.
     rbind (validated_version env (lit ''BT_UI_VERSION'')) (\<lambda>ui_version.
     rbind (validated_header_name env (lit ''BT_CWA_IDENTITY_HEADER'')) (\<lambda>identity_header.
     rbind (validated_size env (lit ''BT_CWA_MAX_BODY_SIZE'')) (\<lambda>body_size.
       Inr
        [(hole (lit ''BT_EDGE_REAL_IP_DIRECTIVES''), edge_directives peers),
         (hole (lit ''BT_PROXY_NAMESPACE''), ns),
         (hole (lit ''BT_BROWSER_CONFIG_PATH''), config_path),
         (hole (lit ''BT_READER_UPSTREAM_ROUTING''), routing),
         (hole (lit ''BT_READER_UPSTREAM''), reader_upstream),
         (hole (lit ''BT_API_UPSTREAM''), api_upstream),
         (hole (lit ''BT_PROXY_PORT''), port),
         (hole (lit ''BT_UI_VERSION''), ui_version),
         (hole (lit ''BT_CWA_IDENTITY_HEADER''), identity_header),
         (hole (lit ''BT_PUBLIC_SCHEME''), public_scheme),
         (hole (lit ''BT_PUBLIC_HOST''), public_host),
         (hole (lit ''BT_SESSION_COOKIE_NAME''), cookie_name),
         (hole (lit ''BT_API_COOKIE_SOURCE''), cookie_source (bc_auth bc) ns),
         (hole (lit ''BT_CWA_MAX_BODY_SIZE''), body_size)])))))))))))))"

definition render_text ::
  "unicode_ops \<Rightarrow> (pystr \<Rightarrow> pystr) \<Rightarrow> host_files \<Rightarrow> (io_exn, pystr) result \<Rightarrow> environ
   \<Rightarrow> (proxy_exn, pystr) result" where
  "render_text uo cf hf template env =
     rbind (replacements uo cf hf env) (\<lambda>reps.
     rbind (case template of Inl e \<Rightarrow> Inl (IoFailure e) | Inr text \<Rightarrow> Inr text) (\<lambda>text.
     rbind (substitute reps text) (\<lambda>rendered.
       if has_placeholder rendered
       then Inl (ProxyConfigError (lit ''proxy template contains an unresolved placeholder''))
       else Inr rendered)))"

subsection \<open>Writing a file\<close>

type_synonym files = "pystr \<rightharpoonup> pystr \<times> nat"

text \<open>The outcomes of the system calls of one write; a failed write names what was written by then.\<close>

record write_calls =
  wc_mkdir :: "io_exn option"
  wc_mkstemp :: "(io_exn, pystr) result"
  wc_write :: "(io_exn \<times> pystr) option"
  wc_chmod :: "io_exn option"
  wc_replace :: "io_exn option"
  wc_unlink :: "io_exn option"

definition owner_only :: nat where
  "owner_only = 384"

definition discard :: "write_calls \<Rightarrow> files \<Rightarrow> pystr \<Rightarrow> io_exn \<Rightarrow> (io_exn, unit) result \<times> files" where
  "discard wc fs tmp e =
     (case wc_unlink wc of
        None \<Rightarrow> (Inl e, fs(tmp := None))
      | Some NotFoundFailure \<Rightarrow> (Inl e, fs)
      | Some e' \<Rightarrow> (Inl e', fs))"

definition atomic_write ::
  "write_calls \<Rightarrow> pystr \<Rightarrow> pystr \<Rightarrow> files \<Rightarrow> (io_exn, unit) result \<times> files" where
  "atomic_write wc path content fs =
     (case wc_mkdir wc of
        Some e \<Rightarrow> (Inl e, fs)
      | None \<Rightarrow>
        (case wc_mkstemp wc of
           Inl e \<Rightarrow> (Inl e, fs)
         | Inr tmp \<Rightarrow>
           (case wc_write wc of
              Some (e, written) \<Rightarrow> discard wc (fs(tmp \<mapsto> (written, owner_only))) tmp e
            | None \<Rightarrow>
              let fs1 = fs(tmp \<mapsto> (content, owner_only)) in
              (case wc_chmod wc of
                 Some e \<Rightarrow> discard wc fs1 tmp e
               | None \<Rightarrow>
                 (case wc_replace wc of
                    Some e \<Rightarrow> discard wc fs1 tmp e
                  | None \<Rightarrow> (Inr (), fs1(tmp := None, path \<mapsto> (content, owner_only))))))))"

subsection \<open>The command\<close>

record render_job =
  rj_template :: "(io_exn, pystr) result"
  rj_nginx :: pystr
  rj_browser :: pystr
  rj_nginx_calls :: write_calls
  rj_browser_calls :: write_calls

definition render_outputs ::
  "unicode_ops \<Rightarrow> (pystr \<Rightarrow> pystr) \<Rightarrow> host_files \<Rightarrow> render_job \<Rightarrow> environ \<Rightarrow> files
   \<Rightarrow> (proxy_exn, unit) result \<times> files" where
  "render_outputs uo cf hf rj env fs =
     (case validated_browser_config env of
        Inl e \<Rightarrow> (Inl e, fs)
      | Inr bc \<Rightarrow>
        (case render_text uo cf hf (rj_template rj) env of
           Inl e \<Rightarrow> (Inl e, fs)
         | Inr text \<Rightarrow>
           (case atomic_write (rj_nginx_calls rj) (rj_nginx rj) text fs of
              (Inl e, fs1) \<Rightarrow> (Inl (IoFailure e), fs1)
            | (Inr _, fs1) \<Rightarrow>
                (case atomic_write (rj_browser_calls rj) (rj_browser rj) (browser_config_text bc) fs1 of
                   (Inl e, fs2) \<Rightarrow> (Inl (IoFailure e), fs2)
                 | (Inr _, fs2) \<Rightarrow> (Inr (), fs2)))))"

text \<open>How the process ends: with an exit code and a message, or with an uncaught exception.\<close>

datatype proxy_exit = Exit int "pystr option" | Uncaught proxy_exn

definition usage_text :: pystr where
  "usage_text = lit ''usage: render_config.py TEMPLATE NGINX_OUTPUT BROWSER_CONFIG_OUTPUT''"

definition error_text :: "pystr \<Rightarrow> pystr" where
  "error_text detail = lit ''[proxy-config] ERROR: '' @ detail"

definition proxy_main ::
  "unicode_ops \<Rightarrow> (pystr \<Rightarrow> pystr) \<Rightarrow> host_files \<Rightarrow> nat \<Rightarrow> render_job \<Rightarrow> environ \<Rightarrow> files \<Rightarrow> proxy_exit \<times> files" where
  "proxy_main uo cf hf argc rj env fs =
     (if argc \<noteq> 4 then (Exit 64 (Some usage_text), fs)
      else case render_outputs uo cf hf rj env fs of
        (Inr _, fs') \<Rightarrow> (Exit 0 None, fs')
      | (Inl (ProxyConfigError m), fs') \<Rightarrow> (Exit 78 (Some (error_text m)), fs')
      | (Inl OtherValueError, fs') \<Rightarrow> (Uncaught OtherValueError, fs')
      | (Inl (IoFailure DecodeFailure), fs') \<Rightarrow> (Uncaught (IoFailure DecodeFailure), fs')
      | (Inl (IoFailure _), fs') \<Rightarrow> (Exit 78 (Some (error_text (lit ''proxy configuration could not be written''))), fs'))"

end
