(* ===== verification/Proxy_Facts.thy ===== *)
theory Proxy_Facts
  imports Proxy_Render
begin

section \<open>The rendered proxy configuration is what the operator wrote\<close>

text \<open>
  Values that enter the nginx template cannot close a directive or open a block, the substitution
  of the placeholders one after the other is a single pass over the template, a failed write
  leaves the old file in place, and messages do not depend on the values of the environment.
\<close>

subsection \<open>Characters of addresses\<close>

definition address_char :: "codepoint \<Rightarrow> bool" where
  "address_char c \<longleftrightarrow> is_alnum c \<or> c \<in> {45, 46, 47, 58, 91, 93, 95}"

lemma hex_value_alnum: "hex_value c = Some v \<Longrightarrow> is_alnum c"
  by (auto simp: hex_value_def is_alnum_def is_upper_def is_lower_def split: if_splits)

lemma parse_hextet_alnum: "parse_hextet s = Some v \<Longrightarrow> c \<in> set s \<Longrightarrow> is_alnum c"
  by (auto simp: parse_hextet_def omap_Some_iff in_set_conv_nth split: if_splits intro: hex_value_alnum)

lemma omap_hextet_alnum:
  "omap parse_hextet ps = Some gs \<Longrightarrow> p \<in> set ps \<Longrightarrow> c \<in> set p \<Longrightarrow> is_alnum c"
  by (metis omap_Some_iff in_set_conv_nth parse_hextet_alnum)

lemma split_on_set: "c \<in> set s \<Longrightarrow> c = d \<or> (\<exists>p\<in>set (split_on d s). c \<in> set p)"
  by (induction d s rule: split_on.induct) (auto split: list.splits)

lemma parse_groups_alnum:
  assumes "parse_groups parts = Some gs" "p \<in> set parts" "c \<in> set p"
  shows "is_alnum c"
proof -
  obtain i where i: "i < length parts" "parts ! i = p" using assms(2) by (auto simp: in_set_conv_nth)
  have ne: "parts ! i \<noteq> []" using i assms(3) by auto
  have nil: "parts \<noteq> []" using i by auto
  consider "inner_empty parts = []" | k where "inner_empty parts = [k]"
    using assms(1) by (auto simp: parse_groups_def split: if_splits list.splits)
  then show ?thesis
  proof cases
    case 1
    then have "omap parse_hextet parts = Some gs"
      using assms(1) by (auto simp: parse_groups_def split: if_splits)
    then show ?thesis using omap_hextet_alnum assms(2,3) by blast
  next
    case (2 k)
    define hi where "hi = (if hd parts = [] then k - 1 else k)"
    define lo where "lo = (if last parts = [] then length parts - k - 1 - 1 else length parts - k - 1)"
    have kmem: "k \<in> set (inner_empty parts)" using 2 by simp
    have k: "1 \<le> k" "k < length parts - 1" "parts ! k = []"
      using kmem by (auto simp: inner_empty_def)
    have zero: "hd parts = [] \<Longrightarrow> hi = 0" "last parts = [] \<Longrightarrow> lo = 0"
      using assms(1) 2 by (auto simp: parse_groups_def hi_def lo_def Let_def split: if_splits)
    obtain h l where hl: "omap parse_hextet (take hi parts) = Some h"
        "omap parse_hextet (drop (length parts - lo) parts) = Some l"
      using assms(1) 2 by (auto simp: parse_groups_def hi_def lo_def Let_def split: if_splits option.splits)
    have lo_le: "lo \<le> length parts" using i by (simp add: lo_def)
    consider "i < hi" | "length parts - lo \<le> i" | "hi \<le> i" "i < length parts - lo" by linarith
    then show ?thesis
    proof cases
      case 1
      then have "take hi parts ! i = p" "i < length (take hi parts)" using i by simp_all
      then have "p \<in> set (take hi parts)" by (metis nth_mem)
      then show ?thesis using omap_hextet_alnum hl(1) assms(3) by blast
    next
      case 2
      then have "drop (length parts - lo) parts ! (i - (length parts - lo)) = p"
        "i - (length parts - lo) < length (drop (length parts - lo) parts)" using i lo_le by simp_all
      then have "p \<in> set (drop (length parts - lo) parts)" by (metis nth_mem)
      then show ?thesis using omap_hextet_alnum hl(2) assms(3) by blast
    next
      case 3
      have hd0: "hd parts = parts ! 0" using nil by (simp add: hd_conv_nth)
      have lastn: "last parts = parts ! (length parts - 1)" using nil by (simp add: last_conv_nth)
      have ik: "i \<noteq> k" using k(3) ne by auto
      have "i \<noteq> 0 \<or> hd parts \<noteq> []" "i \<noteq> length parts - 1 \<or> last parts \<noteq> []"
        using ne hd0 lastn by metis+
      moreover have "hi = k \<or> hi = 0 \<and> k = 1 \<and> hd parts = []"
        using zero(1) k(1) by (auto simp: hi_def split: if_splits)
      moreover have "lo = length parts - k - 1 \<or> lo = 0 \<and> k = length parts - 2 \<and> last parts = []"
        using zero(2) k(2) by (auto simp: lo_def split: if_splits)
      ultimately have False using 3 ik k i(1) by auto
      then show ?thesis ..
    qed
  qed
qed

lemma parse_ipv4_chars: "parse_ipv4 s = Some os \<Longrightarrow> c \<in> set s \<Longrightarrow> is_digit c \<or> c = 46"
  by (auto simp: parse_ipv4_Some dest: show_ipv4_chars)

lemma parse_ipv6_chars:
  assumes "parse_ipv6_groups s = Some gs" "c \<in> set s"
  shows "is_alnum c \<or> c = 46 \<or> c = 58"
proof -
  define parts where "parts = split_on 58 s"
  have ne: "parts \<noteq> []" by (simp add: parts_def)
  have "c = 58 \<or> (\<exists>p\<in>set parts. c \<in> set p)" using split_on_set assms(2) by (simp add: parts_def)
  then consider "c = 58" | p where "p \<in> set parts" "c \<in> set p" by blast
  then show ?thesis
  proof cases
    case (2 p)
    show ?thesis
    proof (cases "46 \<in> set (last parts)")
      case False
      then have "parse_groups parts = Some gs"
        using assms(1) by (simp add: parse_ipv6_groups_def parts_def Let_def split: if_splits)
      then show ?thesis using parse_groups_alnum 2 by blast
    next
      case True
      have eq: "(case parse_ipv4 (last parts) of
              Some [a, b, c, d] \<Rightarrow>
                parse_groups (butlast parts @ [show_hex (256 * a + b), show_hex (256 * c + d)])
            | _ \<Rightarrow> None) = Some gs"
        using assms(1) True
        by (simp add: parse_ipv6_groups_def parts_def [symmetric] Let_def split: if_splits del: show_hex.simps)
      obtain os where os: "parse_ipv4 (last parts) = Some os"
        using eq by (cases "parse_ipv4 (last parts)") simp_all
      have "length os = 4" using os by (simp add: parse_ipv4_Some octets_ok_def)
      then obtain w0 w1 w2 w3 where "os = [w0, w1, w2, w3]"
        by (auto simp: numeral_eq_Suc length_Suc_conv)
      then have g: "parse_groups (butlast parts @ [show_hex (256 * w0 + w1), show_hex (256 * w2 + w3)]) = Some gs"
        using eq os by simp
      have "p \<in> set (butlast parts) \<or> p = last parts"
        using 2(1) ne by (metis append_butlast_last_id in_set_conv_decomp_first Un_iff set_append set_ConsD empty_iff list.set(1))
      then show ?thesis
      proof
        assume "p \<in> set (butlast parts)"
        then show ?thesis using parse_groups_alnum [OF g, of p c] 2 by (simp del: show_hex.simps)
      next
        assume "p = last parts"
        then show ?thesis using parse_ipv4_chars [OF os, of c] 2 by (auto simp: is_alnum_def)
      qed
    qed
  qed simp
qed

lemma ip_address_chars:
  assumes "ip_address s = Some a" "37 \<notin> set s" "c \<in> set s"
  shows "address_char c"
proof -
  consider os where "parse_ipv4 s = Some os" | gs where "parse_ipv6_groups s = Some gs"
  proof -
    assume t: "\<And>os. parse_ipv4 s = Some os \<Longrightarrow> thesis" "\<And>gs. parse_ipv6_groups s = Some gs \<Longrightarrow> thesis"
    have tw: "takeWhile (\<lambda>c. c \<noteq> 37) s = s" "dropWhile (\<lambda>c. c \<noteq> 37) s = []"
      using assms(2) by (auto simp: takeWhile_eq_all_conv)
    from assms(1) show thesis
      by (auto simp: ip_address_def parse_ipv6_def split1_def tw split: option.splits if_splits intro: t)
  qed
  then have "is_digit c \<or> c = 46 \<or> is_alnum c \<or> c = 58"
    using parse_ipv4_chars parse_ipv6_chars assms(3) by cases blast+
  then show ?thesis by (auto simp: address_char_def is_alnum_def)
qed

subsection \<open>The validators\<close>

lemma show_int_chars: "c \<in> set (show_int i) \<Longrightarrow> is_digit c \<or> c = 45"
  using show_nat_digits by (auto simp: show_int_def split: if_splits)

lemma required_clean:
  assumes "required env name = Inr v"
  shows "v \<noteq> []" "c \<in> set v \<Longrightarrow> clean_char c"
proof -
  have r: "v \<noteq> []" "is_ascii v" "\<not> list_ex (\<lambda>c. c < 33 \<or> c = 127) v"
    using assms by (auto simp: required_def Let_def simp del: strip_Nil_iff split: if_splits)
  show "v \<noteq> []" by (rule r)
  assume "c \<in> set v"
  then have "c < 128" "\<not> (c < 33 \<or> c = 127)" using r(2,3) by (auto simp: is_ascii_def list_all_iff list_ex_iff)
  then show "clean_char c" by (simp add: clean_char_def)
qed

lemma host_text_chars:
  assumes "host_text h = Inr v6" "37 \<notin> set h" "c \<in> set h"
  shows "address_char c"
proof (cases "ip_address h")
  case None
  then have "hostname_ok h" using assms(1) by (simp add: host_text_def split: if_splits)
  then have "token_char c" using assms(3) by (simp add: hostname_ok_def list_all_iff)
  then show ?thesis by (auto simp: token_char_def address_char_def)
qed (use ip_address_chars assms in blast)

lemma normalized_host_chars:
  assumes "host_text h = Inr v6" "37 \<notin> set h" "c \<in> set (normalized_host b h port)"
  shows "address_char c"
proof -
  have "c \<in> set h \<or> c \<in> {58, 91, 93} \<or> is_digit c"
    using assms(3) show_nat_digits
    by (auto simp: normalized_host_def split: if_splits option.splits)
  then show ?thesis
    using host_text_chars [OF assms(1,2)] by (auto simp: address_char_def is_alnum_def)
qed

lemma validated_base_url_Inr:
  assumes "validated_base_url uo cf env name = Inr (url, scheme, host)"
  obtains hostname port v6 where "url = scheme @ lit ''://'' @ host"
    "scheme = lit ''http'' \<or> scheme = lit ''https''" "hostname \<noteq> []" "host_text hostname = Inr v6"
    "host = normalized_host v6 hostname port" "case port of None \<Rightarrow> True | Some p \<Rightarrow> 1 \<le> p \<and> p \<le> 65535"
proof -
  obtain v where v: "required env name = Inr v"
    using assms by (cases "required env name") (simp_all add: validated_base_url_def)
  obtain u where u: "urlsplit uo v = Some u"
    using assms v by (cases "urlsplit uo v") (simp_all add: validated_base_url_def)
  obtain port where chk: "origin_checks uo cf name u port = Inr (url, scheme, host)"
    using assms v u by (cases "url_port u") (simp_all add: validated_base_url_def)
  define hostname where "hostname = (case url_hostname uo u of None \<Rightarrow> [] | Some h \<Rightarrow> h)"
  define sch where "sch = ascii_lower (u_scheme u)"
  have s: "sch \<in> {lit ''http'', lit ''https''}" "hostname \<noteq> []"
      and a: "authority_checks cf name u sch hostname port = Inr (url, scheme, host)"
    using chk unfolding origin_checks_def Let_def hostname_def sch_def
    by (simp_all only: split: if_splits) simp_all
  obtain v6 where v6: "host_text hostname = Inr v6"
    using a by (cases "host_text hostname") (simp_all add: authority_checks_def)
  have n: "\<not> (case port of None \<Rightarrow> False | Some p \<Rightarrow> p < 1 \<or> 65535 < p)"
      "host = normalized_host v6 hostname port" "url = scheme @ lit ''://'' @ host" "scheme = sch"
    using a v6 by (auto simp: authority_checks_def Let_def simp del: lit_Cons split: if_splits)
  show thesis
  proof (rule that)
    show "case port of None \<Rightarrow> True | Some p \<Rightarrow> 1 \<le> p \<and> p \<le> 65535"
      using n(1) by (cases port) auto
    show "scheme = lit ''http'' \<or> scheme = lit ''https''" using s(1) n(4) by blast
  qed (fact s(2) v6 n(2,3))+
qed

lemma validated_base_url_chars:
  assumes "validated_base_url uo cf env name = Inr (url, scheme, host)" "37 \<notin> set host"
  shows "c \<in> set host \<Longrightarrow> address_char c" "c \<in> set url \<Longrightarrow> address_char c"
    "c \<in> set scheme \<Longrightarrow> address_char c"
proof -
  obtain hostname port v6 where o: "url = scheme @ lit ''://'' @ host"
    "scheme = lit ''http'' \<or> scheme = lit ''https''" "host_text hostname = Inr v6"
    "host = normalized_host v6 hostname port"
    by (rule validated_base_url_Inr [OF assms(1)])
  have "37 \<notin> set hostname" using assms(2) o(4) by (auto simp: normalized_host_def split: if_splits)
  then have h: "address_char d" if "d \<in> set host" for d
    using normalized_host_chars [OF o(3)] o(4) that by blast
  have s: "address_char d" if "d \<in> set scheme" for d
    using o(2) that by (auto simp: address_char_def is_alnum_def is_lower_def)
  show "c \<in> set host \<Longrightarrow> address_char c" "c \<in> set scheme \<Longrightarrow> address_char c" using h s by blast+
  show "c \<in> set url \<Longrightarrow> address_char c"
    using h s o(1) by (auto simp: address_char_def)
qed

lemma if_Inl_eq_Inr: "(if P then Inl e else x) = Inr y \<longleftrightarrow> \<not> P \<and> x = Inr y"
  by simp

lemma rbind_InrE:
  assumes "rbind m f = Inr y"
  obtains x where "m = Inr x" "f x = Inr y"
  using assms by (auto simp: rbind_eq_Inr)

lemma rbind_tripleE:
  assumes "rbind m (\<lambda>(a, b, c). g a b c) = Inr y"
  obtains a b c where "m = Inr (a, b, c)" "g a b c = Inr y"
  using assms by (auto simp: rbind_eq_Inr)

lemma validated_reader_upstream_Inr:
  assumes "validated_reader_upstream uo cf env = Inr url"
  obtains env' name scheme host where "validated_base_url uo cf env' name = Inr (url, scheme, host)"
  using assms unfolding validated_reader_upstream_def Let_def if_Inl_eq_Inr
  by (elim conjE rbind_tripleE) (rule that, simp)

lemma replacements_Inr:
  assumes "replacements uo cf hf env = Inr reps"
  obtains peers bc ru api as ah pu ps ph ck ns cp rt pt uv ih bs where
    "edge_peers_of env = Inr peers" "validated_browser_config env = Inr bc"
    "validated_reader_upstream uo cf env = Inr ru"
    "validated_base_url uo cf env (lit ''BT_API_UPSTREAM'') = Inr (api, as, ah)"
    "validated_base_url uo cf env (lit ''BT_PUBLIC_ORIGIN'') = Inr (pu, ps, ph)"
    "validated_session_cookie_name env (ps = lit ''https'') = Inr ck"
    "validated_proxy_namespace env = Inr ns" "validated_browser_config_path env = Inr cp"
    "reader_upstream_routing uo cf (hf_resolv hf) (hf_hosts hf) ru ns = Inr rt"
    "validated_port env (lit ''BT_PROXY_PORT'') = Inr pt"
    "validated_version env (lit ''BT_UI_VERSION'') = Inr uv"
    "validated_header_name env (lit ''BT_CWA_IDENTITY_HEADER'') = Inr ih"
    "validated_size env (lit ''BT_CWA_MAX_BODY_SIZE'') = Inr bs"
    "reps = [(hole (lit ''BT_EDGE_REAL_IP_DIRECTIVES''), edge_directives peers),
         (hole (lit ''BT_PROXY_NAMESPACE''), ns), (hole (lit ''BT_BROWSER_CONFIG_PATH''), cp),
         (hole (lit ''BT_READER_UPSTREAM_ROUTING''), rt), (hole (lit ''BT_READER_UPSTREAM''), ru),
         (hole (lit ''BT_API_UPSTREAM''), api), (hole (lit ''BT_PROXY_PORT''), pt),
         (hole (lit ''BT_UI_VERSION''), uv), (hole (lit ''BT_CWA_IDENTITY_HEADER''), ih),
         (hole (lit ''BT_PUBLIC_SCHEME''), ps), (hole (lit ''BT_PUBLIC_HOST''), ph),
         (hole (lit ''BT_SESSION_COOKIE_NAME''), ck),
         (hole (lit ''BT_API_COOKIE_SOURCE''), cookie_source (bc_auth bc) ns),
         (hole (lit ''BT_CWA_MAX_BODY_SIZE''), bs)]"
  using assms unfolding replacements_def
  by (elim rbind_tripleE rbind_InrE) (rule that, assumption+, rule sym, erule sum.inject(2) [THEN iffD1])

text \<open>
  A character that cannot separate two arguments, end a directive, open or close a block, start a
  text in quotes of either kind, escape its successor, start a comment or name a variable.
\<close>

definition safe_char :: "codepoint \<Rightarrow> bool" where
  "safe_char c \<longleftrightarrow> clean_char c \<and> c \<notin> {34, 35, 36, 39, 59, 92, 123, 125}"

lemma address_safe: "address_char c \<Longrightarrow> safe_char c"
  by (auto simp: address_char_def safe_char_def clean_char_def is_alnum_def is_digit_def is_upper_def is_lower_def)

lemma token_safe: "token_char c \<Longrightarrow> safe_char c"
  by (rule address_safe) (auto simp: token_char_def address_char_def)

lemma alnum_safe: "is_alnum c \<Longrightarrow> safe_char c"
  by (rule address_safe) (simp add: address_char_def)

text \<open>A cookie name may also hold \<open>#\<close>, \<open>$\<close> and a single quote; the template has it within double quotes.\<close>

definition quoted_char :: "codepoint \<Rightarrow> bool" where
  "quoted_char c \<longleftrightarrow> safe_char c \<or> c \<in> {35, 36, 39}"

lemma cookie_char_safe: "cookie_name_char c \<Longrightarrow> quoted_char c"
  unfolding quoted_char_def
  by (auto simp: cookie_name_char_def safe_char_def clean_char_def is_alnum_def is_digit_def is_upper_def is_lower_def)

lemma validated_port_chars: "validated_port env name = Inr v \<Longrightarrow> c \<in> set v \<Longrightarrow> is_digit c"
  by (auto simp: validated_port_def rbind_eq_Inr show_int_def show_nat_digits
      split: if_splits option.splits)

lemma lower_alnum: "is_alnum c \<Longrightarrow> is_alnum (if is_upper c then c + 32 else c)"
  by (auto simp: is_alnum_def is_upper_def is_lower_def)

lemma size_ok_chars:
  assumes "size_ok s" "c \<in> set s"
  shows "is_alnum c"
proof (cases s)
  case (Cons d ds)
  then have d: "is_digit d" and e: "case dropWhile is_digit ds of [] \<Rightarrow> True | u # us \<Rightarrow> us = [] \<and> u \<in> set (lit ''kKmMgG'')"
    using assms(1) by (simp_all add: size_ok_def del: lit_Cons)
  have "c = d \<or> c \<in> set (takeWhile is_digit ds) \<or> c \<in> set (dropWhile is_digit ds)"
    using assms(2) Cons by (metis Un_iff set_ConsD set_append takeWhile_dropWhile_id)
  moreover have "is_alnum c" if "c \<in> set (dropWhile is_digit ds)"
    using e that by (auto simp: is_alnum_def is_upper_def is_lower_def split: list.splits)
  ultimately show ?thesis using d by (auto simp: is_alnum_def dest: set_takeWhileD)
qed (use assms in simp)

lemma validated_size_chars:
  assumes "validated_size env name = Inr v" "c \<in> set v"
  shows "is_alnum c"
proof -
  obtain w where w: "size_ok w" "v = ascii_lower w"
    using assms(1) by (auto simp: validated_size_def rbind_eq_Inr split: if_splits)
  then obtain d where "d \<in> set w" "c = (if is_upper d then d + 32 else d)"
    using assms(2) by (auto simp: ascii_lower_def)
  then show ?thesis using size_ok_chars [OF w(1)] lower_alnum by blast
qed

lemma validated_version_chars: "validated_version env name = Inr v \<Longrightarrow> c \<in> set v \<Longrightarrow> token_char c"
  by (auto simp: validated_version_def rbind_eq_Inr version_ok_def token_char_def list_all_iff
      split: if_splits list.splits)

lemma validated_header_chars: "validated_header_name env name = Inr v \<Longrightarrow> c \<in> set v \<Longrightarrow> header_name_char c"
proof -
  assume "validated_header_name env name = Inr v" "c \<in> set v"
  moreover from this(1) obtain w where "validate_reader_identity_header (PStr w) = Inr v"
    unfolding validated_header_name_def by (elim rbind_InrE) (auto split: sum.splits py_error.splits)
  ultimately show ?thesis using validate_header_safe(4) by (simp add: list_all_iff)
qed

lemma validated_cookie_chars: "validated_session_cookie_name env b = Inr v \<Longrightarrow> c \<in> set v \<Longrightarrow> cookie_name_char c"
  by (simp add: validated_session_cookie_name_def Let_def cookie_name_ok_def list_all_iff
      del: lit_Cons strip_Nil_iff split: if_splits)

lemma validated_namespace_chars:
  "validated_proxy_namespace env = Inr v \<Longrightarrow> c \<in> set v \<Longrightarrow> is_lower c \<or> is_digit c \<or> c = 95"
  by (auto simp: validated_proxy_namespace_def Let_def namespace_ok_def list_all_iff
      simp del: lit_Cons split: if_splits list.splits)

lemma config_path_chars:
  assumes "config_path_ok s" "c \<in> set s"
  shows "c \<in> set (lit ''/tmp/nginx/browser-config.json'') \<or> is_lower c \<or> is_digit c \<or> c = 95 \<or> c = 45"
proof -
  define rest where "rest = drop (length config_path_stem) s"
  define mid where "mid = takeWhile (\<lambda>c. c \<noteq> 46) rest"
  have s: "s = config_path_stem @ mid @ lit ''.json''"
    using assms(1) unfolding config_path_ok_def Let_def rest_def mid_def
    by (metis append_eq_conv_conj prefix_def takeWhile_dropWhile_id)
  have "is_lower d \<or> is_digit d \<or> d = 95 \<or> d = 45" if "d \<in> set mid" for d
    using assms(1) that unfolding config_path_ok_def Let_def rest_def [symmetric] mid_def [symmetric]
    by (auto simp: list_all_iff split: list.splits)
  moreover have "c \<in> set config_path_stem \<or> c \<in> set mid \<or> c \<in> set (lit ''.json'')" using assms(2) s by auto
  ultimately show ?thesis by (auto simp: config_path_stem_def)
qed

subsection \<open>A concrete rendering\<close>

lemmas url_eval = urlsplit_def split_scheme_def split_netloc_def partition_at_def rpartition_at_def
  split1_def netloc_brackets_ok_def netloc_nfkc_ok_def bracketed_netloc_ok_def hostinfo_def
  url_hostname_def url_port_def url_username_def url_password_def ascii_lower_def is_upper_def
  is_lower_def is_digit_def is_alnum_def scheme_char_def is_ascii_def

lemmas value_eval = required_def env_or_def strip_def lstrip_def rstrip_def is_space_def is_ascii_def

lemmas origin_eval = validated_base_url_def origin_checks_def authority_checks_def host_text_def
  normalized_host_def hostname_ok_def token_char_def

definition demo_env :: environ where
  "demo_env = map_of (map (\<lambda>(n, v). (lit n, lit v))
     [(''BT_BROWSER_AUTH_MODE'', ''forwarded''), (''BT_BROWSER_CREDENTIALS'', ''include''),
      (''CWA_UPSTREAM'', ''http://cwa''), (''BT_API_UPSTREAM'', ''http://api''),
      (''BT_PUBLIC_ORIGIN'', ''https://books''), (''BT_PROXY_PORT'', ''80''),
      (''BT_UI_VERSION'', ''1.2''), (''BT_CWA_IDENTITY_HEADER'', ''Remote-User''),
      (''BT_CWA_MAX_BODY_SIZE'', ''512M'')])"

definition demo_unicode :: unicode_ops where
  "demo_unicode = \<lparr>uo_lower = ascii_lower, uo_nfkc = (\<lambda>s. s)\<rparr>"

definition demo_files :: host_files where
  "demo_files = \<lparr>hf_resolv = None, hf_hosts = None, hf_route = None\<rparr>"

definition demo_values :: "(pystr \<times> pystr) list" where
  "demo_values =
     [(hole (lit ''BT_EDGE_REAL_IP_DIRECTIVES''), []), (hole (lit ''BT_PROXY_NAMESPACE''), []),
      (hole (lit ''BT_BROWSER_CONFIG_PATH''), lit ''/tmp/nginx/browser-config.json''),
      (hole (lit ''BT_READER_UPSTREAM_ROUTING''), lit ''proxy_pass http://cwa;''),
      (hole (lit ''BT_READER_UPSTREAM''), lit ''http://cwa''),
      (hole (lit ''BT_API_UPSTREAM''), lit ''http://api''),
      (hole (lit ''BT_PROXY_PORT''), lit ''80''), (hole (lit ''BT_UI_VERSION''), lit ''1.2''),
      (hole (lit ''BT_CWA_IDENTITY_HEADER''), lit ''Remote-User''),
      (hole (lit ''BT_PUBLIC_SCHEME''), lit ''https''), (hole (lit ''BT_PUBLIC_HOST''), lit ''books''),
      (hole (lit ''BT_SESSION_COOKIE_NAME''), lit ''__Host-bt-session''),
      (hole (lit ''BT_API_COOKIE_SOURCE''), [34, 34]), (hole (lit ''BT_CWA_MAX_BODY_SIZE''), lit ''512m'')]"

lemma small_ints:
  "parse_int10 (lit ''5'') = Some 5" "parse_int10 (lit ''0'') = Some 0" "parse_int10 (lit ''80'') = Some 80"
  "show_int 5 = lit ''5''" "show_int 0 = lit ''0''" "show_int 80 = lit ''80''"
  using parse_int10_show_int [of 5] parse_int10_show_int [of 0] parse_int10_show_int [of 80]
  by (simp_all add: show_int_def show_nat.simps int_max_str_digits_def)

lemma demo_hosts:
  "ip_address (lit ''cwa'') = None" "ip_address (lit ''api'') = None" "ip_address (lit ''books'') = None"
  by (simp_all add: ip_address_def parse_ipv4_def parse_ipv6_def parse_ipv6_groups_def split1_def)

lemma demo_required:
  "required demo_env (lit ''BT_BROWSER_AUTH_MODE'') = Inr (lit ''forwarded'')"
  "required demo_env (lit ''BT_BROWSER_CREDENTIALS'') = Inr (lit ''include'')"
  "required demo_env (lit ''CWA_UPSTREAM'') = Inr (lit ''http://cwa'')"
  "required demo_env (lit ''BT_API_UPSTREAM'') = Inr (lit ''http://api'')"
  "required demo_env (lit ''BT_PUBLIC_ORIGIN'') = Inr (lit ''https://books'')"
  "required demo_env (lit ''BT_PROXY_PORT'') = Inr (lit ''80'')"
  by (simp_all add: value_eval demo_env_def)

lemma demo_origins:
  "validated_base_url demo_unicode ascii_lower demo_env (lit ''CWA_UPSTREAM'')
   = Inr (lit ''http://cwa'', lit ''http'', lit ''cwa'')"
  "validated_base_url demo_unicode ascii_lower demo_env (lit ''BT_API_UPSTREAM'')
   = Inr (lit ''http://api'', lit ''http'', lit ''api'')"
  "validated_base_url demo_unicode ascii_lower demo_env (lit ''BT_PUBLIC_ORIGIN'')
   = Inr (lit ''https://books'', lit ''https'', lit ''books'')"
  unfolding validated_base_url_def demo_required rbind_simps using demo_hosts
  by (simp_all add: origin_checks_def authority_checks_def host_text_def normalized_host_def
      hostname_ok_def token_char_def url_eval demo_unicode_def Let_def)

lemma demo_port: "validated_port demo_env (lit ''BT_PROXY_PORT'') = Inr (lit ''80'')"
  unfolding validated_port_def demo_required rbind_simps using small_ints
  by (simp add: is_decimal_def digit_value_def nd_zeros_def)

lemma demo_integers:
  "validated_bounded_integer demo_env (lit ''BT_BATCH_SIZE'') 5 1 50 = Inr 5"
  "validated_bounded_integer demo_env (lit ''BT_CLIENT_PREFETCH_GAP_MS'') 0 0 10000 = Inr 0"
proof -
  have "demo_env (lit ''BT_BATCH_SIZE'') = None" "demo_env (lit ''BT_CLIENT_PREFETCH_GAP_MS'') = None"
    by code_simp+
  moreover have "is_decimal (lit ''5'')" "is_decimal (lit ''0'')"
    by (simp_all add: is_decimal_def digit_value_def nd_zeros_def)
  ultimately show "validated_bounded_integer demo_env (lit ''BT_BATCH_SIZE'') 5 1 50 = Inr 5"
    "validated_bounded_integer demo_env (lit ''BT_CLIENT_PREFETCH_GAP_MS'') 0 0 10000 = Inr 0"
    using small_ints by (simp_all add: validated_bounded_integer_def env_or_def del: lit_Cons)
qed

lemma demo_browser:
  "validated_browser_config demo_env = Inr \<lparr>bc_auth = lit ''forwarded'', bc_credentials = lit ''include'',
     bc_batch = 5, bc_gap = 0, bc_reader = None\<rparr>"
  unfolding validated_browser_config_def demo_required demo_integers rbind_simps
  by (simp add: supported_modes_def)

lemma demo_reader: "validated_reader_upstream demo_unicode ascii_lower demo_env = Inr (lit ''http://cwa'')"
proof -
  have e: "env_or demo_env (lit ''BT_READER_TYPE'') (lit ''cwa'') = lit ''cwa''"
      "env_or demo_env (lit ''BT_READER_UPSTREAM'') [] = []"
      "env_or demo_env (lit ''CWA_UPSTREAM'') [] = lit ''http://cwa''"
      "lit ''cwa'' \<noteq> lit ''kavita''" "lit ''http://cwa'' \<noteq> []" "map_of reader_contracts (lit ''cwa'') \<noteq> None"
    by code_simp+
  show ?thesis
    unfolding validated_reader_upstream_def e Let_def using e demo_origins(1) by (simp del: lit_Cons)
qed

lemma demo_routing:
  "reader_upstream_routing demo_unicode ascii_lower None None (lit ''http://cwa'') [] = Inr (lit ''proxy_pass http://cwa;'')"
  by (simp add: reader_upstream_routing_def url_eval demo_unicode_def resolver_addresses_def config_lines_def
      static_host_def List.map_filter_def)

lemma demo_replacements: "replacements demo_unicode ascii_lower demo_files demo_env = Inr demo_values"
proof -
  have v: "edge_peers_of demo_env = Inr []"
      "validated_session_cookie_name demo_env (lit ''https'' = lit ''https'') = Inr (lit ''__Host-bt-session'')"
      "validated_proxy_namespace demo_env = Inr []"
      "validated_browser_config_path demo_env = Inr (lit ''/tmp/nginx/browser-config.json'')"
      "validated_version demo_env (lit ''BT_UI_VERSION'') = Inr (lit ''1.2'')"
      "validated_header_name demo_env (lit ''BT_CWA_IDENTITY_HEADER'') = Inr (lit ''Remote-User'')"
      "validated_size demo_env (lit ''BT_CWA_MAX_BODY_SIZE'') = Inr (lit ''512m'')"
      "cookie_source (lit ''forwarded'') [] = [34, 34]" "edge_directives [] = []"
    by (simp_all add: edge_peers_of_def parse_edge_trusted_proxies_def validated_session_cookie_name_def
        validated_proxy_namespace_def validated_browser_config_path_def validated_version_def
        validated_header_name_def validated_size_def value_eval demo_env_def cookie_name_ok_def
        cookie_name_char_def config_path_ok_def config_path_stem_def version_ok_def size_ok_def token_char_def
        validate_reader_identity_header_def header_name_ok_def header_name_char_def managed_headers_def
        ascii_lower_def is_alnum_def is_digit_def is_upper_def is_lower_def cookie_source_def edge_directives_def)
  show ?thesis
    unfolding replacements_def demo_files_def host_files.simps v demo_browser demo_reader demo_origins
      demo_routing demo_port rbind_simps demo_values_def prod.case browser_config.simps ..
qed

subsection \<open>No value escapes its place in the template\<close>

lemma lit_safe_url: "c \<in> set (lit ''/tmp/nginx/browser-config.json'') \<Longrightarrow> address_char c"
  by (auto simp: address_char_def is_alnum_def is_lower_def)

lemma set_url_host: "url = scheme @ lit ''://'' @ host \<Longrightarrow> 37 \<notin> set url \<Longrightarrow> 37 \<notin> set host"
  by simp

lemma base_url_safe:
  assumes "validated_base_url uo cf env name = Inr (url, scheme, host)"
  shows "37 \<notin> set url \<Longrightarrow> c \<in> set url \<Longrightarrow> safe_char c"
    "37 \<notin> set host \<Longrightarrow> c \<in> set host \<Longrightarrow> safe_char c" "c \<in> set scheme \<Longrightarrow> safe_char c"
proof -
  obtain hostname port v6 where o: "url = scheme @ lit ''://'' @ host"
    "scheme = lit ''http'' \<or> scheme = lit ''https''"
    by (rule validated_base_url_Inr [OF assms])
  show "37 \<notin> set host \<Longrightarrow> c \<in> set host \<Longrightarrow> safe_char c"
    using validated_base_url_chars(1) [OF assms] address_safe by blast
  show "37 \<notin> set url \<Longrightarrow> c \<in> set url \<Longrightarrow> safe_char c"
    using validated_base_url_chars(2) [OF assms set_url_host [OF o(1)]] address_safe by blast
  show "c \<in> set scheme \<Longrightarrow> safe_char c"
    using o(2) alnum_safe [of c] by (auto simp: is_alnum_def is_lower_def)
qed

text \<open>The values taken from an origin, and the three that consist of several directives or of a variable.\<close>

definition origin_holes :: "pystr list" where
  "origin_holes = [hole (lit ''BT_READER_UPSTREAM''), hole (lit ''BT_API_UPSTREAM''), hole (lit ''BT_PUBLIC_HOST'')]"

definition composed_holes :: "pystr list" where
  "composed_holes =
     [hole (lit ''BT_EDGE_REAL_IP_DIRECTIVES''), hole (lit ''BT_READER_UPSTREAM_ROUTING''),
      hole (lit ''BT_API_COOKIE_SOURCE'')]"

text \<open>
  A plain value is one argument, or part of one: all its characters are safe. A cookie name stands
  within double quotes, and the zone identifier of an origin is not restricted by the code.
\<close>

definition plain_value :: "pystr \<Rightarrow> pystr \<Rightarrow> bool" where
  "plain_value p v \<longleftrightarrow> p \<notin> set composed_holes \<and>
     (list_all safe_char v
      \<or> p = hole (lit ''BT_SESSION_COOKIE_NAME'') \<and> list_all quoted_char v
      \<or> p \<in> set origin_holes \<and> 37 \<in> set v)"

text \<open>The text of the reader's routing, over its resolvers.\<close>

definition routing_text :: "pystr list \<Rightarrow> pystr \<Rightarrow> pystr \<Rightarrow> pystr" where
  "routing_text resolvers ns upstream =
     (if resolvers = [] then lit ''proxy_pass '' @ upstream @ lit '';''
      else lit ''resolver '' @ join [32] resolvers @ lit '' valid=10s ipv6=off;'' @ [10]
        @ lit ''        set $bt'' @ ns @ lit ''_reader_upstream '' @ upstream @ lit '';'' @ [10]
        @ lit ''        proxy_pass $bt'' @ ns @ lit ''_reader_upstream;'')"

text \<open>A composed value has fixed directives, whose arguments are safe or are values of other placeholders.\<close>

definition composed_value :: "(pystr \<times> pystr) list \<Rightarrow> pystr \<Rightarrow> pystr \<Rightarrow> bool" where
  "composed_value reps p v \<longleftrightarrow>
     (\<exists>peers. p = hole (lit ''BT_EDGE_REAL_IP_DIRECTIVES'') \<and> v = edge_directives peers \<and> list_all (list_all safe_char) peers)
     \<or> (\<exists>auth ns. p = hole (lit ''BT_API_COOKIE_SOURCE'') \<and> v = cookie_source auth ns
          \<and> (hole (lit ''BT_PROXY_NAMESPACE''), ns) \<in> set reps)
     \<or> (\<exists>resolvers ns ru. p = hole (lit ''BT_READER_UPSTREAM_ROUTING'') \<and> v = routing_text resolvers ns ru
          \<and> list_all (list_all safe_char) resolvers \<and> (hole (lit ''BT_PROXY_NAMESPACE''), ns) \<in> set reps
          \<and> (hole (lit ''BT_READER_UPSTREAM''), ru) \<in> set reps)"

lemma edge_peers_of_Inr: "edge_peers_of env = Inr peers \<Longrightarrow> list_all edge_peer peers"
proof -
  assume "edge_peers_of env = Inr peers"
  then obtain v where v: "parse_edge_trusted_proxies (PStr v) = Inr peers"
    by (auto simp: edge_peers_of_def split: sum.splits py_error.splits)
  show ?thesis
  proof (cases "v = []")
    case False
    have "rbind (add_peers [] (split_on 44 v)) (\<lambda>peers. Inr (sort peers)) = Inr peers"
      using v False by (simp add: parse_edge_trusted_proxies_def del: strip_Nil_iff split: if_splits)
    then obtain out where "add_peers [] (split_on 44 v) = Inr out" "peers = sort out"
      by (elim rbind_InrE) simp
    then show ?thesis using add_peers_Inr [of "[]" "split_on 44 v" out] by (simp add: list_all_iff)
  qed (use v in \<open>auto simp: parse_edge_trusted_proxies_def split: if_splits\<close>)
qed

lemma show_ipv4_safe: "c \<in> set (show_ipv4 os) \<Longrightarrow> safe_char c"
  using show_ipv4_chars [of c os] by (intro address_safe) (auto simp: address_char_def is_alnum_def)

lemma edge_peers_safe: "edge_peers_of env = Inr peers \<Longrightarrow> list_all (list_all safe_char) peers"
  using edge_peers_of_Inr [of env peers] show_ipv4_safe by (fastforce simp: list_all_iff edge_peer_def)

lemma show_hex_alnum: "c \<in> set (show_hex n) \<Longrightarrow> is_alnum c"
proof (induction n rule: less_induct)
  case (less n)
  have d: "is_alnum (hex_digit_lower k)" if "k < 16" for k
    using that by (auto simp: hex_digit_lower_def is_alnum_def is_digit_def is_lower_def)
  show ?case
  proof (cases "n < 16")
    case True
    then show ?thesis using d [of n] less.prems by (simp add: show_hex.simps [of n])
  next
    case False
    then show ?thesis using less.IH [of "n div 16"] d [of "n mod 16"] less.prems by (auto simp: show_hex.simps [of n])
  qed
qed

lemma join_chars: "c \<in> set (join d xs) \<Longrightarrow> c \<in> set d \<or> (\<exists>x\<in>set xs. c \<in> set x)"
  by (induction d xs rule: join.induct) auto

lemma show_ipv6_safe: "c \<in> set (show_ip (V6 gs None)) \<Longrightarrow> safe_char c"
proof -
  assume "c \<in> set (show_ip (V6 gs None))"
  then have "c \<in> set (join [58] (compress_groups gs))" by simp
  then consider "c = 58" | x where "x \<in> set (compress_groups gs)" "c \<in> set x" using join_chars by fastforce
  then show ?thesis
  proof cases
    case 1
    then show ?thesis by (intro address_safe) (simp add: address_char_def)
  next
    case (2 x)
    then have "x \<in> range show_hex" by (auto simp: compress_groups_def split: prod.splits if_splits)
    then show ?thesis using 2(2) show_hex_alnum alnum_safe by blast
  qed
qed

lemma resolver_safe:
  assumes "resolver_address ws = Some r"
  shows "list_all safe_char r"
proof -
  obtain key t rest where ws: "ws = key # t # rest"
    using assms by (auto simp: resolver_address_def split: list.splits)
  obtain a where a: "ip_address t = Some a"
    using assms ws by (cases "ip_address t") (auto simp: resolver_address_def split: if_splits)
  show ?thesis
  proof (cases a)
    case (V4 os)
    then have "r = show_ipv4 os" using assms ws a by (simp add: resolver_address_def split: if_splits)
    then show ?thesis using show_ipv4_safe by (simp add: list_all_iff)
  next
    case (V6 gs scope)
    then have "r = 91 # show_ip (V6 gs None) @ [93]"
      using assms ws a by (simp add: resolver_address_def split: if_splits)
    moreover have "safe_char 91" "safe_char 93" by (simp_all add: address_safe address_char_def)
    ultimately show ?thesis using show_ipv6_safe by (auto simp: list_all_iff simp del: show_ip.simps)
  qed
qed

lemma resolvers_safe: "list_all (list_all safe_char) (resolver_addresses file)"
  unfolding resolver_addresses_def List.map_filter_def by (auto simp: list_all_iff [of "list_all safe_char"] dest: resolver_safe)

lemma routing_Inr:
  "reader_upstream_routing uo cf resolv hosts upstream ns = Inr rt \<Longrightarrow>
   \<exists>resolvers. rt = routing_text resolvers ns upstream \<and> list_all (list_all safe_char) resolvers"
proof -
  assume "reader_upstream_routing uo cf resolv hosts upstream ns = Inr rt"
  then have "rt = routing_text [] ns upstream \<or> rt = routing_text (resolver_addresses resolv) ns upstream"
    by (auto simp: reader_upstream_routing_def routing_text_def Let_def split: option.splits if_splits)
  then show ?thesis using resolvers_safe by fastforce
qed

lemma base_url_plain:
  "validated_base_url uo cf env name = Inr (url, scheme, host) \<Longrightarrow> list_all safe_char url \<or> 37 \<in> set url"
  "validated_base_url uo cf env name = Inr (url, scheme, host) \<Longrightarrow> list_all safe_char host \<or> 37 \<in> set host"
  "validated_base_url uo cf env name = Inr (url, scheme, host) \<Longrightarrow> list_all safe_char scheme"
  using base_url_safe by (fastforce simp: list_all_iff)+

lemma token_values_safe:
  "validated_proxy_namespace env = Inr v \<Longrightarrow> list_all safe_char v"
  "validated_version env name = Inr v \<Longrightarrow> list_all safe_char v"
  "validated_header_name env name = Inr v \<Longrightarrow> list_all safe_char v"
  "validated_port env name = Inr v \<Longrightarrow> list_all safe_char v"
  "validated_size env name = Inr v \<Longrightarrow> list_all safe_char v"
  "validated_browser_config_path env = Inr v \<Longrightarrow> list_all safe_char v"
  "validated_session_cookie_name env b = Inr v \<Longrightarrow> list_all quoted_char v"
proof -
  show "validated_proxy_namespace env = Inr v \<Longrightarrow> list_all safe_char v"
    using validated_namespace_chars [of env v] by (fastforce simp: list_all_iff token_char_def is_alnum_def intro: token_safe)
  show "validated_version env name = Inr v \<Longrightarrow> list_all safe_char v"
    using validated_version_chars [of env name v] token_safe by (auto simp: list_all_iff)
  show "validated_header_name env name = Inr v \<Longrightarrow> list_all safe_char v"
    using validated_header_chars [of env name v] by (force simp: list_all_iff token_char_def header_name_char_def intro: token_safe)
  show "validated_port env name = Inr v \<Longrightarrow> list_all safe_char v"
    using validated_port_chars [of env name v] by (auto simp: list_all_iff is_alnum_def intro!: alnum_safe)
  show "validated_size env name = Inr v \<Longrightarrow> list_all safe_char v"
    using validated_size_chars [of env name v] alnum_safe by (auto simp: list_all_iff)
  show "validated_session_cookie_name env b = Inr v \<Longrightarrow> list_all quoted_char v"
    using validated_cookie_chars [of env b v] cookie_char_safe by (auto simp: list_all_iff)
  assume cp: "validated_browser_config_path env = Inr v"
  then have "config_path_ok v" by (simp add: validated_browser_config_path_def Let_def del: lit_Cons split: if_splits)
  then have "address_char c" if "c \<in> set v" for c
    using config_path_chars lit_safe_url that by (fastforce simp: address_char_def is_alnum_def simp del: lit_Cons)
  then show "list_all safe_char v" using address_safe by (simp add: list_all_iff)
qed

lemma hole_inj: "hole m = hole n \<longleftrightarrow> m = n"
  by (simp add: hole_def del: lit_Cons)

text \<open>Which placeholders have a plain value.\<close>

lemma plain_holes:
  "hole (lit ''BT_PROXY_NAMESPACE'') \<notin> set composed_holes"
  "hole (lit ''BT_BROWSER_CONFIG_PATH'') \<notin> set composed_holes"
  "hole (lit ''BT_PROXY_PORT'') \<notin> set composed_holes"
  "hole (lit ''BT_UI_VERSION'') \<notin> set composed_holes"
  "hole (lit ''BT_CWA_IDENTITY_HEADER'') \<notin> set composed_holes"
  "hole (lit ''BT_PUBLIC_SCHEME'') \<notin> set composed_holes"
  "hole (lit ''BT_CWA_MAX_BODY_SIZE'') \<notin> set composed_holes"
  "hole (lit ''BT_READER_UPSTREAM'') \<notin> set composed_holes"
  "hole (lit ''BT_API_UPSTREAM'') \<notin> set composed_holes"
  "hole (lit ''BT_PUBLIC_HOST'') \<notin> set composed_holes"
  "hole (lit ''BT_SESSION_COOKIE_NAME'') \<notin> set composed_holes"
  "hole (lit ''BT_READER_UPSTREAM'') \<in> set origin_holes"
  "hole (lit ''BT_API_UPSTREAM'') \<in> set origin_holes"
  "hole (lit ''BT_PUBLIC_HOST'') \<in> set origin_holes"
  by (code_simp; fail)+

lemma replaced_value:
  assumes "replacements uo cf hf env = Inr reps" "(p, v) \<in> set reps"
  shows "plain_value p v \<or> composed_value reps p v"
proof -
  obtain peers bc ru api as ah pu ps ph ck ns cp rt pt uv ih bs where
    peers: "edge_peers_of env = Inr peers" and "validated_browser_config env = Inr bc" and
    ru: "validated_reader_upstream uo cf env = Inr ru" and
    api: "validated_base_url uo cf env (lit ''BT_API_UPSTREAM'') = Inr (api, as, ah)" and
    pub: "validated_base_url uo cf env (lit ''BT_PUBLIC_ORIGIN'') = Inr (pu, ps, ph)" and
    ck: "validated_session_cookie_name env (ps = lit ''https'') = Inr ck" and
    ns: "validated_proxy_namespace env = Inr ns" and cp: "validated_browser_config_path env = Inr cp" and
    rt: "reader_upstream_routing uo cf (hf_resolv hf) (hf_hosts hf) ru ns = Inr rt" and
    pt: "validated_port env (lit ''BT_PROXY_PORT'') = Inr pt" and
    uv: "validated_version env (lit ''BT_UI_VERSION'') = Inr uv" and
    ih: "validated_header_name env (lit ''BT_CWA_IDENTITY_HEADER'') = Inr ih" and
    bs: "validated_size env (lit ''BT_CWA_MAX_BODY_SIZE'') = Inr bs" and
    reps: "reps = [(hole (lit ''BT_EDGE_REAL_IP_DIRECTIVES''), edge_directives peers),
         (hole (lit ''BT_PROXY_NAMESPACE''), ns), (hole (lit ''BT_BROWSER_CONFIG_PATH''), cp),
         (hole (lit ''BT_READER_UPSTREAM_ROUTING''), rt), (hole (lit ''BT_READER_UPSTREAM''), ru),
         (hole (lit ''BT_API_UPSTREAM''), api), (hole (lit ''BT_PROXY_PORT''), pt),
         (hole (lit ''BT_UI_VERSION''), uv), (hole (lit ''BT_CWA_IDENTITY_HEADER''), ih),
         (hole (lit ''BT_PUBLIC_SCHEME''), ps), (hole (lit ''BT_PUBLIC_HOST''), ph),
         (hole (lit ''BT_SESSION_COOKIE_NAME''), ck),
         (hole (lit ''BT_API_COOKIE_SOURCE''), cookie_source (bc_auth bc) ns),
         (hole (lit ''BT_CWA_MAX_BODY_SIZE''), bs)]"
    by (rule replacements_Inr [OF assms(1)])
  obtain env' name rs rh where rub: "validated_base_url uo cf env' name = Inr (ru, rs, rh)"
    by (rule validated_reader_upstream_Inr [OF ru])
  obtain resolvers where rs: "rt = routing_text resolvers ns ru" "list_all (list_all safe_char) resolvers"
    using routing_Inr [OF rt] by blast
  have safe: "list_all safe_char ns" "list_all safe_char cp" "list_all safe_char pt" "list_all safe_char uv"
    "list_all safe_char ih" "list_all safe_char ps" "list_all safe_char bs" "list_all quoted_char ck"
    using token_values_safe ns cp pt uv ih bs ck base_url_plain(3) [OF pub] by blast+
  note urls = base_url_plain(1) [OF rub] base_url_plain(1) [OF api] base_url_plain(2) [OF pub]
  have plain: "plain_value (hole (lit ''BT_PROXY_NAMESPACE'')) ns"
    "plain_value (hole (lit ''BT_BROWSER_CONFIG_PATH'')) cp"
    "plain_value (hole (lit ''BT_PROXY_PORT'')) pt"
    "plain_value (hole (lit ''BT_UI_VERSION'')) uv"
    "plain_value (hole (lit ''BT_CWA_IDENTITY_HEADER'')) ih"
    "plain_value (hole (lit ''BT_PUBLIC_SCHEME'')) ps"
    "plain_value (hole (lit ''BT_CWA_MAX_BODY_SIZE'')) bs"
    "plain_value (hole (lit ''BT_READER_UPSTREAM'')) ru"
    "plain_value (hole (lit ''BT_API_UPSTREAM'')) api"
    "plain_value (hole (lit ''BT_PUBLIC_HOST'')) ph"
    "plain_value (hole (lit ''BT_SESSION_COOKIE_NAME'')) ck"
    using safe urls plain_holes unfolding plain_value_def by blast+
  have named: "(hole (lit ''BT_PROXY_NAMESPACE''), ns) \<in> set reps" "(hole (lit ''BT_READER_UPSTREAM''), ru) \<in> set reps"
    unfolding reps by simp_all
  have composed: "composed_value reps (hole (lit ''BT_EDGE_REAL_IP_DIRECTIVES'')) (edge_directives peers)"
    "composed_value reps (hole (lit ''BT_READER_UPSTREAM_ROUTING'')) rt"
    "composed_value reps (hole (lit ''BT_API_COOKIE_SOURCE'')) (cookie_source (bc_auth bc) ns)"
    using edge_peers_safe [OF peers] rs named unfolding composed_value_def by blast+
  have "list_all (\<lambda>(p, v). plain_value p v \<or> composed_value reps p v) reps"
    using plain composed by (subst (2) reps) (simp only: list.pred_inject prod.case simp_thms)
  then show ?thesis using assms(2) by (auto simp: list_all_iff)
qed

text \<open>
  C9: every value the renderer puts into the nginx template keeps its place. A plain value has only
  characters that cannot separate arguments, end a directive, open or close a block, quote, escape,
  start a comment or name a variable, so that it is one argument of the directive the template puts
  it in. There are two exceptions: a cookie name, which the template has within double quotes, may
  also hold a number sign, a dollar sign or a single quote, and an origin whose host has a percent
  sign is not restricted. The three values which the renderer composes itself are fixed directives
  or variables, whose arguments are addresses of such characters or the values of the namespace and
  of the reader's origin.
\<close>
theorem edge_values_cannot_escape:
  assumes "replacements uo cf hf env = Inr reps" "(p, v) \<in> set reps"
  shows "plain_value p v \<or> composed_value reps p v"
  using assms by (rule replaced_value)

theorem edge_values_cannot_escape_witness:
  "plain_value (hole (lit ''BT_CWA_MAX_BODY_SIZE'')) (lit ''512m'')
   \<or> composed_value demo_values (hole (lit ''BT_CWA_MAX_BODY_SIZE'')) (lit ''512m'')"
proof (rule edge_values_cannot_escape [OF demo_replacements])
  show "(hole (lit ''BT_CWA_MAX_BODY_SIZE''), lit ''512m'') \<in> set demo_values" by (simp add: demo_values_def)
qed

subsection \<open>Zone identifiers and cookie names\<close>

lemma demo_zone:
  "ip_address (lit ''fe80::1%;}server{'') = Some (V6 [0xfe80, 0, 0, 0, 0, 0, 0, 1] (Some (lit '';}server{'')))"
proof -
  have h: "parse_hextet (lit ''fe80'') = Some 0xfe80" "parse_hextet (lit ''1'') = Some 1"
      "lit ''fe80'' \<noteq> []" "lit ''1'' \<noteq> []"
    by (simp_all add: parse_hextet_def hex_value_def is_digit_def)
  have i: "inner_empty [lit ''fe80'', [], lit ''1''] = [1]" by (simp add: inner_empty_def upt_rec)
  have z: "replicate 6 (0::nat) = [0, 0, 0, 0, 0, 0]" by (simp add: numeral_eq_Suc)
  have "parse_groups [lit ''fe80'', [], lit ''1''] = Some [0xfe80, 0, 0, 0, 0, 0, 0, 1]"
    unfolding parse_groups_def i using h by (simp add: z del: lit_Cons)
  moreover have "split_on 58 (lit ''fe80::1'') = [lit ''fe80'', [], lit ''1'']" by simp
  ultimately have g: "parse_ipv6_groups (lit ''fe80::1'') = Some [0xfe80, 0, 0, 0, 0, 0, 0, 1]"
    unfolding parse_ipv6_groups_def by simp
  have p: "split1 37 (lit ''fe80::1%;}server{'') = (lit ''fe80::1'', Some (lit '';}server{''))"
    by (simp add: split1_def)
  have q: "parse_ipv4 (lit ''fe80::1%;}server{'') = None" by (simp add: parse_ipv4_def)
  show ?thesis unfolding ip_address_def parse_ipv6_def p q using g by simp
qed

text \<open>
  The exception is real: the zone identifier of an IPv6 literal passes every check, and it may
  hold the characters that close a directive and a block.
\<close>

lemma zone_identifier_accepted:
  "validated_base_url demo_unicode ascii_lower [lit ''O'' \<mapsto> lit ''http://[fe80::1%;}server{]''] (lit ''O'')
   = Inr (lit ''http://[fe80::1%;}server{]'', lit ''http'', lit ''[fe80::1%;}server{]'')"
  using demo_zone
  by (simp add: origin_eval value_eval url_eval demo_unicode_def bracketed_host_ok_def Let_def)

text \<open>
  The template puts the cookie name into a regular expression, and the accepted alphabet holds
  the operators of such expressions: this name matches every cookie.
\<close>

lemma cookie_name_alternatives:
  "validated_session_cookie_name [lit ''BT_SESSION_COOKIE_NAME'' \<mapsto> lit ''bt|.*''] False = Inr (lit ''bt|.*'')"
  by (simp add: validated_session_cookie_name_def value_eval cookie_name_ok_def cookie_name_char_def
      is_alnum_def is_digit_def is_upper_def is_lower_def)

text \<open>A decimal text of more than 4300 digits escapes as an exception that the command does not catch.\<close>

lemma long_port_uncaught:
  assumes "required env name = Inr v" "is_decimal v" "95 \<notin> set v" "int_max_str_digits < length v"
  shows "validated_port env name = Inl OtherValueError"
proof -
  have d: "digit_value c \<noteq> None" if "c \<in> set v" for c using assms(2) that by (simp add: is_decimal_def list_all_iff)
  have sp: "\<not> int_space c" if "c \<in> set v" for c
    using required_clean(2) [OF assms(1) that] d [OF that]
    by (auto simp: int_space_def clean_char_def)
  have sgn: "c \<noteq> 45" "c \<noteq> 43" if "c \<in> set v" for c
    using d [OF that] by (auto simp: digit_value_def nd_zeros_def)
  have "dropWhile int_space (rev v) = rev v" "dropWhile int_space v = v"
    using sp by (auto simp: dropWhile_eq_self_iff hd_rev)
  moreover have "filter (\<lambda>c. c \<noteq> 95) v = v" using assms(3) by (metis (mono_tags, lifting) filter_True)
  moreover obtain c cs where "v = c # cs" using assms(2) by (cases v) (auto simp: is_decimal_def)
  ultimately have "parse_int10 v = None"
    using sgn [of c] assms(4) by (simp add: parse_int10_def parse_nat10_def Let_def)
  then show ?thesis using assms(1,2) by (simp add: validated_port_def)
qed

end
