(* ===== verification/Nginx_Template.thy ===== *)
theory Nginx_Template
  imports Proxy_Render
begin

section \<open>The shipped template\<close>

text \<open>
  Models \<open>proxy/nginx.conf.template\<close>, the template the renderer is run on, as the lines of the
  file; quotes, square brackets and the characters beyond ASCII are given by their code
  points. The names of its placeholders are those that \<open>render_config.py\<close> replaces.
\<close>

text \<open>Lines 1 to 34: the maps before the server.\<close>

definition nginx_maps :: "pystr list" where
  "nginx_maps =
     [lit ''# book-translator '' @ [8212] @ lit '' proxy-injection mode.'',
      lit ''# Rendered only after proxy/render_config.py validates every ${...} value.'',
      lit ''# nginx'' @ [39] @ lit ''s own $variables remain runtime variables.'',
      lit ''#'',
      lit ''# Browser '' @ [9472, 9472, 9658] @ lit '' :${BT_PROXY_PORT} (this nginx) '' @ [9472, 9472, 9658] @ lit '' ${BT_READER_UPSTREAM} (stock reader)'',
      lit ''#   /bt-api/*     '' @ [8594] @ lit '' the local translation API (same-origin: no CORS needed)'',
      lit ''#   /bt-static/*  '' @ [8594] @ lit '' overlay JS/CSS served from this container'',
      lit ''#   everything    '' @ [8594] @ lit '' proxied to CWA; HTML gets ONE <script> tag injected'',
      [],
      lit ''map $http_upgrade $bt${BT_PROXY_NAMESPACE}_connection_upgrade {'',
      lit ''    default upgrade;'',
      lit ''    '' @ [39, 39] @ lit ''      close;'',
      lit ''}'',
      [],
      lit ''# Ordinary translation calls receive only the plugin'' @ [39] @ lit ''s short-lived session.'',
      lit ''# Raw reader cookies are confined to the exact exchange endpoint below.'',
      lit ''map $http_cookie $bt${BT_PROXY_NAMESPACE}_session_cookie {'',
      lit ''    default '' @ [34, 34] @ lit '';'',
      lit ''    '' @ [34] @ lit ''~*(?:^|;'' @ [91, 91] @ lit '':space:'' @ [93, 93] @ lit ''*)(${BT_SESSION_COOKIE_NAME}='' @ [91] @ lit ''^;'' @ [93] @ lit ''{1,128})(?:;|$)'' @ [34] @ lit '' $1;'',
      lit ''}'',
      [],
      lit ''# Only POST session creation needs the one-time reader proof. Revocation is'',
      lit ''# authenticated by the plugin cookie; every other method must forward neither'',
      lit ''# reader cookies nor bearer credentials, even when the API rejects that method.'',
      lit ''map $request_method $bt${BT_PROXY_NAMESPACE}_session_route_cookie {'',
      lit ''    default '' @ [34, 34] @ lit '';'',
      lit ''    POST $http_cookie;'',
      lit ''    DELETE $bt${BT_PROXY_NAMESPACE}_session_cookie;'',
      lit ''}'',
      [],
      lit ''map $request_method $bt${BT_PROXY_NAMESPACE}_session_route_authorization {'',
      lit ''    default '' @ [34, 34] @ lit '';'',
      lit ''    POST $http_authorization;'',
      lit ''}'']"

text \<open>Lines 35 to 75: the server and its session route.\<close>

definition nginx_session :: "pystr list" where
  "nginx_session =
     [[],
      lit ''server {'',
      lit ''    listen ${BT_PROXY_PORT};'',
      lit ''    ${BT_EDGE_REAL_IP_DIRECTIVES}'',
      lit ''    # Any redirect generated by nginx itself stays relative, so an arbitrary'',
      lit ''    # inbound Host header cannot become an absolute Location authority.'',
      lit ''    absolute_redirect off;'',
      [],
      lit ''    # CWA handles book uploads, but an unlimited buffered body is a disk DoS.'',
      lit ''    # Operators can raise this finite validated value for unusually large books.'',
      lit ''    client_max_body_size ${BT_CWA_MAX_BODY_SIZE};'',
      [],
      lit ''    # We strip upstream Accept-Encoding so sub_filter can see the HTML;'',
      lit ''    # re-compress on the way out so clients still get gzip.'',
      lit ''    gzip on;'',
      lit ''    gzip_types text/css application/javascript application/json;'',
      [],
      lit ''    location = /bt-api/session {'',
      lit ''        client_max_body_size 1k;'',
      lit ''        proxy_pass ${BT_API_UPSTREAM}/session;'',
      lit ''        proxy_ssl_server_name on;'',
      lit ''        proxy_set_header Host ${BT_PUBLIC_HOST};'',
      lit ''        # This is the only API route allowed to receive raw reader proof. The'',
      lit ''        # broker applies an exact cookie/JWT allowlist and never persists it.'',
      lit ''        proxy_set_header Cookie $bt${BT_PROXY_NAMESPACE}_session_route_cookie;'',
      lit ''        proxy_set_header Authorization $bt${BT_PROXY_NAMESPACE}_session_route_authorization;'',
      lit ''        proxy_set_header X-BT-Subject '' @ [34, 34] @ lit '';'',
      lit ''        proxy_set_header X-BT-Roles '' @ [34, 34] @ lit '';'',
      lit ''        proxy_set_header ${BT_CWA_IDENTITY_HEADER} '' @ [34, 34] @ lit '';'',
      lit ''        proxy_set_header X-authentik-uid '' @ [34, 34] @ lit '';'',
      lit ''        proxy_set_header X-authentik-groups '' @ [34, 34] @ lit '';'',
      lit ''        proxy_set_header Forwarded '' @ [34, 34] @ lit '';'',
      lit ''        proxy_set_header X-Forwarded-For $remote_addr;'',
      lit ''        proxy_set_header User-Agent $http_user_agent;'',
      lit ''        proxy_set_header X-Real-IP $remote_addr;'',
      lit ''        proxy_set_header X-Forwarded-Host ${BT_PUBLIC_HOST};'',
      lit ''        proxy_set_header X-Forwarded-Port '' @ [34, 34] @ lit '';'',
      lit ''        proxy_set_header X-Forwarded-Proto ${BT_PUBLIC_SCHEME};'',
      lit ''        proxy_connect_timeout 2s;'',
      lit ''        proxy_read_timeout 10s;'',
      lit ''    }'']"

text \<open>Lines 76 to 108: the translation routes.\<close>

definition nginx_api :: "pystr list" where
  "nginx_api =
     [[],
      lit ''    location /bt-api/ {'',
      lit ''        # The API'' @ [39] @ lit ''s own WSGI cap is 2 MB (BT_MAX_CONTENT_LENGTH); 3 MB here'',
      lit ''        # lets Flask return its structured JSON 413 while nginx still stops'',
      lit ''        # grossly oversized bodies before buffering them to the backend.'',
      lit ''        # (The catch-all location uses the separate finite CWA upload cap.)'',
      lit ''        client_max_body_size 3m;'',
      lit ''        proxy_pass ${BT_API_UPSTREAM}/;'',
      lit ''        proxy_ssl_server_name on;'',
      lit ''        proxy_set_header Host ${BT_PUBLIC_HOST};'',
      lit ''        proxy_set_header Cookie ${BT_API_COOKIE_SOURCE};'',
      lit ''        proxy_set_header Authorization '' @ [34, 34] @ lit '';'',
      lit ''        # This injection proxy is not an identity authority. Always discard'',
      lit ''        # client-supplied forwarded identity; forwarded auth deployments must'',
      lit ''        # route /bt-api through their allowlisted identity-aware proxy instead.'',
      lit ''        proxy_set_header X-BT-Subject '' @ [34, 34] @ lit '';'',
      lit ''        proxy_set_header X-BT-Roles '' @ [34, 34] @ lit '';'',
      lit ''        proxy_set_header ${BT_CWA_IDENTITY_HEADER} '' @ [34, 34] @ lit '';'',
      lit ''        proxy_set_header X-authentik-uid '' @ [34, 34] @ lit '';'',
      lit ''        proxy_set_header X-authentik-groups '' @ [34, 34] @ lit '';'',
      lit ''        # Never extend client-supplied forwarding chains. The API trusts this'',
      lit ''        # proxy as an immediate peer and receives only the address nginx saw.'',
      lit ''        proxy_set_header Forwarded '' @ [34, 34] @ lit '';'',
      lit ''        proxy_set_header X-Forwarded-For $remote_addr;'',
      lit ''        proxy_set_header User-Agent $http_user_agent;'',
      lit ''        proxy_set_header X-Real-IP $remote_addr;'',
      lit ''        proxy_set_header X-Forwarded-Host ${BT_PUBLIC_HOST};'',
      lit ''        proxy_set_header X-Forwarded-Port '' @ [34, 34] @ lit '';'',
      lit ''        proxy_set_header X-Forwarded-Proto ${BT_PUBLIC_SCHEME};'',
      lit ''        proxy_connect_timeout 2s;'',
      lit ''        # Translation calls can legitimately take a while on slow local LLMs.'',
      lit ''        proxy_read_timeout 180s;'',
      lit ''    }'']"

text \<open>Lines 109 to 125: the files of the overlay.\<close>

definition nginx_static :: "pystr list" where
  "nginx_static =
     [[],
      lit ''    location = /bt-config.json {'',
      lit ''        alias ${BT_BROWSER_CONFIG_PATH};'',
      lit ''        default_type application/json;'',
      lit ''        add_header Cache-Control '' @ [34] @ lit ''no-store'' @ [34] @ lit '' always;'',
      lit ''        add_header Pragma '' @ [34] @ lit ''no-cache'' @ [34] @ lit '' always;'',
      lit ''    }'',
      [],
      lit ''    # Overlay assets are cache-busted with ?v=${BT_UI_VERSION} (the VERSION file'',
      lit ''    # plus a startup hash of the packaged overlay assets), so a versioned URL is'',
      lit ''    # immutable for a year. '' @ [96] @ lit ''always'' @ [96],
      lit ''    # keeps the header on error responses served from this location too.'',
      lit ''    location /bt-static/ {'',
      lit ''        alias /app/static/;'',
      lit ''        add_header Cache-Control '' @ [34] @ lit ''public, max-age=31536000, immutable'' @ [34] @ lit '' always;'',
      lit ''    }'',
      []]"

text \<open>Lines 126 to 161: the route to the reader.\<close>

definition nginx_reader :: "pystr list" where
  "nginx_reader =
     [lit ''    location / {'',
      lit ''        # Upstream names are re-resolved through the container'' @ [39] @ lit ''s DNS (Docker'' @ [39] @ lit ''s'',
      lit ''        # 127.0.0.11 on user-defined networks) so a recreated CWA/Kavita with a'',
      lit ''        # new IP does not leave nginx on a stale address. IP literals and'',
      lit ''        # /etc/hosts names, which nginx'' @ [39] @ lit ''s resolver cannot see, stay static.'',
      lit ''        # Rendered by render_config.py from ${BT_READER_UPSTREAM}.'',
      lit ''        ${BT_READER_UPSTREAM_ROUTING}'',
      lit ''        proxy_http_version 1.1;'',
      lit ''        proxy_ssl_server_name on;'',
      lit ''        proxy_set_header Host ${BT_PUBLIC_HOST};'',
      lit ''        proxy_set_header Forwarded '' @ [34, 34] @ lit '';'',
      lit ''        proxy_set_header X-Forwarded-For $remote_addr;'',
      lit ''        proxy_set_header User-Agent $http_user_agent;'',
      lit ''        proxy_set_header X-Real-IP $remote_addr;'',
      lit ''        proxy_set_header X-Forwarded-Host ${BT_PUBLIC_HOST};'',
      lit ''        proxy_set_header X-Forwarded-Port '' @ [34, 34] @ lit '';'',
      lit ''        proxy_set_header X-Forwarded-Proto ${BT_PUBLIC_SCHEME};'',
      lit ''        # CWA can treat a configurable header as a complete login assertion.'',
      lit ''        # This proxy is not that authority and must not forward a client value.'',
      lit ''        proxy_set_header ${BT_CWA_IDENTITY_HEADER} '' @ [34, 34] @ lit '';'',
      lit ''        proxy_set_header X-BT-Subject '' @ [34, 34] @ lit '';'',
      lit ''        proxy_set_header X-BT-Roles '' @ [34, 34] @ lit '';'',
      lit ''        proxy_set_header X-authentik-uid '' @ [34, 34] @ lit '';'',
      lit ''        proxy_set_header X-authentik-groups '' @ [34, 34] @ lit '';'',
      lit ''        proxy_set_header Upgrade $http_upgrade;'',
      lit ''        proxy_set_header Connection $bt${BT_PROXY_NAMESPACE}_connection_upgrade;'',
      lit ''        proxy_connect_timeout 2s;'',
      lit ''        proxy_read_timeout 300s;'',
      [],
      lit ''        # The whole plugin injection: one tag before </head> on HTML responses.'',
      lit ''        # loader.js self-guards to supported CWA or Kavita EPUB routes.'',
      lit ''        proxy_set_header Accept-Encoding '' @ [34, 34] @ lit '';'',
      lit ''        sub_filter '' @ [39] @ lit ''</head>'' @ [39] @ lit '' '' @ [39] @ lit ''<script src='' @ [34] @ lit ''/bt-static/loader.js?v=${BT_UI_VERSION}'' @ [34] @ lit ''></script></head>'' @ [39] @ lit '';'',
      lit ''        sub_filter_once on;'',
      lit ''    }'',
      lit ''}'']"

definition nginx_lines :: "pystr list" where
  "nginx_lines = nginx_maps @ nginx_session @ nginx_api @ nginx_static @ nginx_reader"

definition nginx_template :: pystr where
  "nginx_template = concat (map (\<lambda>l. l @ [10]) nginx_lines)"

definition template_names :: "pystr list" where
  "template_names =
     [lit ''BT_EDGE_REAL_IP_DIRECTIVES'', lit ''BT_PROXY_NAMESPACE'', lit ''BT_BROWSER_CONFIG_PATH'',
      lit ''BT_READER_UPSTREAM_ROUTING'', lit ''BT_READER_UPSTREAM'', lit ''BT_API_UPSTREAM'', lit ''BT_PROXY_PORT'',
      lit ''BT_UI_VERSION'', lit ''BT_CWA_IDENTITY_HEADER'', lit ''BT_PUBLIC_SCHEME'', lit ''BT_PUBLIC_HOST'',
      lit ''BT_SESSION_COOKIE_NAME'', lit ''BT_API_COOKIE_SOURCE'', lit ''BT_CWA_MAX_BODY_SIZE'']"

end
