(* ===== verification/Proxy_Template.thy ===== *)
theory Proxy_Template
  imports Proxy_Facts Nginx_Template
begin

section \<open>Substitution in a single pass\<close>

text \<open>
  The renderer replaces the placeholders one after the other, so a value put in early is searched
  again for the later ones. For the values the validators accept this makes no difference: the
  result is that of one pass over the template, and no placeholder is left.
\<close>

subsection \<open>The reference\<close>

definition open_hole :: pystr where
  "open_hole = [36, 123]"

function fill :: "(pystr \<times> pystr) list \<Rightarrow> pystr \<Rightarrow> pystr" where
  "fill ps s =
     (case s of [] \<Rightarrow> []
      | c # cs \<Rightarrow>
          (case find (\<lambda>(k, _). k \<noteq> [] \<and> prefix k s) ps of
             Some (k, v) \<Rightarrow> v @ fill ps (drop (length k) s)
           | None \<Rightarrow> c # fill ps cs))"
  by pat_completeness auto
termination
proof (relation "measure (\<lambda>(ps, s). length s)")
  fix ps :: "(pystr \<times> pystr) list" and s c cs p k v
  assume "s = c # cs" "find (\<lambda>(k, _). k \<noteq> [] \<and> prefix k s) ps = Some p" "(k, v) = p"
  then show "((ps, drop (length k) s), (ps, s)) \<in> measure (\<lambda>(ps, s). length s)"
    by (auto simp: find_Some_iff)
qed auto

declare fill.simps [simp del]

text \<open>
  The placeholders are \<open>${BT_...}\<close> and \<open>${CWA_...}\<close>. The two characters open one, or may come to open
  one when the values are put in, unless a third character follows that no placeholder has there.
\<close>

definition opens :: "pystr \<Rightarrow> bool" where
  "opens s \<longleftrightarrow> prefix open_hole s \<and> (case drop 2 s of [] \<Rightarrow> True | c # _ \<Rightarrow> c \<in> {36, 66, 67})"

text \<open>Every opening of a placeholder is one of the known placeholders, and no brace opens right after one closes.\<close>

fun template_ok :: "(pystr \<times> pystr) list \<Rightarrow> pystr \<Rightarrow> bool" where
  "template_ok ps [] = True"
| "template_ok ps (c # cs) =
     ((opens (c # cs) \<longrightarrow> list_ex (\<lambda>(k, _). prefix k (c # cs)) ps)
      \<and> \<not> prefix [125, 123] (c # cs) \<and> template_ok ps cs)"

subsection \<open>Placeholders\<close>

definition is_hole :: "pystr \<Rightarrow> bool" where
  "is_hole k \<longleftrightarrow> (\<exists>name. k = open_hole @ name @ [125] \<and> set name \<inter> {36, 123, 125} = {} \<and> name \<noteq> [] \<and> hd name \<in> {66, 67})"

lemma hole_prefix_unique:
  assumes "is_hole k" "is_hole q" "prefix k (q @ y)"
  shows "k = q"
proof -
  obtain m n where mn: "k = open_hole @ m @ [125]" "125 \<notin> set m" "q = open_hole @ n @ [125]" "125 \<notin> set n"
    using assms(1,2) unfolding is_hole_def by blast
  obtain z where "m @ [125] @ z = n @ [125] @ y"
    using assms(3) mn by (auto simp: prefix_def open_hole_def)
  then have "takeWhile (\<lambda>c. c \<noteq> 125) (m @ 125 # z) = takeWhile (\<lambda>c. c \<noteq> 125) (n @ 125 # y)" by simp
  then have "m = n" using mn(2,4)
    by (metis (mono_tags, lifting) append_Nil2 takeWhile.simps(2) takeWhile_append2)
  then show ?thesis using mn by simp
qed

lemma is_hole_open: "is_hole k \<Longrightarrow> prefix open_hole k"
  by (auto simp: is_hole_def)

lemma is_hole_prefix: "is_hole k \<Longrightarrow> prefix k s \<Longrightarrow> prefix open_hole s"
  using is_hole_open prefix_order.trans by blast

lemma is_hole_not_Nil: "is_hole k \<Longrightarrow> k \<noteq> []"
  by (auto simp: is_hole_def)

lemma is_hole_tail:
  assumes "is_hole k"
  obtains r where "k = 36 # r" "36 \<notin> set r" "hd r = 123" "last r = 125" "r \<noteq> []"
  using assms by (auto simp: is_hole_def open_hole_def)

lemma open_hole_iff: "prefix open_hole (c # s) \<longleftrightarrow> c = 36 \<and> prefix [123] s"
  by (auto simp: open_hole_def prefix_def)

lemma opens_open: "opens s \<Longrightarrow> prefix open_hole s"
  by (simp add: opens_def)

lemma opens_hole: "is_hole k \<Longrightarrow> prefix k s \<Longrightarrow> opens s"
proof -
  assume k: "is_hole k" "prefix k s"
  then obtain name z where n: "k = open_hole @ name @ [125]" "name \<noteq> []" "hd name \<in> {66, 67}" and s: "s = k @ z"
    by (auto simp: is_hole_def prefix_def)
  then obtain c r where "name = c # r" "c \<in> {66, 67}" by (cases name) auto
  then show "opens s" using n(1) s by (auto simp: opens_def open_hole_def)
qed

text \<open>An opening that is none in the template stays none when the text behind it is replaced.\<close>

lemma opens_replaced:
  assumes "is_hole p" "\<not> opens (c # r)" "prefix open_hole (c # r)"
  shows "\<not> opens (c # replace_all p v r)"
proof -
  obtain d t where r: "c = 36" "r = 123 # d # t" "d \<notin> {36, 66, 67}"
    using assms(2,3) by (cases r; cases "tl r") (auto simp: opens_def open_hole_def)
  have "\<not> prefix p (e # x)" if "e \<noteq> 36" for e x using that is_hole_prefix [OF assms(1)] open_hole_iff by blast
  then have "replace_all p v r = 123 # d # replace_all p v t" using r(2,3) by (simp add: replace_all.simps)
  then show ?thesis using r by (simp add: opens_def)
qed

lemma replace_all_Nil [simp]: "replace_all p v [] = []"
  by (simp add: replace_all.simps)

lemma replace_all_hit:
  assumes "p \<noteq> []"
  shows "replace_all p v (p @ s) = v @ replace_all p v s"
proof -
  have "prefix p (p @ s)" "drop (length p) (p @ s) = s" by simp_all
  moreover obtain c r where "p @ s = c # r" using assms by (cases p) simp_all
  ultimately show ?thesis using assms by (simp add: replace_all.simps [of p v "c # r"])
qed

lemma replace_all_miss: "\<not> prefix p (c # s) \<Longrightarrow> replace_all p v (c # s) = c # replace_all p v s"
  by (simp add: replace_all.simps)

lemma replace_all_skip: "is_hole p \<Longrightarrow> 36 \<notin> set x \<Longrightarrow> replace_all p v (x @ s) = x @ replace_all p v s"
proof (induction x)
  case (Cons c x)
  then have "\<not> prefix p (c # x @ s)" using is_hole_prefix open_hole_iff by fastforce
  then show ?case using Cons by (simp add: replace_all_miss)
qed simp

lemma replace_all_other:
  assumes "is_hole p" "is_hole q" "p \<noteq> q"
  shows "replace_all p v (q @ s) = q @ replace_all p v s"
proof -
  obtain r where r: "q = 36 # r" "36 \<notin> set r" by (rule is_hole_tail [OF assms(2)])
  have "\<not> prefix p (36 # r @ s)" using hole_prefix_unique assms r(1) by fastforce
  then show ?thesis using replace_all_skip [OF assms(1) r(2)] r(1) by (simp add: replace_all_miss)
qed

lemma fill_Nil [simp]: "fill ps [] = []"
  by (simp add: fill.simps)

lemma fill_miss:
  "\<forall>k\<in>fst ` set ps. is_hole k \<Longrightarrow> \<not> opens (c # s) \<Longrightarrow> fill ps (c # s) = c # fill ps s"
proof -
  assume h: "\<forall>k\<in>fst ` set ps. is_hole k" and n: "\<not> opens (c # s)"
  have "find (\<lambda>(k, _). k \<noteq> [] \<and> prefix k (c # s)) ps = None"
    using h n opens_hole by (fastforce simp: find_None_iff)
  then show ?thesis by (simp add: fill.simps)
qed

lemma fill_hit:
  assumes "\<forall>k\<in>fst ` set ps. is_hole k" "is_hole q" "find (\<lambda>(k, _). k = q) ps = Some (q, w)"
  shows "fill ps (q @ s) = w @ fill ps s"
proof -
  have "find (\<lambda>(k, _). k \<noteq> [] \<and> prefix k (q @ s)) ps = find (\<lambda>(k, _). k = q) ps"
  proof (rule find_cong)
    fix x assume x: "x \<in> set ps"
    obtain k w where kw: "x = (k, w)" by (cases x)
    then have "is_hole k" using x assms(1) by force
    then have "k \<noteq> []" "prefix k (q @ s) \<longleftrightarrow> k = q"
      using hole_prefix_unique [of k q s] assms(2) is_hole_not_Nil by auto
    then show "(case x of (k, _) \<Rightarrow> k \<noteq> [] \<and> prefix k (q @ s)) = (case x of (k, _) \<Rightarrow> k = q)"
      using kw by simp
  qed simp
  moreover obtain r where "q = 36 # r" by (rule is_hole_tail [OF assms(2)])
  ultimately show ?thesis using assms(3) by (simp add: fill.simps [of ps "36 # r @ s"])
qed

lemma fill_value:
  "\<forall>k\<in>fst ` set ps. is_hole k \<Longrightarrow> 123 \<notin> set v \<Longrightarrow> \<not> prefix [123] s \<Longrightarrow> fill ps (v @ s) = v @ fill ps s"
proof (induction v)
  case (Cons c v)
  have "\<not> prefix [123] (v @ s)" using Cons.prems by (cases v) auto
  then have "\<not> opens (c # v @ s)" using opens_open open_hole_iff by blast
  then show ?case using Cons by (simp add: fill_miss)
qed simp

subsection \<open>One replacement\<close>

text \<open>A list of replacements the lemmas below are about.\<close>

definition good_pairs :: "(pystr \<times> pystr) list \<Rightarrow> bool" where
  "good_pairs ps \<longleftrightarrow> distinct (map fst ps) \<and> (\<forall>(k, v)\<in>set ps. is_hole k \<and> 123 \<notin> set v)"

lemma good_pairs_Cons:
  "good_pairs ((p, v) # ps) \<longleftrightarrow> is_hole p \<and> 123 \<notin> set v \<and> p \<notin> fst ` set ps \<and> good_pairs ps"
  by (auto simp: good_pairs_def)

lemma good_pairs_holes: "good_pairs ps \<Longrightarrow> \<forall>k\<in>fst ` set ps. is_hole k"
  by (auto simp: good_pairs_def)

lemma template_ok_drop: "template_ok ps (x @ s) \<Longrightarrow> template_ok ps s"
  by (induction x) auto

lemma template_ok_after_hole:
  assumes "template_ok ps (p @ s)" "is_hole p"
  shows "\<not> prefix [123] s"
proof -
  obtain n where "p = (open_hole @ n) @ [125]" using assms(2) by (auto simp: is_hole_def)
  then have "template_ok ps (125 # s)" using template_ok_drop [of ps "open_hole @ n" "125 # s"] assms(1) by simp
  then show ?thesis by (auto simp: prefix_def)
qed

lemma template_ok_text:
  assumes "template_ok ps y" "123 \<notin> set x" "\<not> prefix [123] y"
  shows "template_ok ps (x @ y)"
  using assms(2)
proof (induction x)
  case (Cons c x)
  have "\<not> prefix [123] (x @ y)" using Cons.prems assms(3) by (cases x) auto
  then have "\<not> opens (c # x @ y)" "\<not> prefix [125, 123] (c # x @ y)"
    using opens_open open_hole_iff by (blast, simp)
  then show ?case using Cons by simp
qed (use assms(1) in simp)

lemma template_ok_hole:
  assumes "is_hole q" "q \<in> fst ` set ps" "template_ok ps y" "\<not> prefix [123] y"
  shows "template_ok ps (q @ y)"
proof -
  obtain n where n: "q = open_hole @ n @ [125]" "set n \<inter> {36, 123, 125} = {}"
    using assms(1) by (auto simp: is_hole_def)
  then have q: "q = 36 # 123 # n @ [125]" by (simp add: open_hole_def)
  have "template_ok ps ((n @ [125]) @ y)" using n(2) by (intro template_ok_text [OF assms(3) _ assms(4)]) auto
  moreover obtain w where "(q, w) \<in> set ps" using assms(2) by auto
  then have "list_ex (\<lambda>(k, _). prefix k (q @ y)) ps"
    unfolding list_ex_iff by (rule bexI [rotated]) simp
  moreover have "\<not> opens (123 # n @ 125 # y)" using opens_open open_hole_iff by fastforce
  ultimately show ?thesis by (simp add: q)
qed

lemma replaced_brace:
  assumes "is_hole p" "123 \<notin> set v" "template_ok ps s" "prefix [123] (replace_all p v s)"
  shows "prefix [123] s"
  using assms(3,4)
proof (induction "length s" arbitrary: s rule: less_induct)
  case less
  show ?case
  proof (cases "prefix p s")
    case True
    then obtain r where r: "s = p @ r" by (auto simp: prefix_def)
    have h: "replace_all p v s = v @ replace_all p v r"
      using replace_all_hit is_hole_not_Nil assms(1) r by blast
    show ?thesis
    proof (cases v)
      case Nil
      have "length r < length s" using r is_hole_not_Nil [OF assms(1)] by simp
      then have "prefix [123] r"
        using less.hyps [of r] less.prems h r Nil template_ok_drop by simp
      then show ?thesis using template_ok_after_hole less.prems(1) r assms(1) by blast
    next
      case (Cons c w)
      then show ?thesis using h less.prems(2) assms(2) by auto
    qed
  next
    case False
    then show ?thesis using less.prems(2) by (cases s) (simp_all add: replace_all_miss)
  qed
qed

text \<open>The three outcomes at the head of a template.\<close>

lemma template_cases:
  assumes "good_pairs ((p, v) # ps)" "template_ok ((p, v) # ps) s"
  obtains "s = []"
  | r where "s = p @ r"
  | q w r where "s = q @ r" "is_hole q" "q \<noteq> p" "find (\<lambda>(k, _). k = q) ps = Some (q, w)" "(q, w) \<in> set ps"
  | c r where "s = c # r" "\<not> opens (c # r)"
proof (cases s)
  case (Cons c r)
  show thesis
  proof (cases "opens s")
    case True
    then obtain q w where qw: "(q, w) \<in> set ((p, v) # ps)" "prefix q s"
      using assms(2) Cons by (auto simp: list_ex_iff)
    then obtain y where y: "s = q @ y" by (auto simp: prefix_def)
    show thesis
    proof (cases "q = p")
      case False
      then have m: "(q, w) \<in> set ps" using qw(1) by simp
      have "\<exists>x. find (\<lambda>(k, _). k = q) ps = Some x"
        using m by (metis (mono_tags, lifting) find_None_iff case_prodI not_None_eq)
      then obtain x where x: "find (\<lambda>(k, _). k = q) ps = Some x" by blast
      then have "x = (q, w)"
        using m assms(1) by (auto simp: find_Some_iff good_pairs_def) (metis eq_key_imp_eq_value nth_mem)
      moreover have "is_hole q" using m assms(1) by (auto simp: good_pairs_def)
      ultimately show thesis using that(3) y x False m by blast
    qed (use that(2) y in blast)
  qed (use that(4) Cons in blast)
qed (use that(1) in blast)

lemma fill_replace:
  assumes "good_pairs ((p, v) # ps)" "template_ok ((p, v) # ps) s"
  shows "fill ((p, v) # ps) s = fill ps (replace_all p v s)" "template_ok ps (replace_all p v s)"
proof -
  have g: "is_hole p" "123 \<notin> set v" "p \<notin> fst ` set ps" "good_pairs ps"
    using assms(1) by (simp_all add: good_pairs_Cons)
  have hs: "\<forall>k\<in>fst ` set ((p, v) # ps). is_hole k" "\<forall>k\<in>fst ` set ps. is_hole k"
    using good_pairs_holes assms(1) g(4) by blast+
  have "fill ((p, v) # ps) s = fill ps (replace_all p v s) \<and> template_ok ps (replace_all p v s)"
    using assms(2)
  proof (induction "length s" arbitrary: s rule: less_induct)
    case less
    from assms(1) less.prems show ?case
    proof (cases rule: template_cases)
      case (2 r)
      then have l: "length r < length s" using is_hole_not_Nil [OF g(1)] by simp
      have ok: "template_ok ((p, v) # ps) r" using less.prems 2 template_ok_drop by blast
      have nb: "\<not> prefix [123] (replace_all p v r)"
        using replaced_brace [OF g(1,2) ok] template_ok_after_hole less.prems g(1) 2 by blast
      have "find (\<lambda>(k, _). k = p) ((p, v) # ps) = Some (p, v)" by simp
      from fill_hit [OF hs(1) g(1) this] have "fill ((p, v) # ps) s = v @ fill ((p, v) # ps) r" using 2 by simp
      moreover have "replace_all p v s = v @ replace_all p v r"
        using 2 replace_all_hit is_hole_not_Nil [OF g(1)] by simp
      moreover have "fill ps (v @ replace_all p v r) = v @ fill ps (replace_all p v r)"
        by (rule fill_value [OF hs(2) g(2) nb])
      ultimately show ?thesis using less.hyps [OF l ok] template_ok_text [OF _ g(2) nb] by simp
    next
      case (3 q w r)
      then have l: "length r < length s" using is_hole_not_Nil [OF 3(2)] by simp
      have ok: "template_ok ((p, v) # ps) r" using less.prems 3(1) template_ok_drop by blast
      have rep: "replace_all p v s = q @ replace_all p v r"
        using replace_all_other [OF g(1) 3(2)] 3(1,3) by auto
      have "find (\<lambda>(k, _). k = q) ((p, v) # ps) = Some (q, w)" using 3(3,4) by simp
      from fill_hit [OF hs(1) 3(2) this] fill_hit [OF hs(2) 3(2) 3(4)]
      have f: "fill ((p, v) # ps) s = w @ fill ((p, v) # ps) r" "fill ps (q @ replace_all p v r) = w @ fill ps (replace_all p v r)"
        using 3(1) by simp_all
      have nb: "\<not> prefix [123] (replace_all p v r)"
        using replaced_brace [OF g(1,2) ok] template_ok_after_hole less.prems 3(1,2) by blast
      have "template_ok ps (q @ replace_all p v r)"
        using template_ok_hole [OF 3(2) _ _ nb] 3(5) less.hyps [OF l ok] by force
      then show ?thesis using f rep less.hyps [OF l ok] by simp
    next
      case (4 c r)
      have ok: "template_ok ((p, v) # ps) r" using less.prems 4(1) by simp
      have "\<not> prefix p (c # r)" using 4(2) opens_hole g(1) by blast
      then have rep: "replace_all p v s = c # replace_all p v r" using 4(1) by (simp add: replace_all_miss)
      have no: "\<not> opens (c # replace_all p v r)" "\<not> prefix [125, 123] (c # replace_all p v r)"
      proof -
        show "\<not> prefix [125, 123] (c # replace_all p v r)"
          using 4 less.prems replaced_brace [OF g(1,2) ok] by auto
        show "\<not> opens (c # replace_all p v r)"
        proof (cases "prefix open_hole (c # r)")
          case True
          then show ?thesis using opens_replaced [OF g(1) 4(2)] by blast
        next
          case False
          then have "\<not> prefix open_hole (c # replace_all p v r)"
            using replaced_brace [OF g(1,2) ok] unfolding open_hole_iff by blast
          then show ?thesis using opens_open by blast
        qed
      qed
      then have "fill ps (replace_all p v s) = c # fill ps (replace_all p v r)"
        using rep fill_miss [OF hs(2)] by simp
      moreover have "fill ((p, v) # ps) s = c # fill ((p, v) # ps) r" using 4 fill_miss [OF hs(1)] by simp
      ultimately show ?thesis using less.hyps [OF _ ok] 4(1) rep no by simp
    qed simp
  qed
  then show "fill ((p, v) # ps) s = fill ps (replace_all p v s)" "template_ok ps (replace_all p v s)" by blast+
qed

lemma contains_other:
  assumes "is_hole p" "is_hole q" "p \<noteq> q" "contains q s"
  shows "contains q (replace_all p v s)"
proof -
  have "sublist q (replace_all p v s)"
    using assms(4) unfolding contains_sublist
  proof (induction "length s" arbitrary: s rule: less_induct)
    case less
    obtain c r where cr: "s = c # r" using less.prems is_hole_not_Nil [OF assms(2)] by (cases s) auto
    show ?case
    proof (cases "prefix q s")
      case True
      then obtain y where "s = q @ y" by (auto simp: prefix_def)
      then show ?thesis using replace_all_other [OF assms(1-3)] by auto
    next
      case nq: False
      show ?thesis
      proof (cases "prefix p s")
        case True
        then obtain y where y: "s = p @ y" by (auto simp: prefix_def)
        obtain t where t: "p = 36 # t" "36 \<notin> set t" by (rule is_hole_tail [OF assms(1)])
        obtain u where u: "q = 36 # u" by (rule is_hole_tail [OF assms(2)])
        have tail: "sublist q (x @ y) \<Longrightarrow> 36 \<notin> set x \<Longrightarrow> sublist q y" for x
          by (induction x) (auto simp: sublist_Cons_right u)
        have "sublist q (t @ y)" using less.prems nq y t(1) by (simp add: sublist_Cons_right)
        then have "sublist q (replace_all p v y)"
          using less.hyps [of y] tail t y by simp
        then have "sublist q (v @ replace_all p v y)"
          by (meson sublist_append_leftI sublist_order.order_trans)
        then show ?thesis
          using y replace_all_hit is_hole_not_Nil [OF assms(1)] by simp
      next
        case False
        then have "replace_all p v s = c # replace_all p v r" using cr by (simp add: replace_all_miss)
        moreover have "sublist q r" using less.prems nq cr by (simp add: sublist_Cons_right)
        ultimately show ?thesis using less.hyps [of r] cr by (simp add: sublist_Cons_right)
      qed
    qed
  qed
  then show ?thesis by (simp add: contains_sublist)
qed

lemma substitute_fill:
  assumes "good_pairs ps" "template_ok ps s" "\<forall>k\<in>fst ` set ps. contains k s"
  shows "\<exists>t. substitute ps s = Inr t \<and> t = fill ps s \<and> template_ok [] t"
  using assms
proof (induction ps arbitrary: s)
  case Nil
  have "fill [] s = s" by (induction s) (simp_all add: fill.simps)
  then show ?case using Nil by simp
next
  case (Cons pv ps)
  obtain p v where pv: "pv = (p, v)" by (cases pv)
  note fr = fill_replace [OF Cons.prems(1,2) [unfolded pv]]
  have g: "is_hole p" "p \<notin> fst ` set ps" "good_pairs ps" using Cons.prems(1) pv by (simp_all add: good_pairs_Cons)
  have "contains k (replace_all p v s)" if "k \<in> fst ` set ps" for k
  proof (rule contains_other [OF g(1)])
    show "is_hole k" using that good_pairs_holes [OF g(3)] by blast
    show "p \<noteq> k" using that g(2) by blast
    show "contains k s" using that Cons.prems(3) by auto
  qed
  then have "\<exists>t. substitute ps (replace_all p v s) = Inr t \<and> t = fill ps (replace_all p v s) \<and> template_ok [] t"
    using Cons.IH [OF g(3) fr(2)] by blast
  moreover have "contains p s" using Cons.prems(3) pv by simp
  ultimately show ?case using fr(1) pv by (simp del: contains_sublist)
qed

lemma placeholder_opens: "placeholder_at s \<Longrightarrow> opens s"
  by (auto simp: placeholder_at_def opens_def open_hole_def prefix_def Let_def split: if_splits)

lemma no_placeholder: "template_ok [] s \<Longrightarrow> \<not> has_placeholder s"
  by (induction s) (auto dest: placeholder_opens)

subsection \<open>The values of a rendering\<close>

lemma safe_no_brace: "list_all safe_char v \<Longrightarrow> 123 \<notin> set v" "list_all quoted_char v \<Longrightarrow> 123 \<notin> set v"
  unfolding list_all_iff safe_char_def quoted_char_def by fastforce+

lemma join_no_brace: "123 \<notin> set d \<Longrightarrow> \<forall>x\<in>set xs. 123 \<notin> set x \<Longrightarrow> 123 \<notin> set (join d xs)"
  by (induction d xs rule: join.induct) auto

lemma plain_no_brace: "plain_value p v \<Longrightarrow> p \<in> set origin_holes \<longrightarrow> 37 \<notin> set v \<Longrightarrow> 123 \<notin> set v"
  unfolding plain_value_def using safe_no_brace by blast

lemma edge_directives_no_brace:
  assumes "list_all (list_all safe_char) peers"
  shows "123 \<notin> set (edge_directives peers)"
proof -
  have "123 \<notin> set (join (10 # lit ''    '')
      (map (\<lambda>p. lit ''set_real_ip_from '' @ p @ lit '';'') peers
       @ [lit ''real_ip_header X-Forwarded-For;'', lit ''real_ip_recursive off;'']))"
    by (rule join_no_brace) (use assms safe_no_brace(1) in \<open>auto simp: list_all_iff [of "list_all safe_char"]\<close>)
  then show ?thesis by (simp add: edge_directives_def del: lit_Cons)
qed

lemma routing_no_brace:
  assumes "list_all (list_all safe_char) resolvers" "123 \<notin> set ns" "123 \<notin> set url"
  shows "123 \<notin> set (routing_text resolvers ns url)"
proof -
  have "123 \<notin> set (join [32] resolvers)"
    by (rule join_no_brace) (use assms(1) safe_no_brace(1) in \<open>auto simp: list_all_iff [of "list_all safe_char"]\<close>)
  then show ?thesis using assms(2,3) by (simp add: routing_text_def)
qed

lemma hole_is_hole: "set name \<inter> {36, 123, 125} = {} \<Longrightarrow> name \<noteq> [] \<Longrightarrow> hd name \<in> {66, 67} \<Longrightarrow> is_hole (hole name)"
  by (auto simp: is_hole_def hole_def open_hole_def)

lemma replacement_names:
  assumes "replacements uo cf hf env = Inr reps"
  shows "map fst reps = map hole template_names"
  by (rule replacements_Inr [OF assms]) (simp add: template_names_def)

lemma template_names_facts:
  "distinct template_names" "\<forall>n\<in>set template_names. is_hole (hole n)"
proof -
  show "distinct template_names" by code_simp
  have "\<forall>n\<in>set template_names. set n \<inter> {36, 123, 125} = {} \<and> n \<noteq> [] \<and> hd n \<in> {66, 67}" by code_simp
  then show "\<forall>n\<in>set template_names. is_hole (hole n)" using hole_is_hole by blast
qed

lemma replacements_good:
  assumes r: "replacements uo cf hf env = Inr reps"
    and o: "\<forall>(k, v)\<in>set reps. k \<in> set origin_holes \<longrightarrow> 37 \<notin> set v"
  shows "good_pairs reps"
proof -
  have plain: "123 \<notin> set v" if "(k, v) \<in> set reps" "plain_value k v" for k v
    using plain_no_brace that o by fast
  have named: "123 \<notin> set v" if "(hole n, v) \<in> set reps" "hole n \<notin> set composed_holes" for n v
  proof -
    have "\<not> composed_value reps (hole n) v" using that(2) by (auto simp: composed_value_def composed_holes_def)
    then show ?thesis using replaced_value [OF r that(1)] plain that(1) by blast
  qed
  have composed: "123 \<notin> set v" if "composed_value reps k v" for k v
    using that unfolding composed_value_def
  proof (elim disjE exE conjE)
    fix auth ns assume "v = cookie_source auth ns" "(hole (lit ''BT_PROXY_NAMESPACE''), ns) \<in> set reps"
    then show ?thesis using named plain_holes(1) by (auto simp: cookie_source_def)
  next
    fix peers assume "v = edge_directives peers" "list_all (list_all safe_char) peers"
    then show ?thesis using edge_directives_no_brace by blast
  next
    fix resolvers ns ru
    assume "v = routing_text resolvers ns ru" "list_all (list_all safe_char) resolvers"
      "(hole (lit ''BT_PROXY_NAMESPACE''), ns) \<in> set reps" "(hole (lit ''BT_READER_UPSTREAM''), ru) \<in> set reps"
    then show ?thesis using routing_no_brace named plain_holes(1,8) by blast
  qed
  have "123 \<notin> set v" if "(k, v) \<in> set reps" for k v
    using replaced_value [OF r that] plain composed that by blast
  moreover have "is_hole k" if "(k, v) \<in> set reps" for k v
  proof -
    have "k \<in> set (map fst reps)" using that by force
    then show ?thesis unfolding replacement_names [OF r] using template_names_facts(2) by auto
  qed
  moreover have "distinct (map fst reps)"
    unfolding replacement_names [OF r] using template_names_facts(1) by (simp add: distinct_map inj_on_def hole_inj)
  ultimately show ?thesis by (auto simp: good_pairs_def)
qed

subsection \<open>The shipped template\<close>

text \<open>The condition on a template depends on the names of the placeholders only, and holds line by line.\<close>

lemma template_ok_keys: "fst ` set ps = fst ` set qs \<Longrightarrow> template_ok ps s = template_ok qs s"
proof (induction s)
  case (Cons c s)
  have ex: "list_ex (\<lambda>(k, _). prefix k x) rs \<longleftrightarrow> (\<exists>k\<in>fst ` set rs. prefix k x)" for rs :: "(pystr \<times> pystr) list" and x
    by (force simp: list_ex_iff)
  show ?case using Cons by (simp add: ex)
qed simp

lemma opens_newline: "x \<noteq> [] \<Longrightarrow> opens (x @ 10 # y) \<Longrightarrow> opens x"
  by (cases x; cases "tl x"; cases "tl (tl x)") (auto simp: opens_def open_hole_def)

lemma template_ok_newline:
  assumes "template_ok ps b"
  shows "template_ok ps a \<Longrightarrow> template_ok ps (a @ 10 # b)"
proof (induction a)
  case Nil
  have "\<not> opens (10 # b)" using opens_open open_hole_iff by fastforce
  then show ?case using assms by simp
next
  case (Cons c a)
  have "list_ex (\<lambda>(k, _). prefix k (c # a @ 10 # b)) ps" if "opens (c # a @ 10 # b)"
  proof -
    have "opens (c # a)" using opens_newline [of "c # a" b] that by simp
    then have "list_ex (\<lambda>(k, _). prefix k (c # a)) ps" using Cons.prems by simp
    moreover have "prefix k (c # a @ 10 # b)" if "prefix k (c # a)" for k
      using that by (metis append_Cons prefixI prefix_order.trans)
    ultimately show ?thesis by (auto simp: list_ex_iff)
  qed
  moreover have "\<not> prefix [125, 123] (c # a @ 10 # b)" using Cons.prems by (cases a) auto
  ultimately show ?case using Cons by simp
qed

lemma template_ok_lines: "list_all (template_ok ps) ls \<Longrightarrow> template_ok ps (concat (map (\<lambda>l. l @ [10]) ls))"
  by (induction ls) (simp_all add: template_ok_newline)

text \<open>The scan of a text, character by character.\<close>

lemma template_ok_scan:
  "c \<noteq> 36 \<Longrightarrow> c \<noteq> 125 \<Longrightarrow> template_ok ps (c # s) = template_ok ps s"
  "d \<noteq> 123 \<Longrightarrow> template_ok ps (36 # d # s) = template_ok ps (d # s)"
  "d \<noteq> 123 \<Longrightarrow> template_ok ps (125 # d # s) = template_ok ps (d # s)"
  "d \<notin> {36, 66, 67} \<Longrightarrow> template_ok ps (36 # 123 # d # s) = template_ok ps (d # s)"
  "d \<in> {36, 66, 67} \<Longrightarrow> template_ok ps (36 # 123 # d # s)
     \<longleftrightarrow> list_ex (\<lambda>(k, _). prefix k (36 # 123 # d # s)) ps \<and> template_ok ps (d # s)"
  "template_ok ps [36]" "template_ok ps [125]"
  by (auto simp: opens_def open_hole_def)

lemma nginx_maps_ok: "list_all (template_ok (map (\<lambda>n. (hole n, [])) template_names)) nginx_maps"
  unfolding nginx_maps_def template_names_def by (simp add: template_ok_scan hole_def del: template_ok.simps(2))

lemma nginx_session_ok: "list_all (template_ok (map (\<lambda>n. (hole n, [])) template_names)) nginx_session"
  unfolding nginx_session_def template_names_def by (simp add: template_ok_scan hole_def del: template_ok.simps(2))

lemma nginx_api_ok: "list_all (template_ok (map (\<lambda>n. (hole n, [])) template_names)) nginx_api"
  unfolding nginx_api_def template_names_def by (simp add: template_ok_scan hole_def del: template_ok.simps(2))

lemma nginx_static_ok: "list_all (template_ok (map (\<lambda>n. (hole n, [])) template_names)) nginx_static"
  unfolding nginx_static_def template_names_def by (simp add: template_ok_scan hole_def del: template_ok.simps(2))

lemma nginx_reader_ok: "list_all (template_ok (map (\<lambda>n. (hole n, [])) template_names)) nginx_reader"
  unfolding nginx_reader_def template_names_def by (simp add: template_ok_scan hole_def del: template_ok.simps(2))

lemma nginx_lines_ok: "list_all (template_ok (map (\<lambda>n. (hole n, [])) template_names)) nginx_lines"
  unfolding nginx_lines_def using nginx_maps_ok nginx_session_ok nginx_api_ok nginx_static_ok nginx_reader_ok by simp

lemmas nginx_parts = nginx_lines_def nginx_maps_def nginx_session_def nginx_api_def nginx_static_def nginx_reader_def

lemma hole_line: "lit a @ hole (lit n) @ lit b = lit (a @ ''${'' @ n @ ''}'' @ b)"
  by (simp add: hole_def lit_def)

text \<open>A line for every placeholder; two of the lines have quotes or brackets besides.\<close>

lemma nginx_places:
  "lit ''    '' @ hole (lit ''BT_EDGE_REAL_IP_DIRECTIVES'') @ lit '''' \<in> set nginx_lines"
  "lit ''map $http_upgrade $bt'' @ hole (lit ''BT_PROXY_NAMESPACE'') @ lit ''_connection_upgrade {'' \<in> set nginx_lines"
  "lit ''        alias '' @ hole (lit ''BT_BROWSER_CONFIG_PATH'') @ lit '';'' \<in> set nginx_lines"
  "lit ''        '' @ hole (lit ''BT_READER_UPSTREAM_ROUTING'') @ lit '''' \<in> set nginx_lines"
  "lit ''        # Rendered by render_config.py from '' @ hole (lit ''BT_READER_UPSTREAM'') @ lit ''.'' \<in> set nginx_lines"
  "lit ''        proxy_pass '' @ hole (lit ''BT_API_UPSTREAM'') @ lit ''/session;'' \<in> set nginx_lines"
  "lit ''    listen '' @ hole (lit ''BT_PROXY_PORT'') @ lit '';'' \<in> set nginx_lines"
  "lit ''    # Overlay assets are cache-busted with ?v='' @ hole (lit ''BT_UI_VERSION'') @ lit '' (the VERSION file'' \<in> set nginx_lines"
  "lit ''        proxy_set_header X-Forwarded-Proto '' @ hole (lit ''BT_PUBLIC_SCHEME'') @ lit '';'' \<in> set nginx_lines"
  "lit ''        proxy_set_header Host '' @ hole (lit ''BT_PUBLIC_HOST'') @ lit '';'' \<in> set nginx_lines"
  "lit ''        proxy_set_header Cookie '' @ hole (lit ''BT_API_COOKIE_SOURCE'') @ lit '';'' \<in> set nginx_lines"
  "lit ''    client_max_body_size '' @ hole (lit ''BT_CWA_MAX_BODY_SIZE'') @ lit '';'' \<in> set nginx_lines"
  by (simp_all add: hole_line nginx_parts del: lit_Cons lit_Nil)

lemma nginx_quoted_places:
  "lit ''        proxy_set_header '' @ hole (lit ''BT_CWA_IDENTITY_HEADER'') @ lit '' '' @ [34, 34] @ lit '';'' \<in> set nginx_lines"
  "lit ''    '' @ [34] @ lit ''~*(?:^|;'' @ [91, 91] @ lit '':space:'' @ [93, 93] @ lit ''*)('' @ hole (lit ''BT_SESSION_COOKIE_NAME'')
     @ lit ''='' @ [91] @ lit ''^;'' @ [93] @ lit ''{1,128})(?:;|$)'' @ [34] @ lit '' $1;'' \<in> set nginx_lines"
  unfolding nginx_parts by (simp_all add: hole_def)

lemma hole_occurs: "x @ k @ y \<in> set ls \<Longrightarrow> \<exists>l\<in>set ls. contains k l"
  by (intro bexI [of _ "x @ k @ y"]) (auto simp: contains_sublist)

lemma hole_occurs_quoted: "x1 @ x2 @ x3 @ x4 @ x5 @ x6 @ x7 @ k @ y \<in> set ls \<Longrightarrow> \<exists>l\<in>set ls. contains k l"
  using hole_occurs [of "x1 @ x2 @ x3 @ x4 @ x5 @ x6 @ x7" k y] by simp

lemma nginx_names_occur: "n \<in> set template_names \<Longrightarrow> \<exists>l\<in>set nginx_lines. contains (hole n) l"
  unfolding template_names_def list.set insert_iff empty_iff simp_thms
  using nginx_places [THEN hole_occurs] nginx_quoted_places(1) [THEN hole_occurs]
    nginx_quoted_places(2) [THEN hole_occurs_quoted] by (elim disjE) (simp_all only: refl)

lemma sublist_concat: "x \<in> set xs \<Longrightarrow> sublist x (concat xs)"
  by (auto simp: in_set_conv_decomp sublist_appendI)

lemma nginx_template_fits:
  assumes "replacements uo cf hf env = Inr reps"
  shows "template_ok reps nginx_template" "\<forall>k\<in>fst ` set reps. contains k nginx_template"
proof -
  have names: "fst ` set reps = hole ` set template_names"
    using arg_cong [OF replacement_names [OF assms], of set] by simp
  have "fst ` set (map (\<lambda>n. (hole n, [])) template_names) = hole ` set template_names" by (simp add: image_image)
  then show "template_ok reps nginx_template"
    using template_ok_lines [OF nginx_lines_ok] template_ok_keys [of reps] names unfolding nginx_template_def by metis
  show "\<forall>k\<in>fst ` set reps. contains k nginx_template"
  proof
    fix k assume "k \<in> fst ` set reps"
    then obtain n where n: "k = hole n" "n \<in> set template_names" using names by blast
    then obtain l where "l \<in> set nginx_lines" "contains k l" using nginx_names_occur by blast
    then have "sublist k l" "sublist (l @ [10]) nginx_template"
      unfolding nginx_template_def contains_sublist by (auto intro: sublist_concat)
    then show "contains k nginx_template"
      unfolding contains_sublist by (meson sublist_appendI sublist_append_rightI sublist_order.order_trans)
  qed
qed

text \<open>So the shipped template renders for every accepted environment whose origins have no percent sign.\<close>

lemma nginx_template_rendered:
  assumes "replacements uo cf hf env = Inr reps" "\<forall>(k, v)\<in>set reps. k \<in> set origin_holes \<longrightarrow> 37 \<notin> set v"
  shows "render_text uo cf hf (Inr nginx_template) env = Inr (fill reps nginx_template)"
  using substitute_fill [OF replacements_good [OF assms] nginx_template_fits [OF assms(1)]] no_placeholder assms(1)
  by (auto simp: render_text_def)

text \<open>
  C40: rendering is a single pass. For an accepted environment whose origins have no percent sign,
  and a template in which all that opens a placeholder is a known placeholder, none is followed by
  an opening brace and every known one occurs, the repeated replacement yields the template with
  each placeholder replaced by its value, once: no value is searched for further placeholders, and
  none is left over, so that the final check of the renderer cannot fail. The template that the
  repository ships meets the conditions.
\<close>
theorem rendering_single_pass:
  assumes "replacements uo cf hf env = Inr reps"
    and "\<forall>(k, v)\<in>set reps. k \<in> set origin_holes \<longrightarrow> 37 \<notin> set v"
    and "template_ok reps t" "\<forall>k\<in>fst ` set reps. contains k t"
  shows "render_text uo cf hf (Inr t) env = Inr (fill reps t) \<and> \<not> has_placeholder (fill reps t)"
  using substitute_fill [OF replacements_good [OF assms(1,2)] assms(3,4)] no_placeholder assms(1)
  by (auto simp: render_text_def)

theorem rendering_single_pass_witness:
  "render_text demo_unicode ascii_lower demo_files (Inr nginx_template) demo_env = Inr (fill demo_values nginx_template)
   \<and> \<not> has_placeholder (fill demo_values nginx_template)"
proof (rule rendering_single_pass [OF demo_replacements])
  show "\<forall>(k, v)\<in>set demo_values. k \<in> set origin_holes \<longrightarrow> 37 \<notin> set v"
    by (simp add: demo_values_def)
  show "template_ok demo_values nginx_template" "\<forall>k\<in>fst ` set demo_values. contains k nginx_template"
    by (rule nginx_template_fits [OF demo_replacements])+
qed

end
