(* ===== verification/Proxy_Output.thy ===== *)
theory Proxy_Output
  imports Proxy_Template
begin

section \<open>What the renderer leaves behind and what it says\<close>

text \<open>
  Both files are written whole or not at all, the browser's contract is one of the supported
  combinations, and the messages on standard error come from a fixed list.
\<close>

subsection \<open>Files\<close>

text \<open>The name \<open>mkstemp\<close> draws is new.\<close>

definition fresh_temp :: "write_calls \<Rightarrow> pystr set \<Rightarrow> files \<Rightarrow> bool" where
  "fresh_temp wc paths fs \<longleftrightarrow>
     (case wc_mkstemp wc of Inl _ \<Rightarrow> True | Inr tmp \<Rightarrow> fs tmp = None \<and> tmp \<notin> paths)"

lemma atomic_write_cases:
  assumes "atomic_write wc path content fs = (r, fs')" "fresh_temp wc {path} fs"
  obtains "r = Inr ()" "fs' = fs(path \<mapsto> (content, owner_only))"
  | e where "r = Inl e" "fs' = fs"
  | e tmp written where "r = Inl e" "wc_mkstemp wc = Inr tmp" "fs tmp = None" "wc_unlink wc \<noteq> None"
      "fs' = fs(tmp \<mapsto> (written, owner_only))"
proof (cases "wc_mkdir wc")
  note unchanged = that(2) and left_over = that(3)
  case None
  show thesis
  proof (cases "wc_mkstemp wc")
    case (Inr tmp)
    then have tmp: "fs tmp = None" "tmp \<noteq> path" using assms(2) by (simp_all add: fresh_temp_def)
    have undo: "fs(tmp := None) = fs" using tmp(1) by (simp add: fun_upd_idem)
    have failed: thesis if d: "discard wc (fs(tmp \<mapsto> (written, owner_only))) tmp e = (r, fs')" for written e
    proof (cases "wc_unlink wc")
      case None
      then have "r = Inl e" "fs' = fs" using d undo by (auto simp: discard_def)
      then show thesis using unchanged by blast
    next
      case (Some u)
      then obtain e' where "r = Inl e'" "fs' = fs(tmp \<mapsto> (written, owner_only))"
        using d by (cases u) (auto simp: discard_def)
      then show thesis using left_over Inr tmp(1) Some by blast
    qed
    show thesis
    proof (cases "wc_write wc")
      case nw: None
      show thesis
      proof (cases "wc_chmod wc = None \<and> wc_replace wc = None")
        case True
        then have "r = Inr ()" "fs' = (fs(tmp := None))(path \<mapsto> (content, owner_only))"
          using assms(1) None Inr nw by (auto simp: atomic_write_def Let_def)
        then show thesis using that(1) undo by simp
      next
        case False
        then obtain e where "discard wc (fs(tmp \<mapsto> (content, owner_only))) tmp e = (r, fs')"
          using assms(1) None Inr nw by (auto simp: atomic_write_def Let_def split: option.splits)
        then show thesis by (rule failed)
      qed
    next
      case (Some ew)
      then obtain e written where "discard wc (fs(tmp \<mapsto> (written, owner_only))) tmp e = (r, fs')"
        using assms(1) None Inr by (cases ew) (auto simp: atomic_write_def)
      then show thesis by (rule failed)
    qed
  next
    case (Inl e)
    then have "r = Inl e" "fs' = fs" using assms(1) None by (simp_all add: atomic_write_def)
    then show thesis by (rule that(2))
  qed
next
  case (Some e)
  then have "r = Inl e" "fs' = fs" using assms(1) by (simp_all add: atomic_write_def)
  then show thesis by (rule that(2))
qed

lemma atomic_write_path:
  assumes "atomic_write wc path content fs = (r, fs')" "fresh_temp wc {path, other} fs"
  shows "fs' path = (if r = Inr () then Some (content, owner_only) else fs path)"
    "other \<noteq> path \<Longrightarrow> fs' other = fs other"
proof -
  have f: "fresh_temp wc {path} fs" "\<And>tmp. wc_mkstemp wc = Inr tmp \<Longrightarrow> tmp \<noteq> other \<and> tmp \<noteq> path"
    using assms(2) by (auto simp: fresh_temp_def split: sum.splits)
  show "fs' path = (if r = Inr () then Some (content, owner_only) else fs path)"
    by (rule atomic_write_cases [OF assms(1) f(1)]) (use f(2) in auto)
  show "other \<noteq> path \<Longrightarrow> fs' other = fs other"
    by (rule atomic_write_cases [OF assms(1) f(1)]) (use f(2) in auto)
qed

text \<open>
  C13: a run of the renderer leaves each of its two files either as it was or with its complete
  new content, owner-only, whatever system call fails: on success both hold the text rendered from
  this environment, and on any failure the browser's file is untouched and the nginx file is old
  or complete. A half-written configuration is never visible under either name.
\<close>
theorem proxy_outputs_whole:
  assumes "render_outputs uo cf hf rj env fs = (r, fs')" "rj_nginx rj \<noteq> rj_browser rj"
    and "fresh_temp (rj_nginx_calls rj) {rj_nginx rj, rj_browser rj} fs"
    and "\<forall>text. fresh_temp (rj_browser_calls rj) {rj_browser rj, rj_nginx rj} (fs(rj_nginx rj \<mapsto> text))"
  shows "(\<exists>bc text. r = Inr () \<and> validated_browser_config env = Inr bc
             \<and> render_text uo cf hf (rj_template rj) env = Inr text
             \<and> fs' (rj_nginx rj) = Some (text, owner_only)
             \<and> fs' (rj_browser rj) = Some (browser_config_text bc, owner_only))
       \<or> (\<exists>e. r = Inl e \<and> fs' (rj_browser rj) = fs (rj_browser rj)
             \<and> (fs' (rj_nginx rj) = fs (rj_nginx rj)
                \<or> (\<exists>text. render_text uo cf hf (rj_template rj) env = Inr text
                     \<and> fs' (rj_nginx rj) = Some (text, owner_only))))"
proof (cases "validated_browser_config env")
  case (Inr bc)
  show ?thesis
  proof (cases "render_text uo cf hf (rj_template rj) env")
    case rendered: (Inr cfg)
    obtain r1 fs1 where w1: "atomic_write (rj_nginx_calls rj) (rj_nginx rj) cfg fs = (r1, fs1)"
      by (cases "atomic_write (rj_nginx_calls rj) (rj_nginx rj) cfg fs")
    note p1 = atomic_write_path [OF w1 assms(3)]
    show ?thesis
    proof (cases r1)
      case (Inl e)
      then have "r = Inl (IoFailure e)" "fs' = fs1" using assms(1) Inr rendered w1 by (simp_all add: render_outputs_def)
      then show ?thesis using p1 Inl assms(2) by auto
    next
      case r1: (Inr u)
      have "fs1 = fs(rj_nginx rj \<mapsto> (cfg, owner_only))"
        by (rule atomic_write_cases [OF w1]) (use assms(3) r1 in \<open>auto simp: fresh_temp_def split: sum.splits\<close>)
      then have f2: "fresh_temp (rj_browser_calls rj) {rj_browser rj, rj_nginx rj} fs1" using assms(4) by simp
      obtain r2 fs2 where w2: "atomic_write (rj_browser_calls rj) (rj_browser rj) (browser_config_text bc) fs1 = (r2, fs2)"
        by (cases "atomic_write (rj_browser_calls rj) (rj_browser rj) (browser_config_text bc) fs1")
      note p2 = atomic_write_path [OF w2 f2]
      have "fs' = fs2" "r = (case r2 of Inl e \<Rightarrow> Inl (IoFailure e) | Inr _ \<Rightarrow> Inr ())"
        using assms(1) Inr rendered w1 r1 w2 by (auto simp: render_outputs_def split: sum.splits)
      then show ?thesis using p1 p2 assms(2) Inr rendered r1 by (cases r2) auto
    qed
  qed (use assms(1) Inr in \<open>auto simp: render_outputs_def\<close>)
qed (use assms(1) in \<open>auto simp: render_outputs_def\<close>)

definition demo_calls :: "string \<Rightarrow> io_exn option \<Rightarrow> write_calls" where
  "demo_calls tmp failure = \<lparr>wc_mkdir = None, wc_mkstemp = Inr (lit tmp), wc_write = None, wc_chmod = None,
     wc_replace = failure, wc_unlink = None\<rparr>"

definition demo_job :: render_job where
  "demo_job = \<lparr>rj_template = Inr nginx_template, rj_nginx = lit ''n'', rj_browser = lit ''b'',
     rj_nginx_calls = demo_calls ''s'' None, rj_browser_calls = demo_calls ''t'' (Some OsFailure)\<rparr>"

lemma demo_rendered:
  "render_text demo_unicode ascii_lower demo_files (Inr nginx_template) demo_env = Inr (fill demo_values nginx_template)"
  by (rule nginx_template_rendered [OF demo_replacements]) (simp add: demo_values_def)

theorem proxy_outputs_whole_witness:
  "\<exists>fs'. render_outputs demo_unicode ascii_lower demo_files demo_job demo_env Map.empty = (Inl (IoFailure OsFailure), fs')
     \<and> fs' (lit ''b'') = None \<and> fs' (lit ''n'') \<noteq> None"
proof -
  let ?t = "fill demo_values nginx_template"
  let ?run = "render_outputs demo_unicode ascii_lower demo_files demo_job demo_env Map.empty"
  obtain fs' where o: "?run = (Inl (IoFailure OsFailure), fs')" and n: "fs' (lit ''n'') \<noteq> None"
    using demo_browser demo_rendered
    by (auto simp: render_outputs_def demo_job_def atomic_write_def demo_calls_def discard_def simp del: fun_upd_apply)
      simp
  show ?thesis
    using proxy_outputs_whole [OF o] o n
    by (simp add: demo_job_def demo_calls_def fresh_temp_def)
qed

subsection \<open>The contract with the browser\<close>

lemma if_InlE:
  assumes "(if P then Inl e else x) = Inr y"
  obtains "\<not> P" "x = Inr y"
  using assms by (auto split: if_splits)

lemma bounded_integer_Inr:
  "validated_bounded_integer env name d lo hi = Inr n \<Longrightarrow> lo \<le> n \<and> n \<le> hi"
  by (auto simp: validated_bounded_integer_def Let_def split: if_splits option.splits)

lemma reader_contract_Inr:
  assumes "validated_reader_contract env = Inr rc"
  shows "rc_type rc = lit ''cwa'' \<and> rc_contract rc = lit ''cwa-epub-v1'' \<and> cwa_version_ok (rc_version rc)
    \<or> rc_type rc = lit ''kavita'' \<and> map_of kavita_certified (rc_version rc) = Some (rc_contract rc)"
proof -
  obtain t v c where t: "map_of reader_contracts t \<noteq> None" and chk: "check_contract t v c = Inr ()"
      and w: "\<not> (t = lit ''cwa'' \<and> \<not> cwa_version_ok v)"
      and rc: "rc = \<lparr>rc_type = t, rc_version = v, rc_contract = c\<rparr>"
    using assms unfolding validated_reader_contract_def
    by (elim rbind_InrE if_InlE) (rule that, auto simp del: lit_Cons)
  have "t = lit ''cwa'' \<or> t = lit ''kavita''"
    using t by (auto simp: reader_contracts_def simp del: lit_Cons split: if_splits)
  then show ?thesis
  proof
    assume "t = lit ''cwa''"
    then show ?thesis using chk w rc by (auto simp: check_contract_def reader_contracts_def split: if_splits)
  next
    assume "t = lit ''kavita''"
    then show ?thesis using chk rc by (simp add: check_contract_def split: option.splits if_splits del: lit_Cons)
  qed
qed

text \<open>
  The configuration the renderer publishes to browsers is one of the supported combinations:
  an authentication mode with its own credentials policy, a batch size from 1 to 50, a prefetch gap
  of at most ten seconds, and a reader contract exactly in reader-session mode, which is the EPUB
  contract of CWA for a supported version or the one certified for this version of Kavita.
\<close>
theorem browser_config_supported:
  assumes "validated_browser_config env = Inr bc"
  shows "map_of supported_modes (bc_auth bc) = Some (bc_credentials bc) \<and>
    1 \<le> bc_batch bc \<and> bc_batch bc \<le> 50 \<and> 0 \<le> bc_gap bc \<and> bc_gap bc \<le> 10000 \<and>
    (bc_reader bc \<noteq> None \<longleftrightarrow> bc_auth bc = lit ''reader_session'') \<and>
    (case bc_reader bc of None \<Rightarrow> True
     | Some rc \<Rightarrow>
         rc_type rc = lit ''cwa'' \<and> rc_contract rc = lit ''cwa-epub-v1'' \<and> cwa_version_ok (rc_version rc)
         \<or> rc_type rc = lit ''kavita'' \<and> map_of kavita_certified (rc_version rc) = Some (rc_contract rc))"
proof -
  obtain a c n g r where m: "map_of supported_modes a = Some c"
      and n: "validated_bounded_integer env (lit ''BT_BATCH_SIZE'') 5 1 50 = Inr n"
      and g: "validated_bounded_integer env (lit ''BT_CLIENT_PREFETCH_GAP_MS'') 0 0 10000 = Inr g"
      and r: "(if a = lit ''reader_session''
                then rbind (validated_reader_contract env) (\<lambda>rc. Inr (Some rc)) else Inr None) = Inr r"
      and bc: "bc = \<lparr>bc_auth = a, bc_credentials = c, bc_batch = n, bc_gap = g, bc_reader = r\<rparr>"
    using assms unfolding validated_browser_config_def
    by (elim rbind_InrE if_InlE) (rule that, auto simp del: lit_Cons)
  have "r = None \<and> a \<noteq> lit ''reader_session''
      \<or> (\<exists>rc. r = Some rc \<and> a = lit ''reader_session'' \<and> validated_reader_contract env = Inr rc)"
    using r by (auto simp del: lit_Cons split: if_splits elim: rbind_InrE)
  then show ?thesis
    using m bc bounded_integer_Inr [OF n] bounded_integer_Inr [OF g] reader_contract_Inr
    by (auto simp del: lit_Cons)
qed

theorem browser_config_supported_witness:
  "map_of supported_modes (lit ''forwarded'') = Some (lit ''include'')"
  using browser_config_supported [OF demo_browser] by (simp del: lit_Cons)

subsection \<open>Messages\<close>

definition proxy_names :: "pystr list" where
  "proxy_names = map lit
     [''BT_BROWSER_AUTH_MODE'', ''BT_BROWSER_CREDENTIALS'', ''BT_READER_TYPE'', ''BT_READER_VERSION'',
      ''BT_READER_CONTRACT_VERSION'', ''BT_READER_UPSTREAM'', ''CWA_UPSTREAM'', ''BT_API_UPSTREAM'',
      ''BT_PUBLIC_ORIGIN'', ''BT_PROXY_PORT'', ''BT_UI_VERSION'', ''BT_CWA_IDENTITY_HEADER'', ''BT_CWA_MAX_BODY_SIZE'']"

definition name_details :: "pystr \<Rightarrow> pystr list" where
  "name_details name = map (\<lambda>t. name @ lit t)
     ['' must be a clean non-empty ASCII value'', '' must be an exact http(s) origin'',
      '' contains an invalid hostname'', '' contains an invalid port'',
      '' must contain only a host and optional port'', '' must be an integer from 1 to 65535'',
      '' must be a finite positive nginx size'', '' must be a bounded version token'']"

definition fixed_details :: "pystr list" where
  "fixed_details = map lit
     [''BT_EDGE_TRUSTED_PROXIES must be a bounded list of at most 32 exact IPv4 peers'',
      ''BT_CWA_IDENTITY_HEADER must be one bounded HTTP header name'',
      ''BT_CWA_IDENTITY_HEADER conflicts with a proxy-managed security header'',
      ''BT_SESSION_COOKIE_NAME must match the public origin security boundary'',
      ''BT_PROXY_NAMESPACE must be a bounded lowercase token'',
      ''BT_BROWSER_CONFIG_PATH is outside the runtime directory'',
      ''BT_BROWSER_AUTH_MODE and BT_BROWSER_CREDENTIALS are not a supported pair'',
      ''BT_READER_TYPE is unsupported'', ''BT_READER_CONTRACT_VERSION is unsupported'',
      ''BT_READER_VERSION is not certified for Kavita'', ''BT_READER_VERSION is unsupported for CWA'',
      ''CWA_UPSTREAM is forbidden for Kavita'', ''BT_READER_UPSTREAM conflicts with CWA_UPSTREAM'',
      ''proxy template contains an unresolved placeholder'',
      ''proxy configuration could not be written'']
   @ [lit ''BT_BATCH_SIZE'' @ lit '' must be an integer from '' @ show_int 1 @ lit '' to '' @ show_int 50,
      lit ''BT_CLIENT_PREFETCH_GAP_MS'' @ lit '' must be an integer from '' @ show_int 0 @ lit '' to '' @ show_int 10000]"

definition placeholder_names :: "pystr list" where
  "placeholder_names = map lit
     [''BT_EDGE_REAL_IP_DIRECTIVES'', ''BT_PROXY_NAMESPACE'', ''BT_BROWSER_CONFIG_PATH'',
      ''BT_READER_UPSTREAM_ROUTING'', ''BT_READER_UPSTREAM'', ''BT_API_UPSTREAM'', ''BT_PROXY_PORT'',
      ''BT_UI_VERSION'', ''BT_CWA_IDENTITY_HEADER'', ''BT_PUBLIC_SCHEME'', ''BT_PUBLIC_HOST'',
      ''BT_SESSION_COOKIE_NAME'', ''BT_API_COOKIE_SOURCE'', ''BT_CWA_MAX_BODY_SIZE'']"

definition known_details :: "pystr list" where
  "known_details = fixed_details @ concat (map name_details proxy_names)
     @ map (\<lambda>n. lit ''proxy template is missing '' @ hole n) placeholder_names"

text \<open>A result whose configuration error, if it is one, carries a message of a set.\<close>

definition says :: "pystr set \<Rightarrow> (proxy_exn, 'a) result \<Rightarrow> bool" where
  "says M r \<longleftrightarrow> (\<forall>m. r = Inl (ProxyConfigError m) \<longrightarrow> m \<in> M)"

named_theorems says_intros \<open>messages of the validators\<close>

lemma says_Inr [simp, says_intros]: "says M (Inr x)"
  by (simp add: says_def)

lemma says_other [simp, says_intros]: "says M (Inl OtherValueError)" "says M (Inl (IoFailure e))"
  by (simp_all add: says_def)

lemma says_error [simp]: "says M (Inl (ProxyConfigError m)) \<longleftrightarrow> m \<in> M"
  by (simp add: says_def)

lemma says_rbind [says_intros]: "says M r \<Longrightarrow> (\<And>x. says M (f x)) \<Longrightarrow> says M (rbind r f)"
  by (cases r) (auto simp: says_def)

lemma says_if [says_intros]: "says M a \<Longrightarrow> says M b \<Longrightarrow> says M (if P then a else b)"
  by simp

lemma says_option [says_intros]:
  "says M a \<Longrightarrow> (\<And>x. says M (f x)) \<Longrightarrow> says M (case z of None \<Rightarrow> a | Some x \<Rightarrow> f x)"
  by (cases z) auto

lemma detail_known:
  "d \<in> set fixed_details \<Longrightarrow> d \<in> set known_details"
  "n \<in> set proxy_names \<Longrightarrow> d \<in> set (name_details n) \<Longrightarrow> d \<in> set known_details"
  "n \<in> set placeholder_names \<Longrightarrow> lit ''proxy template is missing '' @ hole n \<in> set known_details"
  by (auto simp: known_details_def simp del: lit_Cons)

definition proxy_name :: "pystr \<Rightarrow> bool" where
  "proxy_name n \<longleftrightarrow> n \<in> set proxy_names"

lemma proxy_name_lits [says_intros]:
  "proxy_name (lit ''BT_BROWSER_AUTH_MODE'')" "proxy_name (lit ''BT_BROWSER_CREDENTIALS'')"
  "proxy_name (lit ''BT_READER_TYPE'')" "proxy_name (lit ''BT_READER_VERSION'')"
  "proxy_name (lit ''BT_READER_CONTRACT_VERSION'')" "proxy_name (lit ''BT_READER_UPSTREAM'')"
  "proxy_name (lit ''CWA_UPSTREAM'')" "proxy_name (lit ''BT_API_UPSTREAM'')"
  "proxy_name (lit ''BT_PUBLIC_ORIGIN'')" "proxy_name (lit ''BT_PROXY_PORT'')"
  "proxy_name (lit ''BT_UI_VERSION'')" "proxy_name (lit ''BT_CWA_IDENTITY_HEADER'')"
  "proxy_name (lit ''BT_CWA_MAX_BODY_SIZE'')"
  by (simp_all add: proxy_name_def proxy_names_def)

lemma name_says:
  assumes "proxy_name n" "t \<in> set ['' must be a clean non-empty ASCII value'', '' must be an exact http(s) origin'',
      '' contains an invalid hostname'', '' contains an invalid port'',
      '' must contain only a host and optional port'', '' must be an integer from 1 to 65535'',
      '' must be a finite positive nginx size'', '' must be a bounded version token'']"
  shows "says (set known_details) (Inl (ProxyConfigError (n @ lit t)))"
proof -
  have "n @ lit t \<in> set (name_details n)" using assms(2) unfolding name_details_def by auto
  then show ?thesis using detail_known(2) assms(1) by (simp add: proxy_name_def)
qed

lemma fixed_says: "d \<in> set fixed_details \<Longrightarrow> says (set known_details) (Inl (ProxyConfigError d))"
  using detail_known(1) by simp

lemma required_says [says_intros]: "proxy_name n \<Longrightarrow> says (set known_details) (required env n)"
  unfolding required_def Let_def by (intro says_if says_Inr name_says) simp_all

lemma base_url_says [says_intros]:
  assumes "proxy_name n"
  shows "says (set known_details) (validated_base_url uo cf env n)"
proof -
  note e = name_says [OF assms]
  have o: "says (set known_details) (Inl (origin_error n))" unfolding origin_error_def by (rule e) simp
  have a: "says (set known_details) (authority_checks cf n u sch h p)" for u sch h p
    unfolding authority_checks_def Let_def
    by (cases "host_text h") (simp_all only: sum.case, auto intro!: says_if e says_Inr simp only: list.set_intros)
  have "says (set known_details) (origin_checks uo cf n u p)" for u p
    unfolding origin_checks_def Let_def by (intro says_if o a)
  then have "says (set known_details) (case url_port u of Inl _ \<Rightarrow> Inl (origin_error n) | Inr port \<Rightarrow> origin_checks uo cf n u port)" for u
    using o by (cases "url_port u") simp_all
  then show ?thesis
    unfolding validated_base_url_def by (intro says_rbind says_option required_says assms o)
qed

lemma port_says [says_intros]: "proxy_name n \<Longrightarrow> says (set known_details) (validated_port env n)"
  unfolding validated_port_def port_error_def
  by (intro says_rbind says_if says_option says_Inr says_other required_says name_says) simp_all

lemma size_says [says_intros]: "proxy_name n \<Longrightarrow> says (set known_details) (validated_size env n)"
  unfolding validated_size_def by (intro says_rbind says_if says_Inr required_says name_says) simp_all

lemma version_says [says_intros]: "proxy_name n \<Longrightarrow> says (set known_details) (validated_version env n)"
  unfolding validated_version_def by (intro says_rbind says_if says_Inr required_says name_says) simp_all

lemma header_error_known:
  "validate_reader_identity_header v = Inl (ValueError m) \<Longrightarrow> m \<in> set fixed_details"
  by (auto simp: validate_reader_identity_header_def fixed_details_def simp del: lit_Cons
      split: pyval.splits if_splits)

lemma header_says [says_intros]: "proxy_name n \<Longrightarrow> says (set known_details) (validated_header_name env n)"
  unfolding validated_header_name_def
proof (intro says_rbind required_says)
  fix v
  show "says (set known_details)
     (case validate_reader_identity_header (PStr v) of
        Inl (ValueError m) \<Rightarrow> Inl (ProxyConfigError m) | Inl _ \<Rightarrow> Inl OtherValueError | Inr h \<Rightarrow> Inr h)"
    using header_error_known [of "PStr v"] detail_known(1)
    by (auto split: sum.splits py_error.splits)
qed

lemma cookie_says [says_intros]: "says (set known_details) (validated_session_cookie_name env b)"
  unfolding validated_session_cookie_name_def Let_def
  by (intro says_if says_Inr fixed_says) (simp_all add: fixed_details_def del: lit_Cons)

lemma namespace_says [says_intros]: "says (set known_details) (validated_proxy_namespace env)"
  unfolding validated_proxy_namespace_def Let_def
  by (intro says_if says_Inr fixed_says) (simp_all add: fixed_details_def del: lit_Cons)

lemma config_path_says [says_intros]: "says (set known_details) (validated_browser_config_path env)"
  unfolding validated_browser_config_path_def Let_def
  by (intro says_if says_Inr fixed_says) (simp_all add: fixed_details_def del: lit_Cons)

lemma bounded_says [says_intros]:
  "says (set known_details) (validated_bounded_integer env (lit ''BT_BATCH_SIZE'') 5 1 50)"
  "says (set known_details) (validated_bounded_integer env (lit ''BT_CLIENT_PREFETCH_GAP_MS'') 0 0 10000)"
  unfolding validated_bounded_integer_def bounded_error_def Let_def
  by (intro says_if says_option says_Inr says_other fixed_says; simp add: fixed_details_def del: lit_Cons)+

lemma reader_contract_says [says_intros]: "says (set known_details) (validated_reader_contract env)"
proof -
  have "says (set known_details) (check_contract t v c)" for t v c
    unfolding check_contract_def contract_unsupported_def
    by (intro says_if says_option says_Inr fixed_says) (simp_all add: fixed_details_def del: lit_Cons)
  then show ?thesis
    unfolding validated_reader_contract_def
    by (intro says_rbind says_if says_Inr says_intros fixed_says) (simp_all add: fixed_details_def del: lit_Cons)
qed

lemma browser_says [says_intros]: "says (set known_details) (validated_browser_config env)"
  unfolding validated_browser_config_def
  by (intro says_rbind says_if says_Inr says_intros fixed_says) (simp_all add: fixed_details_def del: lit_Cons)

lemma proxy_name_if: "proxy_name a \<Longrightarrow> proxy_name b \<Longrightarrow> proxy_name (if P then a else b)"
  by simp

lemma reader_upstream_says [says_intros]: "says (set known_details) (validated_reader_upstream uo cf env)"
  unfolding validated_reader_upstream_def Let_def
proof (intro says_if says_rbind fixed_says base_url_says proxy_name_if proxy_name_lits)
  show "says (set known_details) (case x of (u, xa, xb) \<Rightarrow> Inr u)" for x :: "pystr \<times> pystr \<times> pystr"
    by (cases x) simp
qed (simp_all add: fixed_details_def del: lit_Cons)

lemma routing_says [says_intros]: "says M (reader_upstream_routing uo cf rf hf u ns)"
  unfolding reader_upstream_routing_def Let_def
  by (intro says_option says_if says_Inr says_other)

lemma edge_error_only: "parse_edge_trusted_proxies v = Inl e \<Longrightarrow> e = edge_error"
proof -
  have p: "parse_peer i = Inl e \<Longrightarrow> e = edge_error" for i e
    by (auto simp: parse_peer_def Let_def split: if_splits prod.splits option.splits)
  have a: "add_peers acc items = Inl e \<Longrightarrow> e = edge_error" for acc items e
    by (induction acc items rule: add_peers.induct) (auto simp: rbind_eq_Inl Let_def dest: p split: if_splits)
  show "parse_edge_trusted_proxies v = Inl e \<Longrightarrow> e = edge_error"
    by (auto simp: parse_edge_trusted_proxies_def rbind_eq_Inl dest: a split: pyval.splits if_splits)
qed

lemma edge_says [says_intros]: "says (set known_details) (edge_peers_of env)"
proof (cases "parse_edge_trusted_proxies (PStr (env_or env (lit ''BT_EDGE_TRUSTED_PROXIES'') []))")
  case (Inl e)
  moreover have "lit ''BT_EDGE_TRUSTED_PROXIES must be a bounded list of at most 32 exact IPv4 peers'' \<in> set known_details"
    by (rule detail_known(1)) (simp add: fixed_details_def del: lit_Cons)
  ultimately show ?thesis
    using edge_error_only [OF Inl] by (simp add: edge_peers_of_def edge_error_def del: lit_Cons)
qed (simp add: edge_peers_of_def)

lemma says_triple [says_intros]:
  "(\<And>a b c. says M (g a b c)) \<Longrightarrow> says M (case x of (a, b, c) \<Rightarrow> g a b c)"
  by (cases x) simp

lemma replacements_says: "says (set known_details) (replacements uo cf hf env)"
  unfolding replacements_def by (intro says_intros)

lemma replacements_keys:
  "replacements uo cf hf env = Inr reps \<Longrightarrow> \<forall>k\<in>fst ` set reps. \<exists>n\<in>set placeholder_names. k = hole n"
  by (erule replacements_Inr) (simp add: placeholder_names_def hole_inj del: lit_Cons)

lemma substitute_says:
  "\<forall>k\<in>fst ` set reps. \<exists>n\<in>set placeholder_names. k = hole n \<Longrightarrow> says (set known_details) (substitute reps t)"
proof (induction reps t rule: substitute.induct)
  case (2 p v rest rendered)
  have "lit ''proxy template is missing '' @ p \<in> set known_details"
    using "2.prems" detail_known(3) by auto
  then show ?case using 2 by (simp del: lit_Cons contains_sublist)
qed simp

lemma render_text_says: "says (set known_details) (render_text uo cf hf template env)"
proof (cases "replacements uo cf hf env")
  case (Inl e)
  then show ?thesis using replacements_says [of uo cf hf env] by (simp add: render_text_def says_def)
next
  case (Inr reps)
  have u: "says (set known_details) (Inl (ProxyConfigError (lit ''proxy template contains an unresolved placeholder'')))"
    by (rule fixed_says) (simp add: fixed_details_def del: lit_Cons)
  have "says (set known_details) (rbind (case template of Inl e \<Rightarrow> Inl (IoFailure e) | Inr text \<Rightarrow> Inr text) (\<lambda>text.
     rbind (substitute reps text) (\<lambda>rendered.
       if has_placeholder rendered
       then Inl (ProxyConfigError (lit ''proxy template contains an unresolved placeholder'')) else Inr rendered)))"
    by (cases template; simp only: sum.case rbind_simps; intro says_intros says_rbind substitute_says replacements_keys [OF Inr] u)
  then show ?thesis using Inr by (simp add: render_text_def del: lit_Cons)
qed

lemma render_outputs_says: "says (set known_details) (fst (render_outputs uo cf hf rj env fs))"
proof -
  have b: "says (set known_details) (Inl e)" if "validated_browser_config env = Inl e" for e :: proxy_exn
    using browser_says [of env] that by (simp add: says_def)
  have t: "says (set known_details) (Inl e)" if "render_text uo cf hf (rj_template rj) env = Inl e" for e :: proxy_exn
    using render_text_says [of uo cf hf "rj_template rj" env] that by (simp add: says_def)
  show ?thesis
    using b t by (auto simp: render_outputs_def split: sum.splits prod.splits)
qed

text \<open>
  What the renderer prints when it fails comes from a fixed list of texts that does not depend
  on the environment: the message names the variable that was refused, never its value, so that a
  credential in a rejected URL cannot reach the log. Exit code 78 always carries such a message.
\<close>
theorem error_messages_fixed:
  "case fst (proxy_main uo cf hf argc rj env fs) of
     Exit code msg \<Rightarrow>
       code = 0 \<and> msg = None \<or> code = 64 \<and> msg = Some usage_text
       \<or> code = 78 \<and> (\<exists>d\<in>set known_details. msg = Some (error_text d))
   | Uncaught e \<Rightarrow> e = OtherValueError \<or> e = IoFailure DecodeFailure"
proof (cases "argc = 4")
  case True
  obtain r fs' where r: "render_outputs uo cf hf rj env fs = (r, fs')" by fastforce
  have k: "says (set known_details) r" using render_outputs_says [of uo cf hf rj env fs] r by simp
  have w: "lit ''proxy configuration could not be written'' \<in> set known_details"
    by (rule detail_known(1)) (simp add: fixed_details_def del: lit_Cons)
  show ?thesis
  proof (cases r)
    case (Inl e)
    then show ?thesis
    proof (cases e)
      case (IoFailure x)
      then show ?thesis using Inl r True w by (cases x) (auto simp: proxy_main_def simp del: lit_Cons)
    qed (use Inl r True k in \<open>auto simp: proxy_main_def says_def\<close>)
  qed (use r True in \<open>auto simp: proxy_main_def\<close>)
qed (simp add: proxy_main_def)

end
