(* ===== verification/Epub.thy ===== *)
theory Epub
  imports Prelude
begin

section \<open>Export of a translated chapter\<close>

text \<open>
  Models \<open>epub_export.py\<close>: the attachment name of an export and the documents of the EPUB it
  builds. An archive is the list of its entries in order, with their text and whether they are
  stored or deflated; the ZIP encoding itself is left out. Lower-casing of Unicode text and the
  random identifier are arguments.
\<close>

subsection \<open>Names\<close>

definition language_codes :: "(pystr \<times> pystr) list" where
  "language_codes = map (\<lambda>(n, c). (lit n, lit c))
   [(''Afrikaans'', ''af''), (''Albanian'', ''sq''), (''Amharic'', ''am''), (''Arabic'', ''ar''),
    (''Aymara'', ''ay''), (''Basque'', ''eu''), (''Bengali'', ''bn''), (''Bosnian'', ''bs''),
    (''Bulgarian'', ''bg''), (''Burmese'', ''my''), (''Catalan'', ''ca''), (''Cebuano'', ''ceb''),
    (''Chewa'', ''ny''), (''Chinese'', ''zh''), (''Chinese (Traditional)'', ''zh-Hant''),
    (''Croatian'', ''hr''), (''Czech'', ''cs''), (''Danish'', ''da''), (''Dutch'', ''nl''),
    (''English'', ''en''), (''Esperanto'', ''eo''), (''Estonian'', ''et''), (''Finnish'', ''fi''),
    (''French'', ''fr''), (''Gaelic'', ''gd''), (''Galician'', ''gl''), (''Ganda'', ''lg''),
    (''German'', ''de''), (''Greek'', ''el''), (''Guarani'', ''gn''), (''Gujarati'', ''gu''),
    (''Hausa'', ''ha''), (''Hawaiian'', ''haw''), (''Hebrew'', ''he''), (''Hindi'', ''hi''),
    (''Hungarian'', ''hu''), (''Icelandic'', ''is''), (''Igbo'', ''ig''), (''Indonesian'', ''id''),
    (''Italian'', ''it''), (''Japanese'', ''ja''), (''Javanese'', ''jv''), (''Kannada'', ''kn''),
    (''Kazakh'', ''kk''), (''Khmer'', ''km''), (''Korean'', ''ko''), (''Kyrgyz'', ''ky''),
    (''Lao'', ''lo''), (''Latin'', ''la''), (''Latvian'', ''lv''), (''Lingala'', ''ln''),
    (''Lithuanian'', ''lt''), (''Macedonian'', ''mk''), (''Maithili'', ''mai''),
    (''Malagasy'', ''mg''), (''Malay'', ''ms''), (''Malayalam'', ''ml''), (''Maori'', ''mi''),
    (''Marathi'', ''mr''), (''Mongolian'', ''mn''), (''Nahuatl'', ''nah''), (''Navajo'', ''nv''),
    (''Nepali'', ''ne''), (''Norwegian'', ''no''), (''Odia'', ''or''), (''Oromo'', ''om''),
    (''Pashto'', ''ps''), (''Persian'', ''fa''), (''Polish'', ''pl''), (''Portuguese'', ''pt''),
    (''Punjabi'', ''pa''), (''Quechua'', ''qu''), (''Romanian'', ''ro''), (''Russian'', ''ru''),
    (''Samoan'', ''sm''), (''Serbian'', ''sr''), (''Shona'', ''sn''), (''Sindhi'', ''sd''),
    (''Sinhala'', ''si''), (''Slovak'', ''sk''), (''Slovenian'', ''sl''), (''Somali'', ''so''),
    (''Spanish'', ''es''), (''Sundanese'', ''su''), (''Swahili'', ''sw''), (''Swedish'', ''sv''),
    (''Tagalog'', ''tl''), (''Tajik'', ''tg''), (''Tamil'', ''ta''), (''Telugu'', ''te''),
    (''Thai'', ''th''), (''Tibetan'', ''bo''), (''Turkish'', ''tr''), (''Turkmen'', ''tk''),
    (''Ukrainian'', ''uk''), (''Urdu'', ''ur''), (''Uzbek'', ''uz''), (''Vietnamese'', ''vi''),
    (''Welsh'', ''cy''), (''Xhosa'', ''xh''), (''Yoruba'', ''yo''), (''Zulu'', ''zu'')]"

definition strip_underscores :: "pystr \<Rightarrow> pystr" where
  "strip_underscores s = rev (dropWhile (\<lambda>c. c = 95) (rev (dropWhile (\<lambda>c. c = 95) s)))"

definition filename_char :: "codepoint \<Rightarrow> codepoint" where
  "filename_char c = (if is_alnum c \<or> c = 45 \<or> c = 95 then c else 95)"

definition epub_filename :: "(pystr \<Rightarrow> pystr) \<Rightarrow> pystr \<Rightarrow> pystr" where
  "epub_filename lower title =
     (let spaced = map (\<lambda>c. if c = 32 then 95 else c) (lower (strip title));
          cleaned = take 80 (strip_underscores (map filename_char spaced))
      in (if cleaned = [] then lit ''translation'' else cleaned) @ lit ''.epub'')"

subsection \<open>Text in XML\<close>

definition xml_invalid :: "codepoint \<Rightarrow> bool" where
  "xml_invalid c \<longleftrightarrow> c \<le> 8 \<or> c = 11 \<or> c = 12 \<or> 14 \<le> c \<and> c \<le> 31 \<or> c = 0xFFFE \<or> c = 0xFFFF"

definition drop_invalid :: "pystr \<Rightarrow> pystr" where
  "drop_invalid s = filter (\<lambda>c. \<not> xml_invalid c) s"

definition escape_char :: "codepoint \<Rightarrow> pystr" where
  "escape_char c =
     (if c = 38 then lit ''&amp;'' else if c = 62 then lit ''&gt;'' else if c = 60 then lit ''&lt;'' else [c])"

definition escape_xml :: "pystr \<Rightarrow> pystr" where
  "escape_xml s = concat (map escape_char s)"

subsection \<open>The documents\<close>


text \<open>The fixed texts of the documents, with \<open>*\<close> in place of a double quote.\<close>

definition quoted :: "string \<Rightarrow> pystr" where
  "quoted s = map (\<lambda>c. if c = 42 then 34 else c) (lit s)"

definition xml_lines :: "pystr list \<Rightarrow> pystr" where
  "xml_lines ls = concat (map (\<lambda>l. l @ [10]) ls)"

definition xml_header :: pystr where
  "xml_header = quoted ''<?xml version=*1.0* encoding=*UTF-8*?>''"

definition container_xml :: pystr where
  "container_xml = xml_lines
     [xml_header,
      quoted ''<container version=*1.0* xmlns=*urn:oasis:names:tc:opendocument:xmlns:container*>'',
      lit ''  <rootfiles>'',
      quoted ''    <rootfile full-path=*OEBPS/content.opf* media-type=*application/oebps-package+xml*/>'',
      lit ''  </rootfiles>'',
      lit ''</container>'']"

definition content_opf :: "pystr \<Rightarrow> pystr \<Rightarrow> pystr \<Rightarrow> pystr" where
  "content_opf esc_title language book_id = xml_lines
     [xml_header,
      quoted ''<package version=*2.0* xmlns=*http://www.idpf.org/2007/opf* unique-identifier=*bookid*>'',
      quoted ''  <metadata xmlns:dc=*http://purl.org/dc/elements/1.1/*>'',
      lit ''    <dc:title>'' @ esc_title @ lit ''</dc:title>'',
      lit ''    <dc:language>'' @ language @ lit ''</dc:language>'',
      quoted ''    <dc:identifier id=*bookid*>urn:uuid:'' @ book_id @ lit ''</dc:identifier>'',
      lit ''  </metadata>'',
      lit ''  <manifest>'',
      quoted ''    <item id=*chapter* href=*chapter.xhtml* media-type=*application/xhtml+xml*/>'',
      quoted ''    <item id=*ncx* href=*toc.ncx* media-type=*application/x-dtbncx+xml*/>'',
      lit ''  </manifest>'',
      quoted ''  <spine toc=*ncx*>'',
      quoted ''    <itemref idref=*chapter*/>'',
      lit ''  </spine>'',
      lit ''</package>'']"

definition toc_ncx :: "pystr \<Rightarrow> pystr \<Rightarrow> pystr" where
  "toc_ncx esc_title book_id = xml_lines
     [xml_header,
      quoted ''<ncx xmlns=*http://www.daisy.org/z3986/2005/ncx/* version=*2005-1*>'',
      lit ''  <head>'',
      quoted ''    <meta name=*dtb:uid* content=*urn:uuid:'' @ book_id @ quoted ''*/>'',
      lit ''  </head>'',
      lit ''  <docTitle><text>'' @ esc_title @ lit ''</text></docTitle>'',
      lit ''  <navMap>'',
      quoted ''    <navPoint id=*chapter* playOrder=*1*>'',
      lit ''      <navLabel><text>'' @ esc_title @ lit ''</text></navLabel>'',
      quoted ''      <content src=*chapter.xhtml*/>'',
      lit ''    </navPoint>'',
      lit ''  </navMap>'',
      lit ''</ncx>'']"

definition chapter_item :: "pystr \<Rightarrow> pystr" where
  "chapter_item body = lit ''    <p>'' @ escape_xml body @ lit ''</p>''"

definition chapter_xhtml :: "pystr \<Rightarrow> pystr \<Rightarrow> pystr list \<Rightarrow> pystr" where
  "chapter_xhtml esc_title language bodies = xml_lines
     [xml_header,
      quoted ''<!DOCTYPE html PUBLIC *-//W3C//DTD XHTML 1.1//EN* *http://www.w3.org/TR/xhtml11/DTD/xhtml11.dtd*>'',
      quoted ''<html xmlns=*http://www.w3.org/1999/xhtml* xml:lang=*'' @ language @ quoted ''* lang=*'' @ language @ quoted ''*>'',
      lit ''<head>'',
      lit ''<title>'' @ esc_title @ lit ''</title>'',
      lit ''</head>'',
      lit ''<body>'',
      lit ''<h1>'' @ esc_title @ lit ''</h1>'',
      join [10] (map chapter_item bodies),
      lit ''</body>'',
      lit ''</html>'']"

record zip_entry =
  ze_name :: pystr
  ze_text :: pystr
  ze_stored :: bool

definition deflated :: "string \<Rightarrow> pystr \<Rightarrow> zip_entry" where
  "deflated name content = \<lparr>ze_name = lit name, ze_text = content, ze_stored = False\<rparr>"

definition epub_entries :: "pystr \<Rightarrow> pystr \<Rightarrow> pystr \<Rightarrow> pystr list \<Rightarrow> zip_entry list" where
  "epub_entries title language book_id bodies =
     [\<lparr>ze_name = lit ''mimetype'', ze_text = lit ''application/epub+zip'', ze_stored = True\<rparr>,
      deflated ''META-INF/container.xml'' container_xml,
      deflated ''OEBPS/content.opf'' (content_opf (escape_xml title) language book_id),
      deflated ''OEBPS/toc.ncx'' (toc_ncx (escape_xml title) book_id),
      deflated ''OEBPS/chapter.xhtml'' (chapter_xhtml (escape_xml title) language bodies)]"

subsection \<open>Building the archive\<close>

definition max_title_chars :: nat where
  "max_title_chars = 200"

definition text_items :: "pyval list \<Rightarrow> pystr list option" where
  "text_items ps = those (map (\<lambda>p. case p of PStr s \<Rightarrow> Some s | _ \<Rightarrow> None) ps)"

definition clean_title :: "pyval \<Rightarrow> (py_error, pystr) result" where
  "clean_title title =
     (case title of
        PStr s \<Rightarrow>
          let t = strip (drop_invalid s) in
          if t = [] then Inl (ValueError ([39] @ lit ''title'' @ [39] @ lit '' must be a non-empty string''))
          else if max_title_chars < length t
          then Inl (ValueError ([39] @ lit ''title'' @ [39] @ lit '' exceeds the '' @ show_nat max_title_chars
                    @ lit ''-character limit''))
          else Inr t
      | _ \<Rightarrow> Inl (ValueError ([39] @ lit ''title'' @ [39] @ lit '' must be a non-empty string'')))"

definition clean_bodies :: "pyval \<Rightarrow> (py_error, pystr list) result" where
  "clean_bodies paragraphs =
     (case paragraphs of
        PList ps \<Rightarrow>
          if ps = [] then Inl (ValueError ([39] @ lit ''paragraphs'' @ [39] @ lit '' must be a non-empty list''))
          else (case text_items ps of
            None \<Rightarrow> Inl (ValueError (lit ''All '' @ [39] @ lit ''paragraphs'' @ [39] @ lit '' entries must be strings''))
          | Some ts \<Rightarrow>
              let bodies = filter (\<lambda>b. b \<noteq> []) (map (\<lambda>t. strip (drop_invalid t)) ts) in
              if bodies = []
              then Inl (ValueError ([39] @ lit ''paragraphs'' @ [39] @ lit '' must contain at least one non-empty entry''))
              else Inr bodies)
      | _ \<Rightarrow> Inl (ValueError ([39] @ lit ''paragraphs'' @ [39] @ lit '' must be a non-empty list'')))"

text \<open>
  \<open>build_epub\<close>; \<open>fresh\<close> is the drawn identifier. Writing an entry encodes its text, which fails on
  a lone surrogate.
\<close>

definition build_epub :: "pyval \<Rightarrow> pyval \<Rightarrow> pystr \<Rightarrow> pystr option \<Rightarrow> pystr \<Rightarrow> (py_error, zip_entry list) result" where
  "build_epub title paragraphs target_lang identifier fresh =
     rbind (clean_title title) (\<lambda>t.
     rbind (clean_bodies paragraphs) (\<lambda>bodies.
       let book_id = (case identifier of None \<Rightarrow> fresh | Some i \<Rightarrow> if i = [] then fresh else i);
           language = (case map_of language_codes target_lang of None \<Rightarrow> lit ''en'' | Some c \<Rightarrow> c);
           entries = epub_entries t language book_id bodies
       in if list_ex (\<lambda>e. utf8_len (ze_text e) = None) entries then Inl UnicodeEncodeError else Inr entries))"

end
