(* ===== verification/Epub_Facts.thy ===== *)
theory Epub_Facts
  imports Epub Ip_Address
begin

section \<open>An export holds the text and nothing else\<close>

text \<open>
  Text cannot become markup: a reader that takes the chapter apart at its tags finds the title and
  the paragraphs as they were, in order. The name of the attachment is a short ASCII token.
\<close>

subsection \<open>A reader of elements\<close>

definition is_entity :: "string \<Rightarrow> pystr \<Rightarrow> bool" where
  "is_entity e s \<longleftrightarrow> prefix (lit e) s"

function unescape_xml :: "pystr \<Rightarrow> pystr" where
  "unescape_xml s =
     (case s of [] \<Rightarrow> []
      | c # cs \<Rightarrow>
          if is_entity ''&amp;'' s then 38 # unescape_xml (drop 5 s)
          else if is_entity ''&gt;'' s then 62 # unescape_xml (drop 4 s)
          else if is_entity ''&lt;'' s then 60 # unescape_xml (drop 4 s)
          else c # unescape_xml cs)"
  by pat_completeness auto
termination by (relation "measure length") auto

declare unescape_xml.simps [simp del]

text \<open>The texts that follow the opening tags of one name, up to the next tag.\<close>

definition elements :: "string \<Rightarrow> pystr \<Rightarrow> pystr list" where
  "elements tag s =
     map (\<lambda>seg. unescape_xml (drop (length (lit tag) + 1) seg))
       (filter (prefix (lit tag @ [62])) (tl (split_on 60 s)))"

lemma unescape_escape: "unescape_xml (escape_xml s) = s"
proof (induction s)
  case Nil
  then show ?case by (simp add: escape_xml_def unescape_xml.simps)
next
  case (Cons c s)
  let ?r = "escape_xml s"
  have e: "escape_xml (c # s) = escape_char c @ ?r" by (simp add: escape_xml_def)
  have "unescape_xml (escape_char c @ ?r) = c # unescape_xml ?r"
    by (simp add: escape_char_def unescape_xml.simps is_entity_def)
  then show ?case using Cons e by simp
qed

lemma escape_no_tag: "60 \<notin> set (escape_xml s)"
  by (auto simp: escape_xml_def escape_char_def split: if_splits)

lemma split_on_text:
  assumes "d \<notin> set x"
  shows "hd (split_on d (x @ s)) = x @ hd (split_on d s)" "tl (split_on d (x @ s)) = tl (split_on d s)"
  using assms by (induction x) (auto split: list.splits)

lemma split_on_break:
  assumes "d \<notin> set x"
  shows "split_on d (x @ d # s) = x # split_on d s"
  using assms by (rule split_on_append)

definition segments :: "pystr \<Rightarrow> pystr list" where
  "segments s = tl (split_on 60 s)"

lemma segments_text: "60 \<notin> set x \<Longrightarrow> segments (x @ s) = segments s"
  by (simp add: segments_def split_on_text)

lemma segments_tag: "60 \<notin> set x \<Longrightarrow> segments (60 # x @ 60 # s) = x # segments (60 # s)"
  by (simp add: segments_def split_on_break)

lemma segments_last: "60 \<notin> set x \<Longrightarrow> segments (60 # x) = [x]"
  by (simp add: segments_def split_on_single)

lemma segments_Nil [simp]: "segments [] = []"
  by (simp add: segments_def)

lemma elements_segments:
  "elements tag s = map (\<lambda>seg. unescape_xml (drop (length (lit tag) + 1) seg)) (filter (prefix (lit tag @ [62])) (segments s))"
  by (simp add: elements_def segments_def)

text \<open>Appending markup that starts with a tag, or text without one.\<close>

lemma segments_append:
  assumes "s = [] \<or> hd s = 60"
  shows "segments (x @ s) = segments x @ segments s"
proof (induction x)
  case (Cons c x)
  obtain y ys where y: "split_on 60 (x @ s) = y # ys" by (cases "split_on 60 (x @ s)") auto
  obtain z zs where z: "split_on 60 x = z # zs" by (cases "split_on 60 x") auto
  show ?case
  proof (cases "c = 60")
    case True
    have "y # ys = (z # zs) @ segments s"
    proof (cases s)
      case Nil
      then show ?thesis using y z by simp
    next
      case (Cons d t)
      then have d: "s = 60 # t" using assms by simp
      have "split_on 60 (x @ 60 # t) = split_on 60 x @ split_on 60 t"
      proof (induction x)
        case (Cons e x)
        then show ?case by (cases "split_on 60 x") (auto split: list.splits)
      qed simp
      then show ?thesis using y z d by (simp add: segments_def)
    qed
    then show ?thesis using True y z by (simp add: segments_def)
  next
    case False
    then show ?thesis using Cons y z by (simp add: segments_def)
  qed
qed simp

lemma segments_next: "60 \<notin> set x \<Longrightarrow> K \<noteq> [] \<Longrightarrow> hd K = 60 \<Longrightarrow> segments (60 # x @ K) = x # segments K"
  by (cases K) (simp_all add: segments_tag)

subsection \<open>The chapter\<close>

fun item_segments :: "pystr list \<Rightarrow> pystr list" where
  "item_segments [] = []"
| "item_segments [b] = [lit ''p>'' @ escape_xml b, lit ''/p>'' @ [10]]"
| "item_segments (b # c # bs) = [lit ''p>'' @ escape_xml b, lit ''/p>'' @ 10 # lit ''    ''] @ item_segments (c # bs)"

lemma segments_items:
  "bs \<noteq> [] \<Longrightarrow> segments (join [10] (map chapter_item bs) @ 10 # 60 # r) = item_segments bs @ segments (60 # r)"
proof (induction bs rule: item_segments.induct)
  case (2 b)
  have i: "chapter_item b @ 10 # 60 # r = lit ''    '' @ 60 # (lit ''p>'' @ escape_xml b) @ 60 # (lit ''/p>'' @ [10]) @ 60 # r"
    by (simp add: chapter_item_def)
  have n: "60 \<notin> set (lit ''p>'' @ escape_xml b)" "60 \<notin> set (lit ''/p>'' @ [10])" "60 \<notin> set (lit ''    '')"
    using escape_no_tag by simp_all
  show ?case
    by (simp only: list.map join.simps i segments_text [OF n(3)] segments_tag [OF n(1)] segments_tag [OF n(2)]
        item_segments.simps append.simps)
next
  case (3 b c bs)
  define k where "k = drop 4 (join [10] (map chapter_item (c # bs)) @ 10 # 60 # r)"
  have j: "join [10] (map chapter_item (c # bs)) @ 10 # 60 # r = lit ''    '' @ k" and hk: "k \<noteq> []" "hd k = 60"
    by (cases bs; simp add: k_def chapter_item_def)+
  have "join [10] (map chapter_item (b # c # bs)) @ 10 # 60 # r
      = chapter_item b @ 10 # join [10] (map chapter_item (c # bs)) @ 10 # 60 # r" by simp
  also have "\<dots> = lit ''    '' @ 60 # (lit ''p>'' @ escape_xml b) @ 60 # (lit ''/p>'' @ 10 # lit ''    '') @ k"
    unfolding j by (simp add: chapter_item_def)
  finally have e: "join [10] (map chapter_item (b # c # bs)) @ 10 # 60 # r = \<dots>" .
  have n: "60 \<notin> set (lit ''p>'' @ escape_xml b)" "60 \<notin> set (lit ''/p>'' @ 10 # lit ''    '')" "60 \<notin> set (lit ''    '')"
    using escape_no_tag by simp_all
  have "segments k = item_segments (c # bs) @ segments (60 # r)"
    using 3 j segments_text [OF n(3), of k] by simp
  then show ?case
    unfolding e by (simp only: segments_text [OF n(3)] segments_tag [OF n(1)] segments_next [OF n(2) hk]
        item_segments.simps append.simps)
qed simp

lemma elements_items:
  assumes "bs \<noteq> []"
  shows "elements ''p'' (join [10] (map chapter_item bs) @ 10 # 60 # r) = bs @ elements ''p'' (60 # r)"
    "elements ''h1'' (join [10] (map chapter_item bs) @ 10 # 60 # r) = elements ''h1'' (60 # r)"
proof -
  have "map (\<lambda>seg. unescape_xml (drop (length (lit ''p'') + 1) seg)) (filter (prefix (lit ''p'' @ [62])) (item_segments bs)) = bs"
    by (induction bs rule: item_segments.induct) (simp_all add: unescape_escape)
  then show "elements ''p'' (join [10] (map chapter_item bs) @ 10 # 60 # r) = bs @ elements ''p'' (60 # r)"
    by (simp add: elements_segments segments_items [OF assms])
  have "filter (prefix (lit ''h1'' @ [62])) (item_segments bs) = []"
    by (induction bs rule: item_segments.induct) simp_all
  then show "elements ''h1'' (join [10] (map chapter_item bs) @ 10 # 60 # r) = elements ''h1'' (60 # r)"
    by (simp add: elements_segments segments_items [OF assms])
qed

definition chapter_head :: "pystr \<Rightarrow> pystr \<Rightarrow> pystr" where
  "chapter_head esc_title language = xml_lines
     [xml_header,
      quoted ''<!DOCTYPE html PUBLIC *-//W3C//DTD XHTML 1.1//EN* *http://www.w3.org/TR/xhtml11/DTD/xhtml11.dtd*>'',
      quoted ''<html xmlns=*http://www.w3.org/1999/xhtml* xml:lang=*'' @ language @ quoted ''* lang=*'' @ language @ quoted ''*>'',
      lit ''<head>'',
      lit ''<title>'' @ esc_title @ lit ''</title>'',
      lit ''</head>'',
      lit ''<body>'',
      lit ''<h1>'' @ esc_title @ lit ''</h1>'']"

lemma chapter_split:
  "chapter_xhtml esc_title language bodies
   = chapter_head esc_title language @ join [10] (map chapter_item bodies) @ 10 # 60 # drop 1 (lit ''</body>'') @ [10] @ lit ''</html>'' @ [10]"
  by (simp add: chapter_xhtml_def chapter_head_def xml_lines_def)

lemma split_on_escaped:
  "split_on 60 (escape_xml t @ s) = (escape_xml t @ hd (split_on 60 s)) # tl (split_on 60 s)"
  using split_on_text [OF escape_no_tag [of t], of s] by (metis list.exhaust_sel split_on_not_Nil)

lemma split_on_language:
  "60 \<notin> set l \<Longrightarrow> split_on 60 (l @ s) = (l @ hd (split_on 60 s)) # tl (split_on 60 s)"
  using split_on_text [of 60 l s] by (metis list.exhaust_sel split_on_not_Nil)

lemma segments_concat: "\<forall>x\<in>set xs. 60 \<notin> set x \<Longrightarrow> segments (concat (map (Cons 60) xs)) = xs"
proof (induction xs)
  case (Cons x xs)
  then show ?case by (cases xs) (simp_all add: segments_last segments_tag)
qed simp

definition head_segments :: "pystr \<Rightarrow> pystr \<Rightarrow> pystr list" where
  "head_segments esc_title language =
     [drop 1 xml_header @ [10],
      drop 1 (quoted ''<!DOCTYPE html PUBLIC *-//W3C//DTD XHTML 1.1//EN* *http://www.w3.org/TR/xhtml11/DTD/xhtml11.dtd*>'') @ [10],
      drop 1 (quoted ''<html xmlns=*http://www.w3.org/1999/xhtml* xml:lang=*'') @ language @ quoted ''* lang=*'' @ language @ quoted ''*>'' @ [10],
      lit ''head>'' @ [10], lit ''title>'' @ esc_title, lit ''/title>'' @ [10], lit ''/head>'' @ [10], lit ''body>'' @ [10],
      lit ''h1>'' @ esc_title, lit ''/h1>'' @ 10 # lit ''    '']"

lemma head_concat:
  "chapter_head esc_title language @ lit ''    '' = concat (map (Cons 60) (head_segments esc_title language))"
  by (simp add: chapter_head_def head_segments_def xml_lines_def xml_header_def quoted_def)

lemma elements_head:
  assumes "60 \<notin> set language"
  shows "elements ''p'' (chapter_head (escape_xml t) language @ lit ''    '') = []"
    "elements ''h1'' (chapter_head (escape_xml t) language @ lit ''    '') = [t]"
proof -
  have "\<forall>x\<in>set (head_segments (escape_xml t) language). 60 \<notin> set x"
    using assms escape_no_tag by (simp add: head_segments_def xml_header_def quoted_def)
  from segments_concat [OF this]
  show "elements ''p'' (chapter_head (escape_xml t) language @ lit ''    '') = []"
    "elements ''h1'' (chapter_head (escape_xml t) language @ lit ''    '') = [t]"
    unfolding elements_segments head_concat
    by (simp_all add: head_segments_def xml_header_def quoted_def unescape_escape)
qed

lemma chapter_elements:
  assumes "60 \<notin> set language" "bs \<noteq> []"
  shows "elements ''p'' (chapter_xhtml (escape_xml t) language bs) = bs"
    "elements ''h1'' (chapter_xhtml (escape_xml t) language bs) = [t]"
proof -
  define r where "r = drop 1 (lit ''</body>'') @ [10] @ lit ''</html>'' @ [10]"
  define k where "k = drop 4 (join [10] (map chapter_item bs) @ 10 # 60 # r)"
  obtain b cs where b: "bs = b # cs" using assms(2) by (cases bs) auto
  have j: "join [10] (map chapter_item bs) @ 10 # 60 # r = lit ''    '' @ k" "hd k = 60"
    unfolding k_def b by (cases cs; simp add: chapter_item_def)+
  have c: "chapter_xhtml (escape_xml t) language bs = (chapter_head (escape_xml t) language @ lit ''    '') @ k"
    using j(1) by (simp add: chapter_split r_def del: lit_Cons)
  have e: "elements tag (chapter_xhtml (escape_xml t) language bs)
      = elements tag (chapter_head (escape_xml t) language @ lit ''    '') @ elements tag k" for tag
    unfolding c elements_segments segments_append [OF disjI2 [OF j(2)]] by simp
  have s: "segments (lit ''    '' @ k) = segments k" by (rule segments_text) simp
  have k: "elements tag (join [10] (map chapter_item bs) @ 10 # 60 # r) = elements tag k" for tag
    unfolding elements_segments j(1) s ..
  have tail: "segments (60 # r) = [lit ''/body>'' @ [10], lit ''/html>'' @ [10]]"
    unfolding r_def by (simp add: segments_def)
  have "elements ''p'' (60 # r) = []" "elements ''h1'' (60 # r) = []"
    unfolding elements_segments tail by simp_all
  then have "elements ''p'' k = bs" "elements ''h1'' k = []"
    using elements_items [OF assms(2), of r] k by simp_all
  then show "elements ''p'' (chapter_xhtml (escape_xml t) language bs) = bs"
    "elements ''h1'' (chapter_xhtml (escape_xml t) language bs) = [t]"
    using elements_head [OF assms(1)] e by simp_all
qed

subsection \<open>Properties\<close>

lemma language_codes_plain:
  "map_of language_codes l = Some c \<Longrightarrow> c \<noteq> [] \<and> list_all (\<lambda>x. is_alnum x \<or> x = 45) c"
proof -
  have "list_all (\<lambda>(n, c). c \<noteq> [] \<and> list_all (\<lambda>x. is_alnum x \<or> x = 45) c) language_codes"
    by (simp add: language_codes_def is_alnum_def is_digit_def is_upper_def is_lower_def)
  then show "map_of language_codes l = Some c \<Longrightarrow> c \<noteq> [] \<and> list_all (\<lambda>x. is_alnum x \<or> x = 45) c"
    using map_of_SomeD [of language_codes l c] by (fastforce simp: list_all_iff)
qed

lemma build_epub_Inr:
  assumes "build_epub title paragraphs target identifier fresh = Inr entries"
  obtains t bodies book_id language where "clean_title title = Inr t" "clean_bodies paragraphs = Inr bodies" "bodies \<noteq> []"
    "60 \<notin> set language" "entries = epub_entries t language book_id bodies"
proof -
  obtain t where t: "clean_title title = Inr t" using assms by (auto simp: build_epub_def rbind_eq_Inr)
  obtain bodies where b: "clean_bodies paragraphs = Inr bodies" using assms t by (auto simp: build_epub_def rbind_eq_Inr)
  define language where "language = (case map_of language_codes target of None \<Rightarrow> lit ''en'' | Some c \<Rightarrow> c)"
  have l: "60 \<notin> set language"
    using language_codes_plain [of target]
    by (fastforce simp: language_def list_all_iff is_alnum_def is_digit_def is_upper_def is_lower_def split: option.splits)
  have "bodies \<noteq> []"
    using b by (auto simp: clean_bodies_def Let_def split: pyval.splits option.splits if_splits)
  moreover have "\<exists>book_id. entries = epub_entries t language book_id bodies"
    using assms t b by (auto simp: build_epub_def language_def Let_def split: if_splits)
  ultimately show thesis using that t b l by blast
qed

text \<open>
  C16: an exported chapter holds its text and nothing else. The archive has its five entries with
  the stored media type first, and reading the elements of the chapter back yields the cleaned
  title as the heading and exactly the cleaned paragraphs in their order, for every text: markup
  in a translation stays text, no paragraph is lost, split or merged, and the language code cannot
  break out of its attribute.
\<close>
theorem epub_text_roundtrip:
  assumes "build_epub title paragraphs target identifier fresh = Inr entries"
  shows "\<exists>t bodies. clean_title title = Inr t \<and> clean_bodies paragraphs = Inr bodies
    \<and> elements ''p'' (ze_text (last entries)) = bodies \<and> elements ''h1'' (ze_text (last entries)) = [t]
    \<and> map ze_name entries = map lit [''mimetype'', ''META-INF/container.xml'', ''OEBPS/content.opf'', ''OEBPS/toc.ncx'', ''OEBPS/chapter.xhtml'']
    \<and> map ze_stored entries = [True, False, False, False, False] \<and> ze_text (hd entries) = lit ''application/epub+zip''"
proof -
  obtain t bodies book_id language where o: "clean_title title = Inr t" "clean_bodies paragraphs = Inr bodies" "bodies \<noteq> []"
    "60 \<notin> set language" "entries = epub_entries t language book_id bodies"
    by (rule build_epub_Inr [OF assms])
  show ?thesis
    using o chapter_elements [OF o(4,3), of t] by (simp add: epub_entries_def deflated_def)
qed

lemma utf8_len_ascii: "\<forall>c\<in>set s. c < 128 \<Longrightarrow> utf8_len s \<noteq> None"
  by (fastforce simp: utf8_len_def is_surrogate_def list_ex_iff)

definition export_demo :: "(py_error, zip_entry list) result" where
  "export_demo = build_epub (PStr (lit ''A<b>'')) (PList [PStr (lit ''x</p><p>y''), PStr [], PStr (lit ''z'')]) (lit ''Spanish'') None (lit ''00'')"

lemma export_demo_Inr: "\<exists>entries. export_demo = Inr entries"
proof -
  have t: "clean_title (PStr (lit ''A<b>'')) = Inr (lit ''A<b>'')"
    by (simp add: clean_title_def drop_invalid_def xml_invalid_def strip_def lstrip_def rstrip_def is_space_def max_title_chars_def)
  have b: "clean_bodies (PList [PStr (lit ''x</p><p>y''), PStr [], PStr (lit ''z'')]) = Inr [lit ''x</p><p>y'', lit ''z'']"
    by (simp add: clean_bodies_def text_items_def drop_invalid_def xml_invalid_def strip_def lstrip_def rstrip_def is_space_def)
  have l: "map_of language_codes (lit ''Spanish'') = Some (lit ''es'')"
    by (simp add: language_codes_def)
  let ?es = "epub_entries (lit ''A<b>'') (lit ''es'') (lit ''00'') [lit ''x</p><p>y'', lit ''z'']"
  have "list_all (\<lambda>e. list_all (\<lambda>c. c < 128) (ze_text e)) ?es"
    by (simp add: epub_entries_def deflated_def container_xml_def content_opf_def toc_ncx_def chapter_xhtml_def
        chapter_item_def xml_lines_def xml_header_def quoted_def escape_xml_def escape_char_def)
  then have "\<not> list_ex (\<lambda>e. utf8_len (ze_text e) = None) ?es"
    using utf8_len_ascii unfolding list_ex_iff list_all_iff by blast
  then show ?thesis using t b l by (simp add: export_demo_def build_epub_def Let_def del: lit_Cons)
qed

theorem epub_text_roundtrip_witness:
  "\<exists>entries. export_demo = Inr entries \<and> elements ''p'' (ze_text (last entries)) = [lit ''x</p><p>y'', lit ''z'']"
proof -
  obtain entries where e: "export_demo = Inr entries" using export_demo_Inr by blast
  have b: "clean_bodies (PList [PStr (lit ''x</p><p>y''), PStr [], PStr (lit ''z'')]) = Inr [lit ''x</p><p>y'', lit ''z'']"
    by (simp add: clean_bodies_def text_items_def drop_invalid_def xml_invalid_def strip_def lstrip_def rstrip_def is_space_def)
  show ?thesis using epub_text_roundtrip [OF e [unfolded export_demo_def]] e b by (auto simp del: lit_Cons)
qed

lemma strip_underscores_facts:
  "set (strip_underscores s) \<subseteq> set s" "strip_underscores s \<noteq> [] \<Longrightarrow> hd (strip_underscores s) \<noteq> 95"
proof -
  show "set (strip_underscores s) \<subseteq> set s"
    by (auto simp: strip_underscores_def dest!: set_dropWhileD)
  define t where "t = dropWhile (\<lambda>c. c = 95) s"
  define u where "u = dropWhile (\<lambda>c. c = 95) (rev t)"
  assume "strip_underscores s \<noteq> []"
  then have ne: "u \<noteq> []" by (simp add: strip_underscores_def t_def u_def)
  have "\<exists>w. rev t = w @ u" unfolding u_def by (metis takeWhile_dropWhile_id)
  then obtain w where "t = rev u @ rev w" by (metis rev_append rev_rev_ident)
  then have "hd (rev u) = hd t" "t \<noteq> []" using ne by simp_all
  moreover have "hd t \<noteq> 95" using calculation(2) hd_dropWhile [of "\<lambda>c. c = 95" s] by (simp add: t_def)
  ultimately show "hd (strip_underscores s) \<noteq> 95" by (simp add: strip_underscores_def t_def u_def)
qed

lemma filename_char_safe: "is_alnum (filename_char c) \<or> filename_char c = 45 \<or> filename_char c = 95"
  by (simp add: filename_char_def)

text \<open>
  The attachment name of an export is one short ASCII token whatever the title is: letters,
  digits, hyphens and underscores, at most 80 of them and at least one, not starting with an
  underscore, then \<open>.epub\<close>. No quote, separator or line break of a title reaches the
  \<open>Content-Disposition\<close> header.
\<close>
theorem epub_filename_safe:
  "\<exists>stem. epub_filename lower title = stem @ lit ''.epub'' \<and> stem \<noteq> [] \<and> length stem \<le> 80
     \<and> (\<forall>c\<in>set stem. is_alnum c \<or> c = 45 \<or> c = 95) \<and> hd stem \<noteq> 95"
proof -
  define full where "full = strip_underscores (map filename_char (map (\<lambda>c. if c = 32 then 95 else c) (lower (strip title))))"
  define stem where "stem = (if take 80 full = [] then lit ''translation'' else take 80 full)"
  have "is_alnum c \<or> c = 45 \<or> c = 95" if "c \<in> set full" for c
    using that strip_underscores_facts(1) filename_char_safe unfolding full_def by fastforce
  then have c: "\<forall>c\<in>set (take 80 full). is_alnum c \<or> c = 45 \<or> c = 95" by (meson in_set_takeD)
  have "hd (take 80 full) \<noteq> 95" if "take 80 full \<noteq> []"
    using that strip_underscores_facts(2) [of "map filename_char (map (\<lambda>c. if c = 32 then 95 else c) (lower (strip title)))"]
    by (simp add: full_def)
  then have "stem \<noteq> []" "length stem \<le> 80" "\<forall>c\<in>set stem. is_alnum c \<or> c = 45 \<or> c = 95" "hd stem \<noteq> 95"
    using c by (auto simp: stem_def is_alnum_def is_lower_def)
  moreover have "epub_filename lower title = stem @ lit ''.epub''"
    by (simp add: epub_filename_def stem_def full_def Let_def del: lit_Cons)
  ultimately show ?thesis by blast
qed

theorem epub_filename_safe_witness:
  "epub_filename id [95, 97, 34] = lit ''a.epub''
   \<and> (\<exists>stem. epub_filename id [95, 97, 34] = stem @ lit ''.epub'' \<and> stem \<noteq> [] \<and> hd stem \<noteq> 95)"
proof -
  have "epub_filename id [95, 97, 34] = lit ''a.epub''"
    by (simp add: epub_filename_def strip_underscores_def filename_char_def is_alnum_def is_lower_def is_upper_def is_digit_def
        strip_def lstrip_def rstrip_def is_space_def Let_def)
  then show ?thesis using epub_filename_safe [of id "[95, 97, 34]"] by blast
qed

end
