(* ===== verification/Endpoints.thy ===== *)
theory Endpoints
  imports Batch_Service Streaming Feedback Epub
begin

section \<open>The routes of the service\<close>

text \<open>
  Models the bodies of the translation, export, glossary, feedback and cleanup routes of
  \<open>server.py\<close>: every guard in its order with its status, the calls into the stores and the
  providers, the counters and the reply. A route takes the authenticated subject, the identifier of
  the request and the parsed body (\<open>PNone\<close> when it is no JSON) and returns an outcome with the
  state it leaves. An exception that the route does not catch is \<open>Uncaught\<close>; the error handler of
  the application makes it a 500. The clock, the stores and the providers answer through the
  arguments of the call.
\<close>

subsection \<open>Requests and outcomes\<close>

datatype sse_event =
    SseDelta pystr bool
  | SseDone "(pystr \<times> json) list"
  | SseError "(pystr \<times> json) list"

datatype route_outcome =
    Reply nat "(pystr \<times> json) list" headers
  | Archive pystr "zip_entry list"
  | EventStream "sse_event list"
  | Uncaught py_error
  | NoReply

record route_call =
  rq_subject :: "pystr option"
  rq_id :: json
  rq_body :: pyval

text \<open>
  The limits of the routes beside those of the server and the stores; \<open>re_codec\<close> is the text of a
  \<open>UnicodeEncodeError\<close>, which is a \<open>ValueError\<close> for the handlers.
\<close>

record route_env =
  re_service :: service_env
  re_queue_wait :: seconds
  re_glossary :: glossary_config
  re_feedback :: feedback_config
  re_codec :: pystr

definition re_config :: "route_env \<Rightarrow> server_config" where
  "re_config re = sn_config (re_service re)"

definition re_sha :: "route_env \<Rightarrow> pystr \<Rightarrow> pystr" where
  "re_sha re = pe_sha (sn_prompt (re_service re))"

definition error_reply :: "nat \<Rightarrow> pystr \<Rightarrow> route_outcome" where
  "error_reply status msg = Reply status [(lit ''error'', JStr msg)] []"

definition code_reply :: "nat \<Rightarrow> string \<Rightarrow> json \<Rightarrow> route_outcome" where
  "code_reply status code rid = Reply status [(lit ''error'', JStr (lit code)), (lit ''request_id'', rid)] []"

definition ok_reply :: "(pystr \<times> json) list \<Rightarrow> route_outcome" where
  "ok_reply fs = Reply 200 fs []"

definition apos :: "string \<Rightarrow> pystr" where
  "apos s = [39] @ lit s @ [39]"

text \<open>The handler \<open>except ValueError\<close> of a validation.\<close>

definition value_error :: "route_env \<Rightarrow> (py_error, 'a) result \<Rightarrow> (route_outcome, 'a) result" where
  "value_error re r =
     (case r of
        Inr x \<Rightarrow> Inr x
      | Inl (ValueError m) \<Rightarrow> Inl (error_reply 400 m)
      | Inl UnicodeEncodeError \<Rightarrow> Inl (error_reply 400 (re_codec re))
      | Inl e \<Rightarrow> Inl (Uncaught e))"

subsection \<open>Guards shared by the routes\<close>

definition json_body :: "route_call \<Rightarrow> (route_outcome, body) result" where
  "json_body q = (case rq_body q of PDict d \<Rightarrow> Inr d | _ \<Rightarrow> Inl (error_reply 400 (lit ''Request body must be a JSON object'')))"

definition field_or :: "body \<Rightarrow> string \<Rightarrow> pyval \<Rightarrow> pyval" where
  "field_or data k d = (case map_of data (lit k) of None \<Rightarrow> d | Some v \<Rightarrow> v)"

definition text_field :: "server_config \<Rightarrow> body \<Rightarrow> (route_outcome, pystr) result" where
  "text_field sv data =
     (case map_of data (lit ''text'') of
        Some (PStr s) \<Rightarrow>
          let t = strip s in
          if has_invalid_unicode t then Inl (error_reply 400 (apos ''text'' @ lit '' contains invalid Unicode''))
          else if sv_max_chars sv < length t
          then Inl (error_reply 413 (apos ''text'' @ lit '' exceeds the '' @ show_nat (sv_max_chars sv) @ lit ''-character limit''))
          else Inr t
      | _ \<Rightarrow> Inl (error_reply 400 (lit ''Missing or invalid '' @ apos ''text'' @ lit '' field'')))"

fun plain_text :: "pyval \<Rightarrow> pystr" where
  "plain_text (PStr s) = s"
| "plain_text _ = []"

definition language_fields :: "body \<Rightarrow> (route_outcome, pystr \<times> pystr) result" where
  "language_fields data =
     (let s = field_or data ''source_lang'' (PStr (lit ''English''));
          t = field_or data ''target_lang'' (PStr (lit ''Spanish''))
      in case validate_languages s t of
           Some m \<Rightarrow> Inl (error_reply 400 m)
         | None \<Rightarrow> Inr (plain_text s, plain_text t))"

text \<open>Consent and policy are read before either is acted on.\<close>

definition policy_fields :: "route_env \<Rightarrow> route_call \<Rightarrow> body \<Rightarrow> (route_outcome, bool) result" where
  "policy_fields re q data =
     rbind (value_error re (cloud_fallback_consent data)) (\<lambda>allow.
     rbind (value_error re (stale_provider_policy (re_config re) (sn_pf (re_service re)) data)) (\<lambda>stale.
       if stale then Inl (code_reply 409 ''provider_policy_changed'' (rq_id q)) else Inr allow))"

definition namespace_fields :: "route_env \<Rightarrow> route_call \<Rightarrow> body \<Rightarrow> (route_outcome, namespace) result" where
  "namespace_fields re q data = value_error re (request_cache_namespace (re_config re) (rq_subject q) data)"

record translation_request =
  tr_source :: pystr
  tr_target :: pystr
  tr_allow :: bool
  tr_namespace :: namespace

definition translation_fields :: "route_env \<Rightarrow> route_call \<Rightarrow> body \<Rightarrow> (route_outcome, translation_request) result" where
  "translation_fields re q data =
     rbind (language_fields data) (\<lambda>(s, t).
     rbind (policy_fields re q data) (\<lambda>allow.
     rbind (namespace_fields re q data) (\<lambda>ns.
       Inr \<lparr>tr_source = s, tr_target = t, tr_allow = allow, tr_namespace = ns\<rparr>)))"

text \<open>The common start of \<open>/translate\<close> and \<open>/translate/stream\<close>.\<close>

definition single_request :: "route_env \<Rightarrow> route_call \<Rightarrow> (route_outcome, pystr \<times> translation_request) result" where
  "single_request re q =
     rbind (json_body q) (\<lambda>data.
     rbind (text_field (re_config re) data) (\<lambda>t.
     rbind (translation_fields re q data) (\<lambda>r. Inr (t, r))))"

text \<open>The common checks on a list of paragraphs of the batch and the export.\<close>

definition first_index :: "('a \<Rightarrow> bool) \<Rightarrow> 'a list \<Rightarrow> nat option" where
  "first_index P xs = (case filter (\<lambda>i. P (xs ! i)) [0..<length xs] of [] \<Rightarrow> None | i # _ \<Rightarrow> Some i)"

definition paragraph_list :: "body \<Rightarrow> (route_outcome, pyval list) result" where
  "paragraph_list data =
     (case map_of data (lit ''paragraphs'') of
        Some (PList ps) \<Rightarrow> Inr ps
      | _ \<Rightarrow> Inl (error_reply 400 (lit ''Missing or invalid '' @ apos ''paragraphs'' @ lit '' field'')))"

definition paragraph_count :: "nat \<Rightarrow> string \<Rightarrow> pyval list \<Rightarrow> (route_outcome, unit) result" where
  "paragraph_count cap per ps =
     (if cap < length ps
      then Inl (error_reply 413 (lit ''Too many paragraphs ('' @ show_nat (length ps) @ lit ''); max '' @ show_nat cap @ lit per))
      else Inr ())"

definition paragraph_texts :: "server_config \<Rightarrow> pyval list \<Rightarrow> (route_outcome, pystr list) result" where
  "paragraph_texts sv ps =
     (case text_items ps of
        None \<Rightarrow> Inl (error_reply 400 (lit ''All '' @ apos ''paragraphs'' @ lit '' entries must be strings''))
      | Some ts \<Rightarrow>
          (case first_index has_invalid_unicode ts of
             Some i \<Rightarrow> Inl (error_reply 400 (lit ''Paragraph '' @ show_nat i @ lit '' contains invalid Unicode''))
           | None \<Rightarrow>
               (case first_index (\<lambda>t. sv_max_chars sv < length t) ts of
                  Some i \<Rightarrow> Inl (error_reply 413 (lit ''Paragraph '' @ show_nat i @ lit '' exceeds the ''
                              @ show_nat (sv_max_chars sv) @ lit ''-character limit''))
                | None \<Rightarrow> Inr ts)))"

subsection \<open>Counters\<close>

definition count_request :: "nat \<Rightarrow> nat \<Rightarrow> nat \<Rightarrow> bool \<Rightarrow> service \<Rightarrow> service" where
  "count_request ms hits misses failed se =
     se\<lparr>se_metrics := record_metric (real ms) hits misses failed (se_metrics se)\<rparr>"

definition count_outcome :: "string \<Rightarrow> service \<Rightarrow> service" where
  "count_outcome name se = se\<lparr>se_metrics := or_same (record_outcome name (se_metrics se)) (se_metrics se)\<rparr>"

definition reason_name :: "pystr \<Rightarrow> string" where
  "reason_name r = (case filter (\<lambda>n. lit n = r) work_budget_reasons of [] \<Rightarrow> ''unknown'' | n # _ \<Rightarrow> n)"

definition count_exhaustion :: "pystr \<Rightarrow> service \<Rightarrow> service" where
  "count_exhaustion r se = se\<lparr>se_metrics := record_work_budget_exhaustion (reason_name r) (se_metrics se)\<rparr>"

definition queue_retry :: "seconds \<Rightarrow> nat" where
  "queue_retry wait = max 1 (nat (ceiling wait))"

text \<open>\<open>_work_budget_response\<close>.\<close>

definition budget_reply :: "route_env \<Rightarrow> json \<Rightarrow> pystr \<Rightarrow> service \<Rightarrow> route_outcome \<times> service" where
  "budget_reply re rid reason se =
     (Reply 503 [(lit ''error'', JStr (lit ''work_budget_exhausted'')), (lit ''reason'', JStr reason), (lit ''request_id'', rid)]
        (if reason = lit ''queue'' then [(lit ''Retry-After'', show_nat (queue_retry (re_queue_wait re)))] else []),
      count_exhaustion reason se)"

subsection \<open>One text\<close>

record single_io =
  si_probe :: "nat \<Rightarrow> datetime \<times> datetime"
  si_worker :: worker_io
  si_write :: "datetime \<times> datetime"
  si_alias :: "datetime \<times> datetime"
  si_elapsed :: nat

definition single_job :: "pystr \<Rightarrow> translation_request \<Rightarrow> pyval list \<Rightarrow> batch_job" where
  "single_job t r gl =
     \<lparr>bj_texts = [t], bj_source = tr_source r, bj_target = tr_target r, bj_namespace = tr_namespace r,
      bj_allow = tr_allow r, bj_glossary = gl\<rparr>"

definition probe_single :: "route_env \<Rightarrow> single_io \<Rightarrow> pystr \<Rightarrow> translation_request \<Rightarrow> pyval list \<Rightarrow> (service, pystr option) action" where
  "probe_single re io t r gl =
     cache_lookup (re_service re) (si_probe io) (tr_namespace r) (tr_allow r) gl t (tr_source r) (tr_target r)"

text \<open>\<open>translate_text\<close> with the budget of the request.\<close>

definition translate_single :: "route_env \<Rightarrow> single_io \<Rightarrow> pystr \<Rightarrow> translation_request \<Rightarrow> pyval list \<Rightarrow> (group_error, pystr \<times> pystr) result" where
  "translate_single re io t r gl =
     (let ge = group_env_of (re_service re) (single_job t r gl) (si_worker io); st = wk_state (si_worker io) in
      case ensure_active (ge_clock ge (gs_next st)) (ks_budget (gs_call st)) of
        Inl e \<Rightarrow> Inl (budget_group_exn e)
      | Inr _ \<Rightarrow> fst (translate_text_operation ge t 2 st))"

definition put_text ::
  "route_env \<Rightarrow> datetime \<times> datetime \<Rightarrow> pystr \<Rightarrow> translation_request \<Rightarrow> pystr \<Rightarrow> pystr \<Rightarrow> (py_error, contract) result
   \<Rightarrow> cache_store \<Rightarrow> (py_error, unit) result \<times> cache_store" where
  "put_text re clock t r translated backend contract c =
     (case rbind contract (\<lambda>k. contract_scope (tr_namespace r) k backend (model_for_provider (sn_pf (re_service re)) backend)) of
        Inl e \<Rightarrow> (Inl e, c)
      | Inr scope \<Rightarrow>
          cs_put (re_sha re) (fst clock) (snd clock) (PStr t) (PStr (tr_source r)) (PStr (tr_target r)) (PStr translated) (Scope scope) c)"

text \<open>A translation is stored under the single contract and then under the batch contract.\<close>

definition store_single :: "route_env \<Rightarrow> single_io \<Rightarrow> pystr \<Rightarrow> translation_request \<Rightarrow> pyval list \<Rightarrow> pystr \<Rightarrow> pystr \<Rightarrow> service \<Rightarrow> service" where
  "store_single re io t r gl translated backend se =
     (let pe = sn_prompt (re_service re) in
      case put_text re (si_write io) t r translated backend (single_cache_contract pe (tr_source r) (tr_target r) (Some gl)) (se_cache se) of
        (Inl _, c) \<Rightarrow> se\<lparr>se_cache := c\<rparr>
      | (Inr _, c) \<Rightarrow>
          invalidate_stats_cache (se\<lparr>se_cache :=
            snd (put_text re (si_alias io) t r translated backend
                   (batch_cache_contract pe [t] [0] (tr_source r) (tr_target r) (Some gl)) c)\<rparr>))"

definition single_fields :: "pystr \<Rightarrow> bool \<Rightarrow> nat \<Rightarrow> json \<Rightarrow> (pystr \<times> json) list" where
  "single_fields translated hit ms rid =
     [(lit ''translated'', JStr translated), (lit ''cached'', JBool hit), (lit ''elapsed_ms'', JInt (int ms)), (lit ''request_id'', rid)]"

definition single_failure :: "route_env \<Rightarrow> json \<Rightarrow> nat \<Rightarrow> group_error \<Rightarrow> service \<Rightarrow> route_outcome \<times> service" where
  "single_failure re rid ms e se =
     (let counted = count_request ms 0 1 True se in
      case e of
        GBudget reason \<Rightarrow> budget_reply re rid reason counted
      | GUnavailable _ _ \<Rightarrow> (code_reply 502 ''provider_unavailable'' rid, count_outcome ''provider_unavailable'' counted)
      | GFailed \<Rightarrow> (code_reply 500 ''translation_failed'' rid, count_outcome ''translation_failed'' counted)
      | GNoReturn \<Rightarrow> (NoReply, se))"

definition serve_fresh :: "route_env \<Rightarrow> single_io \<Rightarrow> route_call \<Rightarrow> pystr \<Rightarrow> translation_request \<Rightarrow> pyval list \<Rightarrow> service \<Rightarrow> route_outcome \<times> service" where
  "serve_fresh re io q t r gl se =
     (case translate_single re io t r gl of
        Inl e \<Rightarrow> single_failure re (rq_id q) (si_elapsed io) e se
      | Inr (translated, backend) \<Rightarrow>
          (ok_reply (single_fields translated False (si_elapsed io) (rq_id q) @ [(lit ''backend'', JStr backend)]),
           store_single re io t r gl translated backend (count_request (si_elapsed io) 0 1 False se)))"

definition skipped_field :: "pystr \<times> json" where
  "skipped_field = (lit ''skipped'', JStr (lit ''source==target''))"

definition translate_route :: "route_env \<Rightarrow> single_io \<Rightarrow> route_call \<Rightarrow> service \<Rightarrow> route_outcome \<times> service" where
  "translate_route re io q se =
     (case single_request re q of
        Inl reply \<Rightarrow> (reply, se)
      | Inr (t, r) \<Rightarrow>
          if t = [] then (ok_reply (single_fields [] False 0 (rq_id q)), count_request 0 0 1 False se)
          else if tr_source r = tr_target r
          then (ok_reply (single_fields t False 0 (rq_id q) @ [skipped_field]), count_request 0 0 0 False se)
          else let gl = request_glossary (re_sha re) (tr_namespace r) se in
            (case probe_single re io t r gl se of
               (Inr (Some hit), s1) \<Rightarrow>
                 (ok_reply (single_fields hit True 0 (rq_id q)), invalidate_stats_cache (count_request 0 1 0 False s1))
             | (Inr None, s1) \<Rightarrow> serve_fresh re io q t r gl s1
             | (Inl (Raised e), s1) \<Rightarrow> (Uncaught e, s1)
             | (Inl _, s1) \<Rightarrow> (NoReply, s1)))"

end
