(* ===== verification/Store_Routes.thy ===== *)
theory Store_Routes
  imports Endpoints
begin

section \<open>Batch, export, glossary and feedback routes\<close>

text \<open>
  Models \<open>/translate/batch\<close>, \<open>/export/epub\<close>, the three methods of \<open>/glossary\<close> and the two routes of
  \<open>/feedback\<close> of \<open>server.py\<close>. The body of a GET request is the object of its query parameters.
\<close>

subsection \<open>Batches\<close>

definition batch_request :: "route_env \<Rightarrow> route_call \<Rightarrow> (route_outcome, pystr list \<times> translation_request) result" where
  "batch_request re q =
     rbind (json_body q) (\<lambda>data.
     rbind (paragraph_list data) (\<lambda>ps.
     rbind (paragraph_count (sv_max_paragraphs (re_config re)) '' per request'' ps) (\<lambda>_.
     rbind (paragraph_texts (re_config re) ps) (\<lambda>ts.
     rbind (translation_fields re q data) (\<lambda>r. Inr (ts, r))))))"

definition slot_fields :: "slot list \<Rightarrow> (pystr \<times> json) list" where
  "slot_fields ss =
     [(lit ''translations'', JList (map (JStr \<circ> sl_text) ss)),
      (lit ''backends'', JList (map (JStr \<circ> sl_backend) ss)),
      (lit ''cached'', JList (map (JBool \<circ> sl_cached) ss)),
      (lit ''error_codes'', JList (map (\<lambda>s. case sl_error s of None \<Rightarrow> JNull | Some c \<Rightarrow> JStr c) ss)),
      (lit ''retry_after_seconds'', JList (map (\<lambda>s. case sl_retry s of None \<Rightarrow> JNull | Some n \<Rightarrow> JInt (int n)) ss))]"

definition batch_fields :: "slot list \<Rightarrow> nat \<Rightarrow> nat \<Rightarrow> nat \<Rightarrow> json \<Rightarrow> (pystr \<times> json) list" where
  "batch_fields ss hits fresh ms rid =
     slot_fields ss @
     [(lit ''cached_count'', JInt (int hits)), (lit ''fresh_count'', JInt (int fresh)),
      (lit ''total_elapsed_ms'', JInt (int ms)), (lit ''request_id'', rid)]"

definition echo_slot :: "pystr \<Rightarrow> slot" where
  "echo_slot t = \<lparr>sl_text = t, sl_backend = lit ''skipped'', sl_cached = False, sl_error = None, sl_retry = None\<rparr>"

definition count_partial :: "slot list \<Rightarrow> service \<Rightarrow> service" where
  "count_partial ss se =
     (let n = length (filter (is_error_text \<circ> sl_text) ss) in
      if n = 0 then se
      else se\<lparr>se_metrics := or_same (record_batch_partial_failure (PInt (int n)) (se_metrics se)) (se_metrics se)\<rparr>)"

text \<open>
  \<open>_translate_paragraphs\<close> ends with no other exception than these: the workers turn an unavailable
  provider and an invalid envelope into markers, so the handlers for them are never reached.
\<close>

definition batch_failure :: "route_env \<Rightarrow> route_call \<Rightarrow> service_exn \<Rightarrow> service \<Rightarrow> route_outcome \<times> service" where
  "batch_failure re q e se =
     (case e of
        OutOfBudget reason \<Rightarrow> budget_reply re (rq_id q) reason (count_request 0 0 1 True se)
      | Raised _ \<Rightarrow> (code_reply 500 ''translation_failed'' (rq_id q), count_outcome ''translation_failed'' (count_request 0 0 1 True se))
      | NeverReturns \<Rightarrow> (NoReply, se))"

definition job_of :: "pystr list \<Rightarrow> translation_request \<Rightarrow> pyval list \<Rightarrow> batch_job" where
  "job_of ts r gl =
     \<lparr>bj_texts = map strip ts, bj_source = tr_source r, bj_target = tr_target r, bj_namespace = tr_namespace r,
      bj_allow = tr_allow r, bj_glossary = gl\<rparr>"

definition batch_route :: "route_env \<Rightarrow> batch_io \<Rightarrow> route_call \<Rightarrow> service \<Rightarrow> route_outcome \<times> service" where
  "batch_route re io q se =
     (case batch_request re q of
        Inl reply \<Rightarrow> (reply, se)
      | Inr (ts, r) \<Rightarrow>
          if tr_source r = tr_target r
          then (ok_reply (batch_fields (map echo_slot ts) 0 0 0 (rq_id q) @ [skipped_field]), count_request 0 0 0 False se)
          else (case translate_paragraphs (re_service re) io
                       (job_of ts r (request_glossary (re_sha re) (tr_namespace r) se)) se of
                  (Inl e, s1) \<Rightarrow> batch_failure re q e s1
                | (Inr rep, s1) \<Rightarrow>
                    (ok_reply (batch_fields (br_slots rep) (br_cached rep) (br_fresh rep) (br_elapsed rep) (rq_id q)),
                     count_partial (br_slots rep) (count_request (br_elapsed rep) (br_cached rep) (br_fresh rep) False s1))))"

subsection \<open>Export\<close>

definition export_total :: "server_config \<Rightarrow> pystr list \<Rightarrow> (route_outcome, unit) result" where
  "export_total sv ts =
     (if sv_export_total sv < sum_list (map length ts)
      then Inl (error_reply 413 (lit ''Export exceeds the '' @ show_nat (sv_export_total sv) @ lit ''-character limit''))
      else Inr ())"

definition export_title :: "server_config \<Rightarrow> body \<Rightarrow> (route_outcome, pystr) result" where
  "export_title sv data =
     (case field_or data ''title'' (PStr (lit ''Translated chapter'')) of
        PStr s \<Rightarrow>
          let t = strip s in
          if t = [] then Inl (error_reply 400 (lit ''Missing or invalid '' @ apos ''title'' @ lit '' field''))
          else if sv_export_title sv < length t
          then Inl (error_reply 413 (apos ''title'' @ lit '' exceeds the '' @ show_nat (sv_export_title sv) @ lit ''-character limit''))
          else if has_invalid_unicode t then Inl (error_reply 400 (apos ''title'' @ lit '' contains invalid Unicode''))
          else Inr t
      | _ \<Rightarrow> Inl (error_reply 400 (lit ''Missing or invalid '' @ apos ''title'' @ lit '' field'')))"

definition export_paragraphs :: "server_config \<Rightarrow> body \<Rightarrow> (route_outcome, pystr list) result" where
  "export_paragraphs sv data =
     rbind (paragraph_list data) (\<lambda>ps.
     rbind (if ps = [] then Inl (error_reply 400 (apos ''paragraphs'' @ lit '' must not be empty'')) else Inr ()) (\<lambda>_.
     rbind (paragraph_count (sv_export_paragraphs sv) '' per export'' ps) (\<lambda>_.
     rbind (paragraph_texts sv ps) (\<lambda>ts.
     rbind (export_total sv ts) (\<lambda>_. Inr ts)))))"

text \<open>The guards of the export; \<open>lower\<close> and \<open>fresh\<close> are those of theory \<open>Epub\<close>.\<close>

definition export_archive :: "route_env \<Rightarrow> pystr \<Rightarrow> route_call \<Rightarrow> (route_outcome, pystr \<times> zip_entry list) result" where
  "export_archive re fresh q =
     rbind (json_body q) (\<lambda>data.
     rbind (export_paragraphs (re_config re) data) (\<lambda>ts.
     rbind (export_title (re_config re) data) (\<lambda>title.
     rbind (language_fields data) (\<lambda>(s, t).
     rbind (namespace_fields re q data) (\<lambda>_.
     rbind (value_error re (build_epub (PStr title) (PList (map (PStr \<circ> strip) ts)) t None fresh)) (\<lambda>entries.
       Inr (title, entries)))))))"

definition export_route :: "route_env \<Rightarrow> (pystr \<Rightarrow> pystr) \<Rightarrow> pystr \<Rightarrow> route_call \<Rightarrow> route_outcome" where
  "export_route re lower fresh q =
     (case export_archive re fresh q of
        Inl reply \<Rightarrow> reply
      | Inr (title, entries) \<Rightarrow> Archive (lit ''attachment; filename='' @ [34] @ epub_filename lower title @ [34]) entries)"

subsection \<open>Glossary\<close>

definition store_error :: "route_env \<Rightarrow> string \<Rightarrow> json \<Rightarrow> py_error \<Rightarrow> route_outcome" where
  "store_error re code rid e =
     (case e of
        ValueError m \<Rightarrow> error_reply 400 m
      | UnicodeEncodeError \<Rightarrow> error_reply 400 (re_codec re)
      | _ \<Rightarrow> code_reply 500 code rid)"

definition entry_json :: "glossary_entry \<Rightarrow> json" where
  "entry_json e = JDict [(lit ''source'', JStr (fst e)), (lit ''target'', JStr (snd e))]"

definition glossary_list :: "route_env \<Rightarrow> route_call \<Rightarrow> service \<Rightarrow> route_outcome" where
  "glossary_list re q se =
     (case rbind (json_body q) (namespace_fields re q) of
        Inl reply \<Rightarrow> reply
      | Inr ns \<Rightarrow>
          (case list_entries (re_sha re) (fst ns) (fst (snd ns)) (se_glossary se) of
             Inl _ \<Rightarrow> code_reply 500 ''glossary_unavailable'' (rq_id q)
           | Inr es \<Rightarrow> ok_reply [(lit ''entries'', JList (map entry_json es)), (lit ''request_id'', rq_id q)]))"

fun is_text :: "pyval option \<Rightarrow> bool" where
  "is_text (Some (PStr s)) = True"
| "is_text _ = False"

definition glossary_upsert :: "route_env \<Rightarrow> pystr \<Rightarrow> route_call \<Rightarrow> service \<Rightarrow> route_outcome \<times> service" where
  "glossary_upsert re now q se =
     (case rbind (json_body q) (\<lambda>data. rbind (namespace_fields re q data) (\<lambda>ns. Inr (data, ns))) of
        Inl reply \<Rightarrow> (reply, se)
      | Inr (data, tenant, book_id, _) \<Rightarrow>
          if \<not> (is_text (map_of data (lit ''source'')) \<and> is_text (map_of data (lit ''target'')))
          then (error_reply 400 (lit ''Missing or invalid '' @ apos ''source'' @ lit ''/'' @ apos ''target'' @ lit '' field''), se)
          else (case put_entry (re_glossary re) (re_sha re) (pe_fold (sn_prompt (re_service re))) tenant book_id
                       (field_or data ''source'' PNone) (field_or data ''target'' PNone) now (se_glossary se) of
                  (Inl e, g) \<Rightarrow> (store_error re ''glossary_unavailable'' (rq_id q) e, se\<lparr>se_glossary := g\<rparr>)
                | (Inr entry, g) \<Rightarrow>
                    (ok_reply [(lit ''entry'', entry_json entry), (lit ''request_id'', rq_id q)],
                     invalidate_stats_cache (se\<lparr>se_glossary := g\<rparr>))))"

definition glossary_delete :: "route_env \<Rightarrow> route_call \<Rightarrow> service \<Rightarrow> route_outcome \<times> service" where
  "glossary_delete re q se =
     (case rbind (json_body q) (\<lambda>data. rbind (namespace_fields re q data) (\<lambda>ns. Inr (data, ns))) of
        Inl reply \<Rightarrow> (reply, se)
      | Inr (data, tenant, book_id, _) \<Rightarrow>
          if \<not> is_text (map_of data (lit ''source''))
          then (error_reply 400 (lit ''Missing or invalid '' @ apos ''source'' @ lit '' field''), se)
          else (case delete_entry (re_glossary re) (re_sha re) (pe_fold (sn_prompt (re_service re))) tenant book_id
                       (field_or data ''source'' PNone) (se_glossary se) of
                  (Inl e, g) \<Rightarrow> (store_error re ''glossary_unavailable'' (rq_id q) e, se\<lparr>se_glossary := g\<rparr>)
                | (Inr False, g) \<Rightarrow> (code_reply 404 ''glossary_term_not_found'' (rq_id q), se\<lparr>se_glossary := g\<rparr>)
                | (Inr True, g) \<Rightarrow>
                    (ok_reply [(lit ''deleted'', JBool True), (lit ''request_id'', rq_id q)],
                     invalidate_stats_cache (se\<lparr>se_glossary := g\<rparr>))))"

subsection \<open>Feedback\<close>

definition feedback_record :: "route_env \<Rightarrow> pystr \<Rightarrow> route_call \<Rightarrow> feedback_table \<Rightarrow> route_outcome \<times> feedback_table" where
  "feedback_record re now q tab =
     (case rbind (json_body q) (\<lambda>data. rbind (namespace_fields re q data) (\<lambda>ns. Inr (data, ns))) of
        Inl reply \<Rightarrow> (reply, tab)
      | Inr (data, tenant, book_id, _) \<Rightarrow>
          (case (map_of data (lit ''para_key''), map_of data (lit ''rating'')) of
             (Some k, Some rating) \<Rightarrow>
               (case Feedback.record_feedback (re_feedback re) (re_sha re) tenant book_id k rating now tab of
                  (Inl e, t1) \<Rightarrow> (store_error re ''feedback_unavailable'' (rq_id q) e, t1)
                | (Inr (key, score), t1) \<Rightarrow>
                    (ok_reply [(lit ''feedback'', JDict [(lit ''para_key'', JStr key), (lit ''rating'', JInt score)]),
                               (lit ''request_id'', rq_id q)], t1))
           | _ \<Rightarrow> (error_reply 400 (lit ''Missing '' @ apos ''para_key'' @ lit ''/'' @ apos ''rating'' @ lit '' field''), tab)))"

definition summary_json :: "summary \<Rightarrow> json" where
  "summary_json s =
     JDict [(lit ''up'', JInt (s_up s)), (lit ''down'', JInt (s_down s)), (lit ''total'', JInt (s_total s)), (lit ''score'', JInt (s_score s))]"

definition feedback_summary :: "route_env \<Rightarrow> route_call \<Rightarrow> feedback_table \<Rightarrow> route_outcome" where
  "feedback_summary re q tab =
     (case rbind (json_body q) (namespace_fields re q) of
        Inl reply \<Rightarrow> reply
      | Inr ns \<Rightarrow>
          (case get_summary (re_sha re) (fst ns) (fst (snd ns)) tab of
             Inl _ \<Rightarrow> code_reply 500 ''feedback_unavailable'' (rq_id q)
           | Inr s \<Rightarrow> ok_reply [(lit ''summary'', summary_json s), (lit ''request_id'', rq_id q)]))"

end
