(* ===== verification/Stream_Route.thy ===== *)
theory Stream_Route
  imports Endpoints
begin

section \<open>The streaming route\<close>

text \<open>
  Models \<open>/translate/stream\<close> of \<open>server.py\<close>: the guards of a single translation, the cap on the
  streamed bytes, the events of every ending and the text of the event stream. The client is taken
  to read to the end. What a stopped generator of \<open>translator.py\<close> does while it is closed is left
  out.
\<close>

subsection \<open>Reading the translator\<close>

datatype stream_stop = StopTooLarge | StopFailed

text \<open>The deltas that pass the cap, and why the loop stops early.\<close>

fun emitted :: "nat \<Rightarrow> nat \<Rightarrow> (pystr \<times> pystr) list \<Rightarrow> (pystr \<times> pystr) list \<times> stream_stop option" where
  "emitted cap n [] = ([], None)"
| "emitted cap n ((d, p) # rest) =
     (case utf8_len d of
        None \<Rightarrow> ([], Some StopFailed)
      | Some k \<Rightarrow>
          if cap < n + k then ([], Some StopTooLarge)
          else (case emitted cap (n + k) rest of (out, e) \<Rightarrow> ((d, p) # out, e)))"

datatype stream_end = SeComplete | SeBudget pystr | SeUnavailable pystr "nat option" | SeTooLarge | SeFailed

fun end_of :: "stream_error option \<Rightarrow> stream_end" where
  "end_of None = SeComplete"
| "end_of (Some (SBudget r)) = SeBudget r"
| "end_of (Some (SUnavailable code ra)) = SeUnavailable code ra"

definition stream_result ::
  "route_env \<Rightarrow> single_io \<Rightarrow> pystr \<Rightarrow> translation_request \<Rightarrow> pyval list \<Rightarrow> (pystr \<times> pystr) list \<times> stream_end" where
  "stream_result re io t r gl =
     (let wk = si_worker io; pe = sn_prompt (re_service re); cs = gs_call (wk_state wk); now = wk_clock wk (gs_next (wk_state wk)) in
      case single_prompt pe (tr_source r) (tr_target r) (Some gl) of
        Inl _ \<Rightarrow>
          (case ensure_active now (ks_budget cs) of
             Inl (WorkBudgetExceeded reason) \<Rightarrow> ([], SeBudget reason)
           | _ \<Rightarrow> ([], SeFailed))
      | Inr prompt \<Rightarrow>
          (case translate_text_stream (wk_call wk) (sn_pf (re_service re)) (tr_allow r) t prompt
                  (int (output_cap (pe_cfg pe) t (tc_max_tokens (pe_cfg pe)))) (wk_ios wk (gs_next (wk_state wk))) now cs of
             (pairs, ending, _) \<Rightarrow>
               (case emitted (ce_cap (wk_call wk)) 0 pairs of
                  (out, Some StopTooLarge) \<Rightarrow> (out, SeTooLarge)
                | (out, Some StopFailed) \<Rightarrow> (out, SeFailed)
                | (out, None) \<Rightarrow> (out, end_of ending))))"

subsection \<open>Events\<close>

definition backend_used :: "(pystr \<times> pystr) list \<Rightarrow> pystr" where
  "backend_used out = (if out = [] then lit ''local'' else snd (last out))"

definition complete_translation :: "(pystr \<times> pystr) list \<Rightarrow> pystr" where
  "complete_translation out = strip (concat (map fst out))"

definition failure_event :: "json \<Rightarrow> pystr \<Rightarrow> sse_event" where
  "failure_event rid code = SseError [(lit ''error'', JStr code), (lit ''error_code'', JStr code), (lit ''request_id'', rid)]"

definition retry_field :: "nat option \<Rightarrow> (pystr \<times> json) list" where
  "retry_field ra = (case ra of None \<Rightarrow> [] | Some n \<Rightarrow> [(lit ''retry_after_seconds'', JInt (int n))])"

definition budget_event :: "route_env \<Rightarrow> json \<Rightarrow> pystr \<Rightarrow> sse_event" where
  "budget_event re rid reason =
     SseError ([(lit ''error'', JStr (lit ''work_budget_exhausted'')), (lit ''error_code'', JStr (lit ''work_budget_exhausted'')),
                (lit ''reason'', JStr reason), (lit ''request_id'', rid)]
               @ retry_field (if reason = lit ''queue'' then Some (queue_retry (re_queue_wait re)) else None))"

definition unavailable_event :: "json \<Rightarrow> pystr \<Rightarrow> nat option \<Rightarrow> sse_event" where
  "unavailable_event rid code ra =
     (let c = (if code = [] then lit ''provider_unavailable'' else code) in
      SseError ([(lit ''error'', JStr c), (lit ''error_code'', JStr c), (lit ''request_id'', rid)] @ retry_field ra))"

definition done_fields :: "pystr \<Rightarrow> pystr \<Rightarrow> nat \<Rightarrow> json \<Rightarrow> (pystr \<times> json) list" where
  "done_fields full backend ms rid =
     [(lit ''translated'', JStr full), (lit ''cached'', JBool False), (lit ''backend'', JStr backend),
      (lit ''elapsed_ms'', JInt (int ms)), (lit ''request_id'', rid)]"

text \<open>The last event and what it leaves behind; a translation is stored only when it is complete.\<close>

definition finish_stream ::
  "route_env \<Rightarrow> single_io \<Rightarrow> route_call \<Rightarrow> pystr \<Rightarrow> translation_request \<Rightarrow> pyval list \<Rightarrow> (pystr \<times> pystr) list \<Rightarrow> stream_end
   \<Rightarrow> service \<Rightarrow> sse_event \<times> service" where
  "finish_stream re io q t r gl out ending se =
     (let ms = si_elapsed io; failed = count_request ms 0 1 True se; full = complete_translation out in
      case ending of
        SeComplete \<Rightarrow>
          if full = [] then (failure_event (rq_id q) (lit ''invalid_provider_response''), count_outcome ''invalid_provider_response'' failed)
          else (SseDone (done_fields full (backend_used out) ms (rq_id q)),
                store_single re io t r gl full (backend_used out) (count_request ms 0 1 False se))
      | SeBudget reason \<Rightarrow> (budget_event re (rq_id q) reason, count_exhaustion reason failed)
      | SeUnavailable code ra \<Rightarrow> (unavailable_event (rq_id q) code ra, count_outcome ''provider_unavailable'' failed)
      | SeTooLarge \<Rightarrow> (failure_event (rq_id q) (lit ''response_too_large''), count_outcome ''translation_failed'' failed)
      | SeFailed \<Rightarrow> (failure_event (rq_id q) (lit ''translation_failed''), count_outcome ''translation_failed'' failed))"

definition stream_fresh ::
  "route_env \<Rightarrow> single_io \<Rightarrow> route_call \<Rightarrow> pystr \<Rightarrow> translation_request \<Rightarrow> pyval list \<Rightarrow> service \<Rightarrow> route_outcome \<times> service" where
  "stream_fresh re io q t r gl se =
     (case stream_result re io t r gl of
        (out, ending) \<Rightarrow>
          (case finish_stream re io q t r gl out ending se of
             (event, se1) \<Rightarrow> (EventStream (map (\<lambda>d. SseDelta (fst d) False) out @ [event]), se1)))"

definition one_delta :: "pystr \<Rightarrow> bool \<Rightarrow> (pystr \<times> json) list \<Rightarrow> route_outcome" where
  "one_delta t hit fs = EventStream [SseDelta t hit, SseDone fs]"

definition echo_fields :: "pystr \<Rightarrow> json \<Rightarrow> (pystr \<times> json) list" where
  "echo_fields t rid =
     [(lit ''translated'', JStr t), (lit ''cached'', JBool False), skipped_field, (lit ''elapsed_ms'', JInt 0), (lit ''request_id'', rid)]"

definition stream_route :: "route_env \<Rightarrow> single_io \<Rightarrow> route_call \<Rightarrow> service \<Rightarrow> route_outcome \<times> service" where
  "stream_route re io q se =
     (case single_request re q of
        Inl reply \<Rightarrow> (reply, se)
      | Inr (t, r) \<Rightarrow>
          if t = [] then (one_delta [] False (single_fields [] False 0 (rq_id q)), se)
          else if tr_source r = tr_target r then (one_delta t False (echo_fields t (rq_id q)), se)
          else let gl = request_glossary (re_sha re) (tr_namespace r) se in
            (case probe_single re io t r gl se of
               (Inr (Some hit), s1) \<Rightarrow>
                 (one_delta hit True (single_fields hit True 0 (rq_id q)), invalidate_stats_cache (count_request 0 1 0 False s1))
             | (Inr None, s1) \<Rightarrow> stream_fresh re io q t r gl s1
             | (Inl (Raised e), s1) \<Rightarrow> (Uncaught e, s1)
             | (Inl _, s1) \<Rightarrow> (NoReply, s1)))"

subsection \<open>The text of the stream\<close>

definition hex4 :: "nat \<Rightarrow> pystr" where
  "hex4 n = [92, 117, hex_digit (n div 4096 mod 16), hex_digit (n div 256 mod 16), hex_digit (n div 16 mod 16), hex_digit (n mod 16)]"

definition ascii_char :: "codepoint \<Rightarrow> pystr" where
  "ascii_char c =
     (if c = 92 then [92, 92] else if c = 34 then [92, 34]
      else if c = 8 then [92, 98] else if c = 12 then [92, 102]
      else if c = 10 then [92, 110] else if c = 13 then [92, 114]
      else if c = 9 then [92, 116]
      else if 32 \<le> c \<and> c \<le> 126 then [c]
      else if c < 0x10000 then hex4 c
      else hex4 (0xD800 + (c - 0x10000) div 1024 mod 1024) @ hex4 (0xDC00 + (c - 0x10000) mod 1024))"

definition ascii_str :: "pystr \<Rightarrow> pystr" where
  "ascii_str s = 34 # concat (map ascii_char s) @ [34]"

text \<open>\<open>json.dumps\<close> with its defaults: ASCII only, a space after each separator.\<close>

fun ascii_dumps :: "json \<Rightarrow> pystr" where
  "ascii_dumps JNull = lit ''null''"
| "ascii_dumps (JBool b) = (if b then lit ''true'' else lit ''false'')"
| "ascii_dumps (JInt i) = show_int i"
| "ascii_dumps (JStr s) = ascii_str s"
| "ascii_dumps (JList xs) = [91] @ join (lit '', '') (map ascii_dumps xs) @ [93]"
| "ascii_dumps (JDict ps) = [123] @ join (lit '', '') (map (\<lambda>p. ascii_str (fst p) @ lit '': '' @ ascii_dumps (snd p)) ps) @ [125]"

definition data_line :: "(pystr \<times> json) list \<Rightarrow> pystr" where
  "data_line fs = lit ''data: '' @ ascii_dumps (JDict fs)"

fun frame_body :: "sse_event \<Rightarrow> pystr" where
  "frame_body (SseDelta d hit) = data_line [(lit ''delta'', JStr d), (lit ''cached'', JBool hit)]"
| "frame_body (SseDone fs) = lit ''event: done'' @ [10] @ data_line fs"
| "frame_body (SseError fs) = lit ''event: error'' @ [10] @ data_line fs"

definition wire :: "sse_event list \<Rightarrow> pystr" where
  "wire es = concat (map (\<lambda>e. frame_body e @ [10, 10]) es)"

end
