(* ===== verification/Operator_Routes.thy ===== *)
theory Operator_Routes
  imports Endpoints
begin

section \<open>Operator routes and the cleanup credential\<close>

text \<open>
  Models the probes (\<open>/ping\<close>, \<open>/health\<close>, \<open>/health/deep\<close>), \<open>/provider-policy\<close>, the reply to an
  oversized body, \<open>/cache/cleanup\<close> and the credential that guards it: \<open>BT_API_TOKEN\<close>, or a token
  file on the data volume that the worker processes share. The file lock makes reading or creating
  the file one step. The outcomes of system calls are arguments.
\<close>

subsection \<open>The token file\<close>

text \<open>The path is missing, something else than a regular file, or a file with a mode and a text, \<open>None\<close> when it is no UTF-8.\<close>

datatype token_path = NoFile | OtherFile | TokenFile nat "pystr option"

record token_io =
  ti_dir :: bool
  ti_lock_open :: bool
  ti_lock_regular :: bool
  ti_open :: bool
  ti_mode :: nat
  ti_fresh :: pystr
  ti_write :: bool

type_synonym token_unavailable = unit

definition read_cleanup_token_file :: "token_io \<Rightarrow> token_path \<Rightarrow> (token_unavailable, pystr) result \<times> token_path" where
  "read_cleanup_token_file io path =
     (case path of
        NoFile \<Rightarrow> (Inr [], NoFile)
      | OtherFile \<Rightarrow> (Inl (), OtherFile)
      | TokenFile m content \<Rightarrow>
          if \<not> ti_open io then (Inl (), path)
          else (case content of
                  None \<Rightarrow> (Inl (), TokenFile (ti_mode io) content)
                | Some s \<Rightarrow> (if 4096 < length s then Inl () else Inr (strip s), TokenFile (ti_mode io) content)))"

text \<open>\<open>True\<close> marks a token that was generated now.\<close>

definition persist_cleanup_token :: "token_io \<Rightarrow> token_path \<Rightarrow> (token_unavailable, pystr \<times> bool) result \<times> token_path" where
  "persist_cleanup_token io path =
     (if \<not> (ti_dir io \<and> ti_lock_open io \<and> ti_lock_regular io) then (Inl (), path)
      else case read_cleanup_token_file io path of
        (Inl e, p) \<Rightarrow> (Inl e, p)
      | (Inr existing, p) \<Rightarrow>
          if existing \<noteq> [] then (Inr (existing, False), p)
          else if ti_write io then (Inr (ti_fresh io, True), TokenFile (ti_mode io) (Some (ti_fresh io)))
          else (Inl (), p))"

text \<open>\<open>_get_cleanup_token\<close>: the token in memory, then the file; a failure is not remembered.\<close>

definition get_cleanup_token ::
  "pystr \<Rightarrow> token_io \<Rightarrow> pystr option \<Rightarrow> token_path \<Rightarrow> (token_unavailable, pystr) result \<times> pystr option \<times> token_path" where
  "get_cleanup_token api_token io held path =
     (if api_token \<noteq> [] then (Inr api_token, held, path)
      else case held of
        Some t \<Rightarrow> (Inr t, held, path)
      | None \<Rightarrow>
          (case persist_cleanup_token io path of
             (Inl e, p) \<Rightarrow> (Inl e, None, p)
           | (Inr (t, _), p) \<Rightarrow> (Inr t, Some t, p)))"

subsection \<open>Cleanup\<close>

record cleanup_io =
  ci_token :: token_io
  ci_flush :: datetime
  ci_now :: datetime

definition cleanup_days :: "pyval \<Rightarrow> int option" where
  "cleanup_days v = (case v of PInt n \<Rightarrow> if 1 \<le> n \<and> n \<le> 3650 then Some n else None | _ \<Rightarrow> None)"

definition cleanup_body :: "bool \<Rightarrow> route_call \<Rightarrow> (route_outcome, body) result" where
  "cleanup_body empty_body q = (if empty_body then Inr [] else json_body q)"

definition run_cleanup :: "cleanup_io \<Rightarrow> int \<Rightarrow> service \<Rightarrow> route_outcome \<times> service" where
  "run_cleanup io days se =
     (case cleanup (ci_flush io) (ci_now io) (Some (PInt days)) (se_cache se) of
        (Inl e, c) \<Rightarrow> (Uncaught e, se\<lparr>se_cache := c\<rparr>)
      | (Inr n, c) \<Rightarrow>
          (ok_reply [(lit ''deleted'', JInt (int n)), (lit ''days'', JInt days)], invalidate_stats_cache (se\<lparr>se_cache := c\<rparr>)))"

text \<open>\<open>header\<close> is the value of \<open>X-BT-Token\<close>; \<open>token\<close> the answer of \<open>_get_cleanup_token\<close>.\<close>

definition cache_cleanup ::
  "cleanup_io \<Rightarrow> (token_unavailable, pystr) result \<Rightarrow> pystr \<Rightarrow> bool \<Rightarrow> route_call \<Rightarrow> service \<Rightarrow> route_outcome \<times> service" where
  "cache_cleanup io token header empty_body q se =
     (case token of
        Inl _ \<Rightarrow> (code_reply 503 ''cleanup_credential_unavailable'' (rq_id q), se)
      | Inr expected \<Rightarrow>
          if \<not> token_matches header expected then (code_reply 401 ''Unauthorized'' (rq_id q), se)
          else (case cleanup_body empty_body q of
                  Inl reply \<Rightarrow> (reply, se)
                | Inr data \<Rightarrow>
                    (case cleanup_days (field_or data ''days'' (PInt 30)) of
                       None \<Rightarrow> (error_reply 400 (apos ''days'' @ lit '' must be an integer between 1 and 3650''), se)
                     | Some days \<Rightarrow> run_cleanup io days se)))"

text \<open>A worker process handles the request: its own memory, the shared file and the service.\<close>

record deployment =
  dp_workers :: "pystr option list"
  dp_path :: token_path
  dp_service :: service

definition cleanup_request ::
  "pystr \<Rightarrow> cleanup_io \<Rightarrow> nat \<Rightarrow> pystr \<Rightarrow> bool \<Rightarrow> route_call \<Rightarrow> deployment \<Rightarrow> route_outcome \<times> deployment" where
  "cleanup_request api_token io w header empty_body q dp =
     (case get_cleanup_token api_token (ci_token io) (dp_workers dp ! w) (dp_path dp) of
        (token, held, path) \<Rightarrow>
          (case cache_cleanup io token header empty_body q (dp_service dp) of
             (reply, se) \<Rightarrow>
               (reply, dp\<lparr>dp_workers := (dp_workers dp)[w := held], dp_path := path, dp_service := se\<rparr>)))"

subsection \<open>Probes\<close>

definition ping :: route_outcome where
  "ping = ok_reply [(lit ''status'', JStr (lit ''ok''))]"

definition health :: "pystr \<Rightarrow> route_call \<Rightarrow> route_outcome" where
  "health version q =
     ok_reply [(lit ''status'', JStr (lit ''ok'')), (lit ''service'', JStr (lit ''book-translator'')),
               (lit ''version'', JStr version), (lit ''request_id'', rq_id q)]"

definition request_too_large :: "nat \<Rightarrow> route_call \<Rightarrow> route_outcome" where
  "request_too_large limit q =
     Reply 413 [(lit ''error'', JStr (lit ''Request body exceeds the '' @ show_nat limit @ lit ''-byte limit'')),
                (lit ''request_id'', rq_id q)] []"

definition get_provider_policy :: "route_env \<Rightarrow> route_outcome" where
  "get_provider_policy re =
     (case provider_policy (sn_pf (re_service re)) of
        (p, f) \<Rightarrow>
          Reply 200 [(lit ''primary'', JStr (locality_text p)),
                     (lit ''fallback'', case f of None \<Rightarrow> JNull | Some l \<Rightarrow> JStr (locality_text l)),
                     (lit ''generation'', JStr (sv_generation (re_config re)))]
            [(lit ''Cache-Control'', lit ''no-store'')])"

datatype probe_status = ProbeOk nat | ProbeError

record health_state =
  hs_data :: "(pystr \<times> probe_status) list option"
  hs_at :: real
  hs_calls :: call_state

text \<open>One probe: a small call within the budget of the request, without retries.\<close>

definition health_probe :: "call_env \<Rightarrow> provider \<Rightarrow> (nat \<Rightarrow> attempt_io) \<Rightarrow> nat \<Rightarrow> call_state \<Rightarrow> (pystr, probe_status) result \<times> call_state" where
  "health_probe env p ios ms st =
     (case call_provider (env\<lparr>ce_timeout := 5\<rparr>) p (lit ''healthcheck'') (lit ''Reply with OK only.'') 1 32 ios st of
        (Inr _, s) \<Rightarrow> (Inr (ProbeOk ms), s)
      | (Inl (FBudget r), s) \<Rightarrow> (Inl r, s)
      | (Inl _, s) \<Rightarrow> (Inr ProbeError, s))"

definition check_backend_health ::
  "call_env \<Rightarrow> provider \<times> provider option \<Rightarrow> (provider \<Rightarrow> nat \<Rightarrow> attempt_io) \<Rightarrow> (provider \<Rightarrow> nat) \<Rightarrow> real \<Rightarrow> health_state
   \<Rightarrow> (pystr, (pystr \<times> probe_status) list) result \<times> health_state" where
  "check_backend_health env pf ios ms now hs =
     (let fetch = (case health_probe env (fst pf) (ios (fst pf)) (ms (fst pf)) (hs_calls hs) of
            (Inl r, s) \<Rightarrow> (Inl r, hs\<lparr>hs_calls := s\<rparr>)
          | (Inr a, s) \<Rightarrow>
              let first = (provider_id (p_spec (fst pf)) @ lit '' (primary)'', a) in
              (case snd pf of
                 None \<Rightarrow> (Inr [first], hs\<lparr>hs_calls := s, hs_data := Some [first], hs_at := now\<rparr>)
               | Some f \<Rightarrow>
                   (case health_probe env f (ios f) (ms f) s of
                      (Inl r, s1) \<Rightarrow> (Inl r, hs\<lparr>hs_calls := s1\<rparr>)
                    | (Inr b, s1) \<Rightarrow>
                        let both = [first, (provider_id (p_spec f) @ lit '' (fallback)'', b)] in
                        (Inr both, hs\<lparr>hs_calls := s1, hs_data := Some both, hs_at := now\<rparr>))))
      in case hs_data hs of
           Some d \<Rightarrow> if now - hs_at hs < 15 then (Inr d, hs) else fetch
         | None \<Rightarrow> fetch)"

fun probe_json :: "probe_status \<Rightarrow> json" where
  "probe_json (ProbeOk ms) = JDict [(lit ''status'', JStr (lit ''ok'')), (lit ''latency_ms'', JInt (int ms)), (lit ''error'', JNull)]"
| "probe_json ProbeError =
     JDict [(lit ''status'', JStr (lit ''error'')), (lit ''latency_ms'', JInt (-1)), (lit ''error'', JStr (lit ''provider_unavailable''))]"

definition probe_ok :: "probe_status \<Rightarrow> bool" where
  "probe_ok p = (case p of ProbeOk _ \<Rightarrow> True | ProbeError \<Rightarrow> False)"

text \<open>\<open>answer\<close> is the result of \<open>check_backend_health\<close>.\<close>

definition deep_health ::
  "route_env \<Rightarrow> pystr \<Rightarrow> pystr \<Rightarrow> (token_unavailable, pystr) result \<Rightarrow> pystr \<Rightarrow> (pystr, (pystr \<times> probe_status) list) result
   \<Rightarrow> route_call \<Rightarrow> service \<Rightarrow> route_outcome \<times> service" where
  "deep_health re version api_token token header answer q se =
     (let authorized = (if api_token \<noteq> [] then Inr (token_matches header api_token)
                        else rbind token (\<lambda>t. Inr (token_matches header t))) in
      case authorized of
        Inl _ \<Rightarrow> (code_reply 503 ''operator_credential_unavailable'' (rq_id q), se)
      | Inr False \<Rightarrow> (code_reply 401 ''Unauthorized'' (rq_id q), se)
      | Inr True \<Rightarrow>
          (case answer of
             Inl reason \<Rightarrow> budget_reply re (rq_id q) reason se
           | Inr backends \<Rightarrow>
               (ok_reply [(lit ''status'', JStr (lit (if backends \<noteq> [] \<and> list_all (probe_ok \<circ> snd) backends then ''ok'' else ''degraded''))),
                          (lit ''service'', JStr (lit ''book-translator'')), (lit ''version'', JStr version),
                          (lit ''backends'', JDict (map (\<lambda>(n, p). (n, probe_json p)) backends)), (lit ''request_id'', rq_id q)], se)))"

end
