(* ===== verification/Endpoint_Facts.thy ===== *)
theory Endpoint_Facts
  imports Store_Routes Stream_Route Operator_Routes Batch_Writes
begin

section \<open>Facts about the routes\<close>

text \<open>
  What the guards of the routes let through, that a refusal leaves no trace, and what the routes
  for one text read and write.
\<close>

subsection \<open>Refusals\<close>

definition status_of :: "route_outcome \<Rightarrow> nat option" where
  "status_of oc = (case oc of Reply s _ _ \<Rightarrow> Some s | Archive _ _ \<Rightarrow> Some 200 | EventStream _ \<Rightarrow> Some 200 | Uncaught _ \<Rightarrow> Some 500 | NoReply \<Rightarrow> None)"

definition client_error :: "route_outcome \<Rightarrow> bool" where
  "client_error oc \<longleftrightarrow> (case status_of oc of None \<Rightarrow> False | Some s \<Rightarrow> 400 \<le> s \<and> s < 500)"

lemma client_error_simps [simp]:
  "client_error (Reply s fs hs) \<longleftrightarrow> 400 \<le> s \<and> s < 500" "\<not> client_error (Archive n es)" "\<not> client_error (EventStream evs)"
  "\<not> client_error (Uncaught e)" "\<not> client_error NoReply" "\<not> client_error (ok_reply fs)"
  "client_error (error_reply s m) \<longleftrightarrow> 400 \<le> s \<and> s < 500" "client_error (code_reply s c rid) \<longleftrightarrow> 400 \<le> s \<and> s < 500"
  by (simp_all add: client_error_def status_of_def ok_reply_def error_reply_def code_reply_def)

lemma budget_reply_status [simp]: "budget_reply re rid r se = (oc, se') \<Longrightarrow> \<not> client_error oc"
  by (auto simp: budget_reply_def)

lemma put_entry_Inl: "put_entry cfg sha cf ten bk s t now g = (Inl e, g') \<Longrightarrow> g' = g"
  by (auto simp: put_entry_def split: sum.splits)

lemma delete_entry_absent:
  "delete_entry cfg sha cf ten bk s g = (Inl e, g') \<Longrightarrow> g' = g"
  "delete_entry cfg sha cf ten bk s g = (Inr False, g') \<Longrightarrow> g' = g"
  by (auto simp: delete_entry_def split: sum.splits)

lemma record_feedback_Inl: "Feedback.record_feedback cfg sha ten bk k r now g = (Inl e, g') \<Longrightarrow> g' = g"
  by (auto simp: Feedback.record_feedback_def split: sum.splits)

lemma single_failure_status: "single_failure re rid ms e se = (oc, se') \<Longrightarrow> \<not> client_error oc"
  by (auto simp: single_failure_def Let_def split: group_error.splits)

lemma serve_fresh_status: "serve_fresh re io q t r gl se = (oc, se') \<Longrightarrow> \<not> client_error oc"
  by (auto simp: serve_fresh_def dest: single_failure_status split: sum.splits)

lemma translate_refusal: "translate_route re io q se = (oc, se') \<Longrightarrow> client_error oc \<Longrightarrow> se' = se"
  by (auto simp: translate_route_def Let_def dest: serve_fresh_status
      split: sum.splits if_splits option.splits prod.splits service_exn.splits)

lemma stream_refusal: "stream_route re io q se = (oc, se') \<Longrightarrow> client_error oc \<Longrightarrow> se' = se"
  by (auto simp: stream_route_def stream_fresh_def one_delta_def Let_def
      split: sum.splits if_splits option.splits prod.splits service_exn.splits)

lemma batch_failure_status: "batch_failure re q e se = (oc, se') \<Longrightarrow> \<not> client_error oc"
  by (auto simp: batch_failure_def split: service_exn.splits)

lemma batch_refusal: "batch_route re bio q se = (oc, se') \<Longrightarrow> client_error oc \<Longrightarrow> se' = se"
  by (auto simp: batch_route_def dest: batch_failure_status split: sum.splits if_splits prod.splits)

lemma upsert_refusal: "glossary_upsert re now q se = (oc, se') \<Longrightarrow> client_error oc \<Longrightarrow> se' = se"
  by (auto simp: glossary_upsert_def dest: put_entry_Inl split: sum.splits if_splits prod.splits)

lemma delete_refusal: "glossary_delete re q se = (oc, se') \<Longrightarrow> client_error oc \<Longrightarrow> se' = se"
  by (auto simp: glossary_delete_def dest: delete_entry_absent split: sum.splits if_splits prod.splits bool.splits)

lemma feedback_refusal: "feedback_record re now q tab = (oc, tab') \<Longrightarrow> client_error oc \<Longrightarrow> tab' = tab"
  by (auto simp: feedback_record_def dest: record_feedback_Inl split: sum.splits if_splits prod.splits option.splits)

lemma cleanup_refusal: "cache_cleanup cio tok hdr e q se = (oc, se') \<Longrightarrow> client_error oc \<Longrightarrow> se' = se"
  by (auto simp: cache_cleanup_def run_cleanup_def split: sum.splits if_splits prod.splits option.splits)

subsection \<open>What the guards let through\<close>

lemma value_error_Inr: "value_error re r = Inr x \<longleftrightarrow> r = Inr x"
  by (auto simp: value_error_def split: sum.splits py_error.splits)

text \<open>The policy the reader saw is the one in force, down to the generation.\<close>

definition policy_seen :: "route_env \<Rightarrow> body \<Rightarrow> bool" where
  "policy_seen re data \<longleftrightarrow>
     (case map_of data (lit ''provider_policy'') of
        Some (PDict d) \<Rightarrow>
          (map_of d (lit ''primary''), map_of d (lit ''fallback''), map_of d (lit ''generation''))
          = (case current_policy (re_config re) (sn_pf (re_service re)) of (p, f, g) \<Rightarrow> (Some p, Some f, Some g))
      | _ \<Rightarrow> False)"

lemma not_stale_seen:
  assumes "stale_provider_policy (re_config re) (sn_pf (re_service re)) data = Inr False"
    and "sv_mode (re_config re) \<in> set cookie_modes \<or> map_of data (lit ''provider_policy'') \<noteq> None"
  shows "policy_seen re data"
  using assms
  by (auto simp: stale_provider_policy_def policy_seen_def cookie_modes_def rbind_eq_Inr Let_def
      split: option.splits pyval.splits if_splits prod.splits)

lemma policy_fields_Inr:
  assumes "policy_fields re q data = Inr allow"
  shows "cloud_fallback_consent data = Inr allow" "stale_provider_policy (re_config re) (sn_pf (re_service re)) data = Inr False"
  using assms by (auto simp: policy_fields_def rbind_eq_Inr value_error_Inr split: if_splits)

lemma translation_fields_Inr:
  assumes "translation_fields re q data = Inr r"
  shows "cloud_fallback_consent data = Inr (tr_allow r)" "stale_provider_policy (re_config re) (sn_pf (re_service re)) data = Inr False"
    "request_cache_namespace (re_config re) (rq_subject q) data = Inr (tr_namespace r)" "language_fields data = Inr (tr_source r, tr_target r)"
  using assms policy_fields_Inr
  by (auto simp: translation_fields_def rbind_eq_Inr namespace_fields_def value_error_Inr)

lemma json_body_Inr: "json_body q = Inr data \<longleftrightarrow> rq_body q = PDict data"
  by (auto simp: json_body_def split: pyval.splits)

lemma single_request_Inr:
  assumes "single_request re q = Inr (t, r)"
  obtains data where "rq_body q = PDict data" "text_field (re_config re) data = Inr t" "translation_fields re q data = Inr r"
  using assms by (auto simp: single_request_def rbind_eq_Inr json_body_Inr)

lemma batch_request_Inr:
  assumes "batch_request re q = Inr (ts, r)"
  obtains data ps where "rq_body q = PDict data" "paragraph_list data = Inr ps" "length ps \<le> sv_max_paragraphs (re_config re)"
    "paragraph_texts (re_config re) ps = Inr ts" "translation_fields re q data = Inr r"
  using assms by (auto simp: batch_request_def rbind_eq_Inr json_body_Inr paragraph_count_def split: if_splits)

text \<open>What the guards answer instead: a client error, or an exception the route does not catch.\<close>

definition guard_reply :: "route_outcome \<Rightarrow> bool" where
  "guard_reply oc \<longleftrightarrow> client_error oc \<or> (\<exists>e. oc = Uncaught e)"

lemma guard_simps [simp]:
  "guard_reply (error_reply s m) \<longleftrightarrow> 400 \<le> s \<and> s < 500" "guard_reply (code_reply s c rid) \<longleftrightarrow> 400 \<le> s \<and> s < 500"
  "guard_reply (Uncaught e)" "\<not> guard_reply (Archive n es)" "\<not> guard_reply (EventStream evs)" "\<not> guard_reply NoReply"
  "\<not> guard_reply (ok_reply fs)"
  by (auto simp: guard_reply_def error_reply_def code_reply_def ok_reply_def)

lemma value_error_guard: "value_error re r = Inl oc \<Longrightarrow> guard_reply oc"
  by (auto simp: value_error_def split: sum.splits py_error.splits)

lemma translation_fields_guard: "translation_fields re q data = Inl oc \<Longrightarrow> guard_reply oc"
  by (auto simp: translation_fields_def language_fields_def policy_fields_def namespace_fields_def rbind_eq_Inl Let_def
      dest: value_error_guard split: option.splits if_splits)

lemma single_request_guard: "single_request re q = Inl oc \<Longrightarrow> guard_reply oc"
  by (auto simp: single_request_def rbind_eq_Inl json_body_def text_field_def Let_def dest: translation_fields_guard
      split: pyval.splits option.splits if_splits)

lemma batch_request_guard: "batch_request re q = Inl oc \<Longrightarrow> guard_reply oc"
  by (auto simp: batch_request_def rbind_eq_Inl json_body_def paragraph_list_def paragraph_count_def paragraph_texts_def
      dest: translation_fields_guard split: pyval.splits option.splits if_splits)

subsection \<open>Reads and writes of one text\<close>

text \<open>The text of a hit, its row in the cache before the request, and the contract it is filed under.\<close>

definition fresh_row ::
  "(pystr \<Rightarrow> pystr) \<Rightarrow> (nat \<Rightarrow> datetime \<times> datetime) \<Rightarrow> namespace \<Rightarrow> pystr \<Rightarrow> pystr \<Rightarrow> pystr \<Rightarrow> cache_store \<Rightarrow> pystr \<times> pystr \<times> contract \<Rightarrow> pystr \<Rightarrow> bool" where
  "fresh_row sha clock ns t sl tg st pmc hit \<longleftrightarrow>
     (case pmc of (p, m, c) \<Rightarrow>
       \<exists>scope key j limit r0. contract_scope ns c p m = Inr scope
         \<and> compute_key sha (PStr t) (PStr sl) (PStr tg) (Scope scope) = Inr key
         \<and> cutoff (fst (clock j)) (cs_ttl_days st) = Inr limit
         \<and> map_of (cs_rows st) key = Some r0 \<and> \<not> cr_created_at r0 < limit \<and> hit = cr_translated_text r0)"

lemma fresh_row_from:
  assumes "rows_from st0 st" "distinct_keys (cs_rows st0)" "fresh_row sha clock ns t sl tg st pmc hit"
  shows "fresh_row sha clock ns t sl tg st0 pmc hit"
proof -
  obtain p m c where pmc: "pmc = (p, m, c)" by (cases pmc) auto
  obtain scope key j limit r where r: "contract_scope ns c p m = Inr scope"
    "compute_key sha (PStr t) (PStr sl) (PStr tg) (Scope scope) = Inr key"
    "cutoff (fst (clock j)) (cs_ttl_days st) = Inr limit" "map_of (cs_rows st) key = Some r" "\<not> cr_created_at r < limit"
    "hit = cr_translated_text r"
    using assms(3) by (auto simp: fresh_row_def pmc)
  obtain r0 where r0: "map_of (cs_rows st0) key = Some r0" "cr_translated_text r = cr_translated_text r0" "cr_created_at r = cr_created_at r0"
    using assms(1,2) r(4) unfolding rows_from_def by metis
  have "cs_ttl_days st = cs_ttl_days st0" using assms(1) by (simp add: rows_from_def)
  then show ?thesis using r r0 unfolding fresh_row_def pmc prod.case by metis
qed

lemma probe_contracts_facts:
  assumes "probe_contracts sha clock ns t sl tg k cs se = (r, se')" "distinct_keys (cs_rows (se_cache se))"
  shows "rows_from (se_cache se) (se_cache se')
    \<and> (r = Inr (Some hit) \<longrightarrow> (\<exists>pmc\<in>set cs. fresh_row sha clock ns t sl tg (se_cache se) pmc hit))"
  using assms
proof (induction cs arbitrary: k se)
  case (Cons pmc cs)
  obtain p m c where pmc: "pmc = (p, m, c)" by (cases pmc) auto
  show ?case
  proof (cases "contract_scope ns c p m")
    case (Inr scope)
    obtain g st where g: "cs_get sha (fst (clock k)) (snd (clock k)) (PStr t) (PStr sl) (PStr tg) (Scope scope) True (se_cache se) = (g, st)"
      by fastforce
    have rf: "rows_from (se_cache se) st" using rows_from_get g by (metis snd_conv)
    then have d: "distinct_keys (cs_rows st)" using Cons.prems(2) by (simp add: rows_from_def)
    show ?thesis
    proof (cases "\<exists>h. g = Inr (Some h)")
      case True
      then obtain h where h: "g = Inr (Some h)" by blast
      then have e: "r = Inr (Some h)" "se' = se\<lparr>se_cache := st\<rparr>" using Cons.prems(1) g Inr by (simp_all add: pmc)
      have "fst (cs_get sha (fst (clock k)) (snd (clock k)) (PStr t) (PStr sl) (PStr tg) (Scope scope) True (se_cache se)) = Inr (Some h)"
        using g h by simp
      then have "fresh_row sha clock ns t sl tg (se_cache se) pmc h"
        unfolding cs_get_Some fresh_row_def pmc prod.case using Inr by blast
      then show ?thesis using e rf by auto
    next
      case False
      then have n: "probe_contracts sha clock ns t sl tg (k + 1) cs (se\<lparr>se_cache := st\<rparr>) = (r, se')"
        using Cons.prems(1) g Inr by (auto simp: pmc split: sum.splits option.splits)
      from Cons.IH [OF n] d have "rows_from st (se_cache se')
        \<and> (r = Inr (Some hit) \<longrightarrow> (\<exists>pmc\<in>set cs. fresh_row sha clock ns t sl tg st pmc hit))" by simp
      then show ?thesis using rows_from_trans [OF rf] fresh_row_from [OF rf Cons.prems(2)] unfolding list.set by blast
    qed
  qed (use Cons.prems in \<open>auto simp: pmc\<close>)
qed auto

text \<open>The contracts a text is probed under, and the ones a translation is stored under.\<close>

definition single_contracts :: "prompt_env \<Rightarrow> pystr \<Rightarrow> pystr \<Rightarrow> pystr \<Rightarrow> pyval list \<Rightarrow> contract \<Rightarrow> bool" where
  "single_contracts pe t sl tg gl c \<longleftrightarrow>
     single_cache_contract pe sl tg (Some gl) = Inr c \<or> batch_cache_contract pe [t] [0] sl tg (Some gl) = Inr c"

lemma lookup_contracts_Inr: "lookup_contracts pe t sl tg gl = Inr cs \<Longrightarrow> c \<in> set cs \<Longrightarrow> single_contracts pe t sl tg gl c"
  by (cases "batch_cache_contract pe [t] [0] sl tg (Some gl)")
    (auto simp: lookup_contracts_def single_contracts_def rbind_eq_Inr split: if_splits)

lemma cache_lookup_facts:
  assumes "cache_lookup env clock ns allow gl t sl tg se = (r, se')" "distinct_keys (cs_rows (se_cache se))"
  shows "rows_from (se_cache se) (se_cache se')
    \<and> (r = Inr (Some hit) \<longrightarrow> (\<exists>p m c. (p, m) \<in> set (cache_lookup_backends (sn_pf env) allow) \<and> single_contracts (sn_prompt env) t sl tg gl c
         \<and> fresh_row (pe_sha (sn_prompt env)) clock ns t sl tg (se_cache se) (p, m, c) hit))"
proof (cases "lookup_contracts (sn_prompt env) t sl tg gl")
  case (Inl e)
  then show ?thesis using assms(1) by (auto simp: cache_lookup_def abind_def alift_def)
next
  case (Inr cs)
  from probe_contracts_facts [of "pe_sha (sn_prompt env)" clock ns t sl tg 0, OF _ assms(2), of _ r se' hit] Inr assms(1)
  show ?thesis using lookup_contracts_Inr [OF Inr] by (fastforce simp: cache_lookup_def abind_def alift_def)
qed

lemma put_text_Inr_scope:
  assumes "put_text re clock t r translated backend ct c = (res, c')"
  obtains "c' = c"
  | contract scope where "ct = Inr contract"
      "contract_scope (tr_namespace r) contract backend (model_for_provider (sn_pf (re_service re)) backend) = Inr scope"
      "put_many (re_sha re) (fst clock) (snd clock)
         [(PStr t, PStr (tr_source r), PStr (tr_target r), PStr translated, Scope scope)] c = (res, c')"
  using assms by (auto simp: put_text_def cs_put_def rbind_eq_Inr split: sum.splits)

lemma put_many_distinct:
  "put_many sha now pr es st = (res, st') \<Longrightarrow> distinct_keys (cs_rows st) \<Longrightarrow> distinct_keys (cs_rows st')"
  using fold_upsert_shape(1) by (auto simp: put_many_def put_rows_def Let_def split: sum.splits if_splits)

lemma put_text_distinct:
  "put_text re clock t r translated backend ct c = (res, c') \<Longrightarrow> distinct_keys (cs_rows c) \<Longrightarrow> distinct_keys (cs_rows c')"
  by (erule put_text_Inr_scope) (auto dest: put_many_distinct)

lemma put_text_origin:
  assumes "put_text re clock t r translated backend ct c = (res, c')" "distinct_keys (cs_rows c)" "map_of (cs_rows c') k = Some row"
  shows "(\<exists>r0. map_of (cs_rows c) k = Some r0 \<and> cr_translated_text row = cr_translated_text r0)
      \<or> (\<exists>contract scope. ct = Inr contract
            \<and> contract_scope (tr_namespace r) contract backend (model_for_provider (sn_pf (re_service re)) backend) = Inr scope
            \<and> compute_key (re_sha re) (PStr t) (PStr (tr_source r)) (PStr (tr_target r)) (Scope scope) = Inr k
            \<and> cr_translated_text row = translated)"
  using assms(1)
proof (rule put_text_Inr_scope)
  fix contract scope
  assume c: "ct = Inr contract"
    "contract_scope (tr_namespace r) contract backend (model_for_provider (sn_pf (re_service re)) backend) = Inr scope"
    "put_many (re_sha re) (fst clock) (snd clock)
       [(PStr t, PStr (tr_source r), PStr (tr_target r), PStr translated, Scope scope)] c = (res, c')"
  from put_many_origin [OF c(3) assms(2,3)] consider
      "\<exists>r0. map_of (cs_rows c) k = Some r0 \<and> cr_translated_text row = cr_translated_text r0"
    | r1 where "make_row (re_sha re) (isoformat (fst clock))
         (PStr t, PStr (tr_source r), PStr (tr_target r), PStr translated, Scope scope) = Inr (k, r1)"
        "cr_translated_text row = cr_translated_text r1" unfolding list.set by blast
  then show ?thesis
  proof cases
    case 2
    then show ?thesis using c(1,2) make_row_Inr(1,4) [OF 2(1)] by simp
  qed blast
qed (use assms(3) in blast)

text \<open>The key of a stored translation.\<close>

definition filed_under ::
  "route_env \<Rightarrow> pystr \<Rightarrow> translation_request \<Rightarrow> pyval list \<Rightarrow> pystr \<Rightarrow> pystr \<Rightarrow> bool" where
  "filed_under re t r gl backend k \<longleftrightarrow>
     (\<exists>contract scope. single_contracts (sn_prompt (re_service re)) t (tr_source r) (tr_target r) gl contract
        \<and> contract_scope (tr_namespace r) contract backend (model_for_provider (sn_pf (re_service re)) backend) = Inr scope
        \<and> compute_key (re_sha re) (PStr t) (PStr (tr_source r)) (PStr (tr_target r)) (Scope scope) = Inr k)"

lemma store_single_origin:
  assumes "map_of (cs_rows (se_cache (store_single re io t r gl translated backend se))) k = Some row" "distinct_keys (cs_rows (se_cache se))"
  shows "(\<exists>r0. map_of (cs_rows (se_cache se)) k = Some r0 \<and> cr_translated_text row = cr_translated_text r0)
    \<or> filed_under re t r gl backend k \<and> cr_translated_text row = translated"
proof -
  let ?pe = "sn_prompt (re_service re)"
  let ?single = "single_cache_contract ?pe (tr_source r) (tr_target r) (Some gl)"
  let ?batch = "batch_cache_contract ?pe [t] [0] (tr_source r) (tr_target r) (Some gl)"
  obtain res c where p: "put_text re (si_write io) t r translated backend ?single (se_cache se) = (res, c)" by fastforce
  obtain res2 c2 where p2: "put_text re (si_alias io) t r translated backend ?batch c = (res2, c2)" by fastforce
  note o1 = put_text_origin [OF p assms(2)]
  note o2 = put_text_origin [OF p2 put_text_distinct [OF p assms(2)]]
  have f: "filed_under re t r gl backend k"
    if "ct = ?single \<or> ct = ?batch" "ct = Inr contract"
      "contract_scope (tr_namespace r) contract backend (model_for_provider (sn_pf (re_service re)) backend) = Inr scope"
      "compute_key (re_sha re) (PStr t) (PStr (tr_source r)) (PStr (tr_target r)) (Scope scope) = Inr k" for ct contract scope
    using that unfolding filed_under_def single_contracts_def by metis
  have old: ?thesis if m: "map_of (cs_rows c) k = Some r1" "cr_translated_text row = cr_translated_text r1" for r1
    using o1 [OF m(1)] f m(2) by metis
  show ?thesis
  proof (cases "map_of (cs_rows c) k = Some row")
    case True
    then show ?thesis using old by blast
  next
    case False
    then have "map_of (cs_rows c2) k = Some row"
      using assms(1) p p2 by (auto simp: store_single_def Let_def invalidate_stats_cache_def split: sum.splits)
    from o2 [OF this] show ?thesis using old f by metis
  qed
qed

lemma cache_of_counted [simp]:
  "se_cache (count_request ms h m f se) = se_cache se" "se_cache (count_outcome n se) = se_cache se"
  "se_cache (count_exhaustion x se) = se_cache se" "se_cache (invalidate_stats_cache se) = se_cache se"
  by (simp_all add: count_request_def count_outcome_def count_exhaustion_def invalidate_stats_cache_def)

lemma budget_reply_cache: "budget_reply re rid x se = (oc, se') \<Longrightarrow> se_cache se' = se_cache se"
  by (auto simp: budget_reply_def)

lemma single_failure_cache: "single_failure re rid ms e se = (oc, se') \<Longrightarrow> se_cache se' = se_cache se"
  by (auto simp: single_failure_def Let_def dest: budget_reply_cache split: group_error.splits)

end
