(* ===== verification/Route_Properties.thy ===== *)
theory Route_Properties
  imports Endpoint_Facts
begin

section \<open>Properties of the routes\<close>

subsection \<open>Refusals and policies\<close>

text \<open>A small deployment for the witnesses: the service of theory \<open>Batch_Service_Facts\<close>.\<close>

definition demo_renv :: route_env where
  "demo_renv = \<lparr>re_service = demo_senv, re_queue_wait = 15,
     re_glossary = \<lparr>g_max_entries = 9, g_max_term_chars = 9, g_max_tenant_entries = 9\<rparr>,
     re_feedback = \<lparr>f_max_entries = 9, f_max_key_chars = 9, f_max_tenant_entries = 9\<rparr>, re_codec = []\<rparr>"

definition demo_single_io :: single_io where
  "demo_single_io = \<lparr>si_probe = (\<lambda>_. (ex_now 4, ex_now 4)), si_worker = demo_worker, si_write = (ex_now 4, ex_now 4),
     si_alias = (ex_now 4, ex_now 4), si_elapsed = 1\<rparr>"

definition demo_call :: "pyval \<Rightarrow> route_call" where
  "demo_call body = \<lparr>rq_subject = Some [116], rq_id = JNull, rq_body = body\<rparr>"

text \<open>
  C7: a refused request leaves no trace. Whenever one of the routes answers with a status from 400
  to 499, be it a malformed body, an oversized text, a stale policy, a missing term or a wrong
  credential, the cache, the glossary, the feedback, the held statistics and the counters of the
  route are exactly what they were.
\<close>
theorem refusals_leave_no_trace:
  assumes "client_error oc"
  shows "(translate_route re io q se = (oc, se') \<longrightarrow> se' = se) \<and> (stream_route re io q se = (oc, se') \<longrightarrow> se' = se)
    \<and> (batch_route re bio q se = (oc, se') \<longrightarrow> se' = se) \<and> (glossary_upsert re now q se = (oc, se') \<longrightarrow> se' = se)
    \<and> (glossary_delete re q se = (oc, se') \<longrightarrow> se' = se) \<and> (cache_cleanup cio tok hdr emp q se = (oc, se') \<longrightarrow> se' = se)
    \<and> (feedback_record re now q tab = (oc, tab') \<longrightarrow> tab' = tab)"
  using assms by (auto dest: translate_refusal stream_refusal batch_refusal upsert_refusal delete_refusal cleanup_refusal
      feedback_refusal)

theorem refusals_leave_no_trace_witness:
  "translate_route demo_renv demo_single_io (demo_call PNone) demo_service
     = (error_reply 400 (lit ''Request body must be a JSON object''), demo_service)"
proof -
  obtain se' where r: "translate_route demo_renv demo_single_io (demo_call PNone) demo_service
      = (error_reply 400 (lit ''Request body must be a JSON object''), se')"
    by (simp add: translate_route_def single_request_def json_body_def demo_call_def del: lit_Cons)
  have "client_error (error_reply 400 (lit ''Request body must be a JSON object''))" by (simp del: lit_Cons)
  from refusals_leave_no_trace [OF this] r show ?thesis by blast
qed

text \<open>
  C3: in the modes with browser readers no text is translated under a provider policy the reader
  has not seen. Unless the body carries the localities and the generation in force, each of the
  three translation routes ends in its guards: the cache is not read, no provider is asked, and
  the service is left as it was.
\<close>
theorem translation_needs_seen_policy:
  assumes "sv_mode (re_config re) \<in> set cookie_modes" "\<not> (\<exists>data. rq_body q = PDict data \<and> policy_seen re data)"
  shows "(\<exists>oc. translate_route re io q se = (oc, se) \<and> stream_route re io q se = (oc, se) \<and> guard_reply oc)
    \<and> (\<exists>oc. batch_route re bio q se = (oc, se) \<and> guard_reply oc)"
proof -
  have seen: False if "rq_body q = PDict data" "translation_fields re q data = Inr r" for data r
    using not_stale_seen [OF translation_fields_Inr(2) [OF that(2)]] assms that(1) by blast
  obtain oc where s: "single_request re q = Inl oc"
  proof (cases "single_request re q")
    case (Inr tr)
    then show thesis using seen by (cases tr) (auto elim: single_request_Inr)
  qed blast
  obtain oc' where b: "batch_request re q = Inl oc'"
  proof (cases "batch_request re q")
    case (Inr tr)
    then show thesis using seen by (cases tr) (auto elim: batch_request_Inr)
  qed blast
  have "translate_route re io q se = (oc, se)" "stream_route re io q se = (oc, se)" "batch_route re bio q se = (oc', se)"
    using s b by (simp_all add: translate_route_def stream_route_def batch_route_def)
  then show ?thesis using single_request_guard [OF s] batch_request_guard [OF b] by blast
qed

theorem translation_needs_seen_policy_witness:
  "\<exists>oc. translate_route (demo_renv\<lparr>re_service := demo_senv\<lparr>sn_config := (demo_config 5)\<lparr>sv_mode := Reader_Session_Mode\<rparr>\<rparr>\<rparr>)
     demo_single_io (demo_call (PDict [(lit ''text'', PStr [65])])) demo_service = (oc, demo_service) \<and> guard_reply oc"
proof -
  let ?re = "demo_renv\<lparr>re_service := demo_senv\<lparr>sn_config := (demo_config 5)\<lparr>sv_mode := Reader_Session_Mode\<rparr>\<rparr>\<rparr>"
    and ?q = "demo_call (PDict [(lit ''text'', PStr [65])])"
  have m: "sv_mode (re_config ?re) \<in> set cookie_modes" by (simp add: re_config_def cookie_modes_def)
  have n: "\<not> (\<exists>data. rq_body ?q = PDict data \<and> policy_seen ?re data)" by (simp add: policy_seen_def demo_call_def)
  show ?thesis using translation_needs_seen_policy [OF m n] by blast
qed

subsection \<open>What a single translation reads and writes\<close>

definition tenant_of :: "pystr option \<Rightarrow> pystr" where
  "tenant_of subj = (case subj of None \<Rightarrow> lit ''legacy-anonymous'' | Some s \<Rightarrow> if s = [] then lit ''legacy-anonymous'' else s)"

lemma request_tenant: "single_request re q = Inr (t, r) \<Longrightarrow> fst (tr_namespace r) = tenant_of (rq_subject q)"
  by (erule single_request_Inr, drule translation_fields_Inr(3))
    (auto simp: request_cache_namespace_def tenant_of_def rbind_eq_Inr Let_def dest!: sym [of _ "tr_namespace r"])

lemma translate_route_cases:
  assumes "translate_route re io q se = (oc, se')" "distinct_keys (cs_rows (se_cache se))"
  obtains "rows_from (se_cache se) (se_cache se')" "\<And>hit. oc \<noteq> ok_reply (single_fields hit True 0 (rq_id q))"
  | t r hit s1 where "single_request re q = Inr (t, r)" "oc = ok_reply (single_fields hit True 0 (rq_id q))"
      "probe_single re io t r (request_glossary (re_sha re) (tr_namespace r) se) se = (Inr (Some hit), s1)" "se_cache se' = se_cache s1"
  | t r s1 translated backend where "single_request re q = Inr (t, r)"
      "probe_single re io t r (request_glossary (re_sha re) (tr_namespace r) se) se = (Inr None, s1)"
      "translate_single re io t r (request_glossary (re_sha re) (tr_namespace r) se) = Inr (translated, backend)"
      "oc = ok_reply (single_fields translated False (si_elapsed io) (rq_id q) @ [(lit ''backend'', JStr backend)])"
      "se' = store_single re io t r (request_glossary (re_sha re) (tr_namespace r) se) translated backend
               (count_request (si_elapsed io) 0 1 False s1)"
proof -
  show thesis
  proof (cases "single_request re q")
    case (Inl reply)
    then have "guard_reply oc" "se' = se" using single_request_guard assms(1) by (auto simp: translate_route_def)
    then show ?thesis by (intro that(1)) auto
  next
    case (Inr tr)
    obtain t r where tr: "tr = (t, r)" by fastforce
    let ?gl = "request_glossary (re_sha re) (tr_namespace r) se"
    consider "t = [] \<or> tr_source r = tr_target r" | "t \<noteq> []" "tr_source r \<noteq> tr_target r" by blast
    then show ?thesis
    proof cases
      case 1
      then have "se_cache se' = se_cache se" "\<And>hit. oc \<noteq> ok_reply (single_fields hit True 0 (rq_id q))"
        using assms(1) Inr tr by (auto simp: translate_route_def ok_reply_def single_fields_def split: if_splits)
      then show ?thesis by (intro that(1)) auto
    next
      case 2
      obtain p s1 where p: "probe_single re io t r ?gl se = (p, s1)" by fastforce
      have rf: "rows_from (se_cache se) (se_cache s1)"
        using cache_lookup_facts [OF p [unfolded probe_single_def] assms(2)] by blast
      have run: "translate_route re io q se = (case (p, s1) of
          (Inr (Some hit), s1) \<Rightarrow>
            (ok_reply (single_fields hit True 0 (rq_id q)), invalidate_stats_cache (count_request 0 1 0 False s1))
        | (Inr None, s1) \<Rightarrow> serve_fresh re io q t r ?gl s1
        | (Inl (Raised e), s1) \<Rightarrow> (Uncaught e, s1)
        | (Inl _, s1) \<Rightarrow> (NoReply, s1))"
        using Inr tr 2 p by (simp add: translate_route_def Let_def)
      consider e where "p = Inl e" | hit where "p = Inr (Some hit)" | "p = Inr None" by (cases p) auto
      then show ?thesis
      proof cases
        case 1
        then show ?thesis using run assms(1) rf by (intro that(1)) (auto simp: ok_reply_def split: service_exn.splits)
      next
        case (2 hit)
        then show ?thesis using run assms(1) Inr tr p by (intro that(2) [of t r hit s1]) auto
      next
        case 3
        show ?thesis
        proof (cases "translate_single re io t r ?gl")
          case (Inl e)
          then have f: "single_failure re (rq_id q) (si_elapsed io) e s1 = (oc, se')" using run assms(1) 3 by (simp add: serve_fresh_def)
          have "oc \<noteq> ok_reply (single_fields hit True 0 (rq_id q))" for hit
            using f by (auto simp: single_failure_def Let_def budget_reply_def ok_reply_def code_reply_def split: group_error.splits)
          then show ?thesis using single_failure_cache [OF f] rf by (intro that(1)) auto
        next
          case tb: (Inr tb)
          obtain translated backend where "tb = (translated, backend)" by fastforce
          then show ?thesis using run assms(1) 3 Inr tr p tb by (intro that(3) [of t r s1 translated backend]) (auto simp: serve_fresh_def)
        qed
      qed
    qed
  qed
qed

end
