(* ===== verification/Write_Properties.thy ===== *)
theory Write_Properties
  imports Route_Properties
begin

section \<open>What the routes for one text write\<close>

lemma rows_from_text:
  assumes "rows_from st0 st" "distinct_keys (cs_rows st0)" "map_of (cs_rows st) k = Some row"
  shows "\<exists>r0. map_of (cs_rows st0) k = Some r0 \<and> cr_translated_text row = cr_translated_text r0"
  using assms unfolding rows_from_def by metis

text \<open>A lookup followed by a write: a row is old, or it is the one written.\<close>

lemma stored_after_lookup:
  assumes "probe_single re io t r gl se = (p, s1)" "distinct_keys (cs_rows (se_cache se))"
    and "map_of (cs_rows (se_cache (store_single re io t r gl translated backend (count_request ms h m f s1)))) k = Some row"
  shows "(\<exists>r0. map_of (cs_rows (se_cache se)) k = Some r0 \<and> cr_translated_text row = cr_translated_text r0)
    \<or> filed_under re t r gl backend k \<and> cr_translated_text row = translated"
proof -
  have rf: "rows_from (se_cache se) (se_cache s1)"
    using cache_lookup_facts [OF assms(1) [unfolded probe_single_def] assms(2)] by blast
  then have "distinct_keys (cs_rows (se_cache (count_request ms h m f s1)))" using assms(2) by (simp add: rows_from_def)
  from store_single_origin [OF assms(3) this] show ?thesis using rows_from_text [OF rf assms(2)] by auto
qed

text \<open>
  C5: \<open>/translate\<close> reads and writes within the scope of the request. A reply marked as cached is
  the text of an unexpired row that was there before, under a backend the consent admits and one of
  the two contracts of the text. A row of the cache after the request holds the text of an older
  row, or the translation that the reply shows and the provider returned, filed under the
  authenticated tenant, one of the two contracts and the backend named in the reply.
\<close>
theorem single_translation_scoped:
  assumes "translate_route re io q se = (oc, se')" "distinct_keys (cs_rows (se_cache se))"
  shows "(oc = ok_reply (single_fields hit True 0 (rq_id q)) \<longrightarrow>
      (\<exists>t r p m c. single_request re q = Inr (t, r) \<and> fst (tr_namespace r) = tenant_of (rq_subject q)
         \<and> (p, m) \<in> set (cache_lookup_backends (sn_pf (re_service re)) (tr_allow r))
         \<and> single_contracts (sn_prompt (re_service re)) t (tr_source r) (tr_target r) (request_glossary (re_sha re) (tr_namespace r) se) c
         \<and> fresh_row (re_sha re) (si_probe io) (tr_namespace r) t (tr_source r) (tr_target r) (se_cache se) (p, m, c) hit))
    \<and> (map_of (cs_rows (se_cache se')) k = Some row \<longrightarrow>
        (\<exists>r0. map_of (cs_rows (se_cache se)) k = Some r0 \<and> cr_translated_text row = cr_translated_text r0)
        \<or> (\<exists>t r gl backend. single_request re q = Inr (t, r) \<and> fst (tr_namespace r) = tenant_of (rq_subject q)
             \<and> gl = request_glossary (re_sha re) (tr_namespace r) se
             \<and> translate_single re io t r gl = Inr (cr_translated_text row, backend)
             \<and> oc = ok_reply (single_fields (cr_translated_text row) False (si_elapsed io) (rq_id q) @ [(lit ''backend'', JStr backend)])
             \<and> filed_under re t r gl backend k))"
  using assms
proof (cases rule: translate_route_cases)
  case 1
  then show ?thesis using rows_from_text [OF 1(1) assms(2)] by blast
next
  case (2 t r hit' s1)
  note f = cache_lookup_facts [OF 2(3) [unfolded probe_single_def] assms(2), of hit']
  have "hit = hit'" if "oc = ok_reply (single_fields hit True 0 (rq_id q))" using that 2(2) by (simp add: ok_reply_def single_fields_def)
  then show ?thesis
    using f 2(1) request_tenant [OF 2(1)] rows_from_text [of "se_cache se" "se_cache s1", OF _ assms(2)]
    unfolding 2(4) re_sha_def by blast
next
  case (3 t r s1 translated backend)
  let ?gl = "request_glossary (re_sha re) (tr_namespace r) se"
  have no: "oc \<noteq> ok_reply (single_fields hit True 0 (rq_id q))" using 3(4) by (simp add: ok_reply_def single_fields_def)
  have "(\<exists>r0. map_of (cs_rows (se_cache se)) k = Some r0 \<and> cr_translated_text row = cr_translated_text r0)
    \<or> filed_under re t r ?gl backend k \<and> cr_translated_text row = translated"
    if "map_of (cs_rows (se_cache se')) k = Some row"
    using stored_after_lookup [OF 3(2) assms(2) that [unfolded 3(5)]] .
  then show ?thesis using no 3(1,3,4) request_tenant [OF 3(1)] by blast
qed

text \<open>The demo service answers from its cache.\<close>

definition demo_request :: route_call where
  "demo_request = demo_call (PDict [(lit ''text'', PStr [65]), (lit ''book_id'', PStr [98]), (lit ''chapter_id'', PStr [99])])"

definition demo_wanted :: translation_request where
  "demo_wanted = \<lparr>tr_source = lit ''English'', tr_target = lit ''Spanish'', tr_allow = False, tr_namespace = ([116], [98], [99])\<rparr>"

lemma demo_single_request: "single_request demo_renv demo_request = Inr ([65], demo_wanted)"
proof -
  have v: "validate_languages (PStr (lit ''English'')) (PStr (lit ''Spanish'')) = None"
    by (simp add: validate_languages_def valid_languages_def)
  have st: "strip [65] = [65]" "strip [98] = [98]" "strip [99] = [99]" by (simp_all add: strip_def lstrip_def rstrip_def is_space_def)
  have t: "text_field (re_config demo_renv) [(lit ''text'', PStr [65]), (lit ''book_id'', PStr [98]), (lit ''chapter_id'', PStr [99])] = Inr [65]"
    by (simp add: text_field_def st has_invalid_unicode_def utf8_len_def is_surrogate_def re_config_def demo_renv_def demo_senv_def demo_config_def)
  have n: "namespace_fields demo_renv demo_request [(lit ''text'', PStr [65]), (lit ''book_id'', PStr [98]), (lit ''chapter_id'', PStr [99])]
      = Inr ([116], [98], [99])"
    by (simp add: namespace_fields_def value_error_def request_cache_namespace_def namespace_field_def st is_ctrl_def re_config_def
        demo_renv_def demo_senv_def demo_config_def demo_request_def demo_call_def)
  have p: "policy_fields demo_renv demo_request [(lit ''text'', PStr [65]), (lit ''book_id'', PStr [98]), (lit ''chapter_id'', PStr [99])] = Inr False"
    by (simp add: policy_fields_def value_error_def cloud_fallback_consent_def stale_provider_policy_def re_config_def demo_renv_def
        demo_senv_def demo_config_def)
  have l: "language_fields [(lit ''text'', PStr [65]), (lit ''book_id'', PStr [98]), (lit ''chapter_id'', PStr [99])] = Inr (lit ''English'', lit ''Spanish'')"
    using v by (simp add: language_fields_def field_or_def)
  have "json_body demo_request = Inr [(lit ''text'', PStr [65]), (lit ''book_id'', PStr [98]), (lit ''chapter_id'', PStr [99])]"
    by (simp add: json_body_def demo_request_def demo_call_def)
  then show ?thesis using t n p l by (simp add: single_request_def translation_fields_def demo_wanted_def del: lit_Cons)
qed

lemma demo_hit: "fst (cs_get (\<lambda>_. [7]) (ex_now 4) (ex_now 4) (PStr [65]) (PStr (lit ''English'')) (PStr (lit ''Spanish'')) (Scope demo_scope) True
    (se_cache demo_service)) = Inr (Some [66])"
proof -
  have "\<not> prefix (lit ''<think>'') [66]" by simp
  then show ?thesis unfolding cs_get_Some
  by (simp add: demo_key_of cutoff_def demo_service_def ex_store_def ex_minus [simplified] demo_row_def cached_reasoning_def lstrip_def
      is_space_def del: lit_Cons)
qed

lemma demo_probe:
  "\<exists>s1. probe_single demo_renv demo_single_io [65] demo_wanted (request_glossary (re_sha demo_renv) (tr_namespace demo_wanted) demo_service) demo_service
     = (Inr (Some [66]), s1)"
proof -
  have g: "request_glossary (re_sha demo_renv) (tr_namespace demo_wanted) demo_service = []"
    by (simp add: request_glossary_def list_entries_def demo_service_def demo_wanted_def hash_text_def utf8_len_def is_surrogate_def
        glossary_rows_def book_rows_def)
  have c: "lookup_contracts (sn_prompt demo_senv) [65] (lit ''English'') (lit ''Spanish'') [] = Inr [demo_contract]"
    using demo_single_contract
    by (simp add: lookup_contracts_def batch_cache_contract_def demo_senv_def default_tconfig_def del: lit_Cons)
  have b: "cache_lookup_backends (sn_pf demo_senv) False = [(lit ''local'', lit ''m'')]"
    by (simp add: cache_lookup_backends_def eligible_providers_def demo_senv_def demo_provider_def)
  obtain st where st: "cs_get (\<lambda>_. [7]) (ex_now 4) (ex_now 4) (PStr [65]) (PStr (lit ''English'')) (PStr (lit ''Spanish'')) (Scope demo_scope) True
      (se_cache demo_service) = (Inr (Some [66]), st)" using demo_hit by (metis prod.collapse)
  have "pe_sha (sn_prompt demo_senv) = (\<lambda>_. [7])" by (simp add: demo_senv_def)
  then show ?thesis using c b st demo_scope_of g
    by (simp add: probe_single_def cache_lookup_def abind_def alift_def demo_wanted_def demo_single_io_def demo_renv_def del: lit_Cons)
qed

theorem single_translation_scoped_witness:
  "\<exists>s c. translate_route demo_renv demo_single_io demo_request demo_service = (ok_reply (single_fields [66] True 0 JNull), s)
     \<and> fresh_row (\<lambda>_. [7]) (\<lambda>_. (ex_now 4, ex_now 4)) ([116], [98], [99]) [65] (lit ''English'') (lit ''Spanish'')
          (se_cache demo_service) (lit ''local'', lit ''m'', c) [66]"
proof -
  obtain s1 where s1: "probe_single demo_renv demo_single_io [65] demo_wanted
      (request_glossary (re_sha demo_renv) (tr_namespace demo_wanted) demo_service) demo_service = (Inr (Some [66]), s1)"
    using demo_probe by blast
  have id: "rq_id demo_request = JNull" by (simp add: demo_request_def demo_call_def)
  have "tr_source demo_wanted \<noteq> tr_target demo_wanted" by (simp add: demo_wanted_def)
  then obtain s where t: "translate_route demo_renv demo_single_io demo_request demo_service = (ok_reply (single_fields [66] True 0 (rq_id demo_request)), s)"
    using s1 demo_single_request id by (simp add: translate_route_def Let_def)
  have d: "distinct_keys (cs_rows (se_cache demo_service))" by (simp add: demo_service_def distinct_keys_def)
  from single_translation_scoped [OF t d, of "[66]" "[]" demo_row]
  obtain t' r p m c where f: "single_request demo_renv demo_request = Inr (t', r)"
    "(p, m) \<in> set (cache_lookup_backends (sn_pf (re_service demo_renv)) (tr_allow r))"
    "fresh_row (re_sha demo_renv) (si_probe demo_single_io) (tr_namespace r) t' (tr_source r) (tr_target r) (se_cache demo_service) (p, m, c) [66]"
    by blast
  have e: "t' = [65]" "r = demo_wanted" using f(1) demo_single_request by simp_all
  have pm: "p = lit ''local''" "m = lit ''m''"
    using f(2) unfolding e
    by (simp_all add: cache_lookup_backends_def eligible_providers_def demo_senv_def demo_provider_def demo_renv_def demo_wanted_def)
  have "fresh_row (\<lambda>_. [7]) (\<lambda>_. (ex_now 4, ex_now 4)) ([116], [98], [99]) [65] (lit ''English'') (lit ''Spanish'')
          (se_cache demo_service) (lit ''local'', lit ''m'', c) [66]"
    using f(3) unfolding e pm
    by (simp add: demo_wanted_def re_sha_def demo_renv_def demo_senv_def demo_single_io_def del: lit_Cons)
  then show ?thesis using t id by auto
qed

end
