(* ===== verification/Stream_Properties.thy ===== *)
theory Stream_Properties
  imports Write_Properties
begin

section \<open>What the streaming route shows and stores\<close>

lemma stream_cases:
  assumes "stream_route re io q se = (oc, se')" "distinct_keys (cs_rows (se_cache se))"
  obtains "rows_from (se_cache se) (se_cache se')"
  | t r s1 out where "single_request re q = Inr (t, r)"
      "probe_single re io t r (request_glossary (re_sha re) (tr_namespace r) se) se = (Inr None, s1)"
      "stream_result re io t r (request_glossary (re_sha re) (tr_namespace r) se) = (out, SeComplete)"
      "complete_translation out \<noteq> []"
      "oc = EventStream (map (\<lambda>d. SseDelta (fst d) False) out
              @ [SseDone (done_fields (complete_translation out) (backend_used out) (si_elapsed io) (rq_id q))])"
      "se' = store_single re io t r (request_glossary (re_sha re) (tr_namespace r) se) (complete_translation out) (backend_used out)
               (count_request (si_elapsed io) 0 1 False s1)"
proof (cases "single_request re q")
  case (Inl reply)
  then show thesis using assms(1) by (intro that(1)) (auto simp: stream_route_def)
next
  case (Inr tr)
  obtain t r where tr: "tr = (t, r)" by fastforce
  let ?gl = "request_glossary (re_sha re) (tr_namespace r) se"
  obtain p s1 where p: "probe_single re io t r ?gl se = (p, s1)" by fastforce
  have rf: "rows_from (se_cache se) (se_cache s1)"
    using cache_lookup_facts [OF p [unfolded probe_single_def] assms(2)] by blast
  show thesis
  proof (cases "t = [] \<or> tr_source r = tr_target r \<or> p \<noteq> Inr None")
    case True
    then have "se_cache se' = se_cache se \<or> se_cache se' = se_cache s1"
      using assms(1) Inr tr p
      by (auto simp: stream_route_def Let_def split: if_splits sum.splits option.splits service_exn.splits)
    then show ?thesis using rf by (intro that(1)) auto
  next
    case False
    obtain out ending where e: "stream_result re io t r ?gl = (out, ending)" by fastforce
    have f: "finish_stream re io q t r ?gl out ending s1 = (ev, se') \<and> oc = EventStream (map (\<lambda>d. SseDelta (fst d) False) out @ [ev])"
      if "ev = fst (finish_stream re io q t r ?gl out ending s1)" for ev
      using assms(1) Inr tr p False e that by (auto simp: stream_route_def stream_fresh_def split: prod.splits)
    show ?thesis
    proof (cases "ending = SeComplete \<and> complete_translation out \<noteq> []")
      case True
      then show ?thesis using f [OF refl] Inr tr p False e
        by (intro that(2) [of t r s1 out]) (auto simp: finish_stream_def Let_def)
    next
      case failed: False
      then have "se_cache se' = se_cache s1"
        using f [OF refl] by (auto simp: finish_stream_def Let_def split: stream_end.splits if_splits)
      then show ?thesis using rf by (intro that(1)) simp
    qed
  qed
qed

text \<open>
  C4: the stream stores what it showed, and only when it is complete. After \<open>/translate/stream\<close> a
  row of the cache holds the text of an older row, or the stream ended with its \<open>done\<close> event and the
  row holds the text of that event: the deltas the reader received, joined and stripped, not empty,
  filed under the authenticated tenant, a contract of the text and the backend that sent them. A
  stream that is interrupted, too large, empty or out of budget stores nothing.
\<close>
theorem stream_stores_what_was_shown:
  assumes "stream_route re io q se = (oc, se')" "distinct_keys (cs_rows (se_cache se))"
    and "map_of (cs_rows (se_cache se')) k = Some row"
  shows "(\<exists>r0. map_of (cs_rows (se_cache se)) k = Some r0 \<and> cr_translated_text row = cr_translated_text r0)
    \<or> (\<exists>t r gl out. single_request re q = Inr (t, r) \<and> fst (tr_namespace r) = tenant_of (rq_subject q)
         \<and> stream_result re io t r gl = (out, SeComplete)
         \<and> oc = EventStream (map (\<lambda>d. SseDelta (fst d) False) out
                 @ [SseDone (done_fields (cr_translated_text row) (backend_used out) (si_elapsed io) (rq_id q))])
         \<and> cr_translated_text row = strip (concat (map fst out)) \<and> cr_translated_text row \<noteq> []
         \<and> filed_under re t r gl (backend_used out) k)"
  using assms(1,2)
proof (cases rule: stream_cases)
  case 1
  then show ?thesis using rows_from_text [OF 1 assms(2,3)] by blast
next
  case (2 t r s1 out)
  from stored_after_lookup [OF 2(2) assms(2) assms(3) [unfolded 2(6)]]
  show ?thesis using 2(1,3,4,5) request_tenant [OF 2(1)] unfolding complete_translation_def by metis
qed

theorem stream_stores_what_was_shown_witness:
  "\<exists>oc s. stream_route demo_renv demo_single_io demo_request demo_service = (oc, s)
     \<and> oc = EventStream [SseDelta [66] True, SseDone (single_fields [66] True 0 JNull)]
     \<and> (\<forall>row. map_of (cs_rows (se_cache s)) [7] = Some row \<longrightarrow> cr_translated_text row = [66])"
proof -
  obtain s1 where s1: "probe_single demo_renv demo_single_io [65] demo_wanted
      (request_glossary (re_sha demo_renv) (tr_namespace demo_wanted) demo_service) demo_service = (Inr (Some [66]), s1)"
    using demo_probe by blast
  have id: "rq_id demo_request = JNull" by (simp add: demo_request_def demo_call_def)
  have "tr_source demo_wanted \<noteq> tr_target demo_wanted" by (simp add: demo_wanted_def)
  then obtain s where t: "stream_route demo_renv demo_single_io demo_request demo_service
      = (EventStream [SseDelta [66] True, SseDone (single_fields [66] True 0 JNull)], s)"
    using s1 demo_single_request id by (simp add: stream_route_def one_delta_def Let_def)
  have d: "distinct_keys (cs_rows (se_cache demo_service))" by (simp add: demo_service_def distinct_keys_def)
  have "cr_translated_text row = [66]" if "map_of (cs_rows (se_cache s)) [7] = Some row" for row
    using stream_stores_what_was_shown [OF t d that]
  proof (elim disjE exE conjE)
    fix r0 assume r0: "map_of (cs_rows (se_cache demo_service)) [7] = Some r0" "cr_translated_text row = cr_translated_text r0"
    then have "r0 = demo_row" by (simp add: demo_service_def)
    then show ?thesis using r0(2) by (simp add: demo_row_def)
  next
    fix t r gl out
    assume "EventStream [SseDelta [66] True, SseDone (single_fields [66] True 0 JNull)]
      = EventStream (map (\<lambda>d. SseDelta (fst d) False) out
          @ [SseDone (done_fields (cr_translated_text row) (backend_used out) (si_elapsed demo_single_io) (rq_id demo_request))])"
    then show ?thesis by (cases out) auto
  qed
  then show ?thesis using t by blast
qed

subsection \<open>The text of the stream\<close>

text \<open>A client that reads the text of an event stream: an event ends with a blank line.\<close>

fun sse_frames :: "pystr \<Rightarrow> pystr \<Rightarrow> pystr list" where
  "sse_frames frame [] = (if frame = [] then [] else [frame])"
| "sse_frames frame [c] = [frame @ [c]]"
| "sse_frames frame (c # d # s) = (if c = 10 \<and> d = 10 then frame # sse_frames [] s else sse_frames (frame @ [c]) (d # s))"

text \<open>ASCII text without line breaks.\<close>

definition one_line :: "pystr \<Rightarrow> bool" where
  "one_line s \<longleftrightarrow> list_all (\<lambda>c. c \<noteq> 10 \<and> c < 128) s"

lemma one_line_simps [simp]:
  "one_line []" "one_line (a @ b) \<longleftrightarrow> one_line a \<and> one_line b" "one_line (c # s) \<longleftrightarrow> c \<noteq> 10 \<and> c < 128 \<and> one_line s"
  by (auto simp: one_line_def)

lemma one_line_concat: "\<forall>x\<in>set xs. one_line x \<Longrightarrow> one_line (concat xs)"
  by (auto simp: one_line_def list_all_iff)

lemma one_line_join: "one_line sep \<Longrightarrow> \<forall>x\<in>set xs. one_line x \<Longrightarrow> one_line (join sep xs)"
  by (induction sep xs rule: join.induct) auto

lemma hex_digit_line: "n < 16 \<Longrightarrow> hex_digit n \<noteq> 10 \<and> hex_digit n < 128"
  by (simp add: hex_digit_def)

lemma ascii_str_line: "one_line (ascii_str s)"
proof -
  have "one_line (ascii_char c)" for c by (simp add: ascii_char_def hex4_def hex_digit_line)
  then show ?thesis by (simp add: ascii_str_def one_line_concat)
qed

lemma show_nat_line: "one_line (show_nat n)"
  unfolding one_line_def list_all_iff using show_nat_digits is_digit_def by fastforce

lemma ascii_dumps_line: "one_line (ascii_dumps v)"
proof (induction v)
  case (JInt i)
  show ?case by (simp add: show_int_def show_nat_line)
next
  case (JList xs)
  then show ?case by (auto intro!: one_line_join)
next
  case (JDict ps)
  have "\<forall>x\<in>set (map (\<lambda>p. ascii_str (fst p) @ lit '': '' @ ascii_dumps (snd p)) ps). one_line x"
    using JDict by (auto simp: ascii_str_line)
  from one_line_join [OF _ this, of "lit '', ''"] show ?case by simp
qed (auto simp: ascii_str_line)

lemma frames_line: "one_line l \<Longrightarrow> l \<noteq> [] \<Longrightarrow> sse_frames frame (l @ 10 # 10 # s) = (frame @ l) # sse_frames [] s"
proof (induction l arbitrary: frame)
  case (Cons c l)
  then show ?case by (cases l) auto
qed simp

text \<open>The event name and its data line by line.\<close>

fun frame_lines :: "sse_event \<Rightarrow> pystr list" where
  "frame_lines (SseDelta d hit) = [data_line [(lit ''delta'', JStr d), (lit ''cached'', JBool hit)]]"
| "frame_lines (SseDone fs) = [lit ''event: done'', data_line fs]"
| "frame_lines (SseError fs) = [lit ''event: error'', data_line fs]"

lemma frame_body_lines: "frame_body e = join [10] (frame_lines e)"
  by (cases e) simp_all

lemma data_line_line: "one_line (data_line fs)" "data_line fs \<noteq> []"
  by (simp_all add: data_line_def ascii_dumps_line del: ascii_dumps.simps)

lemma frames_two_lines:
  "one_line a \<Longrightarrow> one_line b \<Longrightarrow> b \<noteq> [] \<Longrightarrow> sse_frames frame (a @ 10 # b @ 10 # 10 # s) = (frame @ a @ 10 # b) # sse_frames [] s"
proof (induction a arbitrary: frame)
  case Nil
  then obtain c t where b: "b = c # t" by (cases b) auto
  then have "sse_frames frame (10 # b @ 10 # 10 # s) = sse_frames (frame @ [10]) (b @ 10 # 10 # s)" using Nil.prems(2) by simp
  then show ?case using frames_line [OF Nil.prems(2,3), of "frame @ [10]" s] by simp
next
  case (Cons c a)
  then show ?case by (cases a) auto
qed

lemma frames_event: "sse_frames [] (frame_body e @ 10 # 10 # s) = frame_body e # sse_frames [] s"
proof (cases e)
  case (SseDelta d hit)
  then show ?thesis using frames_line [OF data_line_line] by simp
next
  case (SseDone fs)
  have "one_line (lit ''event: done'')" by simp
  from frames_two_lines [OF this data_line_line, of "[]" fs s] show ?thesis using SseDone by (simp del: lit_Cons)
next
  case (SseError fs)
  have "one_line (lit ''event: error'')" by simp
  from frames_two_lines [OF this data_line_line, of "[]" fs s] show ?thesis using SseError by (simp del: lit_Cons)
qed

lemma split_line:
  "one_line l \<Longrightarrow> split_on 10 l = [l]" "one_line l \<Longrightarrow> split_on 10 (l @ 10 # s) = l # split_on 10 s"
  by (induction l) auto

text \<open>
  C15: the text of a stream reads back as its events. A client that ends an event at each blank line
  gets exactly one frame per event, in order, and each frame consists of the name of the event, if
  it has one, and one data line of ASCII characters: no translation, whatever it contains, ends a
  frame early, starts another event or renames one.
\<close>
theorem stream_text_frames:
  "sse_frames [] (wire es) = map frame_body es
   \<and> map (split_on 10) (map frame_body es) = map frame_lines es \<and> list_all (\<lambda>c. c < 128) (wire es)"
proof (intro conjI)
  show "sse_frames [] (wire es) = map frame_body es"
    by (induction es) (simp_all add: wire_def frames_event)
  have ascii: "list_all (\<lambda>c. c < 128) l" if "one_line l" for l
    using that by (auto simp: one_line_def list_all_iff)
  have "list_all (\<lambda>c. c < 128) (frame_body e)" for e
    using ascii [OF data_line_line(1)] by (cases e) simp_all
  then show "list_all (\<lambda>c. c < 128) (wire es)" by (induction es) (simp_all add: wire_def)
  have "split_on 10 (frame_body e) = frame_lines e" for e
  proof (cases e)
    case (SseDelta d hit)
    then show ?thesis using split_line(1) data_line_line(1) by simp
  next
    case (SseDone fs)
    have "one_line (lit ''event: done'')" by simp
    from split_line(2) [OF this, of "data_line fs"] show ?thesis using SseDone split_line(1) [OF data_line_line(1)] by (simp del: lit_Cons)
  next
    case (SseError fs)
    have "one_line (lit ''event: error'')" by simp
    from split_line(2) [OF this, of "data_line fs"] show ?thesis using SseError split_line(1) [OF data_line_line(1)] by (simp del: lit_Cons)
  qed
  then show "map (split_on 10) (map frame_body es) = map frame_lines es" by simp
qed

end
