(* ===== verification/Cleanup_Facts.thy ===== *)
theory Cleanup_Facts
  imports Route_Properties
begin

section \<open>Cleanup of the cache\<close>

text \<open>
  The worker processes of a deployment agree on one cleanup token, and a cleanup needs it and keeps
  every row that is not older than the requested number of days.
\<close>

subsection \<open>One token\<close>

text \<open>What \<open>secrets.token_urlsafe\<close> returns: not empty, without white space at its ends and short.\<close>

definition clean_token :: "pystr \<Rightarrow> bool" where
  "clean_token t \<longleftrightarrow> t \<noteq> [] \<and> strip t = t \<and> length t \<le> 4096"

text \<open>Requests for cleanup that arrive at any worker, in any order, with any outcome of the system calls.\<close>

inductive cleanup_reachable :: "pystr \<Rightarrow> deployment \<Rightarrow> deployment \<Rightarrow> bool" for api_token dp0 where
  start: "cleanup_reachable api_token dp0 dp0"
| request: "cleanup_reachable api_token dp0 dp \<Longrightarrow> w < length (dp_workers dp) \<Longrightarrow> clean_token (ti_fresh (ci_token io)) \<Longrightarrow>
    cleanup_request api_token io w header empty_body q dp = (reply, dp') \<Longrightarrow> cleanup_reachable api_token dp0 dp'"

definition token_in_file :: "token_path \<Rightarrow> pystr \<Rightarrow> bool" where
  "token_in_file path t \<longleftrightarrow> (case path of TokenFile m (Some s) \<Rightarrow> strip s = t \<and> length s \<le> 4096 \<and> t \<noteq> [] | _ \<Rightarrow> False)"

text \<open>Every token a worker holds is the one in the file.\<close>

definition tokens_agree :: "deployment \<Rightarrow> bool" where
  "tokens_agree dp \<longleftrightarrow> (\<forall>w<length (dp_workers dp). \<forall>t. dp_workers dp ! w = Some t \<longrightarrow> token_in_file (dp_path dp) t)"

lemma read_token_keeps:
  assumes "read_cleanup_token_file io path = (r, path')"
  shows "token_in_file path t \<Longrightarrow> token_in_file path' t" "r = Inr t \<Longrightarrow> t \<noteq> [] \<Longrightarrow> token_in_file path' t"
  using assms by (auto simp: read_cleanup_token_file_def token_in_file_def split: token_path.splits if_splits option.splits)

lemma token_in_file_read:
  "token_in_file path t \<Longrightarrow> read_cleanup_token_file io path = (Inr s, path') \<Longrightarrow> s = t"
  by (auto simp: read_cleanup_token_file_def token_in_file_def split: token_path.splits if_splits option.splits)

lemma token_in_file_not_Nil: "token_in_file path t \<Longrightarrow> t \<noteq> []"
  by (auto simp: token_in_file_def split: token_path.splits option.splits)

lemma persist_token_keeps:
  assumes "persist_cleanup_token io path = (r, path')" "clean_token (ti_fresh io)"
  shows "token_in_file path t \<Longrightarrow> token_in_file path' t" "r = Inr (t, new) \<Longrightarrow> token_in_file path' t"
proof -
  obtain rr p where rd: "read_cleanup_token_file io path = (rr, p)" by fastforce
  have gone: "rr \<noteq> Inr []" if "token_in_file path t"
    using token_in_file_read [OF that, of io "[]" p] rd token_in_file_not_Nil [OF that] by auto
  show "token_in_file path' t" if "token_in_file path t"
    using assms(1) rd that gone read_token_keeps(1) [OF rd that]
    by (auto simp: persist_cleanup_token_def split: sum.splits if_splits)
  show "token_in_file path' t" if "r = Inr (t, new)"
    using assms rd that read_token_keeps(2) [OF rd]
    by (auto simp: persist_cleanup_token_def clean_token_def token_in_file_def split: sum.splits if_splits)
qed

lemma get_token_keeps:
  assumes "get_cleanup_token api_token io held path = (r, held', path')" "clean_token (ti_fresh io)" "api_token = []"
  shows "token_in_file path t \<Longrightarrow> token_in_file path' t"
    "\<forall>t. held = Some t \<longrightarrow> token_in_file path t \<Longrightarrow> held' = Some t \<Longrightarrow> token_in_file path' t"
    "r = Inr t \<Longrightarrow> held' = Some t"
  using assms persist_token_keeps
  by (auto simp: get_cleanup_token_def split: option.splits sum.splits prod.splits)

lemma token_in_file_unique: "token_in_file path t \<Longrightarrow> token_in_file path u \<Longrightarrow> t = u"
  by (auto simp: token_in_file_def split: token_path.splits option.splits)

lemma cleanup_request_agree:
  assumes "tokens_agree dp" "cleanup_request [] io w header empty_body q dp = (reply, dp')" "w < length (dp_workers dp)"
    and "clean_token (ti_fresh (ci_token io))"
  shows "tokens_agree dp'" "length (dp_workers dp') = length (dp_workers dp)"
proof -
  obtain token held path where g: "get_cleanup_token [] (ci_token io) (dp_workers dp ! w) (dp_path dp) = (token, held, path)"
    by (metis prod.exhaust)
  have d: "dp_workers dp' = (dp_workers dp)[w := held]" "dp_path dp' = path"
    using assms(2) g by (auto simp: cleanup_request_def split: prod.splits)
  note k = get_token_keeps [OF g assms(4) refl]
  have "token_in_file path t" if "v < length (dp_workers dp)" "(dp_workers dp)[w := held] ! v = Some t" for v t
    using that k(1,2) assms(1,3) by (cases "v = w") (auto simp: tokens_agree_def)
  then show "tokens_agree dp'" by (simp add: tokens_agree_def d)
  show "length (dp_workers dp') = length (dp_workers dp)" by (simp add: d)
qed

lemma reachable_agree: "cleanup_reachable [] dp0 dp \<Longrightarrow> tokens_agree dp0 \<Longrightarrow> tokens_agree dp"
  by (induction rule: cleanup_reachable.induct) (auto dest: cleanup_request_agree)

text \<open>
  C12: all workers of a deployment agree on one cleanup token. Start from workers that hold none,
  whatever the path of the token file holds, and let requests arrive at any workers in any order
  while system calls fail at any point. Two workers that hold a token hold the same one, it is the
  one in the file, and the next request at any worker is compared with that token or refused with
  a 503: no worker ever falls back to a credential of its own.
\<close>
theorem cleanup_token_agreed:
  assumes "cleanup_reachable [] dp0 dp" "\<forall>t. Some t \<notin> set (dp_workers dp0)" "w < length (dp_workers dp)" "v < length (dp_workers dp)"
    and "dp_workers dp ! w = Some t" "clean_token (ti_fresh (ci_token io))"
    and "get_cleanup_token [] (ci_token io) (dp_workers dp ! v) (dp_path dp) = (answer, held, path)"
  shows "token_in_file (dp_path dp) t \<and> (dp_workers dp ! v = None \<or> dp_workers dp ! v = Some t)
    \<and> (answer = Inr t \<or> fst (cleanup_request [] io v header empty_body q dp) = code_reply 503 ''cleanup_credential_unavailable'' (rq_id q))"
proof -
  have "tokens_agree dp0" using assms(2) unfolding tokens_agree_def by (metis nth_mem)
  from reachable_agree [OF assms(1) this] have a: "tokens_agree dp" .
  then have f: "token_in_file (dp_path dp) t" using assms(3,5) by (simp add: tokens_agree_def)
  have v: "dp_workers dp ! v = None \<or> dp_workers dp ! v = Some t"
    using a assms(4) token_in_file_unique [OF f] by (cases "dp_workers dp ! v") (auto simp: tokens_agree_def)
  note k = get_token_keeps [OF assms(7,6) refl]
  have "answer = Inr t \<or> answer = Inl ()"
  proof (cases answer)
    case (Inr u)
    have "token_in_file path t" by (rule k(1) [OF f])
    moreover have "token_in_file path u" using k(2) [of u] k(3) [OF Inr] v f by auto
    ultimately show ?thesis using Inr token_in_file_unique by blast
  qed simp
  then show ?thesis using f v assms(7) by (auto simp: cleanup_request_def cache_cleanup_def)
qed

definition demo_token_io :: token_io where
  "demo_token_io = \<lparr>ti_dir = True, ti_lock_open = True, ti_lock_regular = True, ti_open = True, ti_mode = 384, ti_fresh = [65], ti_write = True\<rparr>"

definition demo_cleanup_io :: cleanup_io where
  "demo_cleanup_io = \<lparr>ci_token = demo_token_io, ci_flush = ex_now 4, ci_now = ex_now 4\<rparr>"

definition demo_deployment :: "pystr option \<Rightarrow> token_path \<Rightarrow> deployment" where
  "demo_deployment first path = \<lparr>dp_workers = [first, None], dp_path = path, dp_service = demo_service\<rparr>"

lemma demo_clean: "clean_token (ti_fresh (ci_token demo_cleanup_io))"
  by (simp add: clean_token_def demo_cleanup_io_def demo_token_io_def strip_def lstrip_def rstrip_def is_space_def)

theorem cleanup_token_agreed_witness:
  "token_in_file (TokenFile 384 (Some [65])) [65]
   \<and> get_cleanup_token [] demo_token_io None (TokenFile 384 (Some [65])) = (Inr [65], Some [65], TokenFile 384 (Some [65]))"
proof -
  have r: "cleanup_request [] demo_cleanup_io 0 [] True (demo_call PNone) (demo_deployment None NoFile)
      = (code_reply 401 ''Unauthorized'' JNull, demo_deployment (Some [65]) (TokenFile 384 (Some [65])))"
    by (simp add: cleanup_request_def demo_deployment_def demo_cleanup_io_def get_cleanup_token_def persist_cleanup_token_def
        read_cleanup_token_file_def demo_token_io_def cache_cleanup_def token_matches_def demo_call_def del: lit_Cons)
  have s: "cleanup_reachable [] (demo_deployment None NoFile) (demo_deployment (Some [65]) (TokenFile 384 (Some [65])))"
    by (rule cleanup_reachable.request [OF cleanup_reachable.start _ demo_clean r]) (simp add: demo_deployment_def)
  have n: "\<forall>t. Some t \<notin> set (dp_workers (demo_deployment None NoFile))" by (simp add: demo_deployment_def)
  have g: "get_cleanup_token [] demo_token_io None (TokenFile 384 (Some [65])) = (Inr [65], Some [65], TokenFile 384 (Some [65]))"
    by (simp add: get_cleanup_token_def persist_cleanup_token_def read_cleanup_token_file_def demo_token_io_def strip_def lstrip_def
        rstrip_def is_space_def)
  have "get_cleanup_token [] (ci_token demo_cleanup_io) (dp_workers (demo_deployment (Some [65]) (TokenFile 384 (Some [65]))) ! 1)
      (dp_path (demo_deployment (Some [65]) (TokenFile 384 (Some [65])))) = (Inr [65], Some [65], TokenFile 384 (Some [65]))"
    using g by (simp add: demo_deployment_def demo_cleanup_io_def)
  from cleanup_token_agreed [OF s n _ _ _ demo_clean this, of 0 "[65]"] show ?thesis using g by (simp add: demo_deployment_def)
qed

subsection \<open>What a cleanup removes\<close>

lemma map_of_bump_keeps:
  "map_of d k = Some r \<Longrightarrow>
   \<exists>r'. map_of (fold (bump_hit a) ps d) k = Some r' \<and> cr_translated_text r' = cr_translated_text r \<and> cr_created_at r' = cr_created_at r"
proof (induction ps arbitrary: d r)
  case (Cons p ps)
  obtain r1 where "map_of (bump_hit a p d) k = Some r1" "cr_translated_text r1 = cr_translated_text r" "cr_created_at r1 = cr_created_at r"
    using Cons.prems that by (cases "k = fst p") (simp_all add: bump_hit_def map_of_map_entry)
  then show ?case using Cons.IH [of "bump_hit a p d" r1] by auto
qed simp

lemma cleanup_keeps_recent:
  assumes "cleanup fl now (Some (PInt n)) st = (res, st')" "1 \<le> n" "distinct_keys (cs_rows st)" "length (cs_rows st) \<le> cs_max_entries st"
    and "map_of (cs_rows st) k = Some r" "\<And>limit. cutoff now (nat n) = Inr limit \<Longrightarrow> \<not> cr_created_at r < limit"
  shows "\<exists>r'. map_of (cs_rows st') k = Some r' \<and> cr_translated_text r' = cr_translated_text r \<and> cr_created_at r' = cr_created_at r"
proof -
  let ?f = "snd (flush_hits fl st)"
  have e: "cs_rows ?f = fold (bump_hit (isoformat fl)) (cs_pending_hits st) (cs_rows st)" by (simp add: flush_hits_def)
  obtain r1 where r1: "map_of (cs_rows ?f) k = Some r1" "cr_translated_text r1 = cr_translated_text r" "cr_created_at r1 = cr_created_at r"
    using map_of_bump_keeps [OF assms(5), of "isoformat fl" "cs_pending_hits st"] e by auto
  show ?thesis
  proof (cases "cutoff now (nat n)")
    case (Inl e)
    then have "st' = ?f" using assms(1,2) by (auto simp: cleanup_def Let_def)
    then show ?thesis using r1 by blast
  next
    case (Inr limit)
    have keep: "map_of (delete_expired limit (cs_rows ?f)) k = Some r1"
      unfolding delete_expired_def using r1 assms(3) assms(6) [OF Inr] by (intro map_of_filter_keep) simp_all
    have "length (delete_expired limit (cs_rows ?f)) \<le> cs_max_entries ?f"
      unfolding delete_expired_def using assms(4) order_trans [OF length_filter_le, of "cs_rows ?f"] by simp
    then have "cs_rows st' = delete_expired limit (cs_rows ?f)"
      using assms(1,2) Inr by (auto simp: cleanup_def Let_def enforce_cap_id)
    then show ?thesis using keep r1 by auto
  qed
qed

text \<open>
  C14: only the operator cleans the cache, and a cleanup removes only old rows. A request to
  \<open>/cache/cleanup\<close> that changes the service carried the non-empty token of the deployment and asked
  for a number of days from 1 to 3650; every row that is not older than these days is still there
  with its text, and the glossary and the counters are untouched. A request without the token, or
  while the token cannot be established, changes nothing.
\<close>
theorem cleanup_guarded:
  assumes "cache_cleanup io token header empty_body q se = (oc, se')" "se' \<noteq> se"
    and "distinct_keys (cs_rows (se_cache se))" "length (cs_rows (se_cache se)) \<le> cs_max_entries (se_cache se)"
  shows "\<exists>data days. token = Inr header \<and> header \<noteq> [] \<and> cleanup_body empty_body q = Inr data
     \<and> cleanup_days (field_or data ''days'' (PInt 30)) = Some days \<and> 1 \<le> days \<and> days \<le> 3650
     \<and> se_glossary se' = se_glossary se \<and> se_metrics se' = se_metrics se
     \<and> (\<forall>k r. map_of (cs_rows (se_cache se)) k = Some r \<and> (\<forall>limit. cutoff (ci_now io) (nat days) = Inr limit \<longrightarrow> \<not> cr_created_at r < limit)
          \<longrightarrow> (\<exists>r'. map_of (cs_rows (se_cache se')) k = Some r' \<and> cr_translated_text r' = cr_translated_text r))"
proof -
  obtain data days where d: "token = Inr header" "header \<noteq> []" "cleanup_body empty_body q = Inr data"
    "cleanup_days (field_or data ''days'' (PInt 30)) = Some days" "run_cleanup io days se = (oc, se')"
    using assms(1,2) by (auto simp: cache_cleanup_def token_matches_def split: sum.splits if_splits option.splits)
  have n: "1 \<le> days" "days \<le> 3650" using d(4) by (auto simp: cleanup_days_def split: pyval.splits if_splits)
  obtain res c where c: "cleanup (ci_flush io) (ci_now io) (Some (PInt days)) (se_cache se) = (res, c)" by fastforce
  have s: "se_cache se' = c" "se_glossary se' = se_glossary se" "se_metrics se' = se_metrics se"
    using d(5) c by (auto simp: run_cleanup_def invalidate_stats_cache_def split: sum.splits)
  show ?thesis using d n s cleanup_keeps_recent [OF c n(1) assms(3,4)] by blast
qed


theorem cleanup_guarded_witness:
  "\<exists>oc se'. cache_cleanup demo_cleanup_io (Inr [65]) [65] False (demo_call (PDict [(lit ''days'', PInt 1)])) (demo_service\<lparr>se_stats := Some (0, 0)\<rparr>)
     = (oc, se') \<and> (\<exists>r'. map_of (cs_rows (se_cache se')) [7] = Some r' \<and> cr_translated_text r' = [66])"
proof -
  let ?se = "demo_service\<lparr>se_stats := Some (0, 0)\<rparr>" and ?q = "demo_call (PDict [(lit ''days'', PInt 1)])"
  obtain oc se' where r: "cache_cleanup demo_cleanup_io (Inr [65]) [65] False ?q ?se = (oc, se')" by fastforce
  have ct: "cutoff (ex_now 4) 1 = Inr (isoformat (ex_now 3))" by (simp add: cutoff_def ex_minus [simplified])
  have b: "cleanup_body False ?q = Inr [(lit ''days'', PInt 1)]" by (simp add: cleanup_body_def json_body_def demo_call_def)
  have dd: "cleanup_days (field_or [(lit ''days'', PInt 1)] ''days'' (PInt 30)) = Some 1" by (simp add: cleanup_days_def field_or_def)
  have "fst (cleanup (ex_now 4) (ex_now 4) (Some (PInt 1)) (se_cache ?se)) = Inr (length (cs_rows (snd (flush_hits (ex_now 4) (se_cache ?se))))
      - length (delete_expired (isoformat (ex_now 3)) (cs_rows (snd (flush_hits (ex_now 4) (se_cache ?se))))))"
    using ct by (simp add: cleanup_def Let_def)
  then have "se_stats se' = None"
    using r b dd by (auto simp: cache_cleanup_def token_matches_def is_ascii_def run_cleanup_def demo_cleanup_io_def invalidate_stats_cache_def
        split: sum.splits prod.splits)
  then have "se' \<noteq> ?se" by auto
  moreover have "distinct_keys (cs_rows (se_cache ?se))" "length (cs_rows (se_cache ?se)) \<le> cs_max_entries (se_cache ?se)"
    by (simp_all add: demo_service_def distinct_keys_def ex_store_def)
  ultimately obtain data days where g: "cleanup_body False ?q = Inr data" "cleanup_days (field_or data ''days'' (PInt 30)) = Some days"
    "\<forall>k r. map_of (cs_rows (se_cache ?se)) k = Some r \<and> (\<forall>limit. cutoff (ci_now demo_cleanup_io) (nat days) = Inr limit \<longrightarrow> \<not> cr_created_at r < limit)
          \<longrightarrow> (\<exists>r'. map_of (cs_rows (se_cache se')) k = Some r' \<and> cr_translated_text r' = cr_translated_text r)"
    using cleanup_guarded [OF r] by blast
  have "days = 1" using g(1,2) b dd by simp
  then have "\<exists>r'. map_of (cs_rows (se_cache se')) [7] = Some r' \<and> cr_translated_text r' = [66]"
    using g(3) [rule_format, of "[7]" demo_row] ct by (simp add: demo_cleanup_io_def demo_service_def demo_row_def)
  then show ?thesis using r by blast
qed

end
