(* ===== verification/Spec2Isabelle.thy ===== *)
theory Spec2Isabelle
  imports Config Work_Budget Server_Gate Validation_Cache Glossary Feedback Cache_History Single_Flight_Facts
    Edge_Trust Auth_Facts Reasoning Provider_Facts Prompt_Facts Batch_Writes Stream_Facts
    Proxy_Output Epub_Facts Stream_Properties Cleanup_Facts
begin

text \<open>
  \<^bold>\<open>Verification of book-translator-hub\<close>

  The program is a translation service for e-book readers: a Flask application (\<open>server.py\<close>)
  that authenticates a request (\<open>auth.py\<close>, \<open>reader_session.py\<close>), consults a scoped translation
  cache (\<open>cache.py\<close>), and otherwise asks a local or remote provider (\<open>translator.py\<close>) under a
  per-request work budget (\<open>work_budget.py\<close>), coalescing equal work (\<open>singleflight.py\<close>) and
  injecting the reader's own terms (\<open>glossary.py\<close>). Ratings are kept by \<open>feedback.py\<close>. The
  \<open>proxy\<close> directory and the \<open>btctl\<close> modules install and configure the deployment.

  \<^bold>\<open>Conventions\<close> (theory \<open>Prelude\<close>). Python text is a list of code points (\<open>pystr\<close>), bytes are a
  list of numbers below 256, an \<open>OrderedDict\<close> is a list of pairs, an untyped argument is a
  \<open>pyval\<close>. Exceptions are the left side of \<open>result\<close>. Clock readings, random values, hashes,
  Unicode tables, HTTP answers and the outcome of a parse of JSON or of a float are arguments of
  the definitions that use them, so theorems hold for every environment. Critical sections run
  atomically; an interleaving is a list of operations, or a step relation (single flight).

  \<^bold>\<open>Theories and sources\<close>
  \<^item> \<open>Prelude\<close>, \<open>Keyed_Table\<close>, \<open>Lru\<close>, \<open>Json\<close>, \<open>Iso_Time\<close>, \<open>Ip_Address\<close>, \<open>Url\<close>, \<open>Simple_Cookie\<close>:
    the parts of the standard library that the sources use, and the shared interfaces: keyed
    tables with a cap and LRU tables are locales, interpreted by the stores below.
  \<^item> \<open>Config\<close>: \<open>envconfig.py\<close>, \<open>_positive_int_env\<close>, \<open>parse_positive_int\<close> of \<open>btctl_core.py\<close>,
    \<open>proxy/header_contract.py\<close>. \<open>Edge_Trust\<close>: \<open>proxy/edge_trust.py\<close>.
  \<^item> \<open>Work_Budget\<close>: \<open>work_budget.py\<close>; no interleaving overspends a budget.
  \<^item> \<open>Single_Flight\<close>, \<open>Single_Flight_Facts\<close>: \<open>singleflight.py\<close> as a step relation; one leader per
    key, followers see the leader's result, the gauges are exact.
  \<^item> \<open>Cache_Scope\<close>, \<open>Cache_Store\<close>, \<open>Cache_Facts\<close>, \<open>Cache_History\<close>: \<open>cache.py\<close>; keys separate
    scopes, a read returns the last write, the table is bounded, hits are accounted for.
  \<^item> \<open>Glossary\<close>, \<open>Feedback\<close>: \<open>glossary.py\<close> and \<open>feedback.py\<close>; caps, isolation, round trips.
  \<^item> \<open>Reader_Session\<close>, \<open>Session_Facts\<close>, \<open>Broker_Config\<close>: \<open>reader_session.py\<close>; a session is accepted
    only as issued, revocation is final, the configuration is sound.
  \<^item> \<open>Validation_Cache\<close>, \<open>Authentication\<close>, \<open>Auth_Facts\<close>: \<open>auth.py\<close>; the decision cache, the five
    modes of authentication and the recency of CWA's word.
  \<^item> \<open>Reasoning\<close>, \<open>Batching\<close>, \<open>Providers\<close>, \<open>Provider_Facts\<close>, \<open>Prompting\<close>, \<open>Prompt_Facts\<close>,
    \<open>Provider_Calls\<close>, \<open>Call_Facts\<close>, \<open>Segment_Envelope\<close>, \<open>Batch_Translation\<close>, \<open>Batch_Facts\<close>,
    \<open>Streaming\<close>, \<open>Stream_Facts\<close>: \<open>translator.py\<close>; the reasoning filter, the split of a request into
    groups, the providers and their endpoints, prompts and cache contracts, calls with retries
    under the budget (the state of a call records the requests that leave the process) and consent to a remote fallback, the answer protocol of a batch, recovery
    and placement of results, and event streams. \<open>Batch_Schedule\<close>: the bounded window of
    worker threads of \<open>translate_batch_detailed\<close> as a step relation, which ends after a bounded
    number of steps and whose completed runs are a run of the groups one after the other.
  \<^item> \<open>Admission\<close>, \<open>Metrics\<close>, \<open>Server_Rules\<close>, \<open>Server_Gate\<close>: the sliding-window limiters, the
    authentication slots, the counters, the start-up and request rules and the hooks around every
    request of \<open>server.py\<close>; who is admitted, also when calls take the lock out of the order of
    their clock readings, which slots are returned, what is counted.
  \<^item> \<open>Service\<close>, \<open>Batch_Service\<close>, \<open>Batch_Service_Facts\<close>, \<open>Batch_Writes\<close>: the cache lookup and the
    batch core \<open>_translate_paragraphs\<close> of \<open>server.py\<close> over the theories above: what the reply
    accounts for, and that hits and writes stay in the scope of the request.
  \<^item> \<open>Endpoints\<close>, \<open>Stream_Route\<close>, \<open>Store_Routes\<close>, \<open>Operator_Routes\<close>: the bodies of the routes of
    \<open>server.py\<close>, from the guards to the reply. \<open>Endpoint_Facts\<close>, \<open>Route_Properties\<close>: refusals leave
    no trace, nothing is translated under a policy the reader has not seen. \<open>Write_Properties\<close>,
    \<open>Stream_Properties\<close>: what the routes for one text serve and store, the text of the event stream.
    \<open>Cleanup_Facts\<close>: one cleanup token per deployment, and what a cleanup may remove.
  \<^item> \<open>Proxy_Values\<close>, \<open>Proxy_Render\<close>, \<open>Proxy_Facts\<close>, \<open>Proxy_Template\<close>, \<open>Proxy_Output\<close>:
    \<open>proxy/render_config.py\<close>; the validators of the edge proxy's environment, what their values may
    hold, the substitution of the nginx template as a single pass, atomic writes, exit codes and
    messages. \<open>Nginx_Template\<close>: the shipped template \<open>proxy/nginx.conf.template\<close>, line by line.
  \<^item> \<open>Epub\<close>, \<open>Epub_Facts\<close>: \<open>epub_export.py\<close>; attachment names, the documents of an archive and the
    text read back from them.

  \<^bold>\<open>Termination and bounds\<close>. Loops are structural or have a measure; retries are bounded by
  the configured maximum, which is the length of the list of attempts. The one loop that need
  not end, the drawing of random identifiers until they are distinct, is a
  \<open>partial_function (option)\<close>, and theorems about it say when it returns. No fuel is used.

  \<^bold>\<open>Not modelled\<close>. SQLite itself, threads, sockets and file descriptors (their results are
  arguments), log output, the container and installer commands.
\<close>

end
